(* ===== verification/TW_Prelude.thy ===== *)
theory TW_Prelude
  imports Main "HOL-Library.Word" "HOL-Library.AList"
begin

text \<open>
  Shared vocabulary of the development: the machine types of the Rust sources, byte strings
  with UTF-8 and decimal numbers, saturating arithmetic, and the interface of
  \<open>std::collections::HashMap\<close> with the association-list model that every component uses.

  A Rust \<open>String\<close> is a list of bytes in UTF-8, so it is a \<open>string\<close> whose characters are
  bytes and whose length is the byte length. A \<open>u32\<close> that the code counts with is a 32-bit
  word. A \<open>u64\<close> identifier or counter is a \<open>nat\<close>: the code only compares it and adds one.
  The signed integers are \<open>int\<close>: the code compares them and never lets them wrap. Instants
  and durations are milliseconds in \<open>nat\<close>.
\<close>

type_synonym u32 = "32 word"
type_synonym u64 = nat
type_synonym i32 = int
type_synonym i64 = int
type_synonym instant = nat
type_synonym duration = nat

named_theorems wire_simps "conversions of the wire protocol, unfolded by the round-trip proofs"
named_theorems keep_intros "an operation keeps the invariant of its component"

section \<open>Saturating arithmetic\<close>

definition sat_add32 :: "u32 \<Rightarrow> u32 \<Rightarrow> u32" where
  "sat_add32 a b = (if unat a + unat b < 2 ^ 32 then a + b else - 1)"

definition sat_sub32 :: "u32 \<Rightarrow> u32 \<Rightarrow> u32" where
  "sat_sub32 a b = (if b \<le> a then a - b else 0)"

lemma unat_sat_add32: "unat (sat_add32 a b) = min (unat a + unat b) (2 ^ 32 - 1)"
proof (cases "unat a + unat b < 2 ^ 32")
  case True
  then show ?thesis by (simp add: sat_add32_def unat_word_ariths)
next
  case False
  then show ?thesis by (simp add: sat_add32_def unsigned_minus_1_eq_mask mask_eq_exp_minus_1)
qed

lemma unat_sat_sub32: "unat (sat_sub32 a b) = unat a - unat b"
  by (auto simp: sat_sub32_def unat_sub word_le_nat_alt)

lemma sat_add32_pos: "0 < b \<Longrightarrow> 0 < sat_add32 a b"
  by (simp add: word_less_nat_alt unat_sat_add32)

lemma sat_sub32_sat_add32_1: "unat a < 2 ^ 32 - 1 \<Longrightarrow> sat_sub32 (sat_add32 a 1) 1 = a"
  by (rule word_unat_eq_iff [THEN iffD2]) (simp add: unat_sat_add32 unat_sat_sub32)

section \<open>Decimal numbers\<close>

definition digit_char :: "nat \<Rightarrow> char" where
  "digit_char n = char_of (48 + n)"

definition is_digit :: "char \<Rightarrow> bool" where
  "is_digit c \<longleftrightarrow> 48 \<le> (of_char c :: nat) \<and> (of_char c :: nat) \<le> 57"

fun show_nat :: "nat \<Rightarrow> string" where
  "show_nat n = (if n < 10 then [digit_char n] else show_nat (n div 10) @ [digit_char (n mod 10)])"

declare show_nat.simps [simp del]

definition show_int :: "int \<Rightarrow> string" where
  "show_int n = (if n < 0 then CHR ''-'' # show_nat (nat (- n)) else show_nat (nat n))"

fun parse_digits :: "nat \<Rightarrow> string \<Rightarrow> nat option" where
  "parse_digits acc [] = Some acc"
| "parse_digits acc (c # cs) =
     (if is_digit c then parse_digits (acc * 10 + (of_char c - 48)) cs else None)"

text \<open>\<open>str::parse::<u8>\<close>: one \<open>+\<close> may lead, there is at least one digit, and 255 is the limit.\<close>

definition parse_u8 :: "string \<Rightarrow> nat option" where
  "parse_u8 s =
     (let body = (case s of c # r \<Rightarrow> if c = CHR ''+'' then r else s | [] \<Rightarrow> [])
      in if body = [] then None
         else case parse_digits 0 body of
                Some n \<Rightarrow> if n \<le> 255 then Some n else None
              | None \<Rightarrow> None)"

lemma of_char_digit_char: "n < 10 \<Longrightarrow> (of_char (digit_char n) :: nat) = 48 + n"
  by (simp add: digit_char_def)

lemma is_digit_digit_char: "n < 10 \<Longrightarrow> is_digit (digit_char n)"
  by (simp add: is_digit_def of_char_digit_char)

lemma parse_digits_append:
  "parse_digits acc (xs @ ys) = Option.bind (parse_digits acc xs) (\<lambda>a. parse_digits a ys)"
  by (induction acc xs rule: parse_digits.induct) auto

lemma show_nat_nonempty: "show_nat n \<noteq> []"
  by (subst show_nat.simps) simp

lemma show_nat_digits: "c \<in> set (show_nat n) \<Longrightarrow> is_digit c"
proof (induction n arbitrary: c rule: show_nat.induct)
  case (1 n)
  show ?case
  proof (cases "n < 10")
    case True
    with "1.prems" show ?thesis by (simp add: show_nat.simps [of n] is_digit_digit_char)
  next
    case False
    with "1" show ?thesis
      by (auto simp: show_nat.simps [of n] is_digit_digit_char)
  qed
qed

lemma parse_digits_show_nat: "parse_digits 0 (show_nat n) = Some n"
proof (induction n rule: show_nat.induct)
  case (1 n)
  show ?case
  proof (cases "n < 10")
    case True
    then show ?thesis
      by (simp add: show_nat.simps [of n] is_digit_digit_char of_char_digit_char)
  next
    case False
    with "1" show ?thesis
      by (simp add: show_nat.simps [of n] parse_digits_append is_digit_digit_char
          of_char_digit_char)
  qed
qed

lemma parse_u8_show_nat: "n \<le> 255 \<Longrightarrow> parse_u8 (show_nat n) = Some n"
proof -
  assume n: "n \<le> 255"
  have "hd (show_nat n) \<noteq> CHR ''+''"
    using show_nat_digits [of "hd (show_nat n)" n] show_nat_nonempty [of n]
    by (auto simp: is_digit_def)
  then have "(case show_nat n of c # r \<Rightarrow> if c = CHR ''+'' then r else show_nat n | [] \<Rightarrow> []) = show_nat n"
    by (cases "show_nat n") auto
  with n show ?thesis
    by (simp add: parse_u8_def parse_digits_show_nat show_nat_nonempty)
qed

section \<open>UTF-8\<close>

definition is_cont :: "char \<Rightarrow> bool" where
  "is_cont c \<longleftrightarrow> 128 \<le> (of_char c :: nat) \<and> (of_char c :: nat) < 192"

text \<open>\<open>str::chars\<close>, each character as its bytes: a byte that is no continuation byte starts one.\<close>

lemma length_dropWhile_less_Suc [termination_simp]: "length (dropWhile P xs) < Suc (length xs)"
  by (simp add: length_dropWhile_le less_Suc_eq_le)

fun utf8_chars :: "string \<Rightarrow> string list" where
  "utf8_chars [] = []"
| "utf8_chars (c # cs) = (c # takeWhile is_cont cs) # utf8_chars (dropWhile is_cont cs)"

lemma concat_utf8_chars [simp]: "concat (utf8_chars s) = s"
  by (induction s rule: utf8_chars.induct) auto

lemma utf8_chars_nonempty: "c \<in> set (utf8_chars s) \<Longrightarrow> c \<noteq> []"
  by (induction s rule: utf8_chars.induct) auto

text \<open>
  What may follow a first byte (\<open>core::str::from_utf8\<close>, after RFC 3629): the number of
  continuation bytes and the range of the first of them.
\<close>

definition utf8_tail :: "nat \<Rightarrow> (nat \<times> nat \<times> nat) option" where
  "utf8_tail b =
     (if b < 128 then Some (0, 128, 191)
      else if 194 \<le> b \<and> b \<le> 223 then Some (1, 128, 191)
      else if b = 224 then Some (2, 160, 191)
      else if b = 237 then Some (2, 128, 159)
      else if 225 \<le> b \<and> b \<le> 239 then Some (2, 128, 191)
      else if b = 240 then Some (3, 144, 191)
      else if 241 \<le> b \<and> b \<le> 243 then Some (3, 128, 191)
      else if b = 244 then Some (3, 128, 143)
      else None)"

function valid_utf8 :: "string \<Rightarrow> bool" where
  "valid_utf8 [] = True"
| "valid_utf8 (c # cs) =
     (case utf8_tail (of_char c) of
        None \<Rightarrow> False
      | Some (n, lo, hi) \<Rightarrow>
          n \<le> length cs \<and> list_all is_cont (take n cs)
          \<and> (0 < n \<longrightarrow> lo \<le> (of_char (hd cs) :: nat) \<and> (of_char (hd cs) :: nat) \<le> hi)
          \<and> valid_utf8 (drop n cs))"
  by pat_completeness auto
termination
  by (relation "measure length") auto

lemma valid_utf8_append: "valid_utf8 xs \<Longrightarrow> valid_utf8 ys \<Longrightarrow> valid_utf8 (xs @ ys)"
proof (induction xs rule: valid_utf8.induct)
  case 1
  then show ?case by simp
next
  case (2 c cs)
  from "2.prems" obtain n lo hi where t: "utf8_tail (of_char c) = Some (n, lo, hi)"
    by (auto split: option.splits)
  with "2.prems" have n: "n \<le> length cs" and v: "valid_utf8 (drop n cs)" by auto
  from "2.IH" [OF t _ _ v "2.prems"(2)] have "valid_utf8 (drop n cs @ ys)" by simp
  moreover have "take n (cs @ ys) = take n cs" and "drop n (cs @ ys) = drop n cs @ ys"
    using n by simp_all
  moreover have "0 < n \<Longrightarrow> hd (cs @ ys) = hd cs"
    using n by (cases cs) auto
  ultimately show ?case using t n "2.prems"(1) by auto
qed

definition is_ascii :: "string \<Rightarrow> bool" where
  "is_ascii s \<longleftrightarrow> list_all (\<lambda>c. (of_char c :: nat) < 128) s"

lemma is_ascii_Nil [simp]: "is_ascii []"
  by (simp add: is_ascii_def)

lemma is_ascii_Cons [simp]: "is_ascii (c # s) \<longleftrightarrow> (of_char c :: nat) < 128 \<and> is_ascii s"
  by (simp add: is_ascii_def)

lemma is_ascii_append [simp]: "is_ascii (s @ t) \<longleftrightarrow> is_ascii s \<and> is_ascii t"
  by (simp add: is_ascii_def)

lemma valid_utf8_ascii: "is_ascii s \<Longrightarrow> valid_utf8 s"
  by (induction s) (auto simp: utf8_tail_def)

text \<open>
  \<open>str::trim\<close>: the characters of Unicode \<open>White_Space\<close>, as their UTF-8 bytes, are dropped
  at both ends.
\<close>

definition is_white :: "string \<Rightarrow> bool" where
  "is_white ch \<longleftrightarrow>
     (case map of_char ch of
        [b] \<Rightarrow> (9 \<le> b \<and> b \<le> 13) \<or> b = 32
      | [b, c] \<Rightarrow> b = 194 \<and> (c = 133 \<or> c = 160)
      | [b, c, d] \<Rightarrow>
          (b = 225 \<and> c = 154 \<and> d = 128)
          \<or> (b = 226 \<and> c = 128 \<and> ((128 \<le> d \<and> d \<le> 138) \<or> d = 168 \<or> d = 169 \<or> d = 175))
          \<or> (b = 226 \<and> c = 129 \<and> d = 159)
          \<or> (b = 227 \<and> c = 128 \<and> d = (128::nat))
      | _ \<Rightarrow> False)"

definition trim :: "string \<Rightarrow> string" where
  "trim s = concat (rev (dropWhile is_white (rev (dropWhile is_white (utf8_chars s)))))"

lemma set_trim: "set (trim s) \<subseteq> set s"
proof -
  have "set (trim s) \<subseteq> \<Union> (set ` set (utf8_chars s))"
    by (auto simp: trim_def dest!: set_dropWhileD)
  also have "\<dots> = set s"
    using arg_cong [OF concat_utf8_chars, of set s] by (simp only: set_concat)
  finally show ?thesis .
qed

text \<open>\<open>char::to_ascii_lowercase\<close> on every byte, and the comparison \<open>eq_ignore_ascii_case\<close>.\<close>

definition ascii_lower :: "char \<Rightarrow> char" where
  "ascii_lower c = (if 65 \<le> (of_char c :: nat) \<and> (of_char c :: nat) \<le> 90 then char_of (of_char c + 32 :: nat) else c)"

definition ascii_upper :: "char \<Rightarrow> char" where
  "ascii_upper c = (if 97 \<le> (of_char c :: nat) \<and> (of_char c :: nat) \<le> 122 then char_of (of_char c - 32 :: nat) else c)"

definition eq_ignore_case :: "string \<Rightarrow> string \<Rightarrow> bool" where
  "eq_ignore_case s t \<longleftrightarrow> map ascii_lower s = map ascii_lower t"

definition is_ascii_alpha :: "char \<Rightarrow> bool" where
  "is_ascii_alpha c \<longleftrightarrow> (65 \<le> (of_char c :: nat) \<and> (of_char c :: nat) \<le> 90)
     \<or> (97 \<le> (of_char c :: nat) \<and> (of_char c :: nat) \<le> 122)"

text \<open>\<open>str::split_once\<close> and \<open>str::rsplit_once\<close> at one ASCII character.\<close>

fun split_once :: "char \<Rightarrow> string \<Rightarrow> (string \<times> string) option" where
  "split_once d [] = None"
| "split_once d (c # cs) =
     (if c = d then Some ([], cs)
      else map_option (\<lambda>(a, b). (c # a, b)) (split_once d cs))"

definition rsplit_once :: "char \<Rightarrow> string \<Rightarrow> (string \<times> string) option" where
  "rsplit_once d s = map_option (\<lambda>(a, b). (rev b, rev a)) (split_once d (rev s))"

lemma split_once_append: "d \<notin> set xs \<Longrightarrow> split_once d (xs @ d # ys) = Some (xs, ys)"
  by (induction xs) auto

lemma split_once_None: "split_once d s = None \<longleftrightarrow> d \<notin> set s"
  by (induction d s rule: split_once.induct) auto

lemma split_once_Some: "split_once d s = Some (a, b) \<Longrightarrow> s = a @ d # b \<and> d \<notin> set a"
  by (induction d s arbitrary: a b rule: split_once.induct) (auto split: if_splits)

lemma show_nat_ascii: "is_ascii (show_nat n)"
  using show_nat_digits [of _ n] by (fastforce simp: is_ascii_def list_all_iff is_digit_def)

section \<open>Hash maps\<close>

text \<open>
  What the components use of \<open>HashMap\<close>: lookup, insertion, removal, \<open>retain\<close>, and the
  entries in the order an iteration gives them. The order is not specified, so no law of the
  interface speaks of it. The laws are stated once here, with the facts the components derive.
\<close>

locale hash_map =
  fixes lookup :: "'m \<Rightarrow> 'k \<Rightarrow> 'v option"
    and entries :: "'m \<Rightarrow> ('k \<times> 'v) list"
    and none :: "'m"
    and insert_key :: "'k \<Rightarrow> 'v \<Rightarrow> 'm \<Rightarrow> 'm"
    and remove :: "'k \<Rightarrow> 'm \<Rightarrow> 'm"
    and retain :: "('k \<Rightarrow> 'v \<Rightarrow> bool) \<Rightarrow> 'm \<Rightarrow> 'm"
    and ok :: "'m \<Rightarrow> bool"
  assumes lookup_none: "lookup none k = None"
    and lookup_insert: "ok m \<Longrightarrow> lookup (insert_key k v m) k' = (if k' = k then Some v else lookup m k')"
    and lookup_remove: "ok m \<Longrightarrow> lookup (remove k m) k' = (if k' = k then None else lookup m k')"
    and lookup_retain: "ok m \<Longrightarrow> lookup (retain P m) k =
          (case lookup m k of Some v \<Rightarrow> if P k v then Some v else None | None \<Rightarrow> None)"
    and ok_none: "ok none"
    and ok_insert: "ok m \<Longrightarrow> ok (insert_key k v m)"
    and ok_remove: "ok m \<Longrightarrow> ok (remove k m)"
    and ok_retain: "ok m \<Longrightarrow> ok (retain P m)"
    and entries_iff: "ok m \<Longrightarrow> (k, v) \<in> set (entries m) \<longleftrightarrow> lookup m k = Some v"
    and distinct_entries: "ok m \<Longrightarrow> distinct (map fst (entries m))"
begin

lemmas lookups = lookup_none lookup_insert lookup_remove lookup_retain
lemmas oks = ok_none ok_insert ok_remove ok_retain

lemma entries_none: "entries none = []"
  using entries_iff [OF ok_none] by (cases "entries none") (auto simp: lookup_none)

lemma entries_insert:
  "ok m \<Longrightarrow> set (entries (insert_key k v m)) = insert (k, v) {e \<in> set (entries m). fst e \<noteq> k}"
  by (auto simp: entries_iff lookup_insert ok_insert split: if_splits)

lemma entries_remove: "ok m \<Longrightarrow> set (entries (remove k m)) = {e \<in> set (entries m). fst e \<noteq> k}"
  by (auto simp: entries_iff lookup_remove ok_remove split: if_splits)

lemma entries_retain: "ok m \<Longrightarrow> set (entries (retain P m)) = {e \<in> set (entries m). P (fst e) (snd e)}"
  by (auto simp: entries_iff lookup_retain ok_retain split: option.splits if_splits)

lemma all_insert:
  "ok m \<Longrightarrow> \<forall>k v. lookup m k = Some v \<longrightarrow> P k v \<Longrightarrow> P k v \<Longrightarrow>
   \<forall>k' v'. lookup (insert_key k v m) k' = Some v' \<longrightarrow> P k' v'"
  by (simp add: lookup_insert)

lemma all_remove:
  "ok m \<Longrightarrow> \<forall>k v. lookup m k = Some v \<longrightarrow> P k v \<Longrightarrow>
   \<forall>k' v'. lookup (remove k m) k' = Some v' \<longrightarrow> P k' v'"
  by (simp add: lookup_remove)

lemma all_retain:
  "ok m \<Longrightarrow> \<forall>k v. lookup m k = Some v \<longrightarrow> P k v \<Longrightarrow>
   \<forall>k' v'. lookup (retain Q m) k' = Some v' \<longrightarrow> P k' v'"
  by (auto simp: lookup_retain split: option.splits if_splits)

end

text \<open>The model: an association list with distinct keys, in the order an iteration meets them.\<close>

abbreviation hm_get :: "('k \<times> 'v) list \<Rightarrow> 'k \<Rightarrow> 'v option" where
  "hm_get \<equiv> map_of"

abbreviation hm_insert :: "'k \<Rightarrow> 'v \<Rightarrow> ('k \<times> 'v) list \<Rightarrow> ('k \<times> 'v) list" where
  "hm_insert \<equiv> AList.update"

abbreviation hm_remove :: "'k \<Rightarrow> ('k \<times> 'v) list \<Rightarrow> ('k \<times> 'v) list" where
  "hm_remove \<equiv> AList.delete"

definition hm_retain :: "('k \<Rightarrow> 'v \<Rightarrow> bool) \<Rightarrow> ('k \<times> 'v) list \<Rightarrow> ('k \<times> 'v) list" where
  "hm_retain P m = filter (\<lambda>(k, v). P k v) m"

definition hm_ok :: "('k \<times> 'v) list \<Rightarrow> bool" where
  "hm_ok m \<longleftrightarrow> distinct (map fst m)"

lemma map_of_hm_retain:
  "distinct (map fst m) \<Longrightarrow> map_of (hm_retain P m) k =
     (case map_of m k of Some v \<Rightarrow> if P k v then Some v else None | None \<Rightarrow> None)"
  by (induction m) (auto simp: hm_retain_def split: option.splits dest: map_of_SomeD intro: rev_image_eqI)

interpretation hm: hash_map map_of "\<lambda>m. m" "[]" AList.update AList.delete hm_retain hm_ok
proof unfold_locales
  fix m :: "('k \<times> 'v) list" and P k v
  assume m: "hm_ok m"
  show "map_of (hm_retain P m) k =
      (case map_of m k of Some v \<Rightarrow> if P k v then Some v else None | None \<Rightarrow> None)"
    using m by (simp add: hm_ok_def map_of_hm_retain)
  show "hm_ok (hm_retain P m)"
    using m by (auto simp: hm_ok_def hm_retain_def distinct_map intro: inj_on_subset)
  show "(k, v) \<in> set m \<longleftrightarrow> map_of m k = Some v"
    using m by (simp add: hm_ok_def)
qed (auto simp: hm_ok_def update_conv' delete_conv' distinct_update distinct_delete)

end
