(* ===== verification/Media.thy ===== *)
theory Media
  imports TW_Prelude "HOL-Library.Product_Lexorder"
begin

text \<open>
  Media on a chat message (\<open>crates/thinwire-protocol/src/media.rs\<close>): images, voice notes,
  videos and documents with their download state, and the links of a text. The link part
  decides which addresses the app may open (\<open>openable_url\<close>) and converts the UTF-16 ranges of
  TDLib into byte ranges of the UTF-8 body (\<open>utf16_range\<close>). A path stays a string: the model
  opens no file.
\<close>

section \<open>Images, audio, video and documents\<close>

record message_link =
  ml_start :: nat
  ml_end :: nat
  ml_url :: string

datatype image_bytes = ImageBytes (image_slice: string)
datatype image_path = ImagePath (image_path_str: string)
datatype audio_path = AudioPath (audio_path_str: string)

definition image_is_empty :: "image_bytes \<Rightarrow> bool" where
  "image_is_empty b \<longleftrightarrow> image_slice b = []"

definition audio_path_new :: "string \<Rightarrow> audio_path option" where
  "audio_path_new path = (if path = [] then None else Some (AudioPath path))"

record message_audio =
  ma_duration :: u32
  ma_file_id :: i32
  ma_file :: "audio_path option"
  ma_failed :: bool

definition message_audio_new :: "u32 \<Rightarrow> i32 \<Rightarrow> audio_path option \<Rightarrow> message_audio option" where
  "message_audio_new duration file_id f =
     (if file_id \<le> 0 then None
      else Some \<lparr>ma_duration = duration, ma_file_id = file_id, ma_file = f, ma_failed = False\<rparr>)"

definition message_audio_telegram :: "i32 \<Rightarrow> i32 \<Rightarrow> audio_path option \<Rightarrow> message_audio option" where
  "message_audio_telegram duration file_id f =
     message_audio_new (if 0 \<le> duration then of_int duration else 0) file_id f"

definition audio_set_file :: "audio_path \<Rightarrow> message_audio \<Rightarrow> message_audio" where
  "audio_set_file path a = a\<lparr>ma_file := Some path, ma_failed := False\<rparr>"

definition audio_mark_failed :: "message_audio \<Rightarrow> message_audio" where
  "audio_mark_failed a = a\<lparr>ma_failed := True\<rparr>"

definition audio_clear_failed :: "message_audio \<Rightarrow> message_audio" where
  "audio_clear_failed a = a\<lparr>ma_failed := False\<rparr>"

record message_video =
  mv_duration :: u32
  mv_width :: u32
  mv_height :: u32
  mv_file_id :: i32
  mv_file :: "audio_path option"
  mv_failed :: bool

definition message_video_new ::
    "u32 \<Rightarrow> u32 \<Rightarrow> u32 \<Rightarrow> i32 \<Rightarrow> audio_path option \<Rightarrow> message_video option" where
  "message_video_new duration width height file_id f =
     (if 0 < file_id
      then Some \<lparr>mv_duration = duration, mv_width = width, mv_height = height,
                 mv_file_id = file_id, mv_file = f, mv_failed = False\<rparr>
      else None)"

definition video_set_file :: "audio_path \<Rightarrow> message_video \<Rightarrow> message_video" where
  "video_set_file path v = v\<lparr>mv_file := Some path, mv_failed := False\<rparr>"

record photo_file =
  pf_path :: "image_path option"
  pf_bytes :: "image_bytes option"

definition photo_file_from_path :: "image_path \<Rightarrow> photo_file" where
  "photo_file_from_path path = \<lparr>pf_path = Some path, pf_bytes = None\<rparr>"

definition photo_file_from_bytes :: "image_bytes \<Rightarrow> photo_file option" where
  "photo_file_from_bytes b =
     (if image_is_empty b then None else Some \<lparr>pf_path = None, pf_bytes = Some b\<rparr>)"

definition photo_file_new :: "image_path option \<Rightarrow> image_bytes option \<Rightarrow> photo_file option" where
  "photo_file_new path bytes =
     (let bytes = (case bytes of Some b \<Rightarrow> if image_is_empty b then None else Some b | None \<Rightarrow> None)
      in if path = None \<and> bytes = None then None else Some \<lparr>pf_path = path, pf_bytes = bytes\<rparr>)"

record photo_size =
  ps_width :: u32
  ps_height :: u32
  ps_file_id :: "i32 option"
  ps_path :: "image_path option"
  ps_bytes :: "image_bytes option"

definition photo_size_ready :: "photo_size \<Rightarrow> bool" where
  "photo_size_ready s \<longleftrightarrow> ps_bytes s \<noteq> None \<or> ps_path s \<noteq> None"

record message_photo =
  mp_width :: u32
  mp_height :: u32
  mp_mini :: "image_bytes option"
  mp_sizes :: "photo_size list"
  mp_has_spoiler :: bool
  mp_is_secret :: bool
  mp_failed :: bool

record message_file =
  mf_name :: string
  mf_mime :: string
  mf_size :: u64
  mf_file_id :: i32
  mf_file :: "audio_path option"
  mf_failed :: bool
  mf_preview :: "message_photo option"

definition is_sep :: "char \<Rightarrow> bool" where
  "is_sep c \<longleftrightarrow> c = CHR ''/'' \<or> c = CHR 0x5C"

definition display_name :: "string \<Rightarrow> string" where
  "display_name name =
     (let base = trim (rev (takeWhile (\<lambda>c. \<not> is_sep c) (rev name)))
      in if base = [] then ''File'' else base)"

definition message_file_new ::
    "string \<Rightarrow> string \<Rightarrow> u64 \<Rightarrow> i32 \<Rightarrow> audio_path option \<Rightarrow> message_photo option \<Rightarrow> message_file" where
  "message_file_new name mime bytes file_id f preview =
     \<lparr>mf_name = display_name name, mf_mime = mime, mf_size = bytes, mf_file_id = file_id,
      mf_file = f, mf_failed = False, mf_preview = preview\<rparr>"

definition extension :: "string \<Rightarrow> string option" where
  "extension name =
     (case rsplit_once (CHR ''.'') name of
        None \<Rightarrow> None
      | Some (_, ext) \<Rightarrow> if ext \<noteq> [] \<and> \<not> list_ex is_sep ext then Some ext else None)"

definition is_pdf :: "string \<Rightarrow> string \<Rightarrow> bool" where
  "is_pdf name mime \<longleftrightarrow>
     eq_ignore_case mime ''application/pdf''
     \<or> (case extension name of Some ext \<Rightarrow> eq_ignore_case ext ''pdf'' | None \<Rightarrow> False)"

definition kind_label :: "message_file \<Rightarrow> string" where
  "kind_label f =
     (if is_pdf (mf_name f) (mf_mime f) then ''PDF''
      else case extension (mf_name f) of
             Some ext \<Rightarrow>
               if 1 \<le> length ext \<and> length ext \<le> 5
                  \<and> list_all (\<lambda>c. is_ascii_alpha c \<or> is_digit c) ext
               then map ascii_upper ext else ''File''
           | None \<Rightarrow> ''File'')"

definition div_ceil :: "nat \<Rightarrow> nat \<Rightarrow> nat" where
  "div_ceil a b = (if a mod b = 0 then a div b else a div b + 1)"

definition size_label :: "u64 \<Rightarrow> string option" where
  "size_label n =
     (if n = 0 then None
      else if n < 1024 then Some (show_nat n @ '' B'')
      else let (value, unit) =
             (if n < 1024 * 1024 then (div_ceil n 1024, ''KB'')
              else if n < 1024 * 1024 * 1024 then (div_ceil n (1024 * 1024), ''MB'')
              else (div_ceil n (1024 * 1024 * 1024), ''GB''))
           in Some (show_nat value @ '' '' @ unit))"

definition file_set_file :: "audio_path \<Rightarrow> message_file \<Rightarrow> message_file" where
  "file_set_file path f = f\<lparr>mf_file := Some path, mf_failed := False\<rparr>"

record chat_avatar =
  av_file_id :: "i32 option"
  av_path :: "image_path option"
  av_bytes :: "image_bytes option"
  av_accent :: nat
  av_requested :: bool
  av_failed :: bool

definition default_avatar :: chat_avatar where
  "default_avatar = \<lparr>av_file_id = None, av_path = None, av_bytes = None, av_accent = 0,
     av_requested = False, av_failed = False\<rparr>"

definition accent_index :: "i32 \<Rightarrow> nat" where
  "accent_index accent_color_id =
     (if 0 \<le> accent_color_id \<and> accent_color_id \<le> 6 then nat accent_color_id else 0)"

definition avatar_ready :: "chat_avatar \<Rightarrow> bool" where
  "avatar_ready a \<longleftrightarrow>
     (case av_bytes a of Some b \<Rightarrow> \<not> image_is_empty b | None \<Rightarrow> False) \<or> av_path a \<noteq> None"

datatype media_kind = MediaPhoto | MediaVideo

record outgoing_file =
  of_path :: string
  of_kind :: media_kind

section \<open>Addresses the app may open\<close>

definition starts_with :: "string \<Rightarrow> string \<Rightarrow> bool" where
  "starts_with p s \<longleftrightarrow> take (length p) s = p"

fun contains_str :: "string \<Rightarrow> string \<Rightarrow> bool" where
  "contains_str p [] = (p = [])"
| "contains_str p (c # cs) = (starts_with p (c # cs) \<or> contains_str p cs)"

definition scheme_allowed :: "string \<Rightarrow> bool" where
  "scheme_allowed scheme \<longleftrightarrow>
     list_ex (\<lambda>allowed. eq_ignore_case scheme allowed) [''http'', ''https'', ''mailto'']"

definition is_scheme_byte :: "char \<Rightarrow> bool" where
  "is_scheme_byte c \<longleftrightarrow>
     is_ascii_alpha c \<or> is_digit c \<or> c = CHR ''+'' \<or> c = CHR ''-'' \<or> c = CHR ''.''"

definition looks_like_host :: "string \<Rightarrow> bool" where
  "looks_like_host scheme \<longleftrightarrow> CHR ''.'' \<in> set scheme \<or> eq_ignore_case scheme ''localhost''"

definition rest_is_port :: "string \<Rightarrow> bool" where
  "rest_is_port rest \<longleftrightarrow>
     (if rest = [] \<or> starts_with ''//'' rest then False
      else let port = takeWhile (\<lambda>c. c \<noteq> CHR ''/'' \<and> c \<noteq> CHR ''?'' \<and> c \<noteq> CHR ''#'') rest
           in port \<noteq> [] \<and> list_all is_digit port)"

definition explicit_scheme :: "string \<Rightarrow> string option" where
  "explicit_scheme value =
     (case value of
        [] \<Rightarrow> None
      | c # cs \<Rightarrow>
          if \<not> is_ascii_alpha c then None
          else let n = 1 + length (takeWhile is_scheme_byte cs)
               in if length value \<le> n \<or> value ! n \<noteq> CHR '':'' then None
                  else let scheme = take n value; rest = drop (n + 1) value
                       in if rest_is_port rest \<and> looks_like_host scheme then None
                          else Some scheme)"

definition with_scheme :: "string \<Rightarrow> string" where
  "with_scheme text =
     (let text = trim text
      in if contains_str ''://'' text \<or> starts_with ''mailto:'' (map ascii_lower text)
         then text else ''https://'' @ text)"

definition openable_url :: "string \<Rightarrow> string option" where
  "openable_url raw =
     (let raw = trim raw
      in if raw = [] then None
         else case explicit_scheme raw of
                Some scheme \<Rightarrow> if scheme_allowed scheme then Some raw else None
              | None \<Rightarrow>
                  let url = with_scheme raw
                  in case explicit_scheme url of
                       None \<Rightarrow> None
                     | Some scheme \<Rightarrow> if scheme_allowed scheme then Some url else None)"

definition mailto_url :: "string \<Rightarrow> string option" where
  "mailto_url label =
     (let address = trim label
      in if address = [] \<or> list_ex is_white (utf8_chars address) then None
         else if starts_with ''mailto:'' (map ascii_lower address) then openable_url address
         else openable_url (''mailto:'' @ address))"

section \<open>Links of a text\<close>

datatype text_kind = Url | TextUrl string | Email

record text_span =
  ts_offset :: i32
  ts_length :: i32
  ts_kind :: text_kind

text \<open>\<open>char::len_utf16\<close>: a character whose first byte is 240 or more needs a surrogate pair.\<close>

definition len_utf16 :: "string \<Rightarrow> nat" where
  "len_utf16 ch = (if 240 \<le> (of_char (hd ch) :: nat) then 2 else 1)"

fun utf16_walk :: "string list \<Rightarrow> nat \<Rightarrow> nat \<Rightarrow> nat \<Rightarrow> nat option" where
  "utf16_walk [] byte seen units = (if seen = units then Some byte else None)"
| "utf16_walk (ch # cs) byte seen units =
     (if seen = units then Some byte
      else if units < seen then None
      else utf16_walk cs (byte + length ch) (seen + len_utf16 ch) units)"

definition utf16_to_byte :: "string \<Rightarrow> nat \<Rightarrow> nat option" where
  "utf16_to_byte text units = utf16_walk (utf8_chars text) 0 0 units"

definition utf16_range :: "string \<Rightarrow> i32 \<Rightarrow> i32 \<Rightarrow> (nat \<times> nat) option" where
  "utf16_range text offset len =
     (if offset < 0 \<or> len < 0 then None
      else if len = 0 then None
      else case utf16_to_byte text (nat offset) of
             None \<Rightarrow> None
           | Some s \<Rightarrow>
               case utf16_to_byte text (nat offset + nat len) of
                 None \<Rightarrow> None
               | Some e \<Rightarrow> if s < e then Some (s, e) else None)"

fun link_url :: "string \<Rightarrow> text_kind \<Rightarrow> string option" where
  "link_url label Url = openable_url label"
| "link_url label (TextUrl url) = openable_url url"
| "link_url label Email = mailto_url label"

definition span_link :: "string \<Rightarrow> text_span \<Rightarrow> message_link option" where
  "span_link text span =
     (case utf16_range text (ts_offset span) (ts_length span) of
        None \<Rightarrow> None
      | Some (s, e) \<Rightarrow>
          (case link_url (take (e - s) (drop s text)) (ts_kind span) of
             None \<Rightarrow> None
           | Some url \<Rightarrow> Some \<lparr>ml_start = s, ml_end = e, ml_url = url\<rparr>))"

definition links_in :: "string \<Rightarrow> text_span list \<Rightarrow> message_link list" where
  "links_in text spans =
     sort_key (\<lambda>link. (ml_start link, ml_end link)) (List.map_filter (span_link text) spans)"

section \<open>What the link functions guarantee\<close>

lemma openable_url_scheme:
  "openable_url raw = Some url \<Longrightarrow>
   \<exists>scheme. explicit_scheme url = Some scheme \<and> scheme_allowed scheme"
  by (auto simp: openable_url_def Let_def split: if_splits option.splits)

lemma mailto_url_scheme:
  "mailto_url label = Some url \<Longrightarrow>
   \<exists>scheme. explicit_scheme url = Some scheme \<and> scheme_allowed scheme"
  by (auto simp: mailto_url_def Let_def split: if_splits intro: openable_url_scheme)

lemma link_url_scheme:
  "link_url label kind = Some url \<Longrightarrow>
   \<exists>scheme. explicit_scheme url = Some scheme \<and> scheme_allowed scheme"
  by (cases kind) (auto intro: openable_url_scheme mailto_url_scheme)

lemma len_utf16_pos: "0 < len_utf16 ch"
  by (simp add: len_utf16_def)

lemma utf16_walk_iff:
  "utf16_walk cs byte seen units = Some b \<longleftrightarrow>
   (\<exists>k \<le> length cs. b = byte + length (concat (take k cs))
      \<and> units = seen + sum_list (map len_utf16 (take k cs)))"
proof (induction cs byte seen units rule: utf16_walk.induct)
  case (1 byte seen units)
  then show ?case by auto
next
  case (2 ch cs byte seen units)
  have split: "(\<exists>k \<le> length (ch # cs). b = byte + length (concat (take k (ch # cs)))
        \<and> units = seen + sum_list (map len_utf16 (take k (ch # cs)))) \<longleftrightarrow>
      b = byte \<and> units = seen \<or>
      (\<exists>k \<le> length cs. b = byte + length ch + length (concat (take k cs))
        \<and> units = seen + len_utf16 ch + sum_list (map len_utf16 (take k cs)))" (is "?L \<longleftrightarrow> ?R")
  proof
    assume ?L
    then obtain k where "k \<le> length (ch # cs)" "b = byte + length (concat (take k (ch # cs)))"
      "units = seen + sum_list (map len_utf16 (take k (ch # cs)))" by blast
    then show ?R by (cases k) auto
  next
    assume ?R
    then show ?L
    proof
      assume "b = byte \<and> units = seen"
      then show ?L by (intro exI [of _ 0]) simp
    next
      assume "\<exists>k \<le> length cs. b = byte + length ch + length (concat (take k cs))
        \<and> units = seen + len_utf16 ch + sum_list (map len_utf16 (take k cs))"
      then obtain k where "k \<le> length cs" "b = byte + length ch + length (concat (take k cs))"
        "units = seen + len_utf16 ch + sum_list (map len_utf16 (take k cs))" by blast
      then show ?L by (intro exI [of _ "Suc k"]) simp
    qed
  qed
  show ?case
  proof (cases "seen = units")
    case True
    then show ?thesis using len_utf16_pos [of ch] by (subst split) auto
  next
    case False
    then show ?thesis
    proof (cases "units < seen")
      case True
      then show ?thesis by (subst split) auto
    next
      case le: False
      with False "2" show ?thesis by (subst split) simp
    qed
  qed
qed

text \<open>A byte offset on a character boundary of \<open>text\<close>: the length of its first \<open>k\<close> characters.\<close>

definition char_boundary :: "string \<Rightarrow> nat \<Rightarrow> bool" where
  "char_boundary text b \<longleftrightarrow>
     list_ex (\<lambda>k. b = length (concat (take k (utf8_chars text)))) [0..<Suc (length (utf8_chars text))]"

lemma char_boundary_iff:
  "char_boundary text b \<longleftrightarrow>
   (\<exists>k \<le> length (utf8_chars text). b = length (concat (take k (utf8_chars text))))"
  by (auto simp: char_boundary_def list_ex_iff less_Suc_eq_le simp del: upt_Suc)

lemma char_boundary_le: "char_boundary text b \<Longrightarrow> b \<le> length text"
proof -
  assume "char_boundary text b"
  then obtain k where "b = length (concat (take k (utf8_chars text)))"
    by (auto simp: char_boundary_iff)
  moreover have "length (concat (take k (utf8_chars text))) \<le>
      length (concat (take k (utf8_chars text) @ drop k (utf8_chars text)))"
    by (simp only: concat_append length_append)
  ultimately show ?thesis by simp
qed

lemma utf16_range_sound:
  assumes "utf16_range text offset len = Some (s, e)"
  shows "s < e \<and> e \<le> length text \<and> char_boundary text s \<and> char_boundary text e"
proof -
  from assms have "s < e" "utf16_to_byte text (nat offset) = Some s"
    "utf16_to_byte text (nat offset + nat len) = Some e"
    by (auto simp: utf16_range_def split: if_splits option.splits)
  moreover from this have "char_boundary text s" and "char_boundary text e"
    by (auto simp: utf16_to_byte_def utf16_walk_iff char_boundary_iff)
  ultimately show ?thesis by (simp add: char_boundary_le)
qed

lemma span_link_sound:
  assumes "span_link text sp = Some l"
  shows "ml_start l < ml_end l \<and> ml_end l \<le> length text
     \<and> char_boundary text (ml_start l) \<and> char_boundary text (ml_end l)
     \<and> (\<exists>scheme. explicit_scheme (ml_url l) = Some scheme \<and> scheme_allowed scheme)"
proof -
  from assms obtain s e url where
    "utf16_range text (ts_offset sp) (ts_length sp) = Some (s, e)"
    "link_url (take (e - s) (drop s text)) (ts_kind sp) = Some url"
    "l = \<lparr>ml_start = s, ml_end = e, ml_url = url\<rparr>"
    by (auto simp: span_link_def split: option.splits)
  then show ?thesis
    using utf16_range_sound link_url_scheme by fastforce
qed

lemma set_links_in: "l \<in> set (links_in text spans) \<longleftrightarrow> (\<exists>sp \<in> set spans. span_link text sp = Some l)"
  by (force simp: links_in_def List.map_filter_def)

lemma display_name_no_sep: "\<not> list_ex is_sep (display_name name)"
proof -
  have "set (trim (rev (takeWhile (\<lambda>c. \<not> is_sep c) (rev name)))) \<subseteq> {c. \<not> is_sep c}"
    using set_trim [of "rev (takeWhile (\<lambda>c. \<not> is_sep c) (rev name))"] set_takeWhileD
    by fastforce
  then show ?thesis
    by (auto simp: display_name_def Let_def list_ex_iff is_sep_def)
qed

section \<open>Properties\<close>

text \<open>Every link that a message shows opens with http, https or mailto only, and its label is a
  non-empty part of the body that starts and ends on a character, whatever offsets the server sent.\<close>

theorem links_safe:
  assumes "l \<in> set (links_in body spans)"
  shows "ml_start l < ml_end l \<and> ml_end l \<le> length body \<and>
    char_boundary body (ml_start l) \<and> char_boundary body (ml_end l) \<and>
    (\<exists>scheme. explicit_scheme (ml_url l) = Some scheme \<and>
       (\<exists>allowed \<in> {''http'', ''https'', ''mailto''}. eq_ignore_case scheme allowed))"
  using assms span_link_sound by (fastforce simp: set_links_in scheme_allowed_def)

theorem links_safe_witness:
  "links_in ''see example.org'' [\<lparr>ts_offset = 4, ts_length = 11, ts_kind = Url\<rparr>,
      \<lparr>ts_offset = 0, ts_length = 3, ts_kind = TextUrl ''javascript:x''\<rparr>] =
     [\<lparr>ml_start = 4, ml_end = 15, ml_url = ''https://example.org''\<rparr>] \<and>
   char_boundary ''see example.org'' 4"
proof -
  have l: "links_in ''see example.org'' [\<lparr>ts_offset = 4, ts_length = 11, ts_kind = Url\<rparr>,
      \<lparr>ts_offset = 0, ts_length = 3, ts_kind = TextUrl ''javascript:x''\<rparr>] =
     [\<lparr>ml_start = 4, ml_end = 15, ml_url = ''https://example.org''\<rparr>]"
    by code_simp
  with links_safe [of "\<lparr>ml_start = 4, ml_end = 15, ml_url = ''https://example.org''\<rparr>" "''see example.org''"
      "[\<lparr>ts_offset = 4, ts_length = 11, ts_kind = Url\<rparr>,
        \<lparr>ts_offset = 0, ts_length = 3, ts_kind = TextUrl ''javascript:x''\<rparr>]"]
  show ?thesis by simp
qed

end
