(* ===== verification/Adapter.thy ===== *)
theory Adapter
  imports Media
begin

text \<open>
  The adapter contract (\<open>crates/thinwire-protocol/src/adapter.rs\<close>): accounts and their keys,
  the states an adapter reports, chats, topics and messages, the commands the app sends and
  the events it reads, and the account routing of ADR 0014 (\<open>for_account\<close>, \<open>route\<close>,
  \<open>set_protocol\<close>, \<open>set_account\<close>). Constructors of \<open>AdapterCommand\<close> carry the prefix \<open>Cmd\<close> and
  those of \<open>AdapterEvent\<close> the prefix \<open>Ev\<close>, since the two enums share names; their fields come
  in the order of the source. An event channel is the list of the events sent to it.
\<close>

section \<open>Protocols and accounts\<close>

datatype protocol_kind = Telegram | WhatsApp | Discord | Slack | Signal

definition all_kinds :: "protocol_kind list" where
  "all_kinds = [Telegram, WhatsApp, Discord, Slack, Signal]"

fun kind_display_name :: "protocol_kind \<Rightarrow> string" where
  "kind_display_name Telegram = ''Telegram''"
| "kind_display_name WhatsApp = ''WhatsApp''"
| "kind_display_name Discord = ''Discord''"
| "kind_display_name Slack = ''Slack''"
| "kind_display_name Signal = ''Signal''"

fun kind_key :: "protocol_kind \<Rightarrow> string" where
  "kind_key Telegram = ''telegram''"
| "kind_key WhatsApp = ''whatsapp''"
| "kind_key Discord = ''discord''"
| "kind_key Slack = ''slack''"
| "kind_key Signal = ''signal''"

definition MAX_ACCOUNT_SLOT :: nat where
  "MAX_ACCOUNT_SLOT = 8"

datatype protocol_id = ProtocolId (pid_kind: protocol_kind) (pid_slot: nat)

definition primary :: "protocol_kind \<Rightarrow> protocol_id" where
  "primary kind = ProtocolId kind 0"

definition all_protocols :: "protocol_id list" where
  "all_protocols = map primary all_kinds"

definition account :: "protocol_kind \<Rightarrow> nat \<Rightarrow> protocol_id option" where
  "account kind slot = (if MAX_ACCOUNT_SLOT < slot then None else Some (ProtocolId kind slot))"

definition first_account :: "protocol_id \<Rightarrow> protocol_id" where
  "first_account p = primary (pid_kind p)"

definition pid_is :: "protocol_id \<Rightarrow> protocol_kind \<Rightarrow> bool" where
  "pid_is p kind \<longleftrightarrow> pid_kind p = kind"

definition same_protocol :: "protocol_id \<Rightarrow> protocol_id \<Rightarrow> bool" where
  "same_protocol p q \<longleftrightarrow> pid_kind p = pid_kind q"

definition pid_label :: "protocol_id \<Rightarrow> string" where
  "pid_label p =
     (if pid_slot p = 0 then kind_display_name (pid_kind p)
      else kind_display_name (pid_kind p) @ '' '' @ show_nat (pid_slot p + 1))"

definition pid_key :: "protocol_id \<Rightarrow> string" where
  "pid_key p =
     (if pid_slot p = 0 then kind_key (pid_kind p)
      else kind_key (pid_kind p) @ ''#'' @ show_nat (pid_slot p))"

definition from_key :: "string \<Rightarrow> protocol_id option" where
  "from_key text =
     (case (case split_once (CHR ''#'') text of
              Some (name, slot) \<Rightarrow>
                (case parse_u8 slot of
                   Some n \<Rightarrow> if 0 < n then Some (name, n) else None
                 | None \<Rightarrow> None)
            | None \<Rightarrow> Some (text, 0)) of
        None \<Rightarrow> None
      | Some (name, slot) \<Rightarrow>
          (case find (\<lambda>kind. kind_key kind = name) all_kinds of
             None \<Rightarrow> None
           | Some kind \<Rightarrow> account kind slot))"

definition scoped :: "protocol_id \<Rightarrow> string \<Rightarrow> string" where
  "scoped p name = (if pid_slot p = 0 then name else name @ ''#'' @ show_nat (pid_slot p))"

definition downloads_avatar :: "protocol_id \<Rightarrow> bool" where
  "downloads_avatar p \<longleftrightarrow> pid_is p Telegram"

text \<open>The slot is private and only \<open>primary\<close> and \<open>account\<close> build a value, so it is at most 8.\<close>

definition pid_wf :: "protocol_id \<Rightarrow> bool" where
  "pid_wf p \<longleftrightarrow> pid_slot p \<le> MAX_ACCOUNT_SLOT"

definition kind_index :: "protocol_kind \<Rightarrow> nat" where
  "kind_index k = (case k of Telegram \<Rightarrow> 0 | WhatsApp \<Rightarrow> 1 | Discord \<Rightarrow> 2 | Slack \<Rightarrow> 3 | Signal \<Rightarrow> 4)"

lemma kind_index_inj: "kind_index a = kind_index b \<longleftrightarrow> a = b"
  by (cases a; cases b) (auto simp: kind_index_def)

instantiation protocol_kind :: linorder
begin

definition less_eq_protocol_kind :: "protocol_kind \<Rightarrow> protocol_kind \<Rightarrow> bool" where
  "less_eq_protocol_kind a b \<longleftrightarrow> kind_index a \<le> kind_index b"

definition less_protocol_kind :: "protocol_kind \<Rightarrow> protocol_kind \<Rightarrow> bool" where
  "less_protocol_kind a b \<longleftrightarrow> kind_index a < kind_index b"

instance
  by intro_classes (auto simp: less_eq_protocol_kind_def less_protocol_kind_def kind_index_inj)

end

instantiation protocol_id :: linorder
begin

definition less_eq_protocol_id :: "protocol_id \<Rightarrow> protocol_id \<Rightarrow> bool" where
  "less_eq_protocol_id a b \<longleftrightarrow> (pid_kind a, pid_slot a) \<le> (pid_kind b, pid_slot b)"

definition less_protocol_id :: "protocol_id \<Rightarrow> protocol_id \<Rightarrow> bool" where
  "less_protocol_id a b \<longleftrightarrow> (pid_kind a, pid_slot a) < (pid_kind b, pid_slot b)"

instance
  by intro_classes
    (auto simp: less_eq_protocol_id_def less_protocol_id_def protocol_id.expand)

end

section \<open>States an adapter reports\<close>

datatype support_class = Supported | Experimental | Constrained

fun support_badge :: "support_class \<Rightarrow> string" where
  "support_badge Supported = ''supported''"
| "support_badge Experimental = ''experimental''"
| "support_badge Constrained = ''constrained''"

record message_actions =
  act_reply :: bool
  act_react :: bool
  act_delete_for_me :: bool
  act_delete_for_everyone :: bool
  act_one_reaction :: bool
  act_edit :: bool

record protocol_capabilities =
  cap_id :: protocol_id
  cap_support :: support_class
  cap_short_label :: string
  cap_detail :: string
  cap_official_api :: bool
  cap_automation :: bool
  cap_sends_text :: bool
  cap_pages_history :: bool
  cap_sends_media :: bool
  cap_actions :: message_actions

datatype account_state = Unlinked | Linking | Linked

datatype helper_fault =
  Crashed | StartFailed | VersionMismatch | FaultSessionInUse | StillRunning | FaultNoClient

datatype helper_state = HIdle | HBusy | HRunning | HRestarting | HStopped helper_fault | HMissing

datatype adapter_status = Stubbed | Connecting | Ready | StRefused | StError

fun status_plain_words :: "adapter_status \<Rightarrow> string" where
  "status_plain_words Stubbed = ''Not set up''"
| "status_plain_words Connecting = ''Connecting''"
| "status_plain_words Ready = ''Signed in''"
| "status_plain_words StRefused = ''Sign-in refused''"
| "status_plain_words StError = ''Connection problem''"

datatype discord_auth_mode = Bot | OAuth | UserAccount

datatype telegram_auth_step =
  ApiCredentials | PhoneStep | CodeStep | ResendCode | TwoFactor | Complete

datatype telegram_auth_error =
  PhoneInvalid | CodeInvalid | CodeExpired | PasswordInvalid
| FloodWait u32 | ClientSetup i32 | OtherAuthError i32

datatype telegram_code_via = ViaTelegramApp | ViaSms | ViaSmsWord | ViaCall | ViaOther

definition digits_only :: "telegram_code_via \<Rightarrow> bool" where
  "digits_only via \<longleftrightarrow> via \<noteq> ViaSmsWord"

datatype telegram_auth_phase = NeedPhone | NeedCode | NeedTwoFactor | PhaseReady | PhaseUnavailable | PhaseFailed

datatype delivery = Sent | Pending | Failed | Read
datatype arrival = History | Live
datatype store_access_reason = KeychainDenied | WrongKey | MoveFailed

section \<open>Chats, topics and messages\<close>

datatype message_topic = Forum i64 | Thread i64

definition topic_rank :: "message_topic \<Rightarrow> nat \<times> int" where
  "topic_rank t = (case t of Forum i \<Rightarrow> (0, i) | Thread i \<Rightarrow> (1, i))"

lemma topic_rank_inj: "topic_rank a = topic_rank b \<longleftrightarrow> a = b"
  by (cases a; cases b) (auto simp: topic_rank_def)

instantiation message_topic :: linorder
begin

definition less_eq_message_topic :: "message_topic \<Rightarrow> message_topic \<Rightarrow> bool" where
  "less_eq_message_topic a b \<longleftrightarrow> topic_rank a \<le> topic_rank b"

definition less_message_topic :: "message_topic \<Rightarrow> message_topic \<Rightarrow> bool" where
  "less_message_topic a b \<longleftrightarrow> topic_rank a < topic_rank b"

instance
  by intro_classes
    (auto simp: less_eq_message_topic_def less_message_topic_def topic_rank_inj [symmetric])

end

record reaction =
  rc_emoji :: string
  rc_count :: u32
  rc_mine :: bool

record history_skip_run =
  hs_after_id :: "string option"
  hs_skipped :: u32

record history_store_cursor =
  hc_before_ms :: u64
  hc_skipped :: u32
  hc_resume :: bool
  hc_runs :: "history_skip_run list"

datatype redacted_pairing_secret = RedactedPairingSecret (reveal: string)

record conversation =
  cv_protocol :: protocol_id
  cv_id :: string
  cv_title :: string
  cv_participant :: string
  cv_preview :: string
  cv_unread :: u32
  cv_order :: i64
  cv_last_at :: i64
  cv_is_group :: bool
  cv_writable :: bool
  cv_placeholder :: bool
  cv_muted :: bool
  cv_has_topics :: bool
  cv_avatar :: chat_avatar

record chat_topic =
  tp_protocol :: protocol_id
  tp_conversation_id :: string
  tp_topic :: message_topic
  tp_name :: string
  tp_unread :: u32
  tp_last_at :: i64
  tp_general :: bool
  tp_hidden :: bool
  tp_closed :: bool
  tp_muted :: bool

record chat_message =
  cm_protocol :: protocol_id
  cm_conversation_id :: string
  cm_id :: string
  cm_sender :: string
  cm_body :: string
  cm_outbound :: bool
  cm_delivery :: delivery
  cm_sent_at :: i64
  cm_arrival :: arrival
  cm_topic :: "message_topic option"
  cm_links :: "message_link list"
  cm_photo :: "message_photo option"
  cm_audio :: "message_audio option"
  cm_video :: "message_video option"
  cm_file :: "message_file option"
  cm_reactions :: "reaction list"
  cm_reply_to :: "string option"
  cm_edited :: bool

definition topic_mute_id :: "string \<Rightarrow> message_topic \<Rightarrow> string" where
  "topic_mute_id conversation_id topic =
     conversation_id @
     (case topic of
        Forum i \<Rightarrow> ''#forum:'' @ show_int i
      | Thread i \<Rightarrow> ''#thread:'' @ show_int i)"

definition ordered_topics :: "chat_topic list \<Rightarrow> chat_topic list" where
  "ordered_topics topics =
     sort_key (\<lambda>t. (\<not> tp_general t, - tp_last_at t, tp_topic t)) (filter (\<lambda>t. \<not> tp_hidden t) topics)"

datatype outgoing_update = Listed | Succeeded | UpdateFailed

definition with_outbox_read :: "delivery \<Rightarrow> i64 \<Rightarrow> i64 \<Rightarrow> delivery" where
  "with_outbox_read d message_id last_read =
     (if d = Sent \<and> 0 < last_read \<and> 0 < message_id \<and> message_id \<le> last_read then Read else d)"

definition outgoing_delivery :: "outgoing_update \<Rightarrow> delivery \<Rightarrow> bool \<Rightarrow> i64 \<Rightarrow> i64 \<Rightarrow> delivery" where
  "outgoing_delivery update sending outgoing message_id last_read =
     (if \<not> outgoing then Sent
      else with_outbox_read
             (case update of Listed \<Rightarrow> sending | Succeeded \<Rightarrow> Sent | UpdateFailed \<Rightarrow> Failed)
             message_id last_read)"

section \<open>Reactions\<close>

definition drop_mine_elsewhere :: "string \<Rightarrow> reaction \<Rightarrow> reaction" where
  "drop_mine_elsewhere emoji r =
     (if rc_mine r \<and> rc_emoji r \<noteq> emoji
      then r\<lparr>rc_mine := False, rc_count := sat_sub32 (rc_count r) 1\<rparr> else r)"

text \<open>\<open>find\<close> stops at the first reaction with the emoji; only that one changes.\<close>

fun toggle_first :: "string \<Rightarrow> bool \<Rightarrow> reaction list \<Rightarrow> reaction list" where
  "toggle_first emoji add [] =
     (if add then [\<lparr>rc_emoji = emoji, rc_count = 1, rc_mine = True\<rparr>] else [])"
| "toggle_first emoji add (r # rs) =
     (if rc_emoji r = emoji
      then (if add \<and> \<not> rc_mine r
            then r\<lparr>rc_mine := True, rc_count := sat_add32 (rc_count r) 1\<rparr>
            else if \<not> add \<and> rc_mine r
            then r\<lparr>rc_mine := False, rc_count := sat_sub32 (rc_count r) 1\<rparr>
            else r) # rs
      else r # toggle_first emoji add rs)"

definition toggle :: "reaction list \<Rightarrow> string \<Rightarrow> bool \<Rightarrow> bool \<Rightarrow> reaction list" where
  "toggle reactions emoji add one_reaction =
     filter (\<lambda>r. 0 < rc_count r)
       (toggle_first emoji add
          (if add \<and> one_reaction then map (drop_mine_elsewhere emoji) reactions else reactions))"

section \<open>Facts about accounts\<close>

lemma find_kind_key: "find (\<lambda>kind. kind_key kind = kind_key k) all_kinds = Some k"
  by (cases k) (simp_all add: all_kinds_def)

lemma kind_key_no_hash: "CHR ''#'' \<notin> set (kind_key k)"
  by (cases k) simp_all

lemma kind_key_ascii: "is_ascii (kind_key k)"
  by (cases k) simp_all

lemma kind_key_inj: "kind_key a = kind_key b \<longleftrightarrow> a = b"
  by (cases a; cases b) simp_all

lemma pid_key_roundtrip: "pid_wf p \<Longrightarrow> from_key (pid_key p) = Some p"
proof (cases p)
  case (ProtocolId k n)
  assume wf: "pid_wf p"
  then have n: "n \<le> 8" by (simp add: ProtocolId pid_wf_def MAX_ACCOUNT_SLOT_def)
  show ?thesis
  proof (cases "n = 0")
    case True
    then show ?thesis
      using split_once_None [of "CHR ''#''" "kind_key k"] kind_key_no_hash [of k]
      by (simp add: ProtocolId from_key_def pid_key_def find_kind_key account_def MAX_ACCOUNT_SLOT_def)
  next
    case False
    with n show ?thesis
      by (simp add: ProtocolId from_key_def pid_key_def split_once_append [OF kind_key_no_hash]
          parse_u8_show_nat find_kind_key account_def MAX_ACCOUNT_SLOT_def)
  qed
qed

lemma from_key_wf: "from_key text = Some p \<Longrightarrow> pid_wf p"
  by (auto simp: from_key_def account_def pid_wf_def split: option.splits if_splits prod.splits)

lemma pid_key_inj: "pid_wf p \<Longrightarrow> pid_wf q \<Longrightarrow> pid_key p = pid_key q \<longleftrightarrow> p = q"
  by (metis pid_key_roundtrip option.inject)

lemma pid_key_ascii: "is_ascii (pid_key p)"
  by (simp add: pid_key_def kind_key_ascii show_nat_ascii)

lemma is_primary: "pid_slot p = 0 \<longleftrightarrow> p = primary (pid_kind p)"
  by (cases p) (simp add: primary_def)

lemma pid_kind_primary [simp]: "pid_kind (primary k) = k"
  and pid_slot_primary [simp]: "pid_slot (primary k) = 0"
  by (simp_all add: primary_def)

lemma first_account_slot [simp]: "pid_slot (first_account p) = 0"
  and first_account_kind [simp]: "pid_kind (first_account p) = pid_kind p"
  by (simp_all add: first_account_def)

section \<open>Facts about deliveries and topics\<close>

lemma outgoing_delivery_read:
  "outgoing_delivery u s out m r = Read \<longleftrightarrow>
     out \<and> ((u = Listed \<and> s = Read)
          \<or> ((u = Succeeded \<or> u = Listed \<and> s = Sent) \<and> 0 < m \<and> m \<le> r))"
  by (cases u) (auto simp: outgoing_delivery_def with_outbox_read_def)

lemma with_outbox_read_keeps: "d \<noteq> Sent \<Longrightarrow> with_outbox_read d m r = d"
  by (simp add: with_outbox_read_def)

lemma mset_ordered_topics: "set (ordered_topics ts) = {t \<in> set ts. \<not> tp_hidden t}"
  by (simp add: ordered_topics_def)

lemma length_ordered_topics: "length (ordered_topics ts) = length (filter (\<lambda>t. \<not> tp_hidden t) ts)"
  by (simp add: ordered_topics_def)

lemma sorted_ordered_topics:
  "sorted (map (\<lambda>t. (\<not> tp_general t, - tp_last_at t, tp_topic t)) (ordered_topics ts))"
  by (simp add: ordered_topics_def)

section \<open>Facts about reactions\<close>

lemma toggle_first_other:
  "rc_emoji r \<noteq> emoji \<Longrightarrow> r \<in> set (toggle_first emoji add rs) \<longleftrightarrow> r \<in> set rs"
  by (induction emoji add rs rule: toggle_first.induct) auto

lemma toggle_first_emojis:
  "e \<in> rc_emoji ` set (toggle_first emoji add rs) \<Longrightarrow> e = emoji \<or> e \<in> rc_emoji ` set rs"
  using toggle_first_other by blast

lemma toggle_first_distinct:
  "distinct (map rc_emoji rs) \<Longrightarrow> distinct (map rc_emoji (toggle_first emoji add rs))"
proof (induction emoji add rs rule: toggle_first.induct)
  case (2 emoji add r rs)
  then show ?case using toggle_first_emojis [of "rc_emoji r" emoji add rs] by auto
qed simp

lemma toggle_first_mine:
  "r \<in> set (toggle_first emoji add rs) \<Longrightarrow> rc_mine r \<Longrightarrow>
   rc_emoji r = emoji \<or> r \<in> set rs"
  by (induction emoji add rs rule: toggle_first.induct) (auto split: if_splits)

lemma map_emoji_drop_mine [simp]: "map rc_emoji (map (drop_mine_elsewhere e) rs) = map rc_emoji rs"
  by (simp add: drop_mine_elsewhere_def)

lemma toggle_distinct:
  "distinct (map rc_emoji rs) \<Longrightarrow> distinct (map rc_emoji (toggle rs emoji add one))"
proof -
  assume d: "distinct (map rc_emoji rs)"
  have "distinct (map rc_emoji (toggle_first emoji add
      (if add \<and> one then map (drop_mine_elsewhere emoji) rs else rs)))"
    by (rule toggle_first_distinct) (use d map_emoji_drop_mine in \<open>auto simp del: map_map\<close>)
  then show ?thesis by (simp only: toggle_def distinct_map_filter)
qed

lemma toggle_positive: "r \<in> set (toggle rs emoji add one) \<Longrightarrow> 0 < rc_count r"
  by (simp add: toggle_def)

lemma toggle_one_mine:
  "r \<in> set (toggle rs emoji True True) \<Longrightarrow> rc_mine r \<Longrightarrow> rc_emoji r = emoji"
  by (auto simp: toggle_def drop_mine_elsewhere_def dest!: toggle_first_mine split: if_splits)

text \<open>Taking a reaction back gives the list from before it.\<close>

lemma toggle_first_undo:
  assumes "distinct (map rc_emoji rs)"
    and "\<And>r. r \<in> set rs \<Longrightarrow> 0 < rc_count r"
    and "\<And>r. r \<in> set rs \<Longrightarrow> rc_emoji r = emoji \<Longrightarrow> \<not> rc_mine r \<and> unat (rc_count r) < 2 ^ 32 - 1"
  shows "filter (\<lambda>r. 0 < rc_count r) (toggle_first emoji False (toggle_first emoji True rs)) = rs"
  using assms
proof (induction rs)
  case Nil
  then show ?case by (simp add: sat_sub32_def)
next
  case (Cons r rs)
  show ?case
  proof (cases "rc_emoji r = emoji")
    case True
    with Cons.prems(3) [of r] have r: "\<not> rc_mine r" "unat (rc_count r) < 2 ^ 32 - 1" by auto
    have "filter (\<lambda>r. 0 < rc_count r) rs = rs"
      using Cons.prems(2) by (simp add: filter_id_conv)
    with True r Cons.prems(2) [of r] show ?thesis
      by (simp add: sat_sub32_sat_add32_1)
  next
    case False
    with Cons show ?thesis by simp
  qed
qed

lemma filter_toggle_first_add:
  assumes "\<And>r. r \<in> set rs \<Longrightarrow> 0 < rc_count r"
  shows "filter (\<lambda>r. 0 < rc_count r) (toggle_first emoji True rs) = toggle_first emoji True rs"
  using assms by (induction rs) (auto simp: sat_add32_pos filter_id_conv)

section \<open>Properties\<close>

text \<open>The key of an account reads back as that account, no other account has the same key, and
  whatever text a key is read from, the account has a slot that the app offers.\<close>

theorem account_keys_read_back:
  assumes "pid_wf p"
  shows "from_key (pid_key p) = Some p \<and> (pid_wf q \<and> pid_key q = pid_key p \<longrightarrow> q = p) \<and>
    (from_key text = Some r \<longrightarrow> pid_slot r \<le> MAX_ACCOUNT_SLOT)"
  using assms pid_key_roundtrip pid_key_inj from_key_wf by (auto simp: pid_wf_def)

theorem account_keys_read_back_witness:
  "pid_key (ProtocolId Signal 8) = ''signal#8'' \<and> from_key ''signal#8'' = Some (ProtocolId Signal 8)"
proof -
  have "pid_wf (ProtocolId Signal 8)" by (simp add: pid_wf_def MAX_ACCOUNT_SLOT_def)
  from account_keys_read_back [OF this, of undefined undefined undefined]
  have "from_key (pid_key (ProtocolId Signal 8)) = Some (ProtocolId Signal 8)" by blast
  moreover have "pid_key (ProtocolId Signal 8) = ''signal#8''"
    by (simp add: pid_key_def show_nat.simps) (code_simp)
  ultimately show ?thesis by simp
qed

text \<open>Reading a key also takes texts that no account has as its key: a slot with leading zeros
  or a plus sign names the same account as the canonical key.\<close>

theorem from_key_takes_other_texts:
  "from_key ''telegram#01'' = Some (ProtocolId Telegram 1) \<and>
   from_key ''telegram#+1'' = Some (ProtocolId Telegram 1) \<and>
   pid_key (ProtocolId Telegram 1) \<noteq> ''telegram#01'' \<and> pid_key (ProtocolId Telegram 1) \<noteq> ''telegram#+1''"
  by (simp add: from_key_def pid_key_def parse_u8_def all_kinds_def account_def MAX_ACCOUNT_SLOT_def
      is_digit_def digit_char_def show_nat.simps)

text \<open>A reaction that is added and taken back leaves the list as it was, one emoji never has two
  entries, no entry has a count of zero, and with one reaction per account the account's only
  reaction is the new one.\<close>

theorem reaction_toggle:
  assumes "distinct (map rc_emoji rs)"
    and "\<And>r. r \<in> set rs \<Longrightarrow> 0 < rc_count r"
    and "\<And>r. r \<in> set rs \<Longrightarrow> rc_emoji r = emoji \<Longrightarrow> \<not> rc_mine r \<and> unat (rc_count r) < 2 ^ 32 - 1"
  shows "toggle (toggle rs emoji True False) emoji False False = rs \<and>
    distinct (map rc_emoji (toggle rs emoji add one)) \<and>
    list_all (\<lambda>r. 0 < rc_count r) (toggle rs emoji add one) \<and>
    list_all (\<lambda>r. rc_mine r \<longrightarrow> rc_emoji r = emoji) (toggle rs emoji True True)"
proof -
  have "toggle (toggle rs emoji True False) emoji False False = rs"
    using toggle_first_undo [OF assms] by (simp add: toggle_def filter_toggle_first_add assms(2))
  with toggle_distinct [OF assms(1)] show ?thesis
    by (auto simp: list_all_iff dest: toggle_positive toggle_one_mine)
qed

theorem reaction_toggle_witness:
  "let rs = [\<lparr>rc_emoji = ''a'', rc_count = 2, rc_mine = False\<rparr>]
   in toggle rs ''a'' True False = [\<lparr>rc_emoji = ''a'', rc_count = 3, rc_mine = True\<rparr>] \<and>
     toggle (toggle rs ''a'' True False) ''a'' False False = rs"
proof -
  let ?rs = "[\<lparr>rc_emoji = ''a'', rc_count = 2, rc_mine = False\<rparr>]"
  have "toggle (toggle ?rs ''a'' True False) ''a'' False False = ?rs"
    by (rule reaction_toggle [THEN conjunct1]) auto
  moreover have "toggle ?rs ''a'' True False = [\<lparr>rc_emoji = ''a'', rc_count = 3, rc_mine = True\<rparr>]"
    by (simp add: toggle_def sat_add32_def)
  ultimately show ?thesis by (simp add: Let_def)
qed

end
