(* ===== verification/Commands.thy ===== *)
theory Commands
  imports Adapter
begin

text \<open>
  The commands and events of the adapter contract and their account routing
  (\<open>crates/thinwire-protocol/src/adapter.rs\<close>). A command or an event of account \<open>n\<close> names the
  account in its protocol fields, or is wrapped when it has none; an adapter sees account 0
  only. The laws that commands and events share are the locale \<open>account_tagged\<close>.
\<close>

section \<open>Commands\<close>

datatype (plugins only: code size) adapter_command =
  CmdConnect protocol_id
| CmdDisconnect protocol_id
| CmdConnectDiscord discord_auth_mode
| CmdTelegramAuth telegram_auth_step u64
| CmdLoadChats protocol_id
| CmdOpenChat protocol_id string
| CmdOpenTopic protocol_id string message_topic
| CmdShutdown protocol_id
| CmdLoadOlderMessages protocol_id string string "u64 option"
| CmdLoadOlderTopic protocol_id string message_topic string
| CmdResendMessage protocol_id string string u64
| CmdViewChat protocol_id "string option"
| CmdViewTopic protocol_id string message_topic
| CmdSendText protocol_id string string u64 "string option"
| CmdSendMedia protocol_id string "message_topic option" "outgoing_file list" string u64
| CmdSendTopicText protocol_id string message_topic string u64 "string option"
| CmdAddAccount protocol_id
| CmdRemoveAccount protocol_id
| CmdToAccount protocol_id adapter_command
| CmdWhatsAppAcknowledgeRisk
| CmdWhatsAppBeginLink u64
| CmdWhatsAppCancelLink
| CmdSignalAcknowledgeNotice
| CmdSignalBeginLink u64
| CmdSignalCancelLink
| CmdRestartHelper protocol_id
| CmdRetryStoreKey protocol_id
| CmdDownloadFile protocol_id i32 bool
| CmdDownloadVoice protocol_id i32
| CmdDeleteMessage protocol_id string string bool
| CmdReact protocol_id string string string bool
| CmdEditMessage protocol_id string string string
| CmdDownloadVideo protocol_id i32
| CmdDownloadDocument protocol_id i32

fun cmd_protocol :: "adapter_command \<Rightarrow> protocol_id" where
  "cmd_protocol (CmdConnect p) = p"
| "cmd_protocol (CmdDisconnect p) = p"
| "cmd_protocol (CmdLoadChats p) = p"
| "cmd_protocol (CmdOpenChat p _) = p"
| "cmd_protocol (CmdOpenTopic p _ _) = p"
| "cmd_protocol (CmdShutdown p) = p"
| "cmd_protocol (CmdLoadOlderMessages p _ _ _) = p"
| "cmd_protocol (CmdLoadOlderTopic p _ _ _) = p"
| "cmd_protocol (CmdSendText p _ _ _ _) = p"
| "cmd_protocol (CmdSendTopicText p _ _ _ _ _) = p"
| "cmd_protocol (CmdSendMedia p _ _ _ _ _) = p"
| "cmd_protocol (CmdResendMessage p _ _ _) = p"
| "cmd_protocol (CmdViewChat p _) = p"
| "cmd_protocol (CmdViewTopic p _ _) = p"
| "cmd_protocol (CmdRestartHelper p) = p"
| "cmd_protocol (CmdRetryStoreKey p) = p"
| "cmd_protocol (CmdAddAccount p) = p"
| "cmd_protocol (CmdRemoveAccount p) = p"
| "cmd_protocol (CmdDownloadFile p _ _) = p"
| "cmd_protocol (CmdDownloadVoice p _) = p"
| "cmd_protocol (CmdDownloadVideo p _) = p"
| "cmd_protocol (CmdDownloadDocument p _) = p"
| "cmd_protocol (CmdDeleteMessage p _ _ _) = p"
| "cmd_protocol (CmdEditMessage p _ _ _) = p"
| "cmd_protocol (CmdReact p _ _ _ _) = p"
| "cmd_protocol (CmdToAccount a _) = a"
| "cmd_protocol (CmdConnectDiscord _) = primary Discord"
| "cmd_protocol (CmdTelegramAuth _ _) = primary Telegram"
| "cmd_protocol CmdWhatsAppAcknowledgeRisk = primary WhatsApp"
| "cmd_protocol (CmdWhatsAppBeginLink _) = primary WhatsApp"
| "cmd_protocol CmdWhatsAppCancelLink = primary WhatsApp"
| "cmd_protocol CmdSignalAcknowledgeNotice = primary Signal"
| "cmd_protocol (CmdSignalBeginLink _) = primary Signal"
| "cmd_protocol CmdSignalCancelLink = primary Signal"

text \<open>The command with every protocol field set, and whether it had one.\<close>

fun set_protocol :: "protocol_id \<Rightarrow> adapter_command \<Rightarrow> adapter_command \<times> bool" where
  "set_protocol a (CmdConnect _) = (CmdConnect a, True)"
| "set_protocol a (CmdDisconnect _) = (CmdDisconnect a, True)"
| "set_protocol a (CmdLoadChats _) = (CmdLoadChats a, True)"
| "set_protocol a (CmdOpenChat _ c) = (CmdOpenChat a c, True)"
| "set_protocol a (CmdOpenTopic _ c t) = (CmdOpenTopic a c t, True)"
| "set_protocol a (CmdShutdown _) = (CmdShutdown a, True)"
| "set_protocol a (CmdLoadOlderMessages _ c b s) = (CmdLoadOlderMessages a c b s, True)"
| "set_protocol a (CmdLoadOlderTopic _ c t b) = (CmdLoadOlderTopic a c t b, True)"
| "set_protocol a (CmdSendText _ c b r y) = (CmdSendText a c b r y, True)"
| "set_protocol a (CmdSendTopicText _ c t b r y) = (CmdSendTopicText a c t b r y, True)"
| "set_protocol a (CmdSendMedia _ c t f b r) = (CmdSendMedia a c t f b r, True)"
| "set_protocol a (CmdResendMessage _ c m r) = (CmdResendMessage a c m r, True)"
| "set_protocol a (CmdViewChat _ c) = (CmdViewChat a c, True)"
| "set_protocol a (CmdViewTopic _ c t) = (CmdViewTopic a c t, True)"
| "set_protocol a (CmdRestartHelper _) = (CmdRestartHelper a, True)"
| "set_protocol a (CmdRetryStoreKey _) = (CmdRetryStoreKey a, True)"
| "set_protocol a (CmdAddAccount _) = (CmdAddAccount a, True)"
| "set_protocol a (CmdRemoveAccount _) = (CmdRemoveAccount a, True)"
| "set_protocol a (CmdDownloadFile _ f s) = (CmdDownloadFile a f s, True)"
| "set_protocol a (CmdDownloadVoice _ f) = (CmdDownloadVoice a f, True)"
| "set_protocol a (CmdDownloadVideo _ f) = (CmdDownloadVideo a f, True)"
| "set_protocol a (CmdDownloadDocument _ f) = (CmdDownloadDocument a f, True)"
| "set_protocol a (CmdDeleteMessage _ c m e) = (CmdDeleteMessage a c m e, True)"
| "set_protocol a (CmdEditMessage _ c m b) = (CmdEditMessage a c m b, True)"
| "set_protocol a (CmdReact _ c m e x) = (CmdReact a c m e x, True)"
| "set_protocol a (CmdToAccount _ c) = (CmdToAccount a c, True)"
| "set_protocol a (CmdConnectDiscord m) = (CmdConnectDiscord m, False)"
| "set_protocol a (CmdTelegramAuth s e) = (CmdTelegramAuth s e, False)"
| "set_protocol a CmdWhatsAppAcknowledgeRisk = (CmdWhatsAppAcknowledgeRisk, False)"
| "set_protocol a (CmdWhatsAppBeginLink g) = (CmdWhatsAppBeginLink g, False)"
| "set_protocol a CmdWhatsAppCancelLink = (CmdWhatsAppCancelLink, False)"
| "set_protocol a CmdSignalAcknowledgeNotice = (CmdSignalAcknowledgeNotice, False)"
| "set_protocol a (CmdSignalBeginLink g) = (CmdSignalBeginLink g, False)"
| "set_protocol a CmdSignalCancelLink = (CmdSignalCancelLink, False)"

definition cmd_for_account :: "adapter_command \<Rightarrow> protocol_id \<Rightarrow> adapter_command" where
  "cmd_for_account c a =
     (let (c', had) = set_protocol a c
      in if had \<or> pid_slot a = 0 then c' else CmdToAccount a c')"

definition route :: "adapter_command \<Rightarrow> protocol_id \<times> adapter_command" where
  "route c =
     (let a = cmd_protocol c;
          inner = (case c of CmdToAccount _ x \<Rightarrow> x | other \<Rightarrow> other)
      in (a, fst (set_protocol (first_account a) inner)))"

definition command_reads_session_key :: "adapter_command \<Rightarrow> bool" where
  "command_reads_session_key c \<longleftrightarrow>
     (case c of CmdSignalBeginLink _ \<Rightarrow> True | CmdWhatsAppBeginLink _ \<Rightarrow> True
      | CmdRetryStoreKey _ \<Rightarrow> True | _ \<Rightarrow> False)"

datatype adapter_error = ErrRefused protocol_id string | ErrUnavailable protocol_id string

fun error_text :: "adapter_error \<Rightarrow> string" where
  "error_text (ErrRefused p reason) = pid_label p @ '' refused: '' @ reason"
| "error_text (ErrUnavailable p reason) = pid_label p @ '' unavailable: '' @ reason"

section \<open>Events\<close>

datatype (plugins only: code size) adapter_event =
  EvStatus protocol_id adapter_status string
| EvStoreAccess protocol_id store_access_reason
| EvConversationUpsert conversation
| EvTopicUpsert chat_topic
| EvMessageReceived chat_message
| EvTelegramAuth telegram_auth_phase
| EvTelegramAuthRejected telegram_auth_error
| EvTelegramDataReset string
| EvTelegramSessionEnded
| EvAccountEnded protocol_id
| EvLogin u64 adapter_event
| EvTelegramCodeSent telegram_code_via
| EvFlushSecrets
| EvConversationRemoved protocol_id string
| EvMessageReplaced protocol_id string string chat_message
| EvMessageBody protocol_id string string string
| EvMessageEdited protocol_id string string
| EvMessageMedia protocol_id string string string "message_link list" "message_photo option"
    "message_audio option" "message_video option" "message_file option"
| EvMessageLinks protocol_id string string "message_link list"
| EvPhotoReady protocol_id i32 photo_file
| EvPhotoFailed protocol_id i32
| EvVoiceReady protocol_id i32 audio_path
| EvVoiceFailed protocol_id i32
| EvMessageReactions protocol_id string string "reaction list"
| EvChatAvatar protocol_id string image_bytes
| EvVideoReady protocol_id i32 audio_path
| EvVideoFailed protocol_id i32
| EvFileReady protocol_id i32 audio_path
| EvFileFailed protocol_id i32
| EvMessagesRemoved protocol_id string "string list"
| EvSendAccepted protocol_id string u64
| EvSendRejected protocol_id string u64
| EvStopped protocol_id
| EvAccount protocol_id account_state
| EvCommandFailed protocol_id "string option" string
| EvNotice protocol_id string
| EvMessageDelivery protocol_id string string delivery
| EvOutboxRead protocol_id string i64
| EvChatListLoaded protocol_id
| EvOlderHistoryLoaded protocol_id string string bool "string option" "message_topic option"
    "history_store_cursor option"
| EvHistoryLoaded protocol_id string "history_store_cursor option"
| EvWhatsAppQr redacted_pairing_secret u64
| EvWhatsAppPairCode redacted_pairing_secret u64
| EvSignalQr redacted_pairing_secret u64
| EvHelper protocol_id helper_state
| EvFromAccount protocol_id adapter_event

fun set_account :: "protocol_id \<Rightarrow> adapter_event \<Rightarrow> adapter_event \<times> bool" where
  "set_account a (EvStatus _ s d) = (EvStatus a s d, True)"
| "set_account a (EvStoreAccess _ r) = (EvStoreAccess a r, True)"
| "set_account a (EvAccountEnded _) = (EvAccountEnded a, True)"
| "set_account a (EvConversationRemoved _ i) = (EvConversationRemoved a i, True)"
| "set_account a (EvMessageBody _ c m b) = (EvMessageBody a c m b, True)"
| "set_account a (EvMessageEdited _ c m) = (EvMessageEdited a c m, True)"
| "set_account a (EvMessageMedia _ c m b l p u v f) = (EvMessageMedia a c m b l p u v f, True)"
| "set_account a (EvMessageLinks _ c m l) = (EvMessageLinks a c m l, True)"
| "set_account a (EvPhotoReady _ i f) = (EvPhotoReady a i f, True)"
| "set_account a (EvPhotoFailed _ i) = (EvPhotoFailed a i, True)"
| "set_account a (EvVoiceReady _ i p) = (EvVoiceReady a i p, True)"
| "set_account a (EvVoiceFailed _ i) = (EvVoiceFailed a i, True)"
| "set_account a (EvVideoReady _ i p) = (EvVideoReady a i p, True)"
| "set_account a (EvVideoFailed _ i) = (EvVideoFailed a i, True)"
| "set_account a (EvFileReady _ i p) = (EvFileReady a i p, True)"
| "set_account a (EvFileFailed _ i) = (EvFileFailed a i, True)"
| "set_account a (EvChatAvatar _ c b) = (EvChatAvatar a c b, True)"
| "set_account a (EvMessageReactions _ c m r) = (EvMessageReactions a c m r, True)"
| "set_account a (EvMessagesRemoved _ c m) = (EvMessagesRemoved a c m, True)"
| "set_account a (EvSendAccepted _ c r) = (EvSendAccepted a c r, True)"
| "set_account a (EvSendRejected _ c r) = (EvSendRejected a c r, True)"
| "set_account a (EvStopped _) = (EvStopped a, True)"
| "set_account a (EvAccount _ s) = (EvAccount a s, True)"
| "set_account a (EvCommandFailed _ c d) = (EvCommandFailed a c d, True)"
| "set_account a (EvNotice _ t) = (EvNotice a t, True)"
| "set_account a (EvMessageDelivery _ c m d) = (EvMessageDelivery a c m d, True)"
| "set_account a (EvOutboxRead _ c l) = (EvOutboxRead a c l, True)"
| "set_account a (EvChatListLoaded _) = (EvChatListLoaded a, True)"
| "set_account a (EvOlderHistoryLoaded _ c b m n t s) = (EvOlderHistoryLoaded a c b m n t s, True)"
| "set_account a (EvHistoryLoaded _ c s) = (EvHistoryLoaded a c s, True)"
| "set_account a (EvHelper _ s) = (EvHelper a s, True)"
| "set_account a (EvConversationUpsert c) = (EvConversationUpsert (c\<lparr>cv_protocol := a\<rparr>), True)"
| "set_account a (EvTopicUpsert t) = (EvTopicUpsert (t\<lparr>tp_protocol := a\<rparr>), True)"
| "set_account a (EvMessageReceived m) = (EvMessageReceived (m\<lparr>cm_protocol := a\<rparr>), True)"
| "set_account a (EvMessageReplaced _ c i m) = (EvMessageReplaced a c i (m\<lparr>cm_protocol := a\<rparr>), True)"
| "set_account a (EvFromAccount _ e) = (EvFromAccount a e, True)"
| "set_account a e = (e, False)"

definition ev_for_account :: "adapter_event \<Rightarrow> protocol_id \<Rightarrow> adapter_event" where
  "ev_for_account e a =
     (let (e', had) = set_account a e
      in if had \<or> pid_slot a = 0 then e' else EvFromAccount a e')"

fun from_account :: "adapter_event \<Rightarrow> protocol_id option \<times> adapter_event" where
  "from_account (EvFromAccount a e) = (Some a, e)"
| "from_account e = (None, e)"

fun inbox_protocol :: "adapter_event \<Rightarrow> protocol_id option" where
  "inbox_protocol (EvConversationUpsert c) = Some (cv_protocol c)"
| "inbox_protocol (EvTopicUpsert t) = Some (tp_protocol t)"
| "inbox_protocol (EvMessageReceived m) = Some (cm_protocol m)"
| "inbox_protocol (EvConversationRemoved p _) = Some p"
| "inbox_protocol (EvMessageReplaced p _ _ _) = Some p"
| "inbox_protocol (EvMessageBody p _ _ _) = Some p"
| "inbox_protocol (EvMessageEdited p _ _) = Some p"
| "inbox_protocol (EvMessageMedia p _ _ _ _ _ _ _ _) = Some p"
| "inbox_protocol (EvMessageLinks p _ _ _) = Some p"
| "inbox_protocol (EvPhotoReady p _ _) = Some p"
| "inbox_protocol (EvPhotoFailed p _) = Some p"
| "inbox_protocol (EvVoiceReady p _ _) = Some p"
| "inbox_protocol (EvVoiceFailed p _) = Some p"
| "inbox_protocol (EvVideoReady p _ _) = Some p"
| "inbox_protocol (EvVideoFailed p _) = Some p"
| "inbox_protocol (EvFileReady p _ _) = Some p"
| "inbox_protocol (EvFileFailed p _) = Some p"
| "inbox_protocol (EvChatAvatar p _ _) = Some p"
| "inbox_protocol (EvMessageReactions p _ _ _) = Some p"
| "inbox_protocol (EvMessagesRemoved p _ _) = Some p"
| "inbox_protocol (EvSendAccepted p _ _) = Some p"
| "inbox_protocol (EvSendRejected p _ _) = Some p"
| "inbox_protocol (EvMessageDelivery p _ _ _) = Some p"
| "inbox_protocol (EvOutboxRead p _ _) = Some p"
| "inbox_protocol (EvChatListLoaded p) = Some p"
| "inbox_protocol (EvHistoryLoaded p _ _) = Some p"
| "inbox_protocol (EvOlderHistoryLoaded p _ _ _ _ _ _) = Some p"
| "inbox_protocol _ = None"

section \<open>Sending events\<close>

text \<open>
  An \<open>emit\<close> function appends one event to the channel. A send to a closed channel is ignored
  by the code, so the model has no error here.
\<close>

type_synonym events = "adapter_event list"

definition emit_status :: "protocol_id \<Rightarrow> adapter_status \<Rightarrow> string \<Rightarrow> events \<Rightarrow> events" where
  "emit_status p s d evs = evs @ [EvStatus p s d]"

definition emit_telegram_data_reset :: "string \<Rightarrow> events \<Rightarrow> events" where
  "emit_telegram_data_reset moved_to evs =
     evs @ [EvTelegramDataReset (rev (takeWhile (\<lambda>c. \<not> is_sep c) (rev moved_to)))]"

definition emit_message_replaced :: "string \<Rightarrow> chat_message \<Rightarrow> events \<Rightarrow> events" where
  "emit_message_replaced old_id m evs =
     evs @ [EvMessageReplaced (cm_protocol m) (cm_conversation_id m) old_id m]"

definition emit_send_accepted :: "protocol_id \<Rightarrow> string \<Rightarrow> u64 \<Rightarrow> events \<Rightarrow> events" where
  "emit_send_accepted p c r evs = evs @ [EvSendAccepted p c r]"

definition emit_send_rejected :: "protocol_id \<Rightarrow> string \<Rightarrow> u64 \<Rightarrow> events \<Rightarrow> events" where
  "emit_send_rejected p c r evs = evs @ [EvSendRejected p c r]"

definition emit_account :: "protocol_id \<Rightarrow> account_state \<Rightarrow> events \<Rightarrow> events" where
  "emit_account p s evs = evs @ [EvAccount p s]"

definition emit_command_failed :: "protocol_id \<Rightarrow> string option \<Rightarrow> string \<Rightarrow> events \<Rightarrow> events" where
  "emit_command_failed p c d evs = evs @ [EvCommandFailed p c d]"

definition emit_notice :: "protocol_id \<Rightarrow> string \<Rightarrow> events \<Rightarrow> events" where
  "emit_notice p t evs = evs @ [EvNotice p t]"

definition emit_helper :: "protocol_id \<Rightarrow> helper_state \<Rightarrow> events \<Rightarrow> events" where
  "emit_helper p s evs = evs @ [EvHelper p s]"

definition emit_stopped :: "protocol_id \<Rightarrow> events \<Rightarrow> events" where
  "emit_stopped p evs = evs @ [EvStopped p]"

definition emit_older_history_loaded ::
    "protocol_id \<Rightarrow> string \<Rightarrow> string \<Rightarrow> bool \<Rightarrow> string option \<Rightarrow> message_topic option \<Rightarrow> events \<Rightarrow> events" where
  "emit_older_history_loaded p c b has_more note topic evs =
     evs @ [EvOlderHistoryLoaded p c b has_more note topic None]"

definition emit_chat_list_loaded :: "protocol_id \<Rightarrow> events \<Rightarrow> events" where
  "emit_chat_list_loaded p evs = evs @ [EvChatListLoaded p]"

definition emit_history_loaded :: "protocol_id \<Rightarrow> string \<Rightarrow> events \<Rightarrow> events" where
  "emit_history_loaded p c evs = evs @ [EvHistoryLoaded p c None]"

section \<open>The account-routing contract\<close>

text \<open>
  Commands and events are tagged with an account the same way: \<open>tag\<close> sets the protocol fields
  and says whether there was one, \<open>wrap\<close> is the variant for a value with none, and \<open>for_acc\<close>
  puts them together.
\<close>

locale account_tagged =
  fixes tag :: "protocol_id \<Rightarrow> 'x \<Rightarrow> 'x \<times> bool"
    and wrap :: "protocol_id \<Rightarrow> 'x \<Rightarrow> 'x"
    and for_acc :: "'x \<Rightarrow> protocol_id \<Rightarrow> 'x"
  assumes tag_flag: "snd (tag a x) = snd (tag b x)"
    and tag_none: "\<not> snd (tag a x) \<Longrightarrow> fst (tag a x) = x"
    and tag_tag: "tag a (fst (tag b x)) = tag a x"
    and tag_wrap: "tag a (wrap b x) = (wrap a x, True)"
    and for_acc: "for_acc x a =
      (if snd (tag a x) \<or> pid_slot a = 0 then fst (tag a x) else wrap a (fst (tag a x)))"
begin

lemma for_acc_field: "snd (tag a x) \<Longrightarrow> for_acc x a = fst (tag a x)"
  by (simp add: for_acc)

lemma for_acc_slot0: "pid_slot a = 0 \<Longrightarrow> for_acc x a = fst (tag a x)"
  by (simp add: for_acc)

lemma for_acc_wrap: "\<not> snd (tag a x) \<Longrightarrow> pid_slot a \<noteq> 0 \<Longrightarrow> for_acc x a = wrap a x"
  by (simp add: for_acc tag_none)

lemma retag: "pid_slot a \<noteq> 0 \<Longrightarrow> for_acc (for_acc x b) a = for_acc x a"
proof (cases "snd (tag b x)")
  case True
  then show ?thesis by (simp add: for_acc_field for_acc tag_tag)
next
  case False
  moreover assume "pid_slot a \<noteq> 0"
  moreover from False have "\<not> snd (tag a x)" using tag_flag by blast
  ultimately show ?thesis
    by (cases "pid_slot b = 0") (simp_all add: for_acc_slot0 for_acc_wrap tag_none for_acc_field tag_wrap)
qed

lemma idem: "for_acc (for_acc x a) a = for_acc x a"
proof (cases "pid_slot a = 0")
  case True
  then show ?thesis by (simp add: for_acc_slot0 tag_tag)
next
  case False
  then show ?thesis by (rule retag)
qed

end

lemma set_protocol_flag: "snd (set_protocol a c) = snd (set_protocol b c)"
  by (cases c) simp_all

lemma set_protocol_none: "\<not> snd (set_protocol a c) \<Longrightarrow> fst (set_protocol a c) = c"
  by (cases c) simp_all

lemma set_protocol_twice: "set_protocol a (fst (set_protocol b c)) = set_protocol a c"
  by (cases c) simp_all

interpretation cmds: account_tagged set_protocol CmdToAccount cmd_for_account
  by unfold_locales
    (simp_all add: set_protocol_twice set_protocol_none cmd_for_account_def case_prod_unfold
      Let_def set_protocol_flag)

lemma set_account_flag: "snd (set_account a e) = snd (set_account b e)"
  by (cases e) simp_all

lemma set_account_none: "\<not> snd (set_account a e) \<Longrightarrow> fst (set_account a e) = e"
  by (cases e) simp_all

lemma set_account_twice: "set_account a (fst (set_account b e)) = set_account a e"
  by (cases e) simp_all

interpretation evs: account_tagged set_account EvFromAccount ev_for_account
  by unfold_locales
    (simp_all add: set_account_twice set_account_none ev_for_account_def case_prod_unfold
      Let_def set_account_flag)

section \<open>Facts about the routing\<close>

lemma cmd_protocol_set: "snd (set_protocol a c) \<Longrightarrow> cmd_protocol (fst (set_protocol a c)) = a"
  by (cases c) simp_all

lemma cmd_protocol_none: "\<not> snd (set_protocol a c) \<Longrightarrow> pid_slot (cmd_protocol c) = 0"
  by (cases c) simp_all

lemma route_account: "fst (route c) = cmd_protocol c"
  by (simp add: route_def Let_def)

lemma route_slot0: "pid_slot (cmd_protocol (snd (route c))) = 0"
proof -
  have "pid_slot (cmd_protocol (fst (set_protocol (first_account a) x))) = 0" for a x
    by (cases "snd (set_protocol (first_account a) x)")
      (simp_all add: cmd_protocol_set cmd_protocol_none set_protocol_none)
  then show ?thesis by (simp add: route_def Let_def)
qed

lemma route_for_account:
  assumes "\<And>b x. c \<noteq> CmdToAccount b x" and "same_protocol (cmd_protocol c) a"
  shows "route (cmd_for_account c a) = (a, fst (set_protocol (first_account a) c))"
proof (cases "snd (set_protocol a c)")
  case True
  then have c': "cmd_for_account c a = fst (set_protocol a c)" by (rule cmds.for_acc_field)
  from True have "cmd_protocol (fst (set_protocol a c)) = a" by (rule cmd_protocol_set)
  moreover have "fst (set_protocol a c) \<noteq> CmdToAccount b x" for b x
    using assms(1) by (cases c) simp_all
  then have "(case fst (set_protocol a c) of CmdToAccount _ x \<Rightarrow> x | other \<Rightarrow> other) =
      fst (set_protocol a c)"
    by (simp split: adapter_command.splits)
  ultimately show ?thesis
    by (simp add: c' route_def Let_def set_protocol_twice)
next
  case False
  then have none: "fst (set_protocol b c) = c" for b
    using set_protocol_none set_protocol_flag by metis
  show ?thesis
  proof (cases "pid_slot a = 0")
    case True
    from False have "pid_slot (cmd_protocol c) = 0" by (rule cmd_protocol_none)
    with True assms(2) have "cmd_protocol c = a"
      by (auto simp: same_protocol_def is_primary)
    moreover have "(case c of CmdToAccount _ x \<Rightarrow> x | other \<Rightarrow> other) = c"
      using assms(1) by (simp split: adapter_command.splits)
    ultimately show ?thesis
      by (simp add: cmds.for_acc_slot0 True none route_def Let_def)
  next
    case slot: False
    with False show ?thesis
      by (simp add: cmds.for_acc_wrap route_def Let_def)
  qed
qed

lemma inbox_protocol_tagged:
  "inbox_protocol e = Some p \<Longrightarrow> inbox_protocol (ev_for_account e a) = Some a"
  by (cases e) (simp_all add: ev_for_account_def)

section \<open>Properties\<close>

text \<open>A command tagged with an account of its protocol is routed to that account, and the
  adapter sees the command as account 0 would; whatever command comes in, no adapter ever sees the
  number of another account.\<close>

theorem tagged_command_routed:
  assumes "\<And>b x. c \<noteq> CmdToAccount b x" and "same_protocol (cmd_protocol c) a"
  shows "route (cmd_for_account c a) = (a, cmd_for_account c (first_account a)) \<and>
    pid_slot (cmd_protocol (snd (route d))) = 0"
  using route_for_account [OF assms] by (simp add: cmds.for_acc_slot0 route_slot0)

theorem tagged_command_routed_witness:
  "route (cmd_for_account CmdWhatsAppCancelLink (ProtocolId WhatsApp 2)) =
     (ProtocolId WhatsApp 2, CmdWhatsAppCancelLink) \<and>
   cmd_for_account CmdWhatsAppCancelLink (ProtocolId WhatsApp 2) =
     CmdToAccount (ProtocolId WhatsApp 2) CmdWhatsAppCancelLink"
  using tagged_command_routed [of CmdWhatsAppCancelLink "ProtocolId WhatsApp 2" undefined]
  by (simp add: cmd_for_account_def same_protocol_def primary_def)

end
