(* ===== verification/Wire.thy ===== *)
theory Wire
  imports TW_Prelude
begin

text \<open>
  The lines between the app and a helper process (\<open>crates/thinwire-ipc/src/wire.rs\<close>,
  \<open>secret.rs\<close>): the requests of the app, the lines of the helper, and the wire copies of the
  adapter contract. Constructors of \<open>WireCommand\<close> carry the prefix \<open>W\<close>, those of \<open>WireEvent\<close>
  the prefix \<open>WE\<close>. The JSON text of a line is serde's work and is a parameter of the theories
  that need it.
\<close>

definition PROTOCOL_VERSION :: nat where
  "PROTOCOL_VERSION = 6"

datatype secret_text = SecretText (expose: string)

definition secret_debug :: "secret_text \<Rightarrow> string" where
  "secret_debug t = ''SecretText(<redacted>)''"

record wire_history_skip =
  ws_after_id :: "string option"
  ws_skipped :: u32

record wire_history_cursor =
  wc_before_ms :: u64
  wc_skipped :: u32
  wc_resume :: bool
  wc_runs :: "wire_history_skip list"

datatype wire_protocol = WireWhatsApp | WireSignal

datatype wire_media_kind = WirePhotoKind | WireVideoKind

record wire_file =
  wf_path :: string
  wf_kind :: wire_media_kind

datatype wire_command =
  WConnect
| WDisconnect
| WLoadChats
| WOpenChat string
| WLoadOlderMessages string string "u64 option"
| WSendText string string u64 "string option"
| WDeleteMessage string string bool
| WReact string string string bool
| WResendMessage string string u64
| WSendMedia string "wire_file list" string u64
| WViewChat "string option"
| WDownloadVoice i32
| WAcknowledgeGate
| WBeginLink u64 "secret_text option"
| WCancelLink
| WRetryStoreKey

fun command_kind :: "wire_command \<Rightarrow> string" where
  "command_kind WConnect = ''connect''"
| "command_kind WDisconnect = ''disconnect''"
| "command_kind WLoadChats = ''load_chats''"
| "command_kind (WOpenChat _) = ''open_chat''"
| "command_kind (WLoadOlderMessages _ _ _) = ''load_older_messages''"
| "command_kind (WSendText _ _ _ _) = ''send_text''"
| "command_kind (WDeleteMessage _ _ _) = ''delete_message''"
| "command_kind (WReact _ _ _ _) = ''react''"
| "command_kind (WResendMessage _ _ _) = ''resend_message''"
| "command_kind (WSendMedia _ _ _ _) = ''send_media''"
| "command_kind (WViewChat _) = ''view_chat''"
| "command_kind (WDownloadVoice _) = ''download_voice''"
| "command_kind WAcknowledgeGate = ''acknowledge_gate''"
| "command_kind (WBeginLink _ _) = ''begin_link''"
| "command_kind WCancelLink = ''cancel_link''"
| "command_kind WRetryStoreKey = ''retry_store_key''"

definition command_debug :: "wire_command \<Rightarrow> string" where
  "command_debug c = ''WireCommand('' @ command_kind c @ '')''"

definition reads_session_key :: "wire_command \<Rightarrow> bool" where
  "reads_session_key c \<longleftrightarrow> (case c of WBeginLink _ _ \<Rightarrow> True | WRetryStoreKey \<Rightarrow> True | _ \<Rightarrow> False)"

definition wakes_helper :: "wire_command \<Rightarrow> bool" where
  "wakes_helper c \<longleftrightarrow> (case c of WAcknowledgeGate \<Rightarrow> True | WBeginLink _ _ \<Rightarrow> True | _ \<Rightarrow> False)"

datatype wire_status = WStubbed | WConnecting | WReady | WRefused | WError
datatype wire_account_state = WUnlinked | WLinking | WLinked
datatype wire_delivery = WSent | WPending | WFailed
datatype wire_arrival = WHistory | WLive
datatype wire_store_access = WKeychainDenied | WWrongKey

record wire_conversation =
  wv_id :: string
  wv_title :: string
  wv_participant :: string
  wv_preview :: string
  wv_unread :: u32
  wv_order :: i64
  wv_last_at :: i64
  wv_is_group :: bool
  wv_writable :: bool
  wv_placeholder :: bool
  wv_muted :: bool

record wire_reaction =
  wr_emoji :: string
  wr_count :: u32
  wr_mine :: bool

record wire_audio =
  wa_duration :: u32
  wa_file_id :: i32

record wire_photo =
  wp_width :: u32
  wp_height :: u32
  wp_bytes :: string

definition PHOTO_MAX_BYTES :: nat where
  "PHOTO_MAX_BYTES = 512 * 1024"

record wire_message =
  wm_conversation_id :: string
  wm_id :: string
  wm_sender :: string
  wm_body :: string
  wm_outbound :: bool
  wm_delivery :: wire_delivery
  wm_sent_at :: i64
  wm_arrival :: wire_arrival
  wm_photo :: "wire_photo option"
  wm_audio :: "wire_audio option"
  wm_reactions :: "wire_reaction list"
  wm_reply_to :: "string option"

datatype wire_event =
  WEStatus wire_status string
| WEAccount wire_account_state
| WEAccountEnded
| WEConversationUpsert wire_conversation
| WEConversationRemoved string
| WEMessageReceived wire_message
| WEMessageReplaced string string wire_message
| WEMessageBody string string string
| WEMessagesRemoved string "string list"
| WEMessageDelivery string string wire_delivery
| WESendAccepted string u64
| WESendRejected string u64
| WECommandFailed "string option" string
| WENotice string
| WEChatListLoaded
| WEHistoryLoaded string "wire_history_cursor option"
| WEOlderHistoryLoaded string string bool "string option" "wire_history_cursor option"
| WEQr secret_text u64
| WEPairCode secret_text u64
| WEStoreAccess wire_store_access
| WEVoiceReady i32 string
| WEVoiceFailed i32
| WEAvatar string wire_photo
| WEReactions string string "wire_reaction list"

fun event_kind :: "wire_event \<Rightarrow> string" where
  "event_kind (WEStatus _ _) = ''status''"
| "event_kind (WEAccount _) = ''account''"
| "event_kind WEAccountEnded = ''account_ended''"
| "event_kind (WEConversationUpsert _) = ''conversation_upsert''"
| "event_kind (WEConversationRemoved _) = ''conversation_removed''"
| "event_kind (WEMessageReceived _) = ''message_received''"
| "event_kind (WEMessageReplaced _ _ _) = ''message_replaced''"
| "event_kind (WEMessageBody _ _ _) = ''message_body''"
| "event_kind (WEMessagesRemoved _ _) = ''messages_removed''"
| "event_kind (WEMessageDelivery _ _ _) = ''message_delivery''"
| "event_kind (WESendAccepted _ _) = ''send_accepted''"
| "event_kind (WESendRejected _ _) = ''send_rejected''"
| "event_kind (WECommandFailed _ _) = ''command_failed''"
| "event_kind (WENotice _) = ''notice''"
| "event_kind WEChatListLoaded = ''chat_list_loaded''"
| "event_kind (WEHistoryLoaded _ _) = ''history_loaded''"
| "event_kind (WEOlderHistoryLoaded _ _ _ _ _) = ''older_history_loaded''"
| "event_kind (WEQr _ _) = ''qr''"
| "event_kind (WEPairCode _ _) = ''pair_code''"
| "event_kind (WEStoreAccess _) = ''store_access''"
| "event_kind (WEVoiceReady _ _) = ''voice_ready''"
| "event_kind (WEVoiceFailed _) = ''voice_failed''"
| "event_kind (WEAvatar _ _) = ''avatar''"
| "event_kind (WEReactions _ _ _) = ''reactions''"

definition event_debug :: "wire_event \<Rightarrow> string" where
  "event_debug e = ''WireEvent('' @ event_kind e @ '')''"

datatype app_line = Request u64 wire_protocol wire_command | Shutdown

datatype helper_refusal = SessionInUse | NoDataDir | NoClient

datatype helper_line =
  Hello nat string "wire_protocol list"
| HRefused helper_refusal
| Ack u64
| Event wire_protocol wire_event
| HelperStopped wire_protocol

text \<open>A command that reads the session key either starts a pairing or retries the key.\<close>

lemma wakes_and_reads: "wakes_helper c \<and> reads_session_key c \<longleftrightarrow> (\<exists>g p. c = WBeginLink g p)"
  by (cases c) (simp_all add: wakes_helper_def reads_session_key_def)

end
