(* ===== verification/Frame.thy ===== *)
theory Frame
  imports TW_Prelude
begin

text \<open>
  Line framing of the pipe (\<open>crates/thinwire-ipc/src/frame.rs\<close>). A pipe is the list of what
  \<open>fill_buf\<close> returns: a non-empty chunk of bytes, or an I/O error; the end of the list is the
  end of the stream. The reader keeps the part of a line that it has read between two calls.
  JSON is serde's: \<open>encode\<close> and \<open>decode\<close> take the serializer and the parser as arguments.
\<close>

definition MAX_LINE_BYTES :: nat where
  "MAX_LINE_BYTES = 1024 * 1024"

definition LINE_END :: char where
  "LINE_END = CHR 0x0A"

datatype json_category = JsonIo | JsonSyntax | JsonData | JsonEof

datatype 'io frame_error = TooLong | NotUtf8 | Json json_category | Unexpected | Io 'io

definition encode :: "('a \<Rightarrow> json_category + string) \<Rightarrow> 'a \<Rightarrow> 'io frame_error + string" where
  "encode to_json line =
     (case to_json line of
        Inl c \<Rightarrow> Inl (Json c)
      | Inr text \<Rightarrow>
          if MAX_LINE_BYTES < length text then Inl TooLong else Inr (text @ [LINE_END]))"

definition decode :: "(string \<Rightarrow> json_category + 'a) \<Rightarrow> string \<Rightarrow> 'io frame_error + 'a" where
  "decode from_json line =
     (if MAX_LINE_BYTES < length line then Inl TooLong
      else case from_json line of Inl c \<Rightarrow> Inl (Json c) | Inr x \<Rightarrow> Inr x)"

text \<open>
  The reader: what the buffered pipe still returns, and the part of a line. \<open>fill_buf\<close> shows
  the front chunk, \<open>consume\<close> drops bytes of it.
\<close>

record 'io frame_reader =
  fr_reader :: "('io + string) list"
  fr_partial :: string

definition frame_reader_new :: "('io + string) list \<Rightarrow> 'io frame_reader" where
  "frame_reader_new reader = \<lparr>fr_reader = reader, fr_partial = []\<rparr>"

text \<open>
  \<open>next_line\<close>: one turn of the loop per chunk. \<open>Inr None\<close> is the end of the stream.
\<close>

fun next_line_from :: "('io + string) list \<Rightarrow> string \<Rightarrow>
    ('io frame_error + string option) \<times> 'io frame_reader" where
  "next_line_from [] partial = (Inr None, \<lparr>fr_reader = [], fr_partial = []\<rparr>)"
| "next_line_from (Inl e # rest) partial =
     (Inl (Io e), \<lparr>fr_reader = rest, fr_partial = partial\<rparr>)"
| "next_line_from (Inr available # rest) partial =
     (if available = [] then (Inr None, \<lparr>fr_reader = Inr available # rest, fr_partial = []\<rparr>)
      else
        let taken = length (takeWhile (\<lambda>c. c \<noteq> LINE_END) available);
            ends = taken < length available
        in if MAX_LINE_BYTES < length partial + taken
           then (Inl TooLong, \<lparr>fr_reader = Inr available # rest, fr_partial = partial\<rparr>)
           else
             let partial' = partial @ take taken available;
                 left = drop (taken + (if ends then 1 else 0)) available;
                 rest' = (if left = [] then rest else Inr left # rest)
             in if ends
                then ((if valid_utf8 partial' then Inr (Some partial') else Inl NotUtf8),
                      \<lparr>fr_reader = rest', fr_partial = []\<rparr>)
                else next_line_from rest partial')"

definition next_line :: "'io frame_reader \<Rightarrow> ('io frame_error + string option) \<times> 'io frame_reader" where
  "next_line r = next_line_from (fr_reader r) (fr_partial r)"

definition next_value :: "(string \<Rightarrow> json_category + 'a) \<Rightarrow> 'io frame_reader \<Rightarrow>
    ('io frame_error + 'a option) \<times> 'io frame_reader" where
  "next_value from_json r =
     (case next_line r of
        (Inl e, r') \<Rightarrow> (Inl e, r')
      | (Inr None, r') \<Rightarrow> (Inr None, r')
      | (Inr (Some line), r') \<Rightarrow>
          ((case decode from_json line of Inl e \<Rightarrow> Inl e | Inr x \<Rightarrow> Inr (Some x)), r'))"

section \<open>What a reader returns, whatever the chunks\<close>

text \<open>A pipe that did not fail: every chunk holds at least one byte.\<close>

definition healthy :: "('io + string) list \<Rightarrow> bool" where
  "healthy cs = list_all (\<lambda>c. case c of Inl _ \<Rightarrow> False | Inr b \<Rightarrow> b \<noteq> []) cs"

definition pipe_bytes :: "('io + string) list \<Rightarrow> string" where
  "pipe_bytes cs = concat (map (\<lambda>c. case c of Inl _ \<Rightarrow> [] | Inr b \<Rightarrow> b) cs)"

lemma healthy_simps [simp]:
  "healthy []" "healthy (Inr b # cs) \<longleftrightarrow> b \<noteq> [] \<and> healthy cs" "\<not> healthy (Inl e # cs)"
  by (simp_all add: healthy_def)

lemma pipe_bytes_simps [simp]:
  "pipe_bytes [] = []" "pipe_bytes (Inr b # cs) = b @ pipe_bytes cs"
  by (simp_all add: pipe_bytes_def)

definition line_of :: "string \<Rightarrow> string" where
  "line_of bytes = takeWhile (\<lambda>c. c \<noteq> LINE_END) bytes"

lemma line_of_append: "LINE_END \<notin> set xs \<Longrightarrow> line_of (xs @ ys) = xs @ line_of ys"
  unfolding line_of_def by (rule takeWhile_append2) auto

lemma line_of_whole: "LINE_END \<notin> set xs \<Longrightarrow> line_of xs = xs"
  by (auto simp: line_of_def takeWhile_eq_all_conv)

lemma takeWhile_no_end: "LINE_END \<notin> set xs \<Longrightarrow> takeWhile (\<lambda>c. c \<noteq> LINE_END) xs = xs"
  by (auto simp: takeWhile_eq_all_conv)

lemma line_of_line: "LINE_END \<notin> set xs \<Longrightarrow> line_of (xs @ LINE_END # ys) = xs"
  unfolding line_of_append by (simp add: line_of_def)

text \<open>What the next call gives, as a function of the bytes alone.\<close>

definition line_result :: "string \<Rightarrow> 'io frame_error + string option" where
  "line_result bytes =
     (if MAX_LINE_BYTES < length (line_of bytes) then Inl TooLong
      else if LINE_END \<in> set bytes
      then (if valid_utf8 (line_of bytes) then Inr (Some (line_of bytes)) else Inl NotUtf8)
      else Inr None)"

lemma take_length_takeWhile: "take (length (takeWhile P xs)) xs = takeWhile P xs"
  by (metis takeWhile_eq_take)

lemma taken_less_iff:
  "length (takeWhile (\<lambda>c. c \<noteq> d) xs) < length xs \<longleftrightarrow> d \<in> set xs"
  by (induction xs) auto

lemma next_line_from_spec:
  assumes "healthy rs" and "LINE_END \<notin> set partial" and "length partial \<le> MAX_LINE_BYTES"
  shows "fst (next_line_from rs partial) = line_result (partial @ pipe_bytes rs)"
  using assms
proof (induction rs partial rule: next_line_from.induct)
  case (1 partial)
  then show ?case by (simp add: line_result_def line_of_whole)
next
  case (2 e rest partial)
  then show ?case by simp
next
  case (3 available rest partial)
  define taken where "taken = length (takeWhile (\<lambda>c. c \<noteq> LINE_END) available)"
  have ne: "available \<noteq> []" and h: "healthy rest" using "3.prems"(1) by simp_all
  have t: "take taken available = line_of available"
    by (simp add: taken_def line_of_def take_length_takeWhile)
  have len: "taken = length (line_of available)"
    by (simp add: taken_def line_of_def)
  show ?case
  proof (cases "MAX_LINE_BYTES < length partial + taken")
    case True
    have "length (line_of available) \<le> length (line_of (available @ pipe_bytes rest))"
      by (simp add: line_of_def takeWhile_append trans_le_add1 length_takeWhile_le)
    with True len have "MAX_LINE_BYTES < length (line_of (partial @ available @ pipe_bytes rest))"
      by (simp add: line_of_append "3.prems"(2))
    with True ne show ?thesis by (simp add: line_result_def taken_def)
  next
    case False
    show ?thesis
    proof (cases "LINE_END \<in> set available")
      case True
      then have "taken < length available" by (simp add: taken_def taken_less_iff)
      moreover from True have "line_of (partial @ available @ pipe_bytes rest) = partial @ line_of available"
        by (simp add: line_of_append "3.prems"(2)) (simp add: line_of_def)
      ultimately show ?thesis
        using False True ne t len by (simp add: line_result_def taken_def [symmetric] Let_def)
    next
      case noend: False
      then have all: "taken = length available" and la: "line_of available = available"
        by (simp_all add: len line_of_whole)
      have "LINE_END \<notin> set (partial @ available)" and "length (partial @ available) \<le> MAX_LINE_BYTES"
        using "3.prems"(2) noend False all by simp_all
      then have "fst (next_line_from rest (partial @ available)) =
          line_result ((partial @ available) @ pipe_bytes rest)"
        using "3.IH" [OF ne taken_def refl _ refl refl refl] h False noend all t la
        by (simp add: taken_less_iff)
      then show ?thesis
        using False all ne by (simp add: taken_def [symmetric] Let_def)
    qed
  qed
qed

text \<open>After a whole line, the reader has exactly the bytes behind its line end.\<close>

lemma next_line_from_rest:
  assumes "healthy rs" and "LINE_END \<notin> set partial"
    and "next_line_from rs partial = (Inr (Some line), r')"
  shows "healthy (fr_reader r') \<and> fr_partial r' = []
     \<and> partial @ pipe_bytes rs = line @ LINE_END # pipe_bytes (fr_reader r')"
  using assms
proof (induction rs partial rule: next_line_from.induct)
  case (3 available rest partial)
  define taken where "taken = length (takeWhile (\<lambda>c. c \<noteq> LINE_END) available)"
  have ne: "available \<noteq> []" and h: "healthy rest" using "3.prems"(1) by simp_all
  show ?case
  proof (cases "MAX_LINE_BYTES < length partial + taken")
    case True
    with ne "3.prems"(3) show ?thesis by (simp add: taken_def Let_def)
  next
    case False
    show ?thesis
    proof (cases "LINE_END \<in> set available")
      case True
      then have lt: "taken < length available" by (simp add: taken_def taken_less_iff)
      have "available ! taken = LINE_END"
        using nth_length_takeWhile [of "\<lambda>c. c \<noteq> LINE_END" available] lt by (simp add: taken_def)
      then have av: "available = take taken available @ LINE_END # drop (Suc taken) available"
        using id_take_nth_drop [OF lt] by simp
      from "3.prems"(3) False lt ne have line: "line = partial @ take taken available"
        and r': "r' = \<lparr>fr_reader = (if drop (Suc taken) available = [] then rest
                     else Inr (drop (Suc taken) available) # rest), fr_partial = []\<rparr>"
        by (auto simp: taken_def [symmetric] Let_def split: if_splits)
      have "pipe_bytes (fr_reader r') = drop (Suc taken) available @ pipe_bytes rest"
        by (simp add: r')
      then have "partial @ pipe_bytes (Inr available # rest) =
          line @ LINE_END # pipe_bytes (fr_reader r')"
        by (subst av) (simp add: line)
      with h show ?thesis by (simp add: r')
    next
      case noend: False
      then have all: "taken = length available"
        using taken_less_iff [of LINE_END available] length_takeWhile_le [of _ available]
        by (metis taken_def le_neq_implies_less)
      from noend "3.prems"(2) have "LINE_END \<notin> set (partial @ available)" by simp
      moreover have "next_line_from rest (partial @ available) = (Inr (Some line), r')"
        using "3.prems"(3) False all ne by (simp add: taken_def [symmetric] Let_def)
      ultimately show ?thesis
        using "3.IH" [OF ne taken_def refl _ refl refl refl] h False all by simp
    qed
  qed
qed simp_all

text \<open>
  Cancel safety: a call that read chunks with no line end and was dropped leaves the bytes in
  \<open>partial\<close>, and the next call gives what the dropped one would have given.
\<close>

lemma next_line_resume:
  assumes "\<And>c. c \<in> set cs \<Longrightarrow> c \<noteq> [] \<and> LINE_END \<notin> set c"
    and "length (partial @ concat cs) \<le> MAX_LINE_BYTES"
  shows "next_line_from (map Inr cs @ rest) partial = next_line_from rest (partial @ concat cs)"
  using assms
proof (induction cs arbitrary: partial)
  case Nil
  then show ?case by simp
next
  case (Cons c cs)
  then have c: "c \<noteq> []" "LINE_END \<notin> set c" by auto
  with c Cons.prems(2)
  have "next_line_from (map Inr (c # cs) @ rest) partial =
      next_line_from (map Inr cs @ rest) (partial @ c)"
    by (simp add: Let_def takeWhile_no_end)
  also have "\<dots> = next_line_from rest ((partial @ c) @ concat cs)"
    by (rule Cons.IH) (use Cons.prems in auto)
  finally show ?case by simp
qed

section \<open>A whole session\<close>

text \<open>The values of the next \<open>n\<close> calls, up to the first end or error.\<close>

fun read_values :: "(string \<Rightarrow> json_category + 'a) \<Rightarrow> nat \<Rightarrow> 'io frame_reader \<Rightarrow> 'a list \<times> 'io frame_reader" where
  "read_values from_json 0 r = ([], r)"
| "read_values from_json (Suc n) r =
     (case next_value from_json r of
        (Inr (Some x), r') \<Rightarrow> (let (xs, r'') = read_values from_json n r' in (x # xs, r''))
      | (_, r') \<Rightarrow> ([], r'))"

text \<open>\<open>write_line\<close> for a list of values: the bytes in the pipe, up to the first line that does not encode.\<close>

fun write_lines :: "('a \<Rightarrow> json_category + string) \<Rightarrow> 'a list \<Rightarrow> string" where
  "write_lines to_json [] = []"
| "write_lines to_json (x # xs) =
     (case encode to_json x of
        Inl (e :: unit frame_error) \<Rightarrow> []
      | Inr text \<Rightarrow> text @ write_lines to_json xs)"

lemma next_line_line:
  assumes "healthy (fr_reader r)" and "fr_partial r = []"
    and "pipe_bytes (fr_reader r) = text @ LINE_END # more_bytes"
    and "LINE_END \<notin> set text" and "length text \<le> MAX_LINE_BYTES" and "valid_utf8 text"
  shows "\<exists>r'. next_line r = (Inr (Some text), r') \<and> healthy (fr_reader r') \<and> fr_partial r' = []
     \<and> pipe_bytes (fr_reader r') = more_bytes"
proof -
  have "fst (next_line r) = Inr (Some text)"
    using next_line_from_spec [OF assms(1), of "[]"] assms
    by (simp add: next_line_def line_result_def line_of_line MAX_LINE_BYTES_def)
  then obtain r' where r': "next_line_from (fr_reader r) [] = (Inr (Some text), r')"
    using assms(2) by (cases "next_line r") (auto simp: next_line_def)
  from next_line_from_rest [OF assms(1) _ this] assms(2,3) r' show ?thesis
    by (auto simp: next_line_def)
qed

lemma read_written:
  assumes "healthy (fr_reader r)" and "fr_partial r = []"
    and "pipe_bytes (fr_reader r) = write_lines to_json xs @ tail"
    and "\<And>x. x \<in> set xs \<Longrightarrow> \<exists>text. to_json x = Inr text \<and> from_json text = Inr x
        \<and> LINE_END \<notin> set text \<and> valid_utf8 text \<and> length text \<le> MAX_LINE_BYTES"
  shows "fst (read_values from_json (length xs) r) = xs
     \<and> pipe_bytes (fr_reader (snd (read_values from_json (length xs) r))) = tail
     \<and> healthy (fr_reader (snd (read_values from_json (length xs) r)))
     \<and> fr_partial (snd (read_values from_json (length xs) r)) = []"
  using assms
proof (induction xs arbitrary: r)
  case Nil
  then show ?case by simp
next
  case (Cons x xs)
  from Cons.prems(4) [of x] obtain body where
    body: "to_json x = Inr body" "from_json body = Inr x" "LINE_END \<notin> set body" "valid_utf8 body"
      "length body \<le> MAX_LINE_BYTES" by auto
  then have "pipe_bytes (fr_reader r) = body @ LINE_END # (write_lines to_json xs @ tail)"
    using Cons.prems(3) by (simp add: encode_def)
  from next_line_line [OF Cons.prems(1,2) this body(3,5,4)] obtain r' where
    r': "next_line r = (Inr (Some body), r')" "healthy (fr_reader r')" "fr_partial r' = []"
      "pipe_bytes (fr_reader r') = write_lines to_json xs @ tail" by auto
  have v: "next_value from_json r = (Inr (Some x), r')"
    using r'(1) body(2,5) by (simp add: next_value_def decode_def)
  have "fst (read_values from_json (length xs) r') = xs
     \<and> pipe_bytes (fr_reader (snd (read_values from_json (length xs) r'))) = tail
     \<and> healthy (fr_reader (snd (read_values from_json (length xs) r')))
     \<and> fr_partial (snd (read_values from_json (length xs) r')) = []"
    using Cons.prems(4) by (intro Cons.IH r') auto
  then show ?case by (simp add: v case_prod_unfold Let_def)
qed

section \<open>Properties\<close>

text \<open>C40: How the pipe splits the bytes does not matter: two pipes with the same bytes give the same
  next line, error or end.\<close>

theorem chunks_do_not_matter:
  assumes "healthy cs" and "healthy ds" and "pipe_bytes cs = pipe_bytes ds"
    and "LINE_END \<notin> set partial" and "length partial \<le> MAX_LINE_BYTES"
  shows "fst (next_value from_json \<lparr>fr_reader = cs, fr_partial = partial\<rparr>) =
    fst (next_value from_json \<lparr>fr_reader = ds, fr_partial = partial\<rparr>)"
proof -
  have "fst (next_line \<lparr>fr_reader = cs, fr_partial = partial\<rparr>) = fst (next_line \<lparr>fr_reader = ds, fr_partial = partial\<rparr>)"
    using next_line_from_spec [OF assms(1,4,5)] next_line_from_spec [OF assms(2,4,5)] assms(3)
    by (simp add: next_line_def)
  then show ?thesis
    by (cases "next_line \<lparr>fr_reader = cs, fr_partial = partial\<rparr>";
        cases "next_line \<lparr>fr_reader = ds, fr_partial = partial\<rparr>")
      (auto simp: next_value_def split: sum.split option.split)
qed

theorem chunks_do_not_matter_witness:
  "fst (next_value Inr \<lparr>fr_reader = [Inr ''a'', Inr ''b\<newline>c''] :: (unit + string) list, fr_partial = []\<rparr>) =
     Inr (Some ''ab'')"
proof -
  have "fst (next_value Inr \<lparr>fr_reader = [Inr ''a'', Inr ''b\<newline>c''] :: (unit + string) list, fr_partial = []\<rparr>) =
      fst (next_value Inr \<lparr>fr_reader = [Inr ''ab\<newline>c''] :: (unit + string) list, fr_partial = []\<rparr>)"
    by (rule chunks_do_not_matter) simp_all
  also have "valid_utf8 ''ab''" by code_simp
  then have "fst (next_value Inr \<lparr>fr_reader = [Inr ''ab\<newline>c''] :: (unit + string) list, fr_partial = []\<rparr>) =
      Inr (Some ''ab'')"
    by (simp add: next_value_def next_line_def LINE_END_def MAX_LINE_BYTES_def decode_def)
  finally show ?thesis .
qed

text \<open>A read that was dropped midway loses nothing: after it took any chunks with no line end, the
  next call gives what a call that was never dropped gives, and leaves the same reader.\<close>

theorem dropped_read_loses_nothing:
  assumes "\<And>c. c \<in> set cs \<Longrightarrow> c \<noteq> [] \<and> LINE_END \<notin> set c"
    and "length (partial @ concat cs) \<le> MAX_LINE_BYTES"
  shows "next_value from_json \<lparr>fr_reader = map Inr cs @ rest, fr_partial = partial\<rparr> =
    next_value from_json \<lparr>fr_reader = rest, fr_partial = partial @ concat cs\<rparr>"
  using next_line_resume [OF assms, of rest] by (simp add: next_value_def next_line_def)

theorem dropped_read_loses_nothing_witness:
  "next_value Inr \<lparr>fr_reader = [Inr ''a'', Inr ''b\<newline>''] :: (unit + string) list, fr_partial = []\<rparr> =
     next_value Inr \<lparr>fr_reader = [Inr ''b\<newline>''], fr_partial = ''a''\<rparr>"
  using dropped_read_loses_nothing [of "[''a'']" "[]" Inr "[Inr ''b\<newline>''] :: (unit + string) list"]
  by (simp add: LINE_END_def MAX_LINE_BYTES_def)

text \<open>C7: What is written is read back: the values of a session come out in order and complete,
  however the pipe splits them, when each of them is one JSON line within the limit; and a line over
  the limit is refused on both sides, so it never crosses.\<close>

theorem written_session_read_back:
  assumes "healthy cs" and "pipe_bytes cs = write_lines to_json xs @ tail"
    and "\<And>x. x \<in> set xs \<Longrightarrow> \<exists>text. to_json x = Inr text \<and> from_json text = Inr x
        \<and> LINE_END \<notin> set text \<and> valid_utf8 text \<and> length text \<le> MAX_LINE_BYTES"
  shows "fst (read_values from_json (length xs) (frame_reader_new cs)) = xs \<and>
    pipe_bytes (fr_reader (snd (read_values from_json (length xs) (frame_reader_new cs)))) = tail \<and>
    (to_json y = Inr line \<and> MAX_LINE_BYTES < length line \<longrightarrow>
       encode to_json y = Inl TooLong \<and> decode from_json line = Inl TooLong)"
  using read_written [of "frame_reader_new cs" to_json xs tail from_json] assms
  by (simp add: frame_reader_new_def encode_def decode_def)

theorem written_session_read_back_witness:
  "write_lines Inr [''hi'', ''you''] = ''hi\<newline>you\<newline>'' \<and>
   fst (read_values Inr 2 (frame_reader_new [Inr ''hi\<newline>y'' :: unit + string, Inr ''ou\<newline>''])) = [''hi'', ''you'']"
proof -
  have w: "write_lines Inr [''hi'', ''you''] = ''hi\<newline>you\<newline>''"
    by (simp add: encode_def LINE_END_def MAX_LINE_BYTES_def)
  have v: "valid_utf8 ''hi''" "valid_utf8 ''you''" by code_simp+
  have "fst (read_values Inr (length [''hi'', ''you'']) (frame_reader_new [Inr ''hi\<newline>y'' :: unit + string, Inr ''ou\<newline>''])) =
      [''hi'', ''you'']"
    by (rule written_session_read_back [where to_json = Inr and tail = "[]", THEN conjunct1])
      (use v w in \<open>auto simp: LINE_END_def MAX_LINE_BYTES_def\<close>)
  moreover have "length [''hi'', ''you''] = 2" by simp
  ultimately show ?thesis using w by metis
qed

end
