(* ===== verification/Convert.thy ===== *)
theory Convert
  imports Commands Wire
begin

text \<open>
  The maps between the adapter contract and the wire (\<open>crates/thinwire-protocol/src/helper/convert.rs\<close>).
  A value crosses the pipe as it is, as a canonical copy, or not at all; the \<open>_crosses\<close>
  predicates say which values are kept exactly. A path is its UTF-8 text, and \<open>Path::is_absolute\<close>
  is the Unix rule.
\<close>

definition wire_protocol_of :: "protocol_id \<Rightarrow> wire_protocol option" where
  "wire_protocol_of p =
     (case pid_kind p of
        WhatsApp \<Rightarrow> Some WireWhatsApp
      | Signal \<Rightarrow> Some WireSignal
      | _ \<Rightarrow> None)"

section \<open>Values\<close>

fun status_to_wire :: "adapter_status \<Rightarrow> wire_status" where
  "status_to_wire Stubbed = WStubbed"
| "status_to_wire Connecting = WConnecting"
| "status_to_wire Ready = WReady"
| "status_to_wire StRefused = WRefused"
| "status_to_wire StError = WError"

fun status_from_wire :: "wire_status \<Rightarrow> adapter_status" where
  "status_from_wire WStubbed = Stubbed"
| "status_from_wire WConnecting = Connecting"
| "status_from_wire WReady = Ready"
| "status_from_wire WRefused = StRefused"
| "status_from_wire WError = StError"

fun account_to_wire :: "account_state \<Rightarrow> wire_account_state" where
  "account_to_wire Unlinked = WUnlinked"
| "account_to_wire Linking = WLinking"
| "account_to_wire Linked = WLinked"

fun account_from_wire :: "wire_account_state \<Rightarrow> account_state" where
  "account_from_wire WUnlinked = Unlinked"
| "account_from_wire WLinking = Linking"
| "account_from_wire WLinked = Linked"

fun delivery_to_wire :: "delivery \<Rightarrow> wire_delivery" where
  "delivery_to_wire Sent = WSent"
| "delivery_to_wire Read = WSent"
| "delivery_to_wire Pending = WPending"
| "delivery_to_wire Failed = WFailed"

fun delivery_from_wire :: "wire_delivery \<Rightarrow> delivery" where
  "delivery_from_wire WSent = Sent"
| "delivery_from_wire WPending = Pending"
| "delivery_from_wire WFailed = Failed"

fun arrival_to_wire :: "arrival \<Rightarrow> wire_arrival" where
  "arrival_to_wire History = WHistory"
| "arrival_to_wire Live = WLive"

fun arrival_from_wire :: "wire_arrival \<Rightarrow> arrival" where
  "arrival_from_wire WHistory = History"
| "arrival_from_wire WLive = Live"

definition reactions_to_wire :: "reaction list \<Rightarrow> wire_reaction list" where
  "reactions_to_wire rs =
     map (\<lambda>r. \<lparr>wr_emoji = rc_emoji r, wr_count = rc_count r, wr_mine = rc_mine r\<rparr>) rs"

definition reactions_from_wire :: "wire_reaction list \<Rightarrow> reaction list" where
  "reactions_from_wire ws =
     map (\<lambda>w. \<lparr>rc_emoji = wr_emoji w, rc_count = wr_count w, rc_mine = wr_mine w\<rparr>)
       (filter (\<lambda>w. wr_emoji w \<noteq> [] \<and> 0 < wr_count w) ws)"

definition cursor_to_wire :: "history_store_cursor \<Rightarrow> wire_history_cursor" where
  "cursor_to_wire c =
     \<lparr>wc_before_ms = hc_before_ms c, wc_skipped = hc_skipped c, wc_resume = hc_resume c,
      wc_runs = map (\<lambda>r. \<lparr>ws_after_id = hs_after_id r, ws_skipped = hs_skipped r\<rparr>) (hc_runs c)\<rparr>"

definition MAX_HISTORY_CURSOR_RUNS :: nat where
  "MAX_HISTORY_CURSOR_RUNS = 208"

definition bounded_skip_runs :: "wire_history_skip list \<Rightarrow> u32 \<Rightarrow> history_skip_run list" where
  "bounded_skip_runs runs skipped =
     (if runs = [] then []
      else
        let kept = map (\<lambda>r. \<lparr>hs_after_id = ws_after_id r, hs_skipped = ws_skipped r\<rparr>)
                     (take MAX_HISTORY_CURSOR_RUNS (filter (\<lambda>r. 0 < ws_skipped r) runs));
            total = foldl (\<lambda>total r. sat_add32 total (hs_skipped r)) 0 kept
        in if total \<noteq> skipped then [] else kept)"

definition cursor_from_wire :: "wire_history_cursor \<Rightarrow> history_store_cursor" where
  "cursor_from_wire w =
     \<lparr>hc_before_ms = wc_before_ms w, hc_skipped = wc_skipped w, hc_resume = wc_resume w,
      hc_runs = bounded_skip_runs (wc_runs w) (wc_skipped w)\<rparr>"

definition conversation_to_wire :: "conversation \<Rightarrow> wire_conversation" where
  "conversation_to_wire c =
     \<lparr>wv_id = cv_id c, wv_title = cv_title c, wv_participant = cv_participant c,
      wv_preview = cv_preview c, wv_unread = cv_unread c, wv_order = cv_order c,
      wv_last_at = cv_last_at c, wv_is_group = cv_is_group c, wv_writable = cv_writable c,
      wv_placeholder = cv_placeholder c, wv_muted = cv_muted c\<rparr>"

definition conversation_from_wire :: "protocol_id \<Rightarrow> wire_conversation \<Rightarrow> conversation" where
  "conversation_from_wire p w =
     \<lparr>cv_protocol = p, cv_id = wv_id w, cv_title = wv_title w, cv_participant = wv_participant w,
      cv_preview = wv_preview w, cv_unread = wv_unread w, cv_order = wv_order w,
      cv_last_at = wv_last_at w, cv_is_group = wv_is_group w, cv_writable = wv_writable w,
      cv_placeholder = wv_placeholder w, cv_muted = wv_muted w, cv_has_topics = False,
      cv_avatar = default_avatar\<rparr>"

definition audio_to_wire :: "message_audio \<Rightarrow> wire_audio option" where
  "audio_to_wire a =
     (if 0 < ma_file_id a
      then Some \<lparr>wa_duration = ma_duration a, wa_file_id = ma_file_id a\<rparr> else None)"

definition photo_to_wire :: "message_photo \<Rightarrow> wire_photo option" where
  "photo_to_wire photo =
     (case find (\<lambda>s. ps_bytes s \<noteq> None) (mp_sizes photo) of
        None \<Rightarrow> None
      | Some s \<Rightarrow>
          (case ps_bytes s of
             None \<Rightarrow> None
           | Some b \<Rightarrow>
               if image_slice b = [] \<or> PHOTO_MAX_BYTES < length (image_slice b) then None
               else Some \<lparr>wp_width = ps_width s, wp_height = ps_height s,
                          wp_bytes = image_slice b\<rparr>))"

definition photo_from_wire :: "wire_photo \<Rightarrow> message_photo option" where
  "photo_from_wire w =
     (if wp_bytes w = [] then None
      else Some \<lparr>mp_width = wp_width w, mp_height = wp_height w, mp_mini = None,
                 mp_sizes = [\<lparr>ps_width = wp_width w, ps_height = wp_height w, ps_file_id = None,
                              ps_path = None, ps_bytes = Some (ImageBytes (wp_bytes w))\<rparr>],
                 mp_has_spoiler = False, mp_is_secret = False, mp_failed = False\<rparr>)"

definition message_to_wire :: "chat_message \<Rightarrow> wire_message" where
  "message_to_wire m =
     \<lparr>wm_conversation_id = cm_conversation_id m, wm_id = cm_id m, wm_sender = cm_sender m,
      wm_body = cm_body m, wm_outbound = cm_outbound m,
      wm_delivery = delivery_to_wire (cm_delivery m), wm_sent_at = cm_sent_at m,
      wm_arrival = arrival_to_wire (cm_arrival m),
      wm_photo = Option.bind (cm_photo m) photo_to_wire,
      wm_audio = Option.bind (cm_audio m) audio_to_wire,
      wm_reactions = reactions_to_wire (cm_reactions m), wm_reply_to = cm_reply_to m\<rparr>"

definition message_from_wire :: "protocol_id \<Rightarrow> wire_message \<Rightarrow> chat_message" where
  "message_from_wire p w =
     \<lparr>cm_protocol = p, cm_conversation_id = wm_conversation_id w, cm_id = wm_id w,
      cm_sender = wm_sender w, cm_body = wm_body w, cm_outbound = wm_outbound w,
      cm_delivery = delivery_from_wire (wm_delivery w), cm_sent_at = wm_sent_at w,
      cm_arrival = arrival_from_wire (wm_arrival w), cm_topic = None, cm_links = [],
      cm_photo = Option.bind (wm_photo w) photo_from_wire,
      cm_audio = Option.bind (wm_audio w)
                   (\<lambda>a. message_audio_new (wa_duration a) (wa_file_id a) None),
      cm_video = None, cm_file = None, cm_reactions = reactions_from_wire (wm_reactions w),
      cm_reply_to = wm_reply_to w, cm_edited = False\<rparr>"

definition path_is_absolute :: "string \<Rightarrow> bool" where
  "path_is_absolute path \<longleftrightarrow> starts_with ''/'' path"

section \<open>Commands\<close>

definition file_to_wire :: "outgoing_file \<Rightarrow> wire_file" where
  "file_to_wire f = \<lparr>wf_path = of_path f,
     wf_kind = (case of_kind f of MediaPhoto \<Rightarrow> WirePhotoKind | MediaVideo \<Rightarrow> WireVideoKind)\<rparr>"

definition file_from_wire :: "wire_file \<Rightarrow> outgoing_file" where
  "file_from_wire f = \<lparr>of_path = wf_path f,
     of_kind = (case wf_kind f of WirePhotoKind \<Rightarrow> MediaPhoto | WireVideoKind \<Rightarrow> MediaVideo)\<rparr>"

definition command_to_wire ::
    "protocol_id \<Rightarrow> adapter_command \<Rightarrow> string option \<Rightarrow> wire_command option" where
  "command_to_wire p c phone =
     (if cmd_protocol c \<noteq> p then None
      else case c of
        CmdConnect _ \<Rightarrow> Some WConnect
      | CmdDisconnect _ \<Rightarrow> Some WDisconnect
      | CmdLoadChats _ \<Rightarrow> Some WLoadChats
      | CmdOpenChat _ chat \<Rightarrow> Some (WOpenChat chat)
      | CmdLoadOlderMessages _ chat before cursor \<Rightarrow> Some (WLoadOlderMessages chat before cursor)
      | CmdSendText _ chat body request reply_to \<Rightarrow> Some (WSendText chat body request reply_to)
      | CmdDeleteMessage _ chat message everyone \<Rightarrow> Some (WDeleteMessage chat message everyone)
      | CmdReact _ chat message emoji add \<Rightarrow> Some (WReact chat message emoji add)
      | CmdSendMedia _ chat topic files caption request \<Rightarrow>
          (case topic of
             None \<Rightarrow> Some (WSendMedia chat (map file_to_wire files) caption request)
           | Some _ \<Rightarrow> None)
      | CmdResendMessage _ chat message request \<Rightarrow> Some (WResendMessage chat message request)
      | CmdViewChat _ chat \<Rightarrow> Some (WViewChat chat)
      | CmdWhatsAppAcknowledgeRisk \<Rightarrow> Some WAcknowledgeGate
      | CmdSignalAcknowledgeNotice \<Rightarrow> Some WAcknowledgeGate
      | CmdWhatsAppBeginLink generation \<Rightarrow>
          Some (WBeginLink generation (map_option SecretText phone))
      | CmdSignalBeginLink generation \<Rightarrow>
          Some (WBeginLink generation (map_option SecretText phone))
      | CmdWhatsAppCancelLink \<Rightarrow> Some WCancelLink
      | CmdSignalCancelLink \<Rightarrow> Some WCancelLink
      | CmdRetryStoreKey _ \<Rightarrow> Some WRetryStoreKey
      | CmdDownloadVoice _ file_id \<Rightarrow> Some (WDownloadVoice file_id)
      | _ \<Rightarrow> None)"

definition for_whatsapp_or_signal :: "protocol_id \<Rightarrow> 'a \<Rightarrow> 'a \<Rightarrow> 'a option" where
  "for_whatsapp_or_signal p on_whatsapp on_signal =
     (if p = primary WhatsApp then Some on_whatsapp
      else if p = primary Signal then Some on_signal else None)"

definition command_from_wire ::
    "protocol_id \<Rightarrow> wire_command \<Rightarrow> (adapter_command \<times> secret_text option) option" where
  "command_from_wire p w =
     (case w of
        WConnect \<Rightarrow> Some (CmdConnect p, None)
      | WDisconnect \<Rightarrow> Some (CmdDisconnect p, None)
      | WLoadChats \<Rightarrow> Some (CmdLoadChats p, None)
      | WOpenChat chat \<Rightarrow> Some (CmdOpenChat p chat, None)
      | WLoadOlderMessages chat before cursor \<Rightarrow>
          Some (CmdLoadOlderMessages p chat before cursor, None)
      | WSendText chat body request reply_to \<Rightarrow> Some (CmdSendText p chat body request reply_to, None)
      | WDeleteMessage chat message everyone \<Rightarrow> Some (CmdDeleteMessage p chat message everyone, None)
      | WReact chat message emoji add \<Rightarrow> Some (CmdReact p chat message emoji add, None)
      | WSendMedia chat files caption request \<Rightarrow>
          Some (CmdSendMedia p chat None (map file_from_wire files) caption request, None)
      | WResendMessage chat message request \<Rightarrow> Some (CmdResendMessage p chat message request, None)
      | WViewChat chat \<Rightarrow> Some (CmdViewChat p chat, None)
      | WAcknowledgeGate \<Rightarrow>
          map_option (\<lambda>c. (c, None))
            (for_whatsapp_or_signal p CmdWhatsAppAcknowledgeRisk CmdSignalAcknowledgeNotice)
      | WBeginLink generation phone \<Rightarrow>
          map_option (\<lambda>c. (c, phone))
            (for_whatsapp_or_signal p (CmdWhatsAppBeginLink generation) (CmdSignalBeginLink generation))
      | WCancelLink \<Rightarrow>
          map_option (\<lambda>c. (c, None))
            (for_whatsapp_or_signal p CmdWhatsAppCancelLink CmdSignalCancelLink)
      | WRetryStoreKey \<Rightarrow> Some (CmdRetryStoreKey p, None)
      | WDownloadVoice file_id \<Rightarrow> Some (CmdDownloadVoice p file_id, None))"

section \<open>Events\<close>

definition event_to_wire :: "protocol_id \<Rightarrow> adapter_event \<Rightarrow> wire_event option" where
  "event_to_wire p ev =
     (case ev of
        EvStatus seen status detail \<Rightarrow>
          if seen = p then Some (WEStatus (status_to_wire status) detail) else None
      | EvStoreAccess seen reason \<Rightarrow>
          if seen = p then
            (case reason of
               KeychainDenied \<Rightarrow> Some (WEStoreAccess WKeychainDenied)
             | WrongKey \<Rightarrow> Some (WEStoreAccess WWrongKey)
             | MoveFailed \<Rightarrow> None)
          else None
      | EvAccount seen state \<Rightarrow>
          if seen = p then Some (WEAccount (account_to_wire state)) else None
      | EvAccountEnded seen \<Rightarrow> if seen = p then Some WEAccountEnded else None
      | EvConversationUpsert c \<Rightarrow>
          if cv_protocol c = p then Some (WEConversationUpsert (conversation_to_wire c)) else None
      | EvConversationRemoved seen i \<Rightarrow> if seen = p then Some (WEConversationRemoved i) else None
      | EvMessageReceived m \<Rightarrow>
          if cm_protocol m = p then Some (WEMessageReceived (message_to_wire m)) else None
      | EvMessageReplaced seen chat old_id m \<Rightarrow>
          if seen = p \<and> cm_protocol m = p
          then Some (WEMessageReplaced chat old_id (message_to_wire m)) else None
      | EvMessageBody seen chat i body \<Rightarrow>
          if seen = p then Some (WEMessageBody chat i body) else None
      | EvMessagesRemoved seen chat ids \<Rightarrow>
          if seen = p then Some (WEMessagesRemoved chat ids) else None
      | EvMessageDelivery seen chat i d \<Rightarrow>
          if seen = p then Some (WEMessageDelivery chat i (delivery_to_wire d)) else None
      | EvSendAccepted seen chat request \<Rightarrow>
          if seen = p then Some (WESendAccepted chat request) else None
      | EvSendRejected seen chat request \<Rightarrow>
          if seen = p then Some (WESendRejected chat request) else None
      | EvCommandFailed seen chat detail \<Rightarrow>
          if seen = p then Some (WECommandFailed chat detail) else None
      | EvNotice seen note \<Rightarrow> if seen = p then Some (WENotice note) else None
      | EvVoiceReady seen file_id path \<Rightarrow>
          if seen = p then Some (WEVoiceReady file_id (audio_path_str path)) else None
      | EvVoiceFailed seen file_id \<Rightarrow> if seen = p then Some (WEVoiceFailed file_id) else None
      | EvChatAvatar seen chat b \<Rightarrow>
          if seen = p \<and> \<not> image_is_empty b \<and> length (image_slice b) \<le> PHOTO_MAX_BYTES
          then Some (WEAvatar chat \<lparr>wp_width = 0, wp_height = 0, wp_bytes = image_slice b\<rparr>) else None
      | EvMessageReactions seen chat i rs \<Rightarrow>
          if seen = p then Some (WEReactions chat i (reactions_to_wire rs)) else None
      | EvChatListLoaded seen \<Rightarrow> if seen = p then Some WEChatListLoaded else None
      | EvHistoryLoaded seen chat cursor \<Rightarrow>
          if seen = p then Some (WEHistoryLoaded chat (map_option cursor_to_wire cursor)) else None
      | EvOlderHistoryLoaded seen chat before has_more note topic cursor \<Rightarrow>
          if seen = p
          then Some (WEOlderHistoryLoaded chat before has_more note (map_option cursor_to_wire cursor))
          else None
      | EvWhatsAppQr code generation \<Rightarrow>
          if p = primary WhatsApp then Some (WEQr (SecretText (reveal code)) generation) else None
      | EvSignalQr code generation \<Rightarrow>
          if p = primary Signal then Some (WEQr (SecretText (reveal code)) generation) else None
      | EvWhatsAppPairCode code generation \<Rightarrow>
          if p = primary WhatsApp then Some (WEPairCode (SecretText (reveal code)) generation) else None
      | _ \<Rightarrow> None)"

definition event_from_wire :: "protocol_id \<Rightarrow> wire_event \<Rightarrow> adapter_event option" where
  "event_from_wire p w =
     (case w of
        WEStatus status detail \<Rightarrow> Some (EvStatus p (status_from_wire status) detail)
      | WEStoreAccess reason \<Rightarrow>
          Some (EvStoreAccess p
            (case reason of WKeychainDenied \<Rightarrow> KeychainDenied | WWrongKey \<Rightarrow> WrongKey))
      | WEAccount state \<Rightarrow> Some (EvAccount p (account_from_wire state))
      | WEAccountEnded \<Rightarrow> Some (EvAccountEnded p)
      | WEConversationUpsert c \<Rightarrow> Some (EvConversationUpsert (conversation_from_wire p c))
      | WEConversationRemoved i \<Rightarrow> Some (EvConversationRemoved p i)
      | WEMessageReceived m \<Rightarrow> Some (EvMessageReceived (message_from_wire p m))
      | WEMessageReplaced chat old_id m \<Rightarrow>
          Some (EvMessageReplaced p chat old_id (message_from_wire p m))
      | WEMessageBody chat i body \<Rightarrow> Some (EvMessageBody p chat i body)
      | WEMessagesRemoved chat ids \<Rightarrow> Some (EvMessagesRemoved p chat ids)
      | WEMessageDelivery chat i d \<Rightarrow> Some (EvMessageDelivery p chat i (delivery_from_wire d))
      | WESendAccepted chat request \<Rightarrow> Some (EvSendAccepted p chat request)
      | WESendRejected chat request \<Rightarrow> Some (EvSendRejected p chat request)
      | WECommandFailed chat detail \<Rightarrow> Some (EvCommandFailed p chat detail)
      | WENotice note \<Rightarrow> Some (EvNotice p note)
      | WEChatListLoaded \<Rightarrow> Some (EvChatListLoaded p)
      | WEHistoryLoaded chat cursor \<Rightarrow>
          Some (EvHistoryLoaded p chat (map_option cursor_from_wire cursor))
      | WEOlderHistoryLoaded chat before has_more note cursor \<Rightarrow>
          Some (EvOlderHistoryLoaded p chat before has_more note None
            (map_option cursor_from_wire cursor))
      | WEQr code generation \<Rightarrow>
          for_whatsapp_or_signal p
            (EvWhatsAppQr (RedactedPairingSecret (expose code)) generation)
            (EvSignalQr (RedactedPairingSecret (expose code)) generation)
      | WEPairCode code generation \<Rightarrow>
          if p = primary WhatsApp
          then Some (EvWhatsAppPairCode (RedactedPairingSecret (expose code)) generation) else None
      | WEVoiceReady file_id path \<Rightarrow>
          (case audio_path_new path of
             Some a \<Rightarrow>
               if path_is_absolute (audio_path_str a) then Some (EvVoiceReady p file_id a)
               else Some (EvVoiceFailed p file_id)
           | None \<Rightarrow> Some (EvVoiceFailed p file_id))
      | WEVoiceFailed file_id \<Rightarrow> Some (EvVoiceFailed p file_id)
      | WEAvatar chat photo \<Rightarrow>
          if wp_bytes photo = [] then None
          else Some (EvChatAvatar p chat (ImageBytes (wp_bytes photo)))
      | WEReactions chat i rs \<Rightarrow> Some (EvMessageReactions p chat i (reactions_from_wire rs)))"


section \<open>The codec contract\<close>

text \<open>
  A pair of maps is a codec for the values that \<open>crosses\<close> accepts: they come back as they were.
  A total codec also yields only such values, whatever the other process sends, so one crossing
  brings a value to its normal form.
\<close>

locale wire_codec =
  fixes to_wire :: "'a \<Rightarrow> 'w"
    and from_wire :: "'w \<Rightarrow> 'a"
    and crosses :: "'a \<Rightarrow> bool"
  assumes there_and_back: "crosses x \<Longrightarrow> from_wire (to_wire x) = x"
begin

lemma to_wire_inj: "crosses x \<Longrightarrow> crosses y \<Longrightarrow> to_wire x = to_wire y \<Longrightarrow> x = y"
  using there_and_back by metis

lemma list_back: "list_all crosses xs \<Longrightarrow> map from_wire (map to_wire xs) = xs"
  by (induction xs) (simp_all add: there_and_back)

lemma option_back: "pred_option crosses x \<Longrightarrow> map_option from_wire (map_option to_wire x) = x"
  by (cases x) (simp_all add: there_and_back)

end

locale wire_codec_total = wire_codec +
  assumes from_crosses: "crosses (from_wire w)"
begin

lemma normal_form: "from_wire (to_wire (from_wire w)) = from_wire w"
  by (rule there_and_back) (rule from_crosses)

lemma crosses_range: "crosses x \<longleftrightarrow> (\<exists>w. from_wire w = x)"
  using there_and_back from_crosses by metis

lemma resend: "to_wire (from_wire (to_wire (from_wire w))) = to_wire (from_wire w)"
  by (simp add: normal_form)

end

definition always_crosses :: "'a \<Rightarrow> bool" where
  "always_crosses x = True"

definition delivery_crosses :: "delivery \<Rightarrow> bool" where
  "delivery_crosses d \<longleftrightarrow> d \<noteq> Read"

definition reactions_cross :: "reaction list \<Rightarrow> bool" where
  "reactions_cross rs \<longleftrightarrow> list_all (\<lambda>r. rc_emoji r \<noteq> [] \<and> 0 < rc_count r) rs"

definition run_total :: "history_skip_run list \<Rightarrow> u32" where
  "run_total runs = foldl (\<lambda>total r. sat_add32 total (hs_skipped r)) 0 runs"

definition cursor_crosses :: "history_store_cursor \<Rightarrow> bool" where
  "cursor_crosses c \<longleftrightarrow> hc_runs c = [] \<or>
     (length (hc_runs c) \<le> MAX_HISTORY_CURSOR_RUNS \<and>
      list_all (\<lambda>r. 0 < hs_skipped r) (hc_runs c) \<and> run_total (hc_runs c) = hc_skipped c)"

definition conversation_crosses :: "protocol_id \<Rightarrow> conversation \<Rightarrow> bool" where
  "conversation_crosses p c \<longleftrightarrow>
     cv_protocol c = p \<and> \<not> cv_has_topics c \<and> cv_avatar c = default_avatar"

definition audio_crosses :: "message_audio \<Rightarrow> bool" where
  "audio_crosses a \<longleftrightarrow> 0 < ma_file_id a \<and> ma_file a = None \<and> \<not> ma_failed a"

definition bytes_cross :: "image_bytes \<Rightarrow> bool" where
  "bytes_cross b \<longleftrightarrow> image_slice b \<noteq> [] \<and> length (image_slice b) \<le> PHOTO_MAX_BYTES"

definition photo_crosses :: "message_photo \<Rightarrow> bool" where
  "photo_crosses photo \<longleftrightarrow>
     mp_mini photo = None \<and> \<not> mp_has_spoiler photo \<and> \<not> mp_is_secret photo \<and> \<not> mp_failed photo \<and>
     (case mp_sizes photo of
        [s] \<Rightarrow> ps_width s = mp_width photo \<and> ps_height s = mp_height photo \<and>
          ps_file_id s = None \<and> ps_path s = None \<and> pred_option bytes_cross (ps_bytes s) \<and>
          ps_bytes s \<noteq> None
      | _ \<Rightarrow> False)"

definition message_crosses :: "protocol_id \<Rightarrow> chat_message \<Rightarrow> bool" where
  "message_crosses p m \<longleftrightarrow>
     cm_protocol m = p \<and> delivery_crosses (cm_delivery m) \<and> cm_topic m = None \<and> cm_links m = [] \<and>
     pred_option photo_crosses (cm_photo m) \<and> pred_option audio_crosses (cm_audio m) \<and>
     cm_video m = None \<and> cm_file m = None \<and> reactions_cross (cm_reactions m) \<and> \<not> cm_edited m"

section \<open>Codecs of the values\<close>

interpretation status_codec: wire_codec_total status_to_wire status_from_wire always_crosses
proof
  show "status_from_wire (status_to_wire x) = x" for x by (cases x) simp_all
qed (simp add: always_crosses_def)

interpretation account_codec: wire_codec_total account_to_wire account_from_wire always_crosses
proof
  show "account_from_wire (account_to_wire x) = x" for x by (cases x) simp_all
qed (simp add: always_crosses_def)

interpretation arrival_codec: wire_codec_total arrival_to_wire arrival_from_wire always_crosses
proof
  show "arrival_from_wire (arrival_to_wire x) = x" for x by (cases x) simp_all
qed (simp add: always_crosses_def)

interpretation delivery_codec: wire_codec_total delivery_to_wire delivery_from_wire delivery_crosses
proof
  show "delivery_crosses x \<Longrightarrow> delivery_from_wire (delivery_to_wire x) = x" for x
    by (cases x) (simp_all add: delivery_crosses_def)
  show "delivery_crosses (delivery_from_wire w)" for w
    by (cases w) (simp_all add: delivery_crosses_def)
qed

lemma reactions_back: "reactions_cross rs \<Longrightarrow> reactions_from_wire (reactions_to_wire rs) = rs"
  by (induction rs) (simp_all add: reactions_cross_def reactions_from_wire_def reactions_to_wire_def)

interpretation reactions_codec: wire_codec_total reactions_to_wire reactions_from_wire reactions_cross
proof
  show "reactions_cross x \<Longrightarrow> reactions_from_wire (reactions_to_wire x) = x" for x
    by (rule reactions_back)
  show "reactions_cross (reactions_from_wire w)" for w
    by (simp add: reactions_cross_def reactions_from_wire_def list_all_iff)
qed

lemma file_from_to: "file_from_wire (file_to_wire f) = f"
  by (simp add: file_from_wire_def file_to_wire_def split: media_kind.splits)

lemma file_to_from: "file_to_wire (file_from_wire w) = w"
  by (simp add: file_from_wire_def file_to_wire_def split: wire_media_kind.splits)

interpretation file_codec: wire_codec_total file_to_wire file_from_wire always_crosses
  by unfold_locales (simp_all add: file_from_to always_crosses_def)

interpretation conversation_codec:
  wire_codec_total conversation_to_wire "conversation_from_wire p" "conversation_crosses p" for p
  by unfold_locales
    (simp_all add: conversation_to_wire_def conversation_from_wire_def conversation_crosses_def)

interpretation audio_codec:
  wire_codec_total "\<lambda>a. Option.bind a audio_to_wire"
    "\<lambda>w. Option.bind w (\<lambda>a. message_audio_new (wa_duration a) (wa_file_id a) None)"
    "pred_option audio_crosses"
proof
  show "pred_option audio_crosses x \<Longrightarrow>
      Option.bind (Option.bind x audio_to_wire)
        (\<lambda>a. message_audio_new (wa_duration a) (wa_file_id a) None) = x" for x
    by (cases x) (simp_all add: audio_crosses_def audio_to_wire_def message_audio_new_def)
  show "pred_option audio_crosses
      (Option.bind w (\<lambda>a. message_audio_new (wa_duration a) (wa_file_id a) None))" for w
    by (cases w) (simp_all add: audio_crosses_def message_audio_new_def)
qed

lemma photo_back:
  assumes "photo_crosses photo"
  shows "Option.bind (photo_to_wire photo) photo_from_wire = Some photo"
proof -
  obtain s b where "mp_sizes photo = [s]" "ps_bytes s = Some b" "bytes_cross b"
    "ps_width s = mp_width photo" "ps_height s = mp_height photo"
    "ps_file_id s = None" "ps_path s = None"
    using assms by (auto simp: photo_crosses_def split: list.splits)
  moreover from this have "s = \<lparr>ps_width = mp_width photo, ps_height = mp_height photo,
      ps_file_id = None, ps_path = None, ps_bytes = Some (ImageBytes (image_slice b))\<rparr>"
    by simp
  ultimately show ?thesis using assms
    by (simp add: photo_to_wire_def photo_from_wire_def photo_crosses_def bytes_cross_def)
qed

interpretation photo_codec:
  wire_codec "\<lambda>x. Option.bind x photo_to_wire" "\<lambda>w. Option.bind w photo_from_wire"
    "pred_option photo_crosses"
proof
  show "pred_option photo_crosses x \<Longrightarrow>
      Option.bind (Option.bind x photo_to_wire) photo_from_wire = x" for x
    by (cases x) (simp_all add: photo_back)
qed

interpretation message_codec:
  wire_codec message_to_wire "message_from_wire p" "message_crosses p" for p
proof
  show "message_crosses p m \<Longrightarrow> message_from_wire p (message_to_wire m) = m" for m
    by (simp add: message_from_wire_def message_to_wire_def message_crosses_def
        delivery_codec.there_and_back reactions_codec.there_and_back
        photo_codec.there_and_back [simplified] audio_codec.there_and_back [simplified]
        arrival_codec.there_and_back always_crosses_def)
qed

section \<open>Paging cursors\<close>

lemma run_total_le: "unat (run_total runs) \<le> (\<Sum>r\<leftarrow>runs. unat (hs_skipped r))"
proof -
  have "unat (foldl (\<lambda>total r. sat_add32 total (hs_skipped r)) a runs)
      \<le> unat a + (\<Sum>r\<leftarrow>runs. unat (hs_skipped r))" for a
  proof (induction runs arbitrary: a)
    case (Cons r runs)
    have "unat (sat_add32 a (hs_skipped r)) \<le> unat a + unat (hs_skipped r)"
      by (simp add: unat_sat_add32)
    with Cons.IH [of "sat_add32 a (hs_skipped r)"] show ?case by simp
  qed simp
  from this [of 0] show ?thesis by (simp add: run_total_def)
qed

lemma run_total_exact:
  "(\<Sum>r\<leftarrow>runs. unat (hs_skipped r)) < 2 ^ 32 \<Longrightarrow>
     unat (run_total runs) = (\<Sum>r\<leftarrow>runs. unat (hs_skipped r))"
proof -
  have "unat a + (\<Sum>r\<leftarrow>runs. unat (hs_skipped r)) < 2 ^ 32 \<Longrightarrow>
      unat (foldl (\<lambda>total r. sat_add32 total (hs_skipped r)) a runs)
        = unat a + (\<Sum>r\<leftarrow>runs. unat (hs_skipped r))" for a
  proof (induction runs arbitrary: a)
    case (Cons r runs)
    have "unat (sat_add32 a (hs_skipped r)) = unat a + unat (hs_skipped r)"
      using Cons.prems by (simp add: unat_sat_add32)
    with Cons.IH [of "sat_add32 a (hs_skipped r)"] Cons.prems show ?case by simp
  qed simp
  from this [of 0] show "(\<Sum>r\<leftarrow>runs. unat (hs_skipped r)) < 2 ^ 32 \<Longrightarrow> ?thesis"
    by (simp add: run_total_def)
qed

lemma bounded_skip_runs_cases:
  "bounded_skip_runs runs skipped = [] \<or>
   (length (bounded_skip_runs runs skipped) \<le> MAX_HISTORY_CURSOR_RUNS \<and>
    list_all (\<lambda>r. 0 < hs_skipped r) (bounded_skip_runs runs skipped) \<and>
    run_total (bounded_skip_runs runs skipped) = skipped)"
  by (auto simp: bounded_skip_runs_def Let_def run_total_def list_all_iff
      dest!: in_set_takeD)

lemma run_copy: "(\<lambda>r. \<lparr>hs_after_id = hs_after_id r, hs_skipped = hs_skipped r\<rparr>) = (\<lambda>r. r)"
  by (rule ext) simp

lemma cursor_back: "cursor_crosses c \<Longrightarrow> cursor_from_wire (cursor_to_wire c) = c"
proof (cases "hc_runs c = []")
  case True
  then show ?thesis by (simp add: cursor_from_wire_def cursor_to_wire_def bounded_skip_runs_def)
next
  case False
  assume "cursor_crosses c"
  with False have "length (hc_runs c) \<le> MAX_HISTORY_CURSOR_RUNS"
    "list_all (\<lambda>r. 0 < hs_skipped r) (hc_runs c)" "run_total (hc_runs c) = hc_skipped c"
    by (simp_all add: cursor_crosses_def)
  moreover from this(2) have "filter (\<lambda>r. 0 < hs_skipped r) (hc_runs c) = hc_runs c"
    by (simp add: filter_id_conv list_all_iff)
  ultimately show ?thesis using False
    by (simp add: cursor_from_wire_def cursor_to_wire_def bounded_skip_runs_def Let_def
        filter_map comp_def take_map run_total_def run_copy)
qed

interpretation cursor_codec: wire_codec_total cursor_to_wire cursor_from_wire cursor_crosses
proof
  show "cursor_crosses x \<Longrightarrow> cursor_from_wire (cursor_to_wire x) = x" for x
    by (rule cursor_back)
  show "cursor_crosses (cursor_from_wire w)" for w
    using bounded_skip_runs_cases [of "wc_runs w" "wc_skipped w"]
    by (auto simp: cursor_crosses_def cursor_from_wire_def)
qed

section \<open>Commands and events across the pipe\<close>

lemma whatsapp_not_signal [simp]: "primary WhatsApp \<noteq> primary Signal" "primary Signal \<noteq> primary WhatsApp"
  by (simp_all add: primary_def)

fun starts_pairing :: "adapter_command \<Rightarrow> bool" where
  "starts_pairing (CmdWhatsAppBeginLink _) = True"
| "starts_pairing (CmdSignalBeginLink _) = True"
| "starts_pairing _ = False"

lemma files_back [simp]: "map (\<lambda>x. file_from_wire (file_to_wire x)) fs = fs"
  by (simp add: file_from_to)

lemma files_forth [simp]: "map (\<lambda>x. file_to_wire (file_from_wire x)) ws = ws"
  by (simp add: file_to_from)

lemma command_crossing:
  "command_to_wire p c phone = Some w \<Longrightarrow>
   command_from_wire p w = Some (c, if starts_pairing c then map_option SecretText phone else None)"
  by (cases c) (auto simp: command_to_wire_def command_from_wire_def for_whatsapp_or_signal_def
      comp_def file_from_to split: if_splits option.splits)

lemma command_returning:
  "command_from_wire p w = Some (c, phone) \<Longrightarrow>
   command_to_wire p c (map_option expose phone) = Some w"
  by (cases w) (auto simp: command_to_wire_def command_from_wire_def for_whatsapp_or_signal_def
      comp_def file_to_from option.map_comp option.map_ident split: if_splits)

fun event_crosses :: "protocol_id \<Rightarrow> adapter_event \<Rightarrow> bool" where
  "event_crosses p (EvStatus q _ _) = (q = p)"
| "event_crosses p (EvStoreAccess q r) = (q = p \<and> r \<noteq> MoveFailed)"
| "event_crosses p (EvAccount q _) = (q = p)"
| "event_crosses p (EvAccountEnded q) = (q = p)"
| "event_crosses p (EvConversationUpsert c) = conversation_crosses p c"
| "event_crosses p (EvConversationRemoved q _) = (q = p)"
| "event_crosses p (EvMessageReceived m) = message_crosses p m"
| "event_crosses p (EvMessageReplaced q _ _ m) = (q = p \<and> message_crosses p m)"
| "event_crosses p (EvMessageBody q _ _ _) = (q = p)"
| "event_crosses p (EvMessagesRemoved q _ _) = (q = p)"
| "event_crosses p (EvMessageDelivery q _ _ d) = (q = p \<and> delivery_crosses d)"
| "event_crosses p (EvSendAccepted q _ _) = (q = p)"
| "event_crosses p (EvSendRejected q _ _) = (q = p)"
| "event_crosses p (EvCommandFailed q _ _) = (q = p)"
| "event_crosses p (EvNotice q _) = (q = p)"
| "event_crosses p (EvVoiceReady q _ path) = (q = p \<and> path_is_absolute (audio_path_str path))"
| "event_crosses p (EvVoiceFailed q _) = (q = p)"
| "event_crosses p (EvChatAvatar q _ b) = (q = p \<and> bytes_cross b)"
| "event_crosses p (EvMessageReactions q _ _ rs) = (q = p \<and> reactions_cross rs)"
| "event_crosses p (EvChatListLoaded q) = (q = p)"
| "event_crosses p (EvHistoryLoaded q _ c) = (q = p \<and> pred_option cursor_crosses c)"
| "event_crosses p (EvOlderHistoryLoaded q _ _ _ _ t c) =
     (q = p \<and> t = None \<and> pred_option cursor_crosses c)"
| "event_crosses p (EvWhatsAppQr _ _) = (p = primary WhatsApp)"
| "event_crosses p (EvSignalQr _ _) = (p = primary Signal)"
| "event_crosses p (EvWhatsAppPairCode _ _) = (p = primary WhatsApp)"
| "event_crosses p _ = False"

lemmas event_wire_defs = event_to_wire_def event_from_wire_def for_whatsapp_or_signal_def

lemmas codec_backs = status_codec.there_and_back account_codec.there_and_back
  delivery_codec.there_and_back reactions_codec.there_and_back conversation_codec.there_and_back
  message_codec.there_and_back cursor_codec.option_back

lemma cursor_option_back [simp]:
  "pred_option cursor_crosses x \<Longrightarrow> map_option (\<lambda>c. cursor_from_wire (cursor_to_wire c)) x = x"
  using cursor_codec.option_back [of x] by (simp add: option.map_comp comp_def)

lemma audio_path_absolute: "path_is_absolute (audio_path_str a) \<Longrightarrow> audio_path_new (audio_path_str a) = Some a"
  by (cases a) (auto simp: path_is_absolute_def audio_path_new_def starts_with_def)

lemma event_crossing:
  "event_crosses p e \<Longrightarrow> Option.bind (event_to_wire p e) (event_from_wire p) = Some e"
  by (cases e) (auto simp: event_wire_defs codec_backs always_crosses_def conversation_crosses_def
      message_crosses_def audio_path_absolute bytes_cross_def image_is_empty_def option.map_comp
      comp_def split: store_access_reason.splits)

lemma event_from_wire_tag:
  "event_from_wire p w = Some e \<Longrightarrow> fst (set_account p e) = e"
  by (cases w) (auto simp: event_wire_defs conversation_from_wire_def message_from_wire_def
      split: if_splits option.splits)

section \<open>Properties\<close>





text \<open>Whatever a helper sends, the app takes it as an event of that helper's own protocol, and
  never as one that only the app or the host sends: a stop, a helper state, a login event or the
  event of another account.\<close>

theorem helper_events_are_own:
  assumes "event_from_wire p w = Some e"
  shows "fst (set_account p e) = e \<and>
    (\<forall>q s x n. e \<noteq> EvStopped q \<and> e \<noteq> EvHelper q s \<and> e \<noteq> EvLogin n x \<and> e \<noteq> EvFromAccount q x)"
proof -
  from assms have "\<forall>q s x n. e \<noteq> EvStopped q \<and> e \<noteq> EvHelper q s \<and> e \<noteq> EvLogin n x \<and> e \<noteq> EvFromAccount q x"
    by (cases w) (auto simp: event_wire_defs split: if_splits option.splits)
  with event_from_wire_tag [OF assms] show ?thesis by blast
qed

theorem helper_events_are_own_witness:
  "event_from_wire (primary Signal) (WEVoiceReady 4 ''voice.ogg'') = Some (EvVoiceFailed (primary Signal) 4) \<and>
   fst (set_account (primary Signal) (EvVoiceFailed (primary Signal) 4)) = EvVoiceFailed (primary Signal) 4"
proof -
  have e: "event_from_wire (primary Signal) (WEVoiceReady 4 ''voice.ogg'') = Some (EvVoiceFailed (primary Signal) 4)"
    by (simp add: event_from_wire_def audio_path_new_def path_is_absolute_def starts_with_def)
  from helper_events_are_own [OF e] e show ?thesis by blast
qed

text \<open>A paging cursor from a helper keeps at most 208 runs, each of at least one message, and only
  when they add up to the skipped messages; else it keeps none. The cursor that the app sends back
  then crosses the pipe unchanged.\<close>

theorem helper_cursor_bounded:
  "let c = cursor_from_wire w
   in (hc_runs c = [] \<or>
       length (hc_runs c) \<le> MAX_HISTORY_CURSOR_RUNS \<and> list_all (\<lambda>r. 0 < hs_skipped r) (hc_runs c) \<and>
       run_total (hc_runs c) = hc_skipped c \<and> unat (hc_skipped c) \<le> (\<Sum>r\<leftarrow>hc_runs c. unat (hs_skipped r))) \<and>
     cursor_from_wire (cursor_to_wire c) = c \<and> hc_before_ms c = wc_before_ms w \<and> hc_resume c = wc_resume w"
proof -
  let ?c = "cursor_from_wire w"
  have "cursor_crosses ?c" by (rule cursor_codec.from_crosses)
  with run_total_le [of "hc_runs ?c"] cursor_codec.normal_form [of w] show ?thesis
    by (auto simp: Let_def cursor_crosses_def) (auto simp: cursor_from_wire_def)
qed

end
