(* ===== verification/Sends.thy ===== *)
theory Sends
  imports Adapter
begin

text \<open>
  The sends and retries in flight (\<open>crates/thinwire-core/src/sends.rs\<close>): one per chat, ended
  by the adapter's answer to the same request, by the end of the session, or by the timeout,
  after which a late answer is still found. Both tables are hash maps; the model keeps their
  entries in a list and nothing proved here depends on its order. An instant counts
  milliseconds. The request counter is a natural number: it would take 2^64 sends to wrap.
\<close>

section \<open>The tracker\<close>

datatype pending =
  PSend u64 string "message_topic option" "outgoing_file list"
| PRetry u64 string

fun pending_request :: "pending \<Rightarrow> u64" where
  "pending_request (PSend r _ _ _) = r"
| "pending_request (PRetry r _) = r"

fun is_compose :: "pending \<Rightarrow> bool" where
  "is_compose (PSend _ _ _ _) = True"
| "is_compose (PRetry _ _) = False"

definition SEND_TIMEOUT :: duration where
  "SEND_TIMEOUT = 30 * 1000"

definition EXPIRED_KEEP :: duration where
  "EXPIRED_KEEP = 5 * 60 * 1000"

record expired_entry =
  xe_pending :: pending
  xe_at :: instant

record open_entry =
  oe_pending :: pending
  oe_since :: instant

record send_tracker =
  st_next :: u64
  st_open :: "((protocol_id \<times> string) \<times> open_entry) list"
  st_expired :: "((protocol_id \<times> string \<times> u64) \<times> expired_entry) list"

definition tracker_default :: send_tracker where
  "tracker_default = \<lparr>st_next = 1, st_open = [], st_expired = []\<rparr>"

definition open_request :: "open_entry \<Rightarrow> u64" where
  "open_request e = pending_request (oe_pending e)"

definition request_of :: "protocol_id \<Rightarrow> string \<Rightarrow> send_tracker \<Rightarrow> u64 option" where
  "request_of p chat t = map_option open_request (map_of (st_open t) (p, chat))"

definition begin_pending ::
    "protocol_id \<Rightarrow> string \<Rightarrow> instant \<Rightarrow> (u64 \<Rightarrow> pending) \<Rightarrow> send_tracker \<Rightarrow> u64 option \<times> send_tracker" where
  "begin_pending p chat now pending t =
     (case map_of (st_open t) (p, chat) of
        Some _ \<Rightarrow> (None, t)
      | None \<Rightarrow>
          let request = st_next t in
          (Some request,
           t\<lparr>st_next := request + 1,
             st_open := AList.update (p, chat)
               \<lparr>oe_pending = pending request, oe_since = now\<rparr> (st_open t)\<rparr>))"

definition begin_send_files ::
    "protocol_id \<Rightarrow> string \<Rightarrow> string \<Rightarrow> message_topic option \<Rightarrow> outgoing_file list \<Rightarrow> instant \<Rightarrow>
     send_tracker \<Rightarrow> u64 option \<times> send_tracker" where
  "begin_send_files p chat body topic files now =
     begin_pending p chat now (\<lambda>request. PSend request body topic files)"

definition begin_retry ::
    "protocol_id \<Rightarrow> string \<Rightarrow> string \<Rightarrow> instant \<Rightarrow> send_tracker \<Rightarrow> u64 option \<times> send_tracker" where
  "begin_retry p chat message_id now =
     begin_pending p chat now (\<lambda>request. PRetry request message_id)"

definition open_chats :: "send_tracker \<Rightarrow> (protocol_id \<times> string) list" where
  "open_chats t = map fst (sort_key (\<lambda>(_, e). (oe_since e, open_request e)) (st_open t))"

definition tracker_is_empty :: "send_tracker \<Rightarrow> bool" where
  "tracker_is_empty t \<longleftrightarrow> st_open t = []"

definition compose_in_flight :: "protocol_id \<Rightarrow> send_tracker \<Rightarrow> bool" where
  "compose_in_flight p t \<longleftrightarrow>
     list_ex (\<lambda>((owner, _), e). owner = p \<and> is_compose (oe_pending e)) (st_open t)"

definition in_flight :: "protocol_id \<Rightarrow> string \<Rightarrow> send_tracker \<Rightarrow> bool" where
  "in_flight p chat t \<longleftrightarrow> map_of (st_open t) (p, chat) \<noteq> None"

definition settle ::
    "protocol_id \<Rightarrow> string \<Rightarrow> u64 \<Rightarrow> send_tracker \<Rightarrow> pending option \<times> send_tracker" where
  "settle p chat request t =
     (if map_option open_request (map_of (st_open t) (p, chat)) \<noteq> Some request then (None, t)
      else (map_option oe_pending (map_of (st_open t) (p, chat)),
            t\<lparr>st_open := AList.delete (p, chat) (st_open t)\<rparr>))"

definition next_send_deadline :: "send_tracker \<Rightarrow> instant option" where
  "next_send_deadline t =
     (case map (\<lambda>(_, e). oe_since e + SEND_TIMEOUT) (st_open t) of
        [] \<Rightarrow> None
      | d # ds \<Rightarrow> Some (foldl min d ds))"

definition is_late :: "instant \<Rightarrow> open_entry \<Rightarrow> bool" where
  "is_late now e \<longleftrightarrow> SEND_TIMEOUT \<le> now - oe_since e"

definition expire ::
    "instant \<Rightarrow> send_tracker \<Rightarrow> (protocol_id \<times> string \<times> pending) list \<times> send_tracker" where
  "expire now t =
     (let late = map fst (filter (\<lambda>(_, e). is_late now e) (st_open t));
          (expired, open') = foldl (\<lambda>(acc, m) key.
             case map_of m key of
               Some e \<Rightarrow> (acc @ [(fst key, snd key, oe_pending e)], AList.delete key m)
             | None \<Rightarrow> (acc, m)) ([], st_open t) late;
          kept = foldl (\<lambda>m (p, chat, pending).
             AList.update (p, chat, pending_request pending)
               \<lparr>xe_pending = pending, xe_at = now\<rparr> m) (st_expired t) expired
      in (expired, t\<lparr>st_open := open', st_expired := kept\<rparr>))"

definition prune_expired :: "instant \<Rightarrow> send_tracker \<Rightarrow> send_tracker" where
  "prune_expired now t =
     t\<lparr>st_expired := hm_retain (\<lambda>_ e. now - xe_at e < EXPIRED_KEEP) (st_expired t)\<rparr>"

definition tracks :: "protocol_id \<Rightarrow> u64 \<Rightarrow> send_tracker \<Rightarrow> bool" where
  "tracks p request t \<longleftrightarrow>
     list_ex (\<lambda>((owner, _), e). owner = p \<and> open_request e = request) (st_open t) \<or>
     list_ex (\<lambda>(owner, _, i). owner = p \<and> i = request) (map fst (st_expired t))"

definition settle_expired ::
    "protocol_id \<Rightarrow> string \<Rightarrow> u64 \<Rightarrow> send_tracker \<Rightarrow> pending option \<times> send_tracker" where
  "settle_expired p chat request t =
     (map_option xe_pending (map_of (st_expired t) (p, chat, request)),
      t\<lparr>st_expired := AList.delete (p, chat, request) (st_expired t)\<rparr>)"

definition drop_retry_of :: "protocol_id \<Rightarrow> string \<Rightarrow> string \<Rightarrow> send_tracker \<Rightarrow> send_tracker" where
  "drop_retry_of p chat message_id t =
     (let same = (case map_of (st_open t) (p, chat) of
         Some e \<Rightarrow> (case oe_pending e of PRetry _ i \<Rightarrow> i = message_id | PSend _ _ _ _ \<Rightarrow> False)
       | None \<Rightarrow> False)
      in if same then t\<lparr>st_open := AList.delete (p, chat) (st_open t)\<rparr> else t)"

definition open_of :: "protocol_id \<Rightarrow> send_tracker \<Rightarrow> (string \<times> pending) list" where
  "open_of p t =
     map (\<lambda>((_, chat), e). (chat, oe_pending e)) (filter (\<lambda>((owner, _), _). owner = p) (st_open t))"

definition expired_of :: "protocol_id \<Rightarrow> send_tracker \<Rightarrow> (string \<times> pending) list" where
  "expired_of p t =
     sort_key (\<lambda>(_, pending). pending_request pending)
       (map (\<lambda>((_, chat, _), e). (chat, xe_pending e))
         (filter (\<lambda>((owner, _, _), _). owner = p) (st_expired t)))"

definition drop_protocol :: "protocol_id \<Rightarrow> send_tracker \<Rightarrow> send_tracker" where
  "drop_protocol p t =
     t\<lparr>st_open := hm_retain (\<lambda>(owner, _) _. owner \<noteq> p) (st_open t),
       st_expired := hm_retain (\<lambda>(owner, _, _) _. owner \<noteq> p) (st_expired t)\<rparr>"

section \<open>Well-formed trackers\<close>

text \<open>The tracked requests with their chat, in flight and expired.\<close>

definition open_ids :: "send_tracker \<Rightarrow> (u64 \<times> protocol_id \<times> string) set" where
  "open_ids t = (\<lambda>((p, chat), e). (open_request e, p, chat)) ` set (st_open t)"

definition late_ids :: "send_tracker \<Rightarrow> (u64 \<times> protocol_id \<times> string) set" where
  "late_ids t = (\<lambda>((p, chat, r), _). (r, p, chat)) ` set (st_expired t)"

text \<open>Each request id belongs to one chat, in one of the two tables, and was handed out before.\<close>

definition ids_ok :: "send_tracker \<Rightarrow> bool" where
  "ids_ok t \<longleftrightarrow> inj_on fst (open_ids t \<union> late_ids t) \<and> open_ids t \<inter> late_ids t = {} \<and>
     (\<forall>x \<in> open_ids t \<union> late_ids t. fst x < st_next t)"

definition tracker_ok :: "send_tracker \<Rightarrow> bool" where
  "tracker_ok t \<longleftrightarrow>
     hm_ok (st_open t) \<and> hm_ok (st_expired t) \<and> ids_ok t \<and>
     (\<forall>((p, chat, r), e) \<in> set (st_expired t). pending_request (xe_pending e) = r)"

section \<open>What each operation does to the tables\<close>

text \<open>The two loops of \<open>expire\<close>: the late entries leave one table and enter the other.\<close>

lemma expire_loop:
  assumes "distinct (map fst xs)" "set xs \<subseteq> set m" "distinct (map fst m)"
  shows "foldl (\<lambda>(acc, m) key.
      case map_of m key of
        Some e \<Rightarrow> (acc @ [(fst key, snd key, oe_pending e)], AList.delete key m)
      | None \<Rightarrow> (acc, m)) (acc, m) (map fst xs)
    = (acc @ map (\<lambda>((p, chat), e). (p, chat, oe_pending e)) xs,
       filter (\<lambda>x. fst x \<notin> fst ` set xs) m)"
  using assms
proof (induction xs arbitrary: acc m)
  case (Cons x xs)
  obtain p chat e where x: "x = ((p, chat), e)" by (metis surj_pair)
  have e: "map_of m (p, chat) = Some e" using Cons.prems x by simp
  have m': "AList.delete (p, chat) m = filter (\<lambda>y. fst y \<noteq> (p, chat)) m"
    by (auto simp: AList.delete_eq intro: filter_cong)
  have "set xs \<subseteq> set (filter (\<lambda>y. fst y \<noteq> (p, chat)) m)"
    using Cons.prems x by (auto simp: image_iff)
  moreover have "distinct (map fst (filter (\<lambda>y. fst y \<noteq> (p, chat)) m))"
    using Cons.prems(3) by (rule distinct_map_filter)
  ultimately show ?case using Cons.prems(1) Cons.IH
    by (auto simp: x e m' conj_commute intro: filter_cong)
qed simp

lemma expire_open:
  assumes "hm_ok (st_open t)"
  shows "fst (expire now t)
      = map (\<lambda>((p, chat), e). (p, chat, oe_pending e)) (filter (\<lambda>(_, e). is_late now e) (st_open t))"
    and "st_open (snd (expire now t)) = filter (\<lambda>(_, e). \<not> is_late now e) (st_open t)"
proof -
  let ?xs = "filter (\<lambda>(_, e). is_late now e) (st_open t)"
  have d: "distinct (map fst (st_open t))" using assms by (simp add: hm_ok_def)
  have "distinct (map fst ?xs)" using d by (rule distinct_map_filter)
  note loop = expire_loop [OF this _ d, of "[]", simplified]
  have rest: "filter (\<lambda>x. fst x \<notin> fst ` set ?xs) (st_open t) = filter (\<lambda>(_, e). \<not> is_late now e) (st_open t)"
  proof (rule filter_cong [OF refl])
    fix x assume x: "x \<in> set (st_open t)"
    have "is_late now (snd x)" if "fst x = fst y" "y \<in> set ?xs" for y
    proof -
      from that(2) have "y \<in> set (st_open t)" "is_late now (snd y)" by auto
      with that(1) x d show ?thesis by (metis eq_key_imp_eq_value prod.collapse)
    qed
    then show "(fst x \<notin> fst ` set ?xs) = (case x of (_, e) \<Rightarrow> \<not> is_late now e)"
      using x by (cases x) force
  qed
  show "fst (expire now t) = map (\<lambda>((p, chat), e). (p, chat, oe_pending e)) ?xs"
    by (simp add: expire_def Let_def loop)
  show "st_open (snd (expire now t)) = filter (\<lambda>(_, e). \<not> is_late now e) (st_open t)"
    by (simp add: expire_def Let_def loop rest [simplified])
qed

definition expire_keep :: "instant \<Rightarrow> (protocol_id \<times> string \<times> pending) list \<Rightarrow>
    ((protocol_id \<times> string \<times> u64) \<times> expired_entry) list \<Rightarrow>
    ((protocol_id \<times> string \<times> u64) \<times> expired_entry) list" where
  "expire_keep now xs m = foldl (\<lambda>m (p, chat, pending).
     AList.update (p, chat, pending_request pending) \<lparr>xe_pending = pending, xe_at = now\<rparr> m) m xs"

lemma expire_kept: "st_expired (snd (expire now t)) = expire_keep now (fst (expire now t)) (st_expired t)"
  by (simp add: expire_def expire_keep_def Let_def split_beta)

lemma expire_next [simp]: "st_next (snd (expire now t)) = st_next t"
  by (simp add: expire_def Let_def split_beta)

lemma expire_keep_ok: "hm_ok m \<Longrightarrow> hm_ok (expire_keep now xs m)"
  by (induction xs arbitrary: m) (auto simp: expire_keep_def hm.oks)

lemma expire_keep_keys:
  "fst ` set (expire_keep now xs m)
     = fst ` set m \<union> (\<lambda>(p, chat, pending). (p, chat, pending_request pending)) ` set xs"
proof (induction xs arbitrary: m)
  case (Cons x xs)
  then show ?case by (cases x) (simp add: expire_keep_def dom_update)
qed (simp add: expire_keep_def)

lemma expire_keep_entries:
  "hm_ok m \<Longrightarrow> (k, v) \<in> set (expire_keep now xs m) \<Longrightarrow>
     (k, v) \<in> set m \<or> (\<exists>(p, chat, pending) \<in> set xs.
        k = (p, chat, pending_request pending) \<and> v = \<lparr>xe_pending = pending, xe_at = now\<rparr>)"
proof (induction xs arbitrary: m)
  case (Cons x xs)
  obtain p chat pend where x: "x = (p, chat, pend)" by (metis surj_pair)
  let ?m = "AList.update (p, chat, pending_request pend) \<lparr>xe_pending = pend, xe_at = now\<rparr> m"
  have "hm_ok ?m" using Cons.prems(1) by (rule hm.ok_insert)
  moreover have "(k, v) \<in> set (expire_keep now xs ?m)" using Cons.prems(2) by (simp add: x expire_keep_def)
  ultimately have "(k, v) \<in> set ?m \<or> (\<exists>(p, chat, pending) \<in> set xs.
        k = (p, chat, pending_request pending) \<and> v = \<lparr>xe_pending = pending, xe_at = now\<rparr>)"
    by (rule Cons.IH)
  then show ?case using hm.entries_insert [OF Cons.prems(1)] by (auto simp: x)
qed (simp add: expire_keep_def)

lemma expire_keep_lookup:
  "distinct (map (\<lambda>(p, chat, pending). (p, chat, pending_request pending)) xs) \<Longrightarrow>
   (p, chat, pend) \<in> set xs \<Longrightarrow>
   map_of (expire_keep now xs m) (p, chat, pending_request pend)
     = Some \<lparr>xe_pending = pend, xe_at = now\<rparr>"
proof (induction xs rule: rev_induct)
  case (snoc x xs)
  obtain p' chat' pend' where x: "x = (p', chat', pend')" by (metis surj_pair)
  have "expire_keep now (xs @ [x]) m = AList.update (p', chat', pending_request pend')
      \<lparr>xe_pending = pend', xe_at = now\<rparr> (expire_keep now xs m)"
    by (simp add: expire_keep_def x)
  with snoc show ?case by (force simp: x update_conv')
qed simp

lemma open_ids_iff:
  "hm_ok (st_open t) \<Longrightarrow>
   (r, p, chat) \<in> open_ids t \<longleftrightarrow> request_of p chat t = Some r"
  by (force simp: open_ids_def request_of_def hm_ok_def image_iff split: prod.splits)

lemma late_ids_iff: "(r, p, chat) \<in> late_ids t \<longleftrightarrow> (p, chat, r) \<in> fst ` set (st_expired t)"
  by (force simp: late_ids_def)

lemma late_ids_lookup: "(r, p, chat) \<in> late_ids t \<longleftrightarrow> map_of (st_expired t) (p, chat, r) \<noteq> None"
  by (simp add: late_ids_iff map_of_eq_None_iff)


section \<open>The life of a request\<close>

datatype request_phase = Unused | InFlight | Late | Done

fun phase_rank :: "request_phase \<Rightarrow> nat" where
  "phase_rank Unused = 0"
| "phase_rank InFlight = 1"
| "phase_rank Late = 2"
| "phase_rank Done = 3"

definition phase_of :: "u64 \<Rightarrow> send_tracker \<Rightarrow> request_phase" where
  "phase_of r t =
     (if st_next t \<le> r then Unused
      else if r \<in> fst ` open_ids t then InFlight
      else if r \<in> fst ` late_ids t then Late
      else Done)"

text \<open>The operations of the tracker as steps, with the requests each one answers.\<close>

datatype send_op =
  OpSend protocol_id string string "message_topic option" "outgoing_file list" instant
| OpRetry protocol_id string string instant
| OpSettle protocol_id string u64
| OpSettleExpired protocol_id string u64
| OpExpire instant
| OpPrune instant
| OpDropRetry protocol_id string string
| OpDropProtocol protocol_id

fun send_step :: "send_op \<Rightarrow> send_tracker \<Rightarrow> u64 list \<times> send_tracker" where
  "send_step (OpSend p c b tp fs now) t = ([], snd (begin_send_files p c b tp fs now t))"
| "send_step (OpRetry p c m now) t = ([], snd (begin_retry p c m now t))"
| "send_step (OpSettle p c r) t =
     (let (a, t') = settle p c r t in ((case a of Some x \<Rightarrow> [pending_request x] | None \<Rightarrow> []), t'))"
| "send_step (OpSettleExpired p c r) t =
     (let (a, t') = settle_expired p c r t in ((case a of Some x \<Rightarrow> [pending_request x] | None \<Rightarrow> []), t'))"
| "send_step (OpExpire now) t = ([], snd (expire now t))"
| "send_step (OpPrune now) t = ([], prune_expired now t)"
| "send_step (OpDropRetry p c m) t = ([], drop_retry_of p c m t)"
| "send_step (OpDropProtocol p) t = ([], drop_protocol p t)"

fun send_run :: "send_op list \<Rightarrow> send_tracker \<Rightarrow> u64 list \<times> send_tracker" where
  "send_run [] t = ([], t)"
| "send_run (op # ops) t =
     (let (a, t1) = send_step op t; (b, t2) = send_run ops t1 in (a @ b, t2))"

text \<open>
  The effect of every operation on the two sets of tracked requests: it starts the next
  request, moves some to the late ones, or forgets some.
\<close>

inductive tracker_effect :: "u64 list \<Rightarrow> send_tracker \<Rightarrow> send_tracker \<Rightarrow> bool" where
  effect_begin: "st_next t' = st_next t + 1 \<Longrightarrow> open_ids t' = insert (st_next t, key) (open_ids t) \<Longrightarrow>
    late_ids t' = late_ids t \<Longrightarrow> tracker_effect [] t t'"
| effect_move: "st_next t' = st_next t \<Longrightarrow> open_ids t' \<subseteq> open_ids t \<Longrightarrow>
    late_ids t' = late_ids t \<union> (open_ids t - open_ids t') \<Longrightarrow> tracker_effect [] t t'"
| effect_forget: "st_next t' = st_next t \<Longrightarrow> open_ids t' \<subseteq> open_ids t \<Longrightarrow>
    late_ids t' \<subseteq> late_ids t \<Longrightarrow> tracker_effect [] t t'"
| effect_answer_open: "st_next t' = st_next t \<Longrightarrow> (r, key) \<in> open_ids t \<Longrightarrow>
    open_ids t' = open_ids t - {(r, key)} \<Longrightarrow> late_ids t' = late_ids t \<Longrightarrow> tracker_effect [r] t t'"
| effect_answer_late: "st_next t' = st_next t \<Longrightarrow> (r, key) \<in> late_ids t \<Longrightarrow>
    open_ids t' = open_ids t \<Longrightarrow> late_ids t' = late_ids t - {(r, key)} \<Longrightarrow> tracker_effect [r] t t'"

lemma ids_ok_unique:
  assumes "ids_ok t" "(r, k) \<in> open_ids t \<union> late_ids t" "(r, k') \<in> open_ids t \<union> late_ids t"
  shows "k = k'"
proof -
  have "inj_on fst (open_ids t \<union> late_ids t)" using assms(1) by (simp add: ids_ok_def)
  from inj_onD [OF this _ assms(2,3)] show ?thesis by simp
qed

lemma ids_ok_disjoint:
  assumes "ids_ok t" "r \<in> fst ` open_ids t"
  shows "r \<notin> fst ` late_ids t"
proof
  assume "r \<in> fst ` late_ids t"
  then obtain k k' where k: "(r, k) \<in> open_ids t" "(r, k') \<in> late_ids t" using assms(2) by force
  with ids_ok_unique [OF assms(1), of r k k'] assms(1) show False by (auto simp: ids_ok_def)
qed

lemma ids_ok_fresh: "ids_ok t \<Longrightarrow> (st_next t, k) \<notin> open_ids t \<union> late_ids t"
  unfolding ids_ok_def by (metis fst_conv less_irrefl)

lemma effect_ids_ok:
  assumes "tracker_effect a t t'" "ids_ok t"
  shows "ids_ok t'"
  using assms
proof cases
  case (effect_begin key)
  have new: "st_next t \<notin> fst ` (open_ids t \<union> late_ids t)"
    using ids_ok_fresh [OF assms(2)] by force
  have "inj_on fst (insert (st_next t, key) (open_ids t \<union> late_ids t))"
    using assms(2) new by (auto simp: ids_ok_def image_iff)
  moreover have "insert (st_next t, key) (open_ids t) \<inter> late_ids t = {}"
    using assms(2) ids_ok_fresh [OF assms(2), of key] by (simp add: ids_ok_def)
  moreover have "fst x < st_next t + 1" if "x \<in> open_ids t \<union> late_ids t" for x
    using assms(2) that by (simp add: ids_ok_def less_SucI)
  ultimately show ?thesis by (simp add: ids_ok_def effect_begin)
next
  case effect_move
  then have "open_ids t' \<union> late_ids t' = open_ids t \<union> late_ids t" by blast
  then show ?thesis using effect_move assms(2) by (auto simp: ids_ok_def)
next
  case effect_forget
  then have sub: "open_ids t' \<union> late_ids t' \<subseteq> open_ids t \<union> late_ids t" by blast
  then have "inj_on fst (open_ids t' \<union> late_ids t')"
    using assms(2) inj_on_subset ids_ok_def by blast
  then show ?thesis using effect_forget sub assms(2) by (auto simp: ids_ok_def)
next
  case (effect_answer_open r key)
  then have sub: "open_ids t' \<union> late_ids t' \<subseteq> open_ids t \<union> late_ids t" by blast
  then have "inj_on fst (open_ids t' \<union> late_ids t')"
    using assms(2) inj_on_subset ids_ok_def by blast
  then show ?thesis using effect_answer_open sub assms(2) by (auto simp: ids_ok_def)
next
  case (effect_answer_late r key)
  then have sub: "open_ids t' \<union> late_ids t' \<subseteq> open_ids t \<union> late_ids t" by blast
  then have "inj_on fst (open_ids t' \<union> late_ids t')"
    using assms(2) inj_on_subset ids_ok_def by blast
  then show ?thesis using effect_answer_late sub assms(2) by (auto simp: ids_ok_def)
qed

lemma effect_phase:
  assumes "tracker_effect a t t'" "ids_ok t"
  shows "phase_rank (phase_of r t) \<le> phase_rank (phase_of r t')"
  using assms
proof cases
  case (effect_begin key)
  then show ?thesis by (auto simp: phase_of_def)
next
  case effect_move
  then have "fst ` open_ids t' \<subseteq> fst ` open_ids t" "fst ` late_ids t \<subseteq> fst ` late_ids t'"
    "fst ` late_ids t' \<subseteq> fst ` late_ids t \<union> fst ` open_ids t" by blast+
  with effect_move(2) ids_ok_disjoint [OF assms(2), of r] show ?thesis
    by (auto simp: phase_of_def)
next
  case effect_forget
  then have "fst ` open_ids t' \<subseteq> fst ` open_ids t" "fst ` late_ids t' \<subseteq> fst ` late_ids t" by blast+
  with effect_forget(2) ids_ok_disjoint [OF assms(2), of r] show ?thesis
    by (auto simp: phase_of_def)
next
  case (effect_answer_open i key)
  then have "fst ` open_ids t' \<subseteq> fst ` open_ids t" by blast
  with effect_answer_open show ?thesis by (auto simp: phase_of_def)
next
  case (effect_answer_late i key)
  then have "fst ` late_ids t' \<subseteq> fst ` late_ids t" by blast
  with effect_answer_late show ?thesis by (auto simp: phase_of_def)
qed

lemma effect_answer:
  assumes "tracker_effect a t t'" "ids_ok t" "r \<in> set a"
  shows "phase_of r t \<in> {InFlight, Late}" and "phase_of r t' = Done"
proof -
  consider (o) key where "a = [r]" "st_next t' = st_next t" "(r, key) \<in> open_ids t"
      "open_ids t' = open_ids t - {(r, key)}" "late_ids t' = late_ids t"
    | (l) key where "a = [r]" "st_next t' = st_next t" "(r, key) \<in> late_ids t"
      "open_ids t' = open_ids t" "late_ids t' = late_ids t - {(r, key)}"
    using assms(1,3) by cases auto
  then have "phase_of r t \<in> {InFlight, Late} \<and> phase_of r t' = Done"
  proof cases
    case o
    have used: "r < st_next t" using assms(2) o(3) by (force simp: ids_ok_def)
    have out: "r \<notin> fst ` open_ids t'"
    proof
      assume "r \<in> fst ` open_ids t'"
      then obtain k where "(r, k) \<in> open_ids t" "k \<noteq> key" using o(4) by force
      with ids_ok_unique [OF assms(2), of r k key] o(3) show False by simp
    qed
    have "r \<in> fst ` open_ids t" using o(3) by force
    with ids_ok_disjoint [OF assms(2) this] used out o(2,5) show ?thesis
      by (simp add: phase_of_def)
  next
    case l
    have used: "r < st_next t" using assms(2) l(3) by (force simp: ids_ok_def)
    have out: "r \<notin> fst ` late_ids t'"
    proof
      assume "r \<in> fst ` late_ids t'"
      then obtain k where "(r, k) \<in> late_ids t" "k \<noteq> key" using l(5) by force
      with ids_ok_unique [OF assms(2), of r k key] l(3) show False by simp
    qed
    have late: "r \<in> fst ` late_ids t" using l(3) by force
    then have "r \<notin> fst ` open_ids t" using ids_ok_disjoint [OF assms(2)] by blast
    with used out late l(2,4) show ?thesis by (simp add: phase_of_def)
  qed
  then show "phase_of r t \<in> {InFlight, Late}" "phase_of r t' = Done" by simp_all
qed


section \<open>The operations keep the tracker well formed\<close>

lemma begin_effect:
  assumes "hm_ok (st_open t)" "\<And>r. pending_request (pending r) = r"
  shows "tracker_effect [] t (snd (begin_pending p chat now pending t))"
proof (cases "map_of (st_open t) (p, chat)")
  case None
  then have "(p, chat) \<notin> fst ` set (st_open t)" by (simp add: map_of_eq_None_iff)
  then have "{e \<in> set (st_open t). fst e \<noteq> (p, chat)} = set (st_open t)" by force
  with hm.entries_insert [OF assms(1), of "(p, chat)"] show ?thesis
    by (intro effect_begin [where key = "(p, chat)"])
      (auto simp: begin_pending_def None Let_def open_ids_def late_ids_def open_request_def assms(2))
qed (simp add: begin_pending_def effect_forget)

lemma begin_tables:
  "hm_ok (st_open t) \<Longrightarrow> hm_ok (st_open (snd (begin_pending p chat now pending t)))"
  "st_expired (snd (begin_pending p chat now pending t)) = st_expired t"
  by (auto simp: begin_pending_def Let_def hm.ok_insert split: option.splits)

lemma open_ids_delete:
  "hm_ok (st_open t) \<Longrightarrow> map_of (st_open t) (p, chat) = Some e \<Longrightarrow>
   open_ids (t\<lparr>st_open := AList.delete (p, chat) (st_open t)\<rparr>) = open_ids t - {(open_request e, p, chat)}"
  by (auto simp: set_eq_iff open_ids_iff hm.ok_remove request_of_def delete_conv' split: if_splits)

lemma open_ids_mono: "set (st_open t') \<subseteq> set (st_open t) \<Longrightarrow> open_ids t' \<subseteq> open_ids t"
  unfolding open_ids_def by (rule image_mono)

lemma late_ids_mono: "set (st_expired t') \<subseteq> set (st_expired t) \<Longrightarrow> late_ids t' \<subseteq> late_ids t"
  unfolding late_ids_def by (rule image_mono)

lemma drop_retry_cases:
  "drop_retry_of p chat m t = t \<or>
   (\<exists>e. map_of (st_open t) (p, chat) = Some e \<and>
      drop_retry_of p chat m t = t\<lparr>st_open := AList.delete (p, chat) (st_open t)\<rparr>)"
  by (auto simp: drop_retry_of_def Let_def split: option.splits)

lemma late_ids_delete:
  "hm_ok (st_expired t) \<Longrightarrow>
   late_ids (t\<lparr>st_expired := AList.delete (p, chat, r) (st_expired t)\<rparr>) = late_ids t - {(r, p, chat)}"
  by (auto simp: late_ids_def hm.entries_remove image_iff) force+

lemma ids_of_other_table [simp]:
  "open_ids (t\<lparr>st_expired := x\<rparr>) = open_ids t" "late_ids (t\<lparr>st_open := y\<rparr>) = late_ids t"
  by (simp_all add: open_ids_def late_ids_def)

lemma settle_cases:
  assumes "hm_ok (st_open t)"
  obtains "settle p chat r t = (None, t)" "(r, p, chat) \<notin> open_ids t"
  | e where "map_of (st_open t) (p, chat) = Some e" "open_request e = r" "(r, p, chat) \<in> open_ids t"
      "settle p chat r t = (Some (oe_pending e), t\<lparr>st_open := AList.delete (p, chat) (st_open t)\<rparr>)"
proof (cases "(r, p, chat) \<in> open_ids t")
  case True
  with assms obtain e where "map_of (st_open t) (p, chat) = Some e" "open_request e = r"
    by (auto simp: open_ids_iff request_of_def)
  with True that(2) show ?thesis by (simp add: settle_def)
next
  case False
  with assms that(1) show ?thesis by (simp add: settle_def open_ids_iff request_of_def)
qed

lemma expire_ids:
  assumes o: "hm_ok (st_open t)"
  shows "open_ids (snd (expire now t)) \<subseteq> open_ids t"
    and "late_ids (snd (expire now t)) = late_ids t \<union> (open_ids t - open_ids (snd (expire now t)))"
proof -
  have 1: "open_ids (snd (expire now t)) \<subseteq> open_ids t"
    unfolding open_ids_def expire_open [OF o] by (rule image_mono) auto
  have 2: "late_ids (snd (expire now t)) = late_ids t \<union>
      (\<lambda>((p, chat), e). (open_request e, p, chat)) ` {x \<in> set (st_open t). is_late now (snd x)}"
    by (auto simp: set_eq_iff late_ids_iff expire_kept expire_keep_keys expire_open [OF o]
        open_request_def image_iff split_beta; force)
  have 3: "(\<lambda>((p, chat), e). (open_request e, p, chat)) ` {x \<in> set (st_open t). is_late now (snd x)}
      = open_ids t - open_ids (snd (expire now t))"
  proof -
    have "inj_on (\<lambda>((p, chat), e). (open_request e, p, chat)) (set (st_open t))"
      using o by (auto simp: inj_on_def hm_ok_def dest: eq_key_imp_eq_value)
    then have "(\<lambda>((p, chat), e). (open_request e, p, chat)) `
        (set (st_open t) - {x \<in> set (st_open t). \<not> is_late now (snd x)}) =
        open_ids t - (\<lambda>((p, chat), e). (open_request e, p, chat)) `
          {x \<in> set (st_open t). \<not> is_late now (snd x)}"
      by (simp add: open_ids_def inj_on_image_set_diff [where C = "set (st_open t)"])
    moreover have "set (st_open t) - {x \<in> set (st_open t). \<not> is_late now (snd x)} =
        {x \<in> set (st_open t). is_late now (snd x)}" by blast
    ultimately show ?thesis by (simp add: open_ids_def expire_open [OF o] split_beta)
  qed
  from 1 2 3 show "open_ids (snd (expire now t)) \<subseteq> open_ids t"
    "late_ids (snd (expire now t)) = late_ids t \<union> (open_ids t - open_ids (snd (expire now t)))"
    by simp_all
qed

lemma step_effect:
  assumes "tracker_ok t"
  shows "tracker_effect (fst (send_step op t)) t (snd (send_step op t))"
proof -
  have o: "hm_ok (st_open t)" and x: "hm_ok (st_expired t)"
    and i: "\<forall>((p, chat, r), e) \<in> set (st_expired t). pending_request (xe_pending e) = r"
    using assms by (simp_all add: tracker_ok_def)
  show ?thesis
  proof (cases op)
    case (OpSettle p chat r)
    from o show ?thesis
    proof (cases rule: settle_cases [of t p chat r])
      case 1
      then show ?thesis by (simp add: OpSettle effect_forget)
    next
      case (2 e)
      then show ?thesis using open_ids_delete [OF o 2(1)]
        by (auto simp: OpSettle open_request_def [symmetric] intro: effect_answer_open)
    qed
  next
    case (OpSettleExpired p chat r)
    show ?thesis
    proof (cases "map_of (st_expired t) (p, chat, r)")
      case None
      then show ?thesis
        by (auto simp: OpSettleExpired settle_expired_def late_ids_delete [OF x] intro: effect_forget)
    next
      case (Some e)
      then have "pending_request (xe_pending e) = r" "(r, p, chat) \<in> late_ids t"
        using i by (auto simp: late_ids_lookup dest: map_of_SomeD)
      with Some late_ids_delete [OF x] show ?thesis
        by (auto simp: OpSettleExpired settle_expired_def intro: effect_answer_late)
    qed
  next
    case (OpExpire now)
    with expire_ids [OF o, of now] show ?thesis by (auto intro: effect_move)
  next
    case (OpDropRetry p chat m)
    with drop_retry_cases [of p chat m t] open_ids_delete [OF o] show ?thesis
      by (auto intro!: effect_forget)
  qed (use o in \<open>auto simp: begin_send_files_def begin_retry_def prune_expired_def drop_protocol_def
      hm_retain_def intro!: begin_effect effect_forget open_ids_mono late_ids_mono\<close>)
qed


lemma expire_tables:
  assumes "tracker_ok t"
  shows "hm_ok (st_open (snd (expire now t)))" "hm_ok (st_expired (snd (expire now t)))"
    "\<forall>((p, chat, r), e) \<in> set (st_expired (snd (expire now t))). pending_request (xe_pending e) = r"
proof -
  have o: "hm_ok (st_open t)" and x: "hm_ok (st_expired t)"
    and i: "\<forall>((p, chat, r), e) \<in> set (st_expired t). pending_request (xe_pending e) = r"
    using assms by (simp_all add: tracker_ok_def)
  show "hm_ok (st_open (snd (expire now t)))"
    using o by (simp add: expire_open [OF o] hm_ok_def distinct_map_filter)
  show "hm_ok (st_expired (snd (expire now t)))"
    by (simp add: expire_kept expire_keep_ok x)
  show "\<forall>((p, chat, r), e) \<in> set (st_expired (snd (expire now t))). pending_request (xe_pending e) = r"
    using i by (fastforce simp: expire_kept dest: expire_keep_entries [OF x])
qed

lemma tracker_step_ok:
  assumes "tracker_ok t"
  shows "tracker_ok (snd (send_step op t))"
proof -
  have o: "hm_ok (st_open t)" and x: "hm_ok (st_expired t)" and ids: "ids_ok t"
    and i: "\<forall>((p, chat, r), e) \<in> set (st_expired t). pending_request (xe_pending e) = r"
    using assms by (simp_all add: tracker_ok_def)
  from effect_ids_ok [OF step_effect [OF assms] ids] have ids': "ids_ok (snd (send_step op t))" .
  have "hm_ok (st_open (snd (send_step op t))) \<and> hm_ok (st_expired (snd (send_step op t))) \<and>
      (\<forall>((p, chat, r), e) \<in> set (st_expired (snd (send_step op t))). pending_request (xe_pending e) = r)"
  proof (cases op)
    case (OpExpire now)
    then show ?thesis using expire_tables [OF assms, of now] by simp
  next
    case (OpSettle p chat r)
    from o show ?thesis
      by (cases rule: settle_cases [of t p chat r]) (use o x i in \<open>simp_all add: OpSettle hm.oks\<close>)
  next
    case (OpSettleExpired p chat r)
    have "set (AList.delete (p, chat, r) (st_expired t)) \<subseteq> set (st_expired t)"
      by (auto simp: AList.delete_eq)
    then show ?thesis using o x i by (auto simp: OpSettleExpired settle_expired_def hm.oks)
  next
    case (OpDropRetry p chat m)
    with drop_retry_cases [of p chat m t] o x i show ?thesis by (auto simp: hm.oks)
  qed (use o x i in \<open>auto simp: begin_send_files_def begin_retry_def begin_tables prune_expired_def
      drop_protocol_def hm.oks hm.entries_retain\<close>)
  with ids' show ?thesis by (simp add: tracker_ok_def)
qed

lemma default_ok: "tracker_ok tracker_default"
  by (simp add: tracker_ok_def tracker_default_def hm.ok_none ids_ok_def open_ids_def late_ids_def)

lemma run_ok: "tracker_ok t \<Longrightarrow> tracker_ok (snd (send_run ops t))"
proof (induction ops arbitrary: t)
  case (Cons op ops)
  from Cons.IH [OF tracker_step_ok [OF Cons.prems]] show ?case by (simp add: split_beta Let_def)
qed simp

lemma run_phase:
  "tracker_ok t \<Longrightarrow> phase_rank (phase_of r t) \<le> phase_rank (phase_of r (snd (send_run ops t)))"
proof (induction ops arbitrary: t)
  case (Cons op ops)
  have "ids_ok t" using Cons.prems by (simp add: tracker_ok_def)
  from effect_phase [OF step_effect [OF Cons.prems] this]
  have "phase_rank (phase_of r t) \<le> phase_rank (phase_of r (snd (send_step op t)))" .
  also note Cons.IH [OF tracker_step_ok [OF Cons.prems]]
  finally show ?case by (simp add: split_beta Let_def)
qed simp

lemma phase_rank_Done: "3 \<le> phase_rank ph \<Longrightarrow> ph = Done"
  by (cases ph) simp_all

lemma run_answers:
  "tracker_ok t \<Longrightarrow> distinct (fst (send_run ops t)) \<and>
     (\<forall>r \<in> set (fst (send_run ops t)). phase_of r t \<noteq> Done \<and> phase_of r (snd (send_run ops t)) = Done)"
proof (induction ops arbitrary: t)
  case (Cons op ops)
  let ?s = "send_step op t"
  note ids = Cons.prems [unfolded tracker_ok_def, THEN conjunct2, THEN conjunct2, THEN conjunct1]
  note eff = step_effect [OF Cons.prems, of op] and ok = tracker_step_ok [OF Cons.prems, of op]
  note IH = Cons.IH [OF ok]
  have first: "phase_of r t \<noteq> Done" "phase_of r (snd ?s) = Done" if "r \<in> set (fst ?s)" for r
    using effect_answer [OF eff ids that] by auto
  have later: "phase_of r t \<noteq> Done" if "r \<in> set (fst (send_run ops (snd ?s)))" for r
    using IH that effect_phase [OF eff ids, of r] phase_rank_Done by fastforce
  have stays: "phase_of r (snd (send_run ops (snd ?s))) = Done" if "r \<in> set (fst ?s)" for r
    using first(2) [OF that] run_phase [OF ok, of r ops] phase_rank_Done by simp
  have "distinct (fst ?s)" using eff by cases auto
  moreover have "set (fst ?s) \<inter> set (fst (send_run ops (snd ?s))) = {}"
    using first(2) IH by blast
  ultimately show ?case using IH first later stays by (auto simp: split_beta Let_def)
qed simp

section \<open>Behaviour of the operations\<close>

lemma begin_none: "fst (begin_pending p chat now pending t) = None \<longleftrightarrow> in_flight p chat t"
  by (simp add: begin_pending_def in_flight_def Let_def split: option.splits)

lemma begin_some:
  "\<not> in_flight p chat t \<Longrightarrow> (\<And>r. pending_request (pending r) = r) \<Longrightarrow>
   fst (begin_pending p chat now pending t) = Some (st_next t) \<and>
   request_of q c (snd (begin_pending p chat now pending t)) =
     (if (q, c) = (p, chat) then Some (st_next t) else request_of q c t)"
  by (auto simp: begin_pending_def in_flight_def Let_def request_of_def update_conv' open_request_def)

lemma tracks_iff: "tracks p r t \<longleftrightarrow> (\<exists>chat. (r, p, chat) \<in> open_ids t \<union> late_ids t)"
  by (force simp: tracks_def list_ex_iff open_ids_def late_ids_def)

lemma settle_request_of:
  "hm_ok (st_open t) \<Longrightarrow> settle p chat r t = (Some x, t') \<Longrightarrow>
   pending_request x = r \<and> request_of p chat t = Some r \<and> request_of p chat t' = None \<and>
   (\<forall>q c. (q, c) \<noteq> (p, chat) \<longrightarrow> request_of q c t' = request_of q c t)"
  by (auto simp: settle_def request_of_def delete_conv' open_request_def split: if_splits)

lemma next_deadline_iff:
  "next_send_deadline t = Some d \<Longrightarrow>
     (d \<le> now \<longleftrightarrow> (\<exists>(k, e) \<in> set (st_open t). oe_since e + SEND_TIMEOUT \<le> now))"
proof -
  have fold_min: "foldl min a xs \<le> now \<longleftrightarrow> a \<le> now \<or> (\<exists>x \<in> set xs. x \<le> now)" for a :: nat and xs
    by (induction xs arbitrary: a) (auto simp: min_le_iff_disj)
  assume "next_send_deadline t = Some d"
  then obtain a xs where "map (\<lambda>(_, e). oe_since e + SEND_TIMEOUT) (st_open t) = a # xs"
    and d: "d = foldl min a xs"
    by (auto simp: next_send_deadline_def split: list.splits)
  then have "set (a # xs) = (\<lambda>(_, e). oe_since e + SEND_TIMEOUT) ` set (st_open t)"
    by (metis set_map)
  then have "(a \<le> now \<or> (\<exists>x \<in> set xs. x \<le> now)) \<longleftrightarrow>
      (\<exists>x \<in> (\<lambda>(_, e). oe_since e + SEND_TIMEOUT) ` set (st_open t). x \<le> now)"
    by (metis insert_iff list.simps(15))
  then show ?thesis unfolding d fold_min by (simp add: split_beta)
qed

lemma is_late_iff: "is_late now e \<longleftrightarrow> oe_since e + SEND_TIMEOUT \<le> now"
  by (auto simp: is_late_def SEND_TIMEOUT_def)

lemma expire_deadline:
  assumes "tracker_ok t"
  shows "fst (expire now t) \<noteq> [] \<longleftrightarrow> (\<exists>d. next_send_deadline t = Some d \<and> d \<le> now)"
proof (cases "next_send_deadline t")
  case None
  then have "st_open t = []" by (auto simp: next_send_deadline_def split: list.splits)
  with assms None show ?thesis by (simp add: expire_open tracker_ok_def)
next
  case (Some d)
  have "fst (expire now t) \<noteq> [] \<longleftrightarrow> (\<exists>(k, e) \<in> set (st_open t). is_late now e)"
    using assms by (auto simp: expire_open tracker_ok_def filter_empty_conv)
  with next_deadline_iff [OF Some] show ?thesis by (simp add: Some is_late_iff)
qed

lemma expire_still_tracked:
  assumes "tracker_ok t"
  shows "tracks p r (snd (expire now t)) = tracks p r t"
proof -
  have "hm_ok (st_open t)" using assms by (simp add: tracker_ok_def)
  from expire_ids [OF this, of now] show ?thesis by (auto simp: tracks_iff)
qed


lemma expired_entries:
  assumes "tracker_ok t"
  shows "(p, chat, x) \<in> set (fst (expire now t)) \<longleftrightarrow>
    (\<exists>since. map_of (st_open t) (p, chat) = Some \<lparr>oe_pending = x, oe_since = since\<rparr> \<and>
       since + SEND_TIMEOUT \<le> now)"
proof -
  have o: "hm_ok (st_open t)" using assms by (simp add: tracker_ok_def)
  have "(p, chat, x) \<in> set (fst (expire now t)) \<longleftrightarrow>
      (\<exists>e. map_of (st_open t) (p, chat) = Some e \<and> x = oe_pending e \<and> is_late now e)"
    using o by (force simp: expire_open [OF o] hm_ok_def)
  also have "\<dots> \<longleftrightarrow> (\<exists>since. map_of (st_open t) (p, chat) = Some \<lparr>oe_pending = x, oe_since = since\<rparr> \<and>
       since + SEND_TIMEOUT \<le> now)"
    by (metis is_late_iff open_entry.select_convs(1,2) open_entry.surjective old.unit.exhaust)
  finally show ?thesis .
qed

lemma expired_late_answer:
  assumes "tracker_ok t" "(p, chat, x) \<in> set (fst (expire now t))"
  shows "fst (settle_expired p chat (pending_request x) (prune_expired later (snd (expire now t))))
    = (if later < now + EXPIRED_KEEP then Some x else None)"
proof -
  have o: "hm_ok (st_open t)" and ids: "ids_ok t" using assms(1) by (simp_all add: tracker_ok_def)
  have "inj_on (\<lambda>x. (fst (fst x), snd (fst x), pending_request (oe_pending (snd x)))) (set (st_open t))"
    using o by (auto simp: inj_on_def hm_ok_def dest: eq_key_imp_eq_value)
  then have "inj_on (\<lambda>x. (fst (fst x), snd (fst x), pending_request (oe_pending (snd x))))
      {x \<in> set (st_open t). is_late now (snd x)}"
    by (rule inj_on_subset) blast
  then have "distinct (map (\<lambda>(p, chat, pending). (p, chat, pending_request pending)) (fst (expire now t)))"
    using o by (simp add: expire_open [OF o] hm_ok_def distinct_map comp_def split_beta)
  from expire_keep_lookup [OF this assms(2)]
  have "map_of (st_expired (snd (expire now t))) (p, chat, pending_request x)
      = Some \<lparr>xe_pending = x, xe_at = now\<rparr>"
    by (simp add: expire_kept)
  then show ?thesis using expire_tables(2) [OF assms(1), of now]
    by (auto simp: settle_expired_def prune_expired_def hm.lookup_retain EXPIRED_KEEP_def)
qed

lemma answered_range:
  "set (fst (send_run ops tracker_default)) \<subseteq> {1 ..< st_next (snd (send_run ops tracker_default))}"
proof
  fix r assume "r \<in> set (fst (send_run ops tracker_default))"
  with run_answers [OF default_ok] have "phase_of r tracker_default \<noteq> Done"
    "phase_of r (snd (send_run ops tracker_default)) = Done" by blast+
  then show "r \<in> {1 ..< st_next (snd (send_run ops tracker_default))}"
    by (auto simp: phase_of_def tracker_default_def open_ids_def late_ids_def split: if_splits)
qed

lemma send_run_append:
  "snd (send_run (ops @ later) t) = snd (send_run later (snd (send_run ops t)))"
  by (induction ops arbitrary: t) (simp_all add: split_beta Let_def)

section \<open>Properties\<close>

text \<open>C4: However sends, retries, answers, timeouts and session ends are interleaved, no request is
  answered twice, not even by an answer in time and a late one, and only requests that the tracker
  handed out are answered.\<close>

theorem sends_answered_once:
  "distinct (fst (send_run ops tracker_default)) \<and>
   set (fst (send_run ops tracker_default)) \<subseteq> {1 ..< st_next (snd (send_run ops tracker_default))}"
  using run_answers [OF default_ok] answered_range by blast

text \<open>A request only moves forward (unused, in flight, late, done) whatever operations follow, and
  the tables of a tracker in use stay well formed: one chat per request, never in both tables.\<close>

theorem sends_phase_forward:
  "phase_rank (phase_of r (snd (send_run ops tracker_default)))
     \<le> phase_rank (phase_of r (snd (send_run (ops @ later) tracker_default))) \<and>
   tracker_ok (snd (send_run ops tracker_default))"
  using run_phase [OF run_ok [OF default_ok]] run_ok [OF default_ok] by (simp add: send_run_append)

text \<open>A chat has at most one send or retry: a second one is refused and changes nothing; a first one
  gets a request id that no chat uses and that answers for its chat only.\<close>

theorem one_send_per_chat:
  "let t = snd (send_run ops tracker_default);
       (answer, t') = begin_send_files p chat body topic files now t
   in if in_flight p chat t then answer = None \<and> t' = t
      else answer = Some (st_next t) \<and> \<not> tracks q (st_next t) t \<and>
           request_of q c t' = (if (q, c) = (p, chat) then Some (st_next t) else request_of q c t)"
proof -
  define t where "t = snd (send_run ops tracker_default)"
  have "ids_ok t" using run_ok [OF default_ok] by (simp add: t_def tracker_ok_def)
  then have "\<not> tracks q (st_next t) t" using ids_ok_fresh by (auto simp: tracks_iff)
  moreover have "in_flight p chat t \<Longrightarrow> begin_send_files p chat body topic files now t = (None, t)"
    by (auto simp: begin_send_files_def begin_pending_def in_flight_def)
  moreover note begin_some [of p chat t "\<lambda>r. PSend r body topic files" now q c]
  ultimately show ?thesis by (auto simp: Let_def split_beta begin_send_files_def t_def [symmetric])
qed


text \<open>The timeout removes exactly the entries open for 30 seconds or more, none is due before the
  deadline the core wakes for, and every expired request is still known until it is pruned.\<close>

theorem expire_exact:
  "let t = snd (send_run ops tracker_default) in
   ((p, chat, x) \<in> set (fst (expire now t)) \<longleftrightarrow>
     (\<exists>since. map_of (st_open t) (p, chat) = Some \<lparr>oe_pending = x, oe_since = since\<rparr> \<and>
        since + SEND_TIMEOUT \<le> now)) \<and>
   (fst (expire now t) \<noteq> [] \<longleftrightarrow> (\<exists>d. next_send_deadline t = Some d \<and> d \<le> now)) \<and>
   tracks p r (snd (expire now t)) = tracks p r t"
  using run_ok [OF default_ok, of ops]
  by (simp add: expired_entries expire_deadline expire_still_tracked Let_def)

text \<open>A late answer finds the expired send with its text for five minutes, and not after.\<close>

theorem late_answer_found:
  assumes "t = snd (send_run ops tracker_default)" "(p, chat, x) \<in> set (fst (expire now t))"
  shows "fst (settle_expired p chat (pending_request x) (prune_expired later (snd (expire now t))))
    = (if later < now + EXPIRED_KEEP then Some x else None)"
  using assms run_ok [OF default_ok, of ops] by (simp add: expired_late_answer)

theorem late_answer_found_witness:
  "fst (settle_expired (primary Signal) ''c'' 1 (prune_expired 40000
     (snd (expire 30000 (snd (send_run [OpSend (primary Signal) ''c'' ''hi'' None [] 0] tracker_default))))))
   = Some (PSend 1 ''hi'' None [])"
proof -
  have "(primary Signal, ''c'', PSend 1 ''hi'' None []) \<in> set (fst (expire 30000
      (snd (send_run [OpSend (primary Signal) ''c'' ''hi'' None [] 0] tracker_default))))"
    by (simp add: begin_send_files_def begin_pending_def tracker_default_def Let_def expire_def
        is_late_def SEND_TIMEOUT_def)
  from late_answer_found [OF refl this, of 40000] show ?thesis
    by (simp add: EXPIRED_KEEP_def)
qed

end
