(* ===== verification/Retained.thy ===== *)
theory Retained
  imports Media
begin

text \<open>
  The chat ids and status lines of previous Signal accounts
  (\<open>crates/thinwire-protocol/src/signal.rs\<close>): \<open>retained:<slot>:<chat id>\<close>, with the slot a
  positive count in its shortest decimal form that fits in 32 bits.
\<close>

definition SIGNAL_RETAINED_MARK :: string where
  "SIGNAL_RETAINED_MARK = ''retained:''"

definition SIGNAL_RETAINED_UNREADABLE :: string where
  "SIGNAL_RETAINED_UNREADABLE = ''This history could not be read. It was not deleted.''"

definition strip_prefix :: "string \<Rightarrow> string \<Rightarrow> string option" where
  "strip_prefix p s = (if starts_with p s then Some (drop (length p) s) else None)"

text \<open>\<open>str::parse::<u32>\<close>.\<close>

definition parse_u32 :: "string \<Rightarrow> nat option" where
  "parse_u32 s =
     (let body = (case s of c # r \<Rightarrow> if c = CHR ''+'' then r else s | [] \<Rightarrow> [])
      in if body = [] then None
         else case parse_digits 0 body of
                Some n \<Rightarrow> if n < 2 ^ 32 then Some n else None
              | None \<Rightarrow> None)"

definition positive :: "nat option \<Rightarrow> nat option" where
  "positive n = (case n of Some k \<Rightarrow> if 0 < k then Some k else None | None \<Rightarrow> None)"

definition signal_retained_unreadable_detail :: "nat \<Rightarrow> string" where
  "signal_retained_unreadable_detail slot = SIGNAL_RETAINED_UNREADABLE @ '' '' @ show_nat slot"

definition signal_retained_unreadable_slot :: "string \<Rightarrow> nat option" where
  "signal_retained_unreadable_slot detail =
     (case Option.bind (strip_prefix SIGNAL_RETAINED_UNREADABLE detail) (strip_prefix '' '') of
        None \<Rightarrow> None
      | Some rest \<Rightarrow>
          if rest = [] \<or> starts_with ''+'' rest \<or> (1 < length rest \<and> starts_with ''0'' rest) then None
          else if \<not> list_all is_digit rest then None
          else positive (parse_u32 rest))"

definition signal_retained_chat_id :: "nat \<Rightarrow> string \<Rightarrow> string" where
  "signal_retained_chat_id slot chat = SIGNAL_RETAINED_MARK @ show_nat slot @ '':'' @ chat"

definition signal_retained_slot :: "string \<Rightarrow> nat option" where
  "signal_retained_slot conversation_id =
     (case Option.bind (strip_prefix SIGNAL_RETAINED_MARK conversation_id) (split_once (CHR '':'')) of
        None \<Rightarrow> None
      | Some (slot, chat) \<Rightarrow>
          if chat = [] \<or> slot = [] \<or> starts_with ''+'' slot then None
          else if 1 < length slot \<and> starts_with ''0'' slot then None
          else positive (parse_u32 slot))"

definition signal_retained_chat :: "string \<Rightarrow> string option" where
  "signal_retained_chat conversation_id =
     (case signal_retained_slot conversation_id of
        None \<Rightarrow> None
      | Some _ \<Rightarrow>
          map_option snd
            (Option.bind (strip_prefix SIGNAL_RETAINED_MARK conversation_id) (split_once (CHR '':''))))"

section \<open>Decimal numbers\<close>

text \<open>A number in its shortest form is the text that prints it.\<close>

definition shortest :: "string \<Rightarrow> bool" where
  "shortest s \<longleftrightarrow> s \<noteq> [] \<and> \<not> starts_with ''+'' s \<and> (1 < length s \<longrightarrow> \<not> starts_with ''0'' s)"

lemma parse_digits_ge: "parse_digits a ds = Some n \<Longrightarrow> a \<le> n"
proof (induction a ds rule: parse_digits.induct)
  case (2 a c cs)
  then have "a * 10 + (of_char c - 48) \<le> n" by (auto split: if_splits)
  then show ?case by linarith
qed simp

lemma digit_value: "is_digit c \<Longrightarrow> digit_char (of_char c - 48) = c \<and> (of_char c :: nat) - 48 < 10"
  by (auto simp: is_digit_def digit_char_def)

lemma of_char_zero: "(of_char c :: nat) = 48 \<longleftrightarrow> c = CHR ''0''"
proof -
  have "(of_char (CHR ''0'') :: nat) = 48" by simp
  then show ?thesis using of_char_eq_iff [of c "CHR ''0''", where ?'a = nat] by simp
qed

lemma shortest_show: "shortest s \<Longrightarrow> parse_digits 0 s = Some n \<Longrightarrow> s = show_nat n"
proof (induction s arbitrary: n rule: rev_induct)
  case (snoc d xs)
  from snoc.prems(2) obtain k where k: "parse_digits 0 xs = Some k" "is_digit d"
    "n = k * 10 + (of_char d - 48)"
    by (auto simp: parse_digits_append bind_eq_Some_conv split: if_splits)
  note d = digit_value [OF k(2)]
  show ?case
  proof (cases xs)
    case Nil
    with k d show ?thesis by (simp add: show_nat.simps [of "of_char d - 48"])
  next
    case (Cons c cs)
    have z: "c \<noteq> CHR ''0''" "c \<noteq> CHR ''+''" using snoc.prems(1) Cons
      by (auto simp: shortest_def starts_with_def)
    then have "shortest xs" by (simp add: shortest_def starts_with_def Cons)
    from snoc.IH [OF this k(1)] have xs: "xs = show_nat k" .
    have c: "is_digit c" "parse_digits (of_char c - 48) cs = Some k"
      using k(1) Cons by (auto split: if_splits)
    have "of_char c \<noteq> (48::nat)" using z(1) by (simp add: of_char_zero)
    then have "0 < k" using parse_digits_ge [OF c(2)] c(1) by (auto simp: is_digit_def)
    then have "\<not> n < 10" using k(3) by simp
    moreover have "n div 10 = k" "n mod 10 = of_char d - 48" using d k(3) by auto
    ultimately show ?thesis using xs d by (simp add: show_nat.simps [of n])
  qed
qed (simp add: shortest_def)

lemma show_nat_hd: "is_digit (hd (show_nat n))"
  using show_nat_digits [of "hd (show_nat n)" n] show_nat_nonempty [of n] by simp

lemma show_nat_no_zero: "0 < n \<Longrightarrow> hd (show_nat n) \<noteq> CHR ''0''"
proof (induction n rule: show_nat.induct)
  case (1 n)
  show ?case
  proof (cases "n < 10")
    case True
    then show ?thesis using "1.prems" of_char_zero [of "digit_char n"] of_char_digit_char [OF True]
      by (simp add: show_nat.simps [of n])
  next
    case False
    then have "0 < n div 10" by simp
    with "1.IH" [OF False this] False show_nat_nonempty [of "n div 10"] show ?thesis
      by (simp add: show_nat.simps [of n])
  qed
qed

lemma show_nat_shortest: "0 < n \<Longrightarrow> shortest (show_nat n)"
  using show_nat_nonempty [of n] show_nat_no_zero [of n] show_nat_hd [of n]
  by (cases "show_nat n") (auto simp: shortest_def starts_with_def is_digit_def)

lemma parse_u32_shortest:
  "\<not> starts_with ''+'' s \<Longrightarrow> s \<noteq> [] \<Longrightarrow>
   parse_u32 s = (case parse_digits 0 s of Some n \<Rightarrow> if n < 2 ^ 32 then Some n else None | None \<Rightarrow> None)"
  by (cases s) (auto simp: parse_u32_def starts_with_def)

lemma colon_not_digit: "CHR '':'' \<notin> set (show_nat n)"
  using show_nat_digits [of "CHR '':''" n] by (auto simp: is_digit_def)

lemma strip_prefix_append [simp]: "strip_prefix p (p @ s) = Some s"
  by (simp add: strip_prefix_def starts_with_def)

lemma strip_prefix_Some: "strip_prefix p s = Some r \<Longrightarrow> s = p @ r"
  by (auto simp: strip_prefix_def starts_with_def split: if_splits) (metis append_take_drop_id)

section \<open>Retained ids\<close>

lemma retained_slot_iff:
  "signal_retained_slot s = Some n \<longleftrightarrow>
     (\<exists>chat. s = signal_retained_chat_id n chat \<and> chat \<noteq> [] \<and> 0 < n \<and> n < 2 ^ 32)"
proof
  assume "signal_retained_slot s = Some n"
  then obtain rest slot chat where r: "strip_prefix SIGNAL_RETAINED_MARK s = Some rest"
    "split_once (CHR '':'') rest = Some (slot, chat)" "chat \<noteq> []" "shortest slot"
    "positive (parse_u32 slot) = Some n"
    by (auto simp: signal_retained_slot_def shortest_def bind_eq_Some_conv split: option.splits if_splits)
  from r(4) have "parse_u32 slot =
      (case parse_digits 0 slot of Some n \<Rightarrow> if n < 2 ^ 32 then Some n else None | None \<Rightarrow> None)"
    by (intro parse_u32_shortest) (simp_all add: shortest_def)
  with r(5) have n: "parse_digits 0 slot = Some n" "0 < n" "n < 2 ^ 32"
    by (auto simp: positive_def split: option.splits if_splits)
  from shortest_show [OF r(4) n(1)] have "slot = show_nat n" .
  with strip_prefix_Some [OF r(1)] split_once_Some [OF r(2)] r(3) n(2,3)
  show "\<exists>chat. s = signal_retained_chat_id n chat \<and> chat \<noteq> [] \<and> 0 < n \<and> n < 2 ^ 32"
    by (auto simp: signal_retained_chat_id_def)
next
  assume "\<exists>chat. s = signal_retained_chat_id n chat \<and> chat \<noteq> [] \<and> 0 < n \<and> n < 2 ^ 32"
  then obtain chat where s: "s = signal_retained_chat_id n chat" "chat \<noteq> []" "0 < n" "n < 2 ^ 32" by blast
  have "shortest (show_nat n)" using s(3) by (rule show_nat_shortest)
  moreover have "split_once (CHR '':'') (show_nat n @ CHR '':'' # chat) = Some (show_nat n, chat)"
    by (rule split_once_append) (rule colon_not_digit)
  ultimately show "signal_retained_slot s = Some n"
    using s(2-4) by (simp add: s(1) signal_retained_chat_id_def signal_retained_slot_def shortest_def
        parse_u32_shortest parse_digits_show_nat positive_def)
qed

lemma retained_chat_of:
  "chat \<noteq> [] \<Longrightarrow> 0 < n \<Longrightarrow> n < 2 ^ 32 \<Longrightarrow> signal_retained_chat (signal_retained_chat_id n chat) = Some chat"
proof -
  assume "chat \<noteq> []" "0 < n" "n < 2 ^ 32"
  then have "signal_retained_slot (signal_retained_chat_id n chat) = Some n"
    using retained_slot_iff by blast
  then show ?thesis
    by (simp add: signal_retained_chat_def) (simp add: signal_retained_chat_id_def
        split_once_append colon_not_digit)
qed

section \<open>Properties\<close>

text \<open>A chat id names a slot of a previous Signal account exactly when it is the id that the app
  builds for that slot and some chat; and then the chat id comes back unchanged.\<close>

theorem retained_ids_canonical:
  "(signal_retained_slot s = Some n) =
     (\<exists>chat. s = signal_retained_chat_id n chat \<and> signal_retained_chat s = Some chat \<and>
        chat \<noteq> [] \<and> 0 < n \<and> n < 2 ^ 32)"
proof -
  have "signal_retained_chat (signal_retained_chat_id n chat) = Some chat"
    if "chat \<noteq> [] \<and> 0 < n \<and> n < 2 ^ 32" for chat
    using that retained_chat_of by blast
  then show ?thesis unfolding retained_slot_iff by blast
qed

end
