(* ===== verification/Supervisor.thy ===== *)
theory Supervisor
  imports Convert Frame
begin

text \<open>
  The app side of a helper process (\<open>crates/thinwire-protocol/src/helper/supervisor.rs\<close>): the
  state of the supervisor task of one protocol and every handler of its loop. A step reads the
  clock once. Events are appended to \<open>sv_events\<close>, the lines for the helper's stdin to \<open>sv_sent\<close>
  with the number of the process; dropping a link, which kills its process, is \<open>sv_link := None\<close>.
  What a step reads outside the supervisor is the record \<open>helper_env\<close>: the clock, the launcher,
  the phone vault and serde's text of a line.
\<close>

section \<open>Timing\<close>

record helper_timing =
  ht_hello_wait :: duration
  ht_busy_after :: duration
  ht_restart_base :: duration
  ht_restart_max :: duration
  ht_max_failures :: nat
  ht_stable_run :: duration
  ht_stop_wait :: duration
  ht_kill_wait :: duration
  ht_drain_wait :: duration

definition APP_CLOSE_LIMIT :: duration where
  "APP_CLOSE_LIMIT = 5000"

definition ADAPTER_STOP_WAIT :: duration where
  "ADAPTER_STOP_WAIT = APP_CLOSE_LIMIT - 500"

definition HELPER_STOP_WAIT :: duration where
  "HELPER_STOP_WAIT = APP_CLOSE_LIMIT - 250"

definition APP :: helper_timing where
  "APP = \<lparr>ht_hello_wait = 10000, ht_busy_after = 1500, ht_restart_base = 1000,
     ht_restart_max = 60000, ht_max_failures = 5, ht_stable_run = 60000,
     ht_stop_wait = HELPER_STOP_WAIT, ht_kill_wait = 5000, ht_drain_wait = 1000\<rparr>"

definition backoff :: "helper_timing \<Rightarrow> nat \<Rightarrow> duration" where
  "backoff tm failures =
     (let doubled = min (failures - 1) 16 in min (ht_restart_base tm * 2 ^ doubled) (ht_restart_max tm))"

section \<open>State\<close>

datatype ended = Closed | BadLine "unit frame_error"

datatype msg =
  MsgCommand adapter_command
| MsgRestart
| MsgShutdown
| MsgLine u64 helper_line
| MsgEnded u64 ended
| MsgExited u64

record replay =
  rp_acknowledged :: bool
  rp_link :: "u64 option"

definition no_replay :: replay where
  "no_replay = \<lparr>rp_acknowledged = False, rp_link = None\<rparr>"

definition replay_is_empty :: "replay \<Rightarrow> bool" where
  "replay_is_empty r \<longleftrightarrow> \<not> rp_acknowledged r \<and> rp_link r = None"

fun replay_note :: "wire_command \<Rightarrow> replay \<Rightarrow> replay" where
  "replay_note WAcknowledgeGate r = r\<lparr>rp_acknowledged := True\<rparr>"
| "replay_note (WBeginLink generation _) r = r\<lparr>rp_link := Some generation\<rparr>"
| "replay_note WCancelLink r = no_replay"
| "replay_note WDisconnect r = no_replay"
| "replay_note _ r = r"

record link =
  lk_run :: u64
  lk_started :: instant
  lk_greeted :: bool
  lk_hello_deadline :: instant
  lk_held :: "wire_command list"
  lk_unacked :: "(u64 \<times> instant) list"
  lk_drain_deadline :: "instant option"

record supervisor =
  sv_protocol :: protocol_id
  sv_wire :: wire_protocol
  sv_timing :: helper_timing
  sv_events :: events
  sv_sent :: "(u64 \<times> app_line) list"
  sv_link :: "link option"
  sv_runs :: u64
  sv_alive :: "u64 set"
  sv_start_waits :: bool
  sv_old_exit_deadline :: "instant option"
  sv_reported :: "helper_state option"
  sv_failures :: nat
  sv_restart_at :: "instant option"
  sv_stop_deadline :: "instant option"
  sv_stopping :: bool
  sv_replay :: replay
  sv_wake_link :: "(u64 \<times> wire_command) option"
  sv_sends :: "(u64 \<times> string) list"
  sv_account :: account_state
  sv_linked_once :: bool
  sv_next_id :: u64

text \<open>\<open>en_launch\<close> says whether \<open>launcher.launch()\<close> gives a process.\<close>

record helper_env =
  en_now :: instant
  en_installed :: bool
  en_launch :: bool
  en_phone :: "string option"
  en_json :: "app_line \<Rightarrow> json_category + string"

definition encode_line :: "helper_env \<Rightarrow> app_line \<Rightarrow> unit frame_error + string" where
  "encode_line env line = encode (en_json env) line"

definition sv_emit :: "(events \<Rightarrow> events) \<Rightarrow> supervisor \<Rightarrow> supervisor" where
  "sv_emit f s = s\<lparr>sv_events := f (sv_events s)\<rparr>"

section \<open>Reports and texts\<close>

definition report :: "helper_state \<Rightarrow> supervisor \<Rightarrow> supervisor" where
  "report state s =
     (if sv_reported s \<noteq> Some state
      then sv_emit (emit_helper (sv_protocol s) state) (s\<lparr>sv_reported := Some state\<rparr>) else s)"

definition not_connected :: "supervisor \<Rightarrow> string" where
  "not_connected s = pid_label (sv_protocol s) @ '' is not connected. Link a device first.''"

definition missing :: "supervisor \<Rightarrow> string" where
  "missing s = pid_label (sv_protocol s) @ '' helper missing. Reinstall thinwire.''"

definition stopped :: "supervisor \<Rightarrow> string" where
  "stopped s = ''The '' @ pid_label (sv_protocol s) @ '' helper stopped. Click Restart on the '' @
     pid_label (sv_protocol s) @ '' account.''"

definition send_idle_status :: "supervisor \<Rightarrow> supervisor" where
  "send_idle_status s =
     (let (status, detail) =
        (case sv_reported s of
           Some HMissing \<Rightarrow> (StError, missing s)
         | Some (HStopped _) \<Rightarrow> (StError, stopped s)
         | _ \<Rightarrow> (Stubbed, pid_label (sv_protocol s) @ '' has no linked device.''))
      in sv_emit (emit_status (sv_protocol s) status detail) s)"

definition set_unlinked :: "supervisor \<Rightarrow> supervisor" where
  "set_unlinked s =
     sv_emit (emit_account (sv_protocol s) Unlinked) (s\<lparr>sv_account := Unlinked\<rparr>)"

section \<open>Commands\<close>

text \<open>The request and the chat of a send, a media send or a retry.\<close>

fun send_key :: "wire_command \<Rightarrow> (u64 \<times> string) option" where
  "send_key (WSendText chat _ request _) = Some (request, chat)"
| "send_key (WSendMedia chat _ _ request) = Some (request, chat)"
| "send_key (WResendMessage chat _ request) = Some (request, chat)"
| "send_key _ = None"

fun gives_up :: "wire_command \<Rightarrow> bool" where
  "gives_up WCancelLink = True"
| "gives_up WDisconnect = True"
| "gives_up _ = False"

fun is_begin_link :: "wire_command \<Rightarrow> bool" where
  "is_begin_link (WBeginLink _ _) = True"
| "is_begin_link _ = False"

definition give_up_link :: "supervisor \<Rightarrow> supervisor" where
  "give_up_link s =
     (let s = s\<lparr>sv_restart_at := None, sv_start_waits := False, sv_old_exit_deadline := None,
                sv_wake_link := None, sv_linked_once := False\<rparr>;
          s = (if sv_reported s = Some HRestarting then report HIdle s else s)
      in send_idle_status (set_unlinked s))"

fun answer_without_helper :: "wire_command \<Rightarrow> supervisor \<Rightarrow> supervisor" where
  "answer_without_helper WConnect s = send_idle_status s"
| "answer_without_helper WLoadChats s =
     sv_emit (emit_chat_list_loaded (sv_protocol s))
       (sv_emit (emit_command_failed (sv_protocol s) None (not_connected s)) s)"
| "answer_without_helper (WOpenChat chat) s =
     sv_emit (emit_history_loaded (sv_protocol s) chat)
       (sv_emit (emit_command_failed (sv_protocol s) (Some chat) (not_connected s)) s)"
| "answer_without_helper (WLoadOlderMessages chat before _) s =
     sv_emit (emit_older_history_loaded (sv_protocol s) chat before False None None) s"
| "answer_without_helper (WSendText chat _ request _) s =
     sv_emit (emit_send_rejected (sv_protocol s) chat request)
       (s\<lparr>sv_sends := AList.delete request (sv_sends s)\<rparr>)"
| "answer_without_helper (WSendMedia chat _ _ request) s =
     sv_emit (emit_send_rejected (sv_protocol s) chat request)
       (s\<lparr>sv_sends := AList.delete request (sv_sends s)\<rparr>)"
| "answer_without_helper (WResendMessage chat _ request) s =
     sv_emit (emit_send_rejected (sv_protocol s) chat request)
       (s\<lparr>sv_sends := AList.delete request (sv_sends s)\<rparr>)"
| "answer_without_helper WCancelLink s = give_up_link s"
| "answer_without_helper WDisconnect s = give_up_link s"
| "answer_without_helper (WViewChat _) s = s"
| "answer_without_helper (WDeleteMessage chat _ _) s =
     sv_emit (emit_command_failed (sv_protocol s) (Some chat) (not_connected s)) s"
| "answer_without_helper (WReact chat _ _ _) s =
     sv_emit (emit_command_failed (sv_protocol s) (Some chat) (not_connected s)) s"
| "answer_without_helper (WDownloadVoice file_id) s =
     sv_emit (\<lambda>evs. evs @ [EvVoiceFailed (sv_protocol s) file_id]) s"
| "answer_without_helper WAcknowledgeGate s = s"
| "answer_without_helper (WBeginLink _ _) s = s"
| "answer_without_helper WRetryStoreKey s =
     sv_emit (\<lambda>evs. evs @ [EvStoreAccess (sv_protocol s) KeychainDenied]) s"

definition fail_unsent_pairing :: "supervisor \<Rightarrow> supervisor" where
  "fail_unsent_pairing s =
     (let s = set_unlinked (s\<lparr>sv_replay := (sv_replay s)\<lparr>rp_link := None\<rparr>, sv_wake_link := None\<rparr>)
      in sv_emit (emit_status (sv_protocol s) StError
           (pid_label (sv_protocol s) @ '' pairing did not start: the phone number is too long.'')) s)"

definition request :: "helper_env \<Rightarrow> wire_command \<Rightarrow> supervisor \<Rightarrow> supervisor" where
  "request env command s =
     (let s = (case send_key command of
                 Some (r, chat) \<Rightarrow> s\<lparr>sv_sends := AList.update r chat (sv_sends s)\<rparr>
               | None \<Rightarrow> s)
      in case sv_link s of
           None \<Rightarrow> s
         | Some lk \<Rightarrow>
             if \<not> lk_greeted lk then
               let held = (if gives_up command then filter (\<lambda>c. \<not> is_begin_link c) (lk_held lk)
                           else lk_held lk)
               in s\<lparr>sv_link := Some (lk\<lparr>lk_held := held @ [command]\<rparr>)\<rparr>
             else
               let i = sv_next_id s;
                   s = s\<lparr>sv_next_id := i + 1\<rparr>;
                   line = Request i (sv_wire s) command
               in (case encode_line env line of
                     Inr _ \<Rightarrow>
                       s\<lparr>sv_link := Some (lk\<lparr>lk_unacked := lk_unacked lk @ [(i, en_now env)]\<rparr>),
                         sv_sent := sv_sent s @ [(lk_run lk, line)]\<rparr>
                   | Inl _ \<Rightarrow>
                       if is_begin_link command then fail_unsent_pairing s
                       else answer_without_helper command s))"

section \<open>Process\<close>

definition reject_open_sends :: "supervisor \<Rightarrow> supervisor" where
  "reject_open_sends s =
     foldl (\<lambda>s (r, chat). sv_emit (emit_send_rejected (sv_protocol s) chat r) s)
       (s\<lparr>sv_sends := []\<rparr>) (sv_sends s)"

definition stop_for :: "helper_fault \<Rightarrow> supervisor \<Rightarrow> supervisor" where
  "stop_for fault s =
     (let s = s\<lparr>sv_link := None, sv_restart_at := None, sv_wake_link := None\<rparr>;
          s = (if \<not> sv_linked_once s then s\<lparr>sv_replay := (sv_replay s)\<lparr>rp_link := None\<rparr>\<rparr> else s);
          s = reject_open_sends s;
          s = (if sv_account s \<noteq> Unlinked then set_unlinked s else s);
          s = report (HStopped fault) s
      in sv_emit (emit_status (sv_protocol s) StError (stopped s)) s)"

definition start_commands :: "supervisor \<Rightarrow> wire_command list \<times> supervisor" where
  "start_commands s =
     (let gate = (if rp_acknowledged (sv_replay s) then [WAcknowledgeGate] else []);
          link = (case rp_link (sv_replay s) of Some g \<Rightarrow> [WBeginLink g None] | None \<Rightarrow> [])
      in case sv_wake_link s of
           None \<Rightarrow> (gate @ link, s)
         | Some (g, command) \<Rightarrow>
             (gate @ link @ [command],
              s\<lparr>sv_wake_link := None, sv_replay := (sv_replay s)\<lparr>rp_link := Some g\<rparr>\<rparr>))"

definition launch :: "helper_env \<Rightarrow> supervisor \<Rightarrow> supervisor" where
  "launch env s =
     (let s = s\<lparr>sv_restart_at := None\<rparr> in
      if sv_link s \<noteq> None \<or> sv_stopping s then s
      else if sv_alive s \<noteq> {} then
        s\<lparr>sv_start_waits := True,
          sv_old_exit_deadline :=
            (case sv_old_exit_deadline s of
               Some d \<Rightarrow> Some d
             | None \<Rightarrow> Some (en_now env + ht_kill_wait (sv_timing s)))\<rparr>
      else
        let s = s\<lparr>sv_start_waits := False, sv_old_exit_deadline := None\<rparr> in
        if \<not> en_installed env then
          let s = report HMissing (s\<lparr>sv_wake_link := None\<rparr>)
          in sv_emit (emit_status (sv_protocol s) StError (missing s)) s
        else if \<not> en_launch env then stop_for StartFailed s
        else
          let run = sv_runs s + 1;
              s = s\<lparr>sv_runs := run, sv_alive := insert run (sv_alive s)\<rparr>;
              (held, s) = start_commands s;
              lk = \<lparr>lk_run = run, lk_started = en_now env, lk_greeted = False,
                    lk_hello_deadline = en_now env + ht_hello_wait (sv_timing s),
                    lk_held = held, lk_unacked = [], lk_drain_deadline = None\<rparr>
          in report HBusy (s\<lparr>sv_link := Some lk\<rparr>))"

fun last_word :: "wire_command \<Rightarrow> bool" where
  "last_word (WBeginLink _ _) = True"
| "last_word WCancelLink = True"
| "last_word WDisconnect = True"
| "last_word _ = False"

fun in_replay :: "wire_command \<Rightarrow> bool" where
  "in_replay WAcknowledgeGate = True"
| "in_replay (WBeginLink _ _) = True"
| "in_replay _ = False"

definition end_unsent :: "wire_command list \<Rightarrow> supervisor \<Rightarrow> supervisor" where
  "end_unsent unsent s =
     (let s = foldl (\<lambda>s c. if \<not> in_replay c then answer_without_helper c s else s) s unsent
      in case find last_word (rev unsent) of
           Some (WBeginLink g phone) \<Rightarrow>
             s\<lparr>sv_replay := (sv_replay s)\<lparr>rp_link := None\<rparr>,
               sv_wake_link := Some (g, WBeginLink g phone)\<rparr>
         | _ \<Rightarrow> s)"

definition end_pairing :: "supervisor \<Rightarrow> supervisor" where
  "end_pairing s = s\<lparr>sv_linked_once := False, sv_replay := (sv_replay s)\<lparr>rp_link := None\<rparr>\<rparr>"

definition helper_ended :: "helper_env \<Rightarrow> supervisor \<Rightarrow> supervisor" where
  "helper_ended env s =
     (case sv_link s of
        None \<Rightarrow> s
      | Some lk \<Rightarrow>
          let stable = ht_stable_run (sv_timing s) \<le> en_now env - lk_started lk;
              unsent = (if lk_greeted lk then [] else lk_held lk);
              s = reject_open_sends (end_unsent unsent (s\<lparr>sv_link := None\<rparr>))
          in
          if replay_is_empty (sv_replay s) \<and> sv_wake_link s = None then
            let s = s\<lparr>sv_failures := 0\<rparr>;
                s = (if sv_account s \<noteq> Unlinked
                     then sv_emit (emit_account (sv_protocol s) Unlinked)
                            (s\<lparr>sv_account := Unlinked, sv_linked_once := False\<rparr>)
                     else s)
            in report HIdle s
          else
            let s = s\<lparr>sv_failures := (if stable then 1 else sv_failures s + 1)\<rparr> in
            if ht_max_failures (sv_timing s) \<le> sv_failures s then stop_for Crashed s
            else
              let s = (if sv_account s \<noteq> Unlinked then
                         let relinks = rp_link (sv_replay s) \<noteq> None \<or> sv_wake_link s \<noteq> None \<or>
                               (sv_linked_once s \<and> rp_acknowledged (sv_replay s));
                             account = (if relinks then Linking else Unlinked)
                         in sv_emit (emit_account (sv_protocol s) account) (s\<lparr>sv_account := account\<rparr>)
                       else s);
                  s = report HRestarting s;
                  s = sv_emit (emit_notice (sv_protocol s)
                        (''The '' @ pid_label (sv_protocol s) @
                         '' helper stopped. thinwire starts it again.'')) s
              in s\<lparr>sv_restart_at := Some (en_now env + backoff (sv_timing s) (sv_failures s))\<rparr>)"

definition finish_stop :: "supervisor \<Rightarrow> supervisor" where
  "finish_stop s =
     sv_emit (emit_stopped (sv_protocol s))
       (s\<lparr>sv_link := None, sv_stop_deadline := None, sv_sends := []\<rparr>)"

definition on_helper_gone :: "helper_env \<Rightarrow> supervisor \<Rightarrow> supervisor" where
  "on_helper_gone env s = (if sv_stopping s then finish_stop s else helper_ended env s)"

definition is_current :: "u64 \<Rightarrow> supervisor \<Rightarrow> bool" where
  "is_current run s \<longleftrightarrow> (case sv_link s of Some lk \<Rightarrow> lk_run lk = run | None \<Rightarrow> False)"

definition on_restart :: "helper_env \<Rightarrow> supervisor \<Rightarrow> supervisor" where
  "on_restart env s =
     (if sv_stopping s \<or> sv_link s \<noteq> None then s else launch env (s\<lparr>sv_failures := 0\<rparr>))"

definition on_shutdown :: "helper_env \<Rightarrow> supervisor \<Rightarrow> supervisor" where
  "on_shutdown env s =
     (if sv_stopping s then s
      else
        let s = s\<lparr>sv_stopping := True, sv_restart_at := None, sv_wake_link := None,
                  sv_start_waits := False, sv_old_exit_deadline := None\<rparr>
        in case sv_link s of
             None \<Rightarrow> finish_stop s
           | Some lk \<Rightarrow>
               let s = (case encode_line env Shutdown of
                          Inr _ \<Rightarrow> s\<lparr>sv_sent := sv_sent s @ [(lk_run lk, Shutdown)]\<rparr>
                        | Inl _ \<Rightarrow> s)
               in s\<lparr>sv_stop_deadline := Some (en_now env + ht_stop_wait (sv_timing s))\<rparr>)"

definition on_command :: "helper_env \<Rightarrow> adapter_command \<Rightarrow> supervisor \<Rightarrow> supervisor" where
  "on_command env command s =
     (if sv_stopping s then s
      else case command_to_wire (sv_protocol s) command (en_phone env) of
        None \<Rightarrow> s
      | Some wire \<Rightarrow>
          if sv_link s \<noteq> None
          then request env wire (s\<lparr>sv_replay := replay_note wire (sv_replay s)\<rparr>)
          else case wire of
            WAcknowledgeGate \<Rightarrow>
              launch env (s\<lparr>sv_replay := replay_note wire (sv_replay s), sv_failures := 0\<rparr>)
          | WBeginLink g _ \<Rightarrow>
              launch env (s\<lparr>sv_replay := (sv_replay s)\<lparr>rp_link := None\<rparr>,
                            sv_wake_link := Some (g, wire), sv_failures := 0\<rparr>)
          | other \<Rightarrow>
              answer_without_helper other (s\<lparr>sv_replay := replay_note other (sv_replay s)\<rparr>))"

section \<open>Lines of the helper\<close>

definition on_ack :: "helper_env \<Rightarrow> u64 \<Rightarrow> supervisor \<Rightarrow> supervisor" where
  "on_ack env i s =
     (case sv_link s of
        None \<Rightarrow> s
      | Some lk \<Rightarrow>
          let unacked = dropWhile (\<lambda>(sent, _). sent \<le> i) (lk_unacked lk);
              s = s\<lparr>sv_link := Some (lk\<lparr>lk_unacked := unacked\<rparr>)\<rparr>;
              slow = (case unacked of
                        [] \<Rightarrow> False
                      | (_, sent) # _ \<Rightarrow> sent + ht_busy_after (sv_timing s) \<le> en_now env)
          in if \<not> slow \<and> sv_reported s = Some HBusy then report HRunning s else s)"

definition on_event :: "wire_event \<Rightarrow> supervisor \<Rightarrow> supervisor" where
  "on_event event s =
     (case event_from_wire (sv_protocol s) event of
        None \<Rightarrow> s
      | Some ev \<Rightarrow>
          let s = (case ev of
                     EvAccount _ state \<Rightarrow>
                       let s = s\<lparr>sv_account := state\<rparr>
                       in (case state of
                             Linked \<Rightarrow> s\<lparr>sv_linked_once := True\<rparr>
                           | Unlinked \<Rightarrow> end_pairing s
                           | Linking \<Rightarrow> s)
                   | EvAccountEnded _ \<Rightarrow> end_pairing s
                   | EvSendAccepted _ _ r \<Rightarrow> s\<lparr>sv_sends := AList.delete r (sv_sends s)\<rparr>
                   | EvSendRejected _ _ r \<Rightarrow> s\<lparr>sv_sends := AList.delete r (sv_sends s)\<rparr>
                   | _ \<Rightarrow> s)
          in sv_emit (\<lambda>evs. evs @ [ev]) s)"

definition refusal_fault :: "helper_refusal \<Rightarrow> helper_fault" where
  "refusal_fault reason =
     (case reason of
        SessionInUse \<Rightarrow> FaultSessionInUse
      | NoDataDir \<Rightarrow> StartFailed
      | NoClient \<Rightarrow> FaultNoClient)"

definition on_hello ::
    "helper_env \<Rightarrow> nat \<Rightarrow> wire_protocol list \<Rightarrow> supervisor \<Rightarrow> supervisor" where
  "on_hello env version protocols s =
     (if version \<noteq> PROTOCOL_VERSION \<or> sv_wire s \<notin> set protocols then stop_for VersionMismatch s
      else
        let (held, s) =
          (case sv_link s of
             None \<Rightarrow> ([], s)
           | Some lk \<Rightarrow>
               (lk_held lk, s\<lparr>sv_link := Some (lk\<lparr>lk_greeted := True, lk_held := []\<rparr>)\<rparr>))
        in foldl (\<lambda>s c. request env c s) (report HRunning s) held)"

definition on_line :: "helper_env \<Rightarrow> helper_line \<Rightarrow> supervisor \<Rightarrow> supervisor" where
  "on_line env line s =
     (let greeted = (case sv_link s of Some lk \<Rightarrow> lk_greeted lk | None \<Rightarrow> False) in
      case line of
        Hello version _ protocols \<Rightarrow>
          if \<not> greeted then on_hello env version protocols s else helper_ended env s
      | HRefused reason \<Rightarrow>
          if \<not> greeted then stop_for (refusal_fault reason) s else helper_ended env s
      | Ack i \<Rightarrow> if greeted then on_ack env i s else helper_ended env s
      | Event p ev \<Rightarrow> if greeted \<and> p = sv_wire s then on_event ev s else helper_ended env s
      | HelperStopped p \<Rightarrow>
          if greeted \<and> p = sv_wire s
          then (if sv_stopping s then finish_stop s else s)
          else helper_ended env s)"

definition on_exited :: "helper_env \<Rightarrow> u64 \<Rightarrow> supervisor \<Rightarrow> supervisor" where
  "on_exited env run s =
     (let s = s\<lparr>sv_alive := sv_alive s - {run}\<rparr>;
          s = (case sv_link s of
                 Some lk \<Rightarrow>
                   if lk_run lk = run then
                     s\<lparr>sv_link := Some (lk\<lparr>lk_drain_deadline :=
                         (case lk_drain_deadline lk of
                            Some d \<Rightarrow> Some d
                          | None \<Rightarrow> Some (en_now env + ht_drain_wait (sv_timing s)))\<rparr>)\<rparr>
                   else s
               | None \<Rightarrow> s)
      in if sv_start_waits s \<and> sv_alive s = {} then launch env s else s)"

definition on_msg :: "helper_env \<Rightarrow> msg \<Rightarrow> supervisor \<Rightarrow> supervisor" where
  "on_msg env m s =
     (case m of
        MsgCommand command \<Rightarrow> on_command env command s
      | MsgRestart \<Rightarrow> on_restart env s
      | MsgShutdown \<Rightarrow> on_shutdown env s
      | MsgLine run line \<Rightarrow> if is_current run s then on_line env line s else s
      | MsgEnded run _ \<Rightarrow> if is_current run s then on_helper_gone env s else s
      | MsgExited run \<Rightarrow> on_exited env run s)"

section \<open>Timers\<close>

definition hello_due_at :: "supervisor \<Rightarrow> instant option" where
  "hello_due_at s =
     (case sv_link s of
        Some lk \<Rightarrow> if \<not> lk_greeted lk then Some (lk_hello_deadline lk) else None
      | None \<Rightarrow> None)"

definition busy_due_at :: "supervisor \<Rightarrow> instant option" where
  "busy_due_at s =
     (case sv_link s of
        Some lk \<Rightarrow>
          if lk_greeted lk \<and> sv_reported s = Some HRunning then
            (case lk_unacked lk of
               (_, sent) # _ \<Rightarrow> Some (sent + ht_busy_after (sv_timing s))
             | [] \<Rightarrow> None)
          else None
      | None \<Rightarrow> None)"

definition deadlines :: "supervisor \<Rightarrow> instant list" where
  "deadlines s =
     List.map_filter (\<lambda>d. d)
       [sv_restart_at s, sv_stop_deadline s, sv_old_exit_deadline s, hello_due_at s, busy_due_at s,
        Option.bind (sv_link s) lk_drain_deadline]"

definition next_deadline :: "supervisor \<Rightarrow> instant option" where
  "next_deadline s = (case deadlines s of [] \<Rightarrow> None | d # ds \<Rightarrow> Some (foldl min d ds))"

definition due :: "instant option \<Rightarrow> instant \<Rightarrow> bool" where
  "due d now \<longleftrightarrow> (case d of Some at \<Rightarrow> at \<le> now | None \<Rightarrow> False)"

definition on_timer :: "helper_env \<Rightarrow> supervisor \<Rightarrow> supervisor" where
  "on_timer env s =
     (let now = en_now env in
      if due (sv_stop_deadline s) now then finish_stop s
      else if due (sv_old_exit_deadline s) now then
        stop_for StillRunning (s\<lparr>sv_start_waits := False, sv_old_exit_deadline := None\<rparr>)
      else if due (sv_restart_at s) now then launch env (s\<lparr>sv_restart_at := None\<rparr>)
      else case sv_link s of
        None \<Rightarrow> s
      | Some lk \<Rightarrow>
          if due (lk_drain_deadline lk) now then on_helper_gone env s
          else if \<not> lk_greeted lk \<and> lk_hello_deadline lk \<le> now then helper_ended env s
          else
            let slow = (case lk_unacked lk of
                          [] \<Rightarrow> False
                        | (_, sent) # _ \<Rightarrow> sent + ht_busy_after (sv_timing s) \<le> now)
            in if lk_greeted lk \<and> slow then report HBusy s else s)"

section \<open>The adapter\<close>

text \<open>The queue of the supervisor, \<open>None\<close> before \<open>start\<close>.\<close>

record helper_adapter =
  ha_protocol :: protocol_id
  ha_capabilities :: protocol_capabilities
  ha_timing :: helper_timing
  ha_supervisor :: "msg list option"

definition new_supervisor :: "protocol_id \<Rightarrow> wire_protocol \<Rightarrow> helper_timing \<Rightarrow> events \<Rightarrow> supervisor" where
  "new_supervisor p w tm evs =
     \<lparr>sv_protocol = p, sv_wire = w, sv_timing = tm, sv_events = evs, sv_sent = [], sv_link = None,
      sv_runs = 0, sv_alive = {}, sv_start_waits = False, sv_old_exit_deadline = None,
      sv_reported = None, sv_failures = 0, sv_restart_at = None, sv_stop_deadline = None,
      sv_stopping = False, sv_replay = no_replay, sv_wake_link = None, sv_sends = [],
      sv_account = Unlinked, sv_linked_once = False, sv_next_id = 1\<rparr>"

definition ha_send :: "msg \<Rightarrow> helper_adapter \<Rightarrow> helper_adapter" where
  "ha_send m a = a\<lparr>ha_supervisor := map_option (\<lambda>q. q @ [m]) (ha_supervisor a)\<rparr>"

definition ha_start ::
    "helper_env \<Rightarrow> helper_adapter \<Rightarrow> events \<Rightarrow> helper_adapter \<times> events \<times> supervisor option" where
  "ha_start env a evs =
     (let p = ha_protocol a;
          evs = emit_status p Stubbed (cap_detail (ha_capabilities a)) evs
      in case wire_protocol_of p of
           None \<Rightarrow> (a, evs, None)
         | Some w \<Rightarrow>
             let s = new_supervisor p w (ha_timing a) evs;
                 s = (if \<not> en_installed env then report HMissing s else s)
             in (a\<lparr>ha_supervisor := Some []\<rparr>, sv_events s, Some s))"

definition ha_handle :: "adapter_command \<Rightarrow> helper_adapter \<Rightarrow> adapter_error option \<times> helper_adapter" where
  "ha_handle command a =
     (if command = CmdRestartHelper (ha_protocol a) then (None, ha_send MsgRestart a)
      else if command_to_wire (ha_protocol a) command None = None
      then (Some (ErrUnavailable (ha_protocol a) ''command is not handled by the helper adapter''), a)
      else (None, ha_send (MsgCommand command) a))"

definition ha_shutdown :: "helper_adapter \<Rightarrow> events \<Rightarrow> helper_adapter \<times> events" where
  "ha_shutdown a evs =
     (if ha_supervisor a \<noteq> None then (ha_send MsgShutdown a, evs)
      else (a, emit_stopped (ha_protocol a) evs))"

definition ha_view_chat :: "string option \<Rightarrow> helper_adapter \<Rightarrow> helper_adapter" where
  "ha_view_chat chat a = ha_send (MsgCommand (CmdViewChat (ha_protocol a) chat)) a"

end
