(* ===== verification/Supervisor_Facts.thy ===== *)
theory Supervisor_Facts
  imports Supervisor
begin

text \<open>
  What each handler of the supervisor changes, as record updates, and the invariant of its
  state. The steps, the processes and the properties are in \<open>Supervisor_Run\<close>.
\<close>

section \<open>Handlers as record updates\<close>

definition helper_event :: "helper_state \<Rightarrow> supervisor \<Rightarrow> events" where
  "helper_event state s =
     (if sv_reported s = Some state then [] else [EvHelper (sv_protocol s) state])"

lemma report_update [simp]:
  "report state s =
     s\<lparr>sv_reported := Some state, sv_events := sv_events s @ helper_event state s\<rparr>"
  by (simp add: report_def helper_event_def sv_emit_def emit_helper_def)

definition idle_event :: "supervisor \<Rightarrow> adapter_event" where
  "idle_event s =
     (case sv_reported s of
        Some HMissing \<Rightarrow> EvStatus (sv_protocol s) StError (missing s)
      | Some (HStopped _) \<Rightarrow> EvStatus (sv_protocol s) StError (stopped s)
      | _ \<Rightarrow> EvStatus (sv_protocol s) Stubbed (pid_label (sv_protocol s) @ '' has no linked device.''))"

lemma send_idle_status_update [simp]:
  "send_idle_status s = s\<lparr>sv_events := sv_events s @ [idle_event s]\<rparr>"
  by (simp add: send_idle_status_def idle_event_def sv_emit_def emit_status_def
      split: option.splits helper_state.splits)

lemma set_unlinked_update [simp]:
  "set_unlinked s =
     s\<lparr>sv_account := Unlinked, sv_events := sv_events s @ [EvAccount (sv_protocol s) Unlinked]\<rparr>"
  by (simp add: set_unlinked_def sv_emit_def emit_account_def)

definition give_up_events :: "supervisor \<Rightarrow> events" where
  "give_up_events s =
     (if sv_reported s = Some HRestarting then [EvHelper (sv_protocol s) HIdle] else []) @
     [EvAccount (sv_protocol s) Unlinked, idle_event s]"

lemma give_up_link_update:
  "give_up_link s =
     s\<lparr>sv_restart_at := None, sv_start_waits := False, sv_old_exit_deadline := None,
       sv_wake_link := None, sv_linked_once := False, sv_account := Unlinked,
       sv_reported := (if sv_reported s = Some HRestarting then Some HIdle else sv_reported s),
       sv_events := sv_events s @ give_up_events s\<rparr>"
  by (simp add: give_up_link_def give_up_events_def Let_def helper_event_def idle_event_def
      missing_def stopped_def split: option.splits helper_state.splits)

text \<open>The answer to a command that no helper takes, cancels apart.\<close>

fun answer_events :: "wire_command \<Rightarrow> supervisor \<Rightarrow> events" where
  "answer_events WConnect s = [idle_event s]"
| "answer_events WLoadChats s =
     [EvCommandFailed (sv_protocol s) None (not_connected s), EvChatListLoaded (sv_protocol s)]"
| "answer_events (WOpenChat chat) s =
     [EvCommandFailed (sv_protocol s) (Some chat) (not_connected s),
      EvHistoryLoaded (sv_protocol s) chat None]"
| "answer_events (WLoadOlderMessages chat before _) s =
     [EvOlderHistoryLoaded (sv_protocol s) chat before False None None None]"
| "answer_events (WSendText chat _ r _) s = [EvSendRejected (sv_protocol s) chat r]"
| "answer_events (WSendMedia chat _ _ r) s = [EvSendRejected (sv_protocol s) chat r]"
| "answer_events (WResendMessage chat _ r) s = [EvSendRejected (sv_protocol s) chat r]"
| "answer_events (WDeleteMessage chat _ _) s =
     [EvCommandFailed (sv_protocol s) (Some chat) (not_connected s)]"
| "answer_events (WReact chat _ _ _) s =
     [EvCommandFailed (sv_protocol s) (Some chat) (not_connected s)]"
| "answer_events (WDownloadVoice file_id) s = [EvVoiceFailed (sv_protocol s) file_id]"
| "answer_events WRetryStoreKey s = [EvStoreAccess (sv_protocol s) KeychainDenied]"
| "answer_events _ s = []"

definition drop_send :: "wire_command \<Rightarrow> (u64 \<times> string) list \<Rightarrow> (u64 \<times> string) list" where
  "drop_send c m = (case send_key c of Some (r, _) \<Rightarrow> AList.delete r m | None \<Rightarrow> m)"

lemma answer_without_helper_update:
  "answer_without_helper c s =
     (if gives_up c then give_up_link s
      else s\<lparr>sv_sends := drop_send c (sv_sends s), sv_events := sv_events s @ answer_events c s\<rparr>)"
  by (cases c) (simp_all add: drop_send_def sv_emit_def emit_chat_list_loaded_def
      emit_command_failed_def emit_history_loaded_def emit_older_history_loaded_def
      emit_send_rejected_def not_connected_def)

definition reject_events :: "supervisor \<Rightarrow> events" where
  "reject_events s = map (\<lambda>(r, chat). EvSendRejected (sv_protocol s) chat r) (sv_sends s)"

lemma reject_open_sends_update:
  "reject_open_sends s = s\<lparr>sv_sends := [], sv_events := sv_events s @ reject_events s\<rparr>"
proof -
  have "foldl (\<lambda>s (r, chat). sv_emit (emit_send_rejected (sv_protocol s) chat r) s) s xs =
      s\<lparr>sv_events := sv_events s @ map (\<lambda>(r, chat). EvSendRejected (sv_protocol s) chat r) xs\<rparr>"
    for s xs
    by (induction xs arbitrary: s) (auto simp: sv_emit_def emit_send_rejected_def)
  from this [of "s\<lparr>sv_sends := []\<rparr>" "sv_sends s"] show ?thesis
    by (simp add: reject_open_sends_def reject_events_def)
qed

definition stop_events :: "helper_fault \<Rightarrow> supervisor \<Rightarrow> events" where
  "stop_events fault s =
     reject_events s @
     (if sv_account s = Unlinked then [] else [EvAccount (sv_protocol s) Unlinked]) @
     helper_event (HStopped fault) s @ [EvStatus (sv_protocol s) StError (stopped s)]"

lemma stop_for_update:
  "stop_for fault s =
     s\<lparr>sv_link := None, sv_restart_at := None, sv_wake_link := None,
       sv_replay := (if sv_linked_once s then sv_replay s else (sv_replay s)\<lparr>rp_link := None\<rparr>),
       sv_sends := [], sv_account := Unlinked, sv_reported := Some (HStopped fault),
       sv_events := sv_events s @ stop_events fault s\<rparr>"
  by (simp add: stop_for_def Let_def reject_open_sends_update stop_events_def reject_events_def
      helper_event_def sv_emit_def emit_status_def stopped_def)

lemma finish_stop_update:
  "finish_stop s = s\<lparr>sv_link := None, sv_stop_deadline := None, sv_sends := [],
     sv_events := sv_events s @ [EvStopped (sv_protocol s)]\<rparr>"
  by (simp add: finish_stop_def sv_emit_def emit_stopped_def)

lemma fail_unsent_pairing_update:
  "fail_unsent_pairing s =
     s\<lparr>sv_replay := (sv_replay s)\<lparr>rp_link := None\<rparr>, sv_wake_link := None, sv_account := Unlinked,
       sv_events := sv_events s @ [EvAccount (sv_protocol s) Unlinked,
         EvStatus (sv_protocol s) StError
           (pid_label (sv_protocol s) @ '' pairing did not start: the phone number is too long.'')]\<rparr>"
  by (simp add: fail_unsent_pairing_def Let_def sv_emit_def emit_status_def)

lemmas updates = answer_without_helper_update give_up_link_update reject_open_sends_update
  stop_for_update finish_stop_update fail_unsent_pairing_update

section \<open>The invariant\<close>

definition link_inv :: "supervisor \<Rightarrow> link \<Rightarrow> bool" where
  "link_inv s lk \<longleftrightarrow>
     lk_run lk = sv_runs s \<and> sv_restart_at s = None \<and> \<not> sv_start_waits s \<and> sv_wake_link s = None \<and>
     (if lk_greeted lk then lk_held lk = [] else lk_unacked lk = []) \<and>
     sorted_wrt (<) (map fst (lk_unacked lk)) \<and> (\<forall>i \<in> set (map fst (lk_unacked lk)). i < sv_next_id s)"

text \<open>
  The supervisor knows of at most one process, the one it started last; a start waits only for
  that one; a link excludes a pending start; and a pending start or a link means that there
  are tries left.
\<close>

definition sv_inv :: "supervisor \<Rightarrow> bool" where
  "sv_inv s \<longleftrightarrow>
     sv_alive s \<subseteq> {sv_runs s} \<and> pred_option (link_inv s) (sv_link s) \<and>
     (sv_start_waits s \<longleftrightarrow> sv_old_exit_deadline s \<noteq> None) \<and>
     (sv_start_waits s \<longrightarrow> sv_alive s \<noteq> {} \<and> \<not> sv_stopping s) \<and>
     (sv_stop_deadline s \<noteq> None \<longrightarrow> sv_stopping s) \<and>
     (sv_stopping s \<and> sv_stop_deadline s = None \<longrightarrow> sv_link s = None) \<and>
     (sv_link s \<noteq> None \<or> sv_restart_at s \<noteq> None \<or> sv_start_waits s \<longrightarrow>
        sv_failures s < ht_max_failures (sv_timing s)) \<and>
     sv_failures s \<le> ht_max_failures (sv_timing s) \<and>
     pred_option (\<lambda>(g, c). is_begin_link c) (sv_wake_link s) \<and> hm_ok (sv_sends s)"

lemma link_inv_other [simp]:
  "link_inv (s\<lparr>sv_events := x1\<rparr>) = link_inv s" "link_inv (s\<lparr>sv_sent := x2\<rparr>) = link_inv s"
  "link_inv (s\<lparr>sv_link := x3\<rparr>) = link_inv s" "link_inv (s\<lparr>sv_alive := x4\<rparr>) = link_inv s"
  "link_inv (s\<lparr>sv_reported := x5\<rparr>) = link_inv s" "link_inv (s\<lparr>sv_failures := x6\<rparr>) = link_inv s"
  "link_inv (s\<lparr>sv_stop_deadline := x7\<rparr>) = link_inv s" "link_inv (s\<lparr>sv_stopping := x8\<rparr>) = link_inv s"
  "link_inv (s\<lparr>sv_replay := x9\<rparr>) = link_inv s" "link_inv (s\<lparr>sv_sends := x10\<rparr>) = link_inv s"
  "link_inv (s\<lparr>sv_account := x11\<rparr>) = link_inv s" "link_inv (s\<lparr>sv_linked_once := x12\<rparr>) = link_inv s"
  "link_inv (s\<lparr>sv_old_exit_deadline := x13\<rparr>) = link_inv s"
  by (rule ext, simp add: link_inv_def)+

lemma sv_inv_other [simp]:
  "sv_inv (s\<lparr>sv_events := x1\<rparr>) = sv_inv s" "sv_inv (s\<lparr>sv_sent := x2\<rparr>) = sv_inv s"
  "sv_inv (s\<lparr>sv_reported := x5\<rparr>) = sv_inv s" "sv_inv (s\<lparr>sv_replay := x9\<rparr>) = sv_inv s"
  "sv_inv (s\<lparr>sv_account := x11\<rparr>) = sv_inv s" "sv_inv (s\<lparr>sv_linked_once := x12\<rparr>) = sv_inv s"
  by (simp_all add: sv_inv_def)

named_theorems sv_keep

lemma answer_inv [sv_keep]: "sv_inv s \<Longrightarrow> sv_inv (answer_without_helper c s)"
  by (auto simp: sv_inv_def link_inv_def updates drop_send_def hm.ok_remove pred_option_def
      split: option.splits)

lemma foldl_keep: "P s \<Longrightarrow> (\<And>s c. P s \<Longrightarrow> P (f s c)) \<Longrightarrow> P (foldl f s cs)"
  by (induction cs arbitrary: s) simp_all

definition answer_held :: "supervisor \<Rightarrow> wire_command list \<Rightarrow> supervisor" where
  "answer_held s cs = foldl (\<lambda>s c. if \<not> in_replay c then answer_without_helper c s else s) s cs"

lemma answer_held_keep: "P s \<Longrightarrow> (\<And>s c. P s \<Longrightarrow> P (answer_without_helper c s)) \<Longrightarrow> P (answer_held s cs)"
  unfolding answer_held_def by (rule foldl_keep) auto

lemma answer_keeps [simp]:
  "sv_protocol (answer_without_helper c s) = sv_protocol s"
  "sv_wire (answer_without_helper c s) = sv_wire s"
  "sv_timing (answer_without_helper c s) = sv_timing s"
  "sv_sent (answer_without_helper c s) = sv_sent s"
  "sv_link (answer_without_helper c s) = sv_link s"
  "sv_runs (answer_without_helper c s) = sv_runs s"
  "sv_alive (answer_without_helper c s) = sv_alive s"
  "sv_failures (answer_without_helper c s) = sv_failures s"
  "sv_stop_deadline (answer_without_helper c s) = sv_stop_deadline s"
  "sv_stopping (answer_without_helper c s) = sv_stopping s"
  "sv_replay (answer_without_helper c s) = sv_replay s"
  "sv_next_id (answer_without_helper c s) = sv_next_id s"
  by (simp_all add: updates)

lemma answer_held_keeps [simp]:
  "sv_protocol (answer_held s cs) = sv_protocol s"
  "sv_wire (answer_held s cs) = sv_wire s"
  "sv_timing (answer_held s cs) = sv_timing s"
  "sv_sent (answer_held s cs) = sv_sent s"
  "sv_link (answer_held s cs) = sv_link s"
  "sv_runs (answer_held s cs) = sv_runs s"
  "sv_alive (answer_held s cs) = sv_alive s"
  "sv_failures (answer_held s cs) = sv_failures s"
  "sv_stop_deadline (answer_held s cs) = sv_stop_deadline s"
  "sv_stopping (answer_held s cs) = sv_stopping s"
  "sv_replay (answer_held s cs) = sv_replay s"
  "sv_next_id (answer_held s cs) = sv_next_id s"
  by (rule answer_held_keep; simp)+

lemma answer_held_no_start [simp]:
  "sv_restart_at s = None \<Longrightarrow> sv_restart_at (answer_held s cs) = None"
  "\<not> sv_start_waits s \<Longrightarrow> \<not> sv_start_waits (answer_held s cs)"
  by (rule answer_held_keep; simp add: updates)+

definition last_pairing :: "wire_command list \<Rightarrow> (u64 \<times> wire_command) option" where
  "last_pairing cs =
     (case find last_word (rev cs) of
        Some (WBeginLink g phone) \<Rightarrow> Some (g, WBeginLink g phone)
      | _ \<Rightarrow> None)"

lemma end_unsent_update:
  "end_unsent cs s =
     (case last_pairing cs of
        None \<Rightarrow> answer_held s cs
      | Some w \<Rightarrow> (answer_held s cs)\<lparr>sv_replay := (sv_replay s)\<lparr>rp_link := None\<rparr>, sv_wake_link := Some w\<rparr>)"
  by (auto simp: end_unsent_def last_pairing_def answer_held_def [symmetric] Let_def
      split: option.splits wire_command.splits)

lemma last_pairing_begin: "last_pairing cs = Some (g, c) \<Longrightarrow> is_begin_link c \<and> c \<in> set cs"
  by (auto simp: last_pairing_def find_Some_iff in_set_conv_nth rev_nth
      split: option.splits wire_command.splits) (metis diff_Suc_less length_greater_0_conv length_rev
      less_nat_zero_code list.size(3))

lemma end_unsent_inv [sv_keep]: "sv_inv s \<Longrightarrow> sv_link s = None \<Longrightarrow> sv_inv (end_unsent cs s)"
proof -
  assume s: "sv_inv s" "sv_link s = None"
  from s(1) have "sv_inv (answer_held s cs)" by (rule answer_held_keep) (rule answer_inv)
  with s(2) show ?thesis
    by (auto simp: end_unsent_update sv_inv_def dest: last_pairing_begin split: option.splits)
qed

lemma end_unsent_keeps [simp]:
  "sv_protocol (end_unsent cs s) = sv_protocol s"
  "sv_wire (end_unsent cs s) = sv_wire s"
  "sv_timing (end_unsent cs s) = sv_timing s"
  "sv_sent (end_unsent cs s) = sv_sent s"
  "sv_link (end_unsent cs s) = sv_link s"
  "sv_runs (end_unsent cs s) = sv_runs s"
  "sv_alive (end_unsent cs s) = sv_alive s"
  "sv_failures (end_unsent cs s) = sv_failures s"
  "sv_stop_deadline (end_unsent cs s) = sv_stop_deadline s"
  "sv_stopping (end_unsent cs s) = sv_stopping s"
  "sv_next_id (end_unsent cs s) = sv_next_id s"
  "sv_restart_at s = None \<Longrightarrow> sv_restart_at (end_unsent cs s) = None"
  "\<not> sv_start_waits s \<Longrightarrow> \<not> sv_start_waits (end_unsent cs s)"
  by (simp_all add: end_unsent_update split: option.splits)

text \<open>The state of a supervisor that lost its helper, before it decides on a restart.\<close>

definition unlinked_state :: "link \<Rightarrow> supervisor \<Rightarrow> supervisor" where
  "unlinked_state lk s =
     reject_open_sends (end_unsent (if lk_greeted lk then [] else lk_held lk) (s\<lparr>sv_link := None\<rparr>))"

lemma unlinked_state_inv:
  assumes "sv_inv s" "sv_link s = Some lk"
  shows "sv_inv (unlinked_state lk s)" "sv_restart_at (unlinked_state lk s) = None"
    "\<not> sv_start_waits (unlinked_state lk s)"
proof -
  have "sv_inv (s\<lparr>sv_link := None\<rparr>)" using assms by (simp add: sv_inv_def)
  then have "sv_inv (end_unsent (if lk_greeted lk then [] else lk_held lk) (s\<lparr>sv_link := None\<rparr>))"
    by (rule end_unsent_inv) simp
  then show "sv_inv (unlinked_state lk s)"
    by (simp add: unlinked_state_def reject_open_sends_update sv_inv_def hm.ok_none)
  show "sv_restart_at (unlinked_state lk s) = None" "\<not> sv_start_waits (unlinked_state lk s)"
    using assms by (simp_all add: unlinked_state_def reject_open_sends_update sv_inv_def link_inv_def)
qed

lemma unlinked_state_keeps [simp]:
  "sv_protocol (unlinked_state lk s) = sv_protocol s"
  "sv_wire (unlinked_state lk s) = sv_wire s"
  "sv_timing (unlinked_state lk s) = sv_timing s"
  "sv_sent (unlinked_state lk s) = sv_sent s"
  "sv_link (unlinked_state lk s) = None"
  "sv_runs (unlinked_state lk s) = sv_runs s"
  "sv_alive (unlinked_state lk s) = sv_alive s"
  "sv_failures (unlinked_state lk s) = sv_failures s"
  "sv_stop_deadline (unlinked_state lk s) = sv_stop_deadline s"
  "sv_stopping (unlinked_state lk s) = sv_stopping s"
  "sv_next_id (unlinked_state lk s) = sv_next_id s"
  "sv_sends (unlinked_state lk s) = []"
  by (simp_all add: unlinked_state_def reject_open_sends_update)

definition restart_account :: "supervisor \<Rightarrow> account_state" where
  "restart_account u =
     (if sv_account u = Unlinked then Unlinked
      else if rp_link (sv_replay u) \<noteq> None \<or> sv_wake_link u \<noteq> None \<or>
         (sv_linked_once u \<and> rp_acknowledged (sv_replay u)) then Linking
      else Unlinked)"

definition account_event :: "account_state \<Rightarrow> supervisor \<Rightarrow> events" where
  "account_event a u = (if sv_account u = Unlinked then [] else [EvAccount (sv_protocol u) a])"

definition next_failures :: "helper_env \<Rightarrow> link \<Rightarrow> supervisor \<Rightarrow> nat" where
  "next_failures env lk s =
     (if ht_stable_run (sv_timing s) \<le> en_now env - lk_started lk then 1 else sv_failures s + 1)"

text \<open>The three ways a supervisor goes on: no link to keep, too many failures, or a restart.\<close>

definition go_idle :: "supervisor \<Rightarrow> supervisor" where
  "go_idle u = u\<lparr>sv_failures := 0, sv_account := Unlinked,
     sv_linked_once := (sv_linked_once u \<and> sv_account u = Unlinked), sv_reported := Some HIdle,
     sv_events := sv_events u @ account_event Unlinked u @ helper_event HIdle u\<rparr>"

definition go_restart :: "helper_env \<Rightarrow> supervisor \<Rightarrow> supervisor" where
  "go_restart env u = u\<lparr>sv_account := restart_account u, sv_reported := Some HRestarting,
     sv_events := sv_events u @ account_event (restart_account u) u @ helper_event HRestarting u @
       [EvNotice (sv_protocol u)
         (''The '' @ pid_label (sv_protocol u) @ '' helper stopped. thinwire starts it again.'')],
     sv_restart_at := Some (en_now env + backoff (sv_timing u) (sv_failures u))\<rparr>"

lemma go_idle_eq:
  "report HIdle (let s = u\<lparr>sv_failures := 0\<rparr> in
     if sv_account s \<noteq> Unlinked
     then sv_emit (emit_account (sv_protocol s) Unlinked)
            (s\<lparr>sv_account := Unlinked, sv_linked_once := False\<rparr>)
     else s) = go_idle u"
  by (simp add: go_idle_def Let_def sv_emit_def emit_account_def account_event_def helper_event_def)

lemma go_restart_eq:
  "(let s = (if sv_account u \<noteq> Unlinked then
               let relinks = rp_link (sv_replay u) \<noteq> None \<or> sv_wake_link u \<noteq> None \<or>
                     (sv_linked_once u \<and> rp_acknowledged (sv_replay u));
                   account = (if relinks then Linking else Unlinked)
               in sv_emit (emit_account (sv_protocol u) account) (u\<lparr>sv_account := account\<rparr>)
             else u);
        s = report HRestarting s;
        s = sv_emit (emit_notice (sv_protocol s)
              (''The '' @ pid_label (sv_protocol s) @
               '' helper stopped. thinwire starts it again.'')) s
    in s\<lparr>sv_restart_at := Some (en_now env + backoff (sv_timing s) (sv_failures s))\<rparr>) = go_restart env u"
  by (simp add: go_restart_def Let_def sv_emit_def emit_account_def emit_notice_def account_event_def
      restart_account_def helper_event_def)

lemma helper_ended_eq:
  "sv_link s = Some lk \<Longrightarrow> helper_ended env s =
    (let u = unlinked_state lk s in
     if replay_is_empty (sv_replay u) \<and> sv_wake_link u = None then go_idle u
     else let u' = u\<lparr>sv_failures := next_failures env lk s\<rparr> in
       if ht_max_failures (sv_timing s) \<le> sv_failures u' then stop_for Crashed u'
       else go_restart env u')"
  unfolding helper_ended_def go_idle_eq [symmetric] go_restart_eq [symmetric]
  by (simp add: unlinked_state_def [symmetric] Let_def next_failures_def)

lemma helper_ended_inv [sv_keep]:
  assumes "sv_inv s"
  shows "sv_inv (helper_ended env s)"
proof (cases "sv_link s")
  case (Some lk)
  have "sv_failures s < ht_max_failures (sv_timing s)" using assms Some by (simp add: sv_inv_def)
  then have "next_failures env lk s \<le> ht_max_failures (sv_timing s)" by (simp add: next_failures_def)
  with unlinked_state_inv [OF assms Some] show ?thesis
    by (simp add: helper_ended_eq [OF Some] Let_def go_idle_def go_restart_def stop_for_update
        sv_inv_def hm.ok_none)
qed (simp add: helper_ended_def assms)

lemma stop_for_inv [sv_keep]:
  "sv_inv s \<Longrightarrow> sv_inv (stop_for fault s)"
  by (simp add: stop_for_update sv_inv_def hm.ok_none)

lemma finish_stop_inv [sv_keep]: "sv_inv s \<Longrightarrow> sv_inv (finish_stop s)"
  by (simp add: finish_stop_update sv_inv_def hm.ok_none)

lemma on_helper_gone_inv [sv_keep]: "sv_inv s \<Longrightarrow> sv_inv (on_helper_gone env s)"
  by (simp add: on_helper_gone_def sv_keep)

definition note_send :: "wire_command \<Rightarrow> supervisor \<Rightarrow> supervisor" where
  "note_send c s =
     s\<lparr>sv_sends := (case send_key c of Some (r, chat) \<Rightarrow> AList.update r chat (sv_sends s) | None \<Rightarrow> sv_sends s)\<rparr>"

lemma note_send_keeps [simp]:
  "sv_protocol (note_send c s) = sv_protocol s" "sv_wire (note_send c s) = sv_wire s"
  "sv_timing (note_send c s) = sv_timing s" "sv_sent (note_send c s) = sv_sent s"
  "sv_link (note_send c s) = sv_link s" "sv_runs (note_send c s) = sv_runs s"
  "sv_alive (note_send c s) = sv_alive s" "sv_failures (note_send c s) = sv_failures s"
  "sv_stopping (note_send c s) = sv_stopping s" "sv_next_id (note_send c s) = sv_next_id s"
  "sv_events (note_send c s) = sv_events s" "sv_reported (note_send c s) = sv_reported s"
  "sv_replay (note_send c s) = sv_replay s" "sv_wake_link (note_send c s) = sv_wake_link s"
  "sv_account (note_send c s) = sv_account s" "sv_linked_once (note_send c s) = sv_linked_once s"
  "sv_restart_at (note_send c s) = sv_restart_at s" "sv_start_waits (note_send c s) = sv_start_waits s"
  "sv_old_exit_deadline (note_send c s) = sv_old_exit_deadline s"
  "sv_stop_deadline (note_send c s) = sv_stop_deadline s"
  by (simp_all add: note_send_def)

lemma note_send_inv: "sv_inv s \<Longrightarrow> sv_inv (note_send c s)"
  by (simp add: note_send_def sv_inv_def hm.ok_insert split: option.split)

definition keep_held :: "wire_command \<Rightarrow> link \<Rightarrow> wire_command list" where
  "keep_held c lk =
     (if gives_up c then filter (\<lambda>c. \<not> is_begin_link c) (lk_held lk) else lk_held lk) @ [c]"

definition take_id :: "supervisor \<Rightarrow> supervisor" where
  "take_id s = s\<lparr>sv_next_id := sv_next_id s + 1\<rparr>"

text \<open>What becomes of a request.\<close>

lemma request_cases:
  obtains (no_helper) "sv_link s = None" "request env c s = note_send c s"
  | (kept) lk where "sv_link s = Some lk" "\<not> lk_greeted lk"
      "request env c s = (note_send c s)\<lparr>sv_link := Some (lk\<lparr>lk_held := keep_held c lk\<rparr>)\<rparr>"
  | (sent) lk where "sv_link s = Some lk" "lk_greeted lk"
      "request env c s = (take_id (note_send c s))\<lparr>
         sv_link := Some (lk\<lparr>lk_unacked := lk_unacked lk @ [(sv_next_id s, en_now env)]\<rparr>),
         sv_sent := sv_sent s @ [(lk_run lk, Request (sv_next_id s) (sv_wire s) c)]\<rparr>"
  | (too_long) lk where "sv_link s = Some lk" "lk_greeted lk" "is_begin_link c"
      "request env c s = fail_unsent_pairing (take_id (note_send c s))"
  | (answered) lk where "sv_link s = Some lk" "lk_greeted lk" "\<not> is_begin_link c"
      "request env c s = answer_without_helper c (take_id (note_send c s))"
proof -
  have ns: "(case send_key c of Some (r, chat) \<Rightarrow> s\<lparr>sv_sends := AList.update r chat (sv_sends s)\<rparr>
      | None \<Rightarrow> s) = note_send c s"
    by (simp add: note_send_def split: option.splits)
  show ?thesis
  proof (cases "sv_link s")
    case None
    then show ?thesis by (intro no_helper) (simp_all add: request_def ns)
  next
    case (Some lk)
    show ?thesis
    proof (cases "lk_greeted lk")
      case False
      with Some show ?thesis by (intro kept) (simp_all add: request_def ns keep_held_def Let_def)
    next
      case True
      show ?thesis
      proof (cases "encode_line env (Request (sv_next_id s) (sv_wire s) c)")
        case (Inr t)
        with Some True show ?thesis
          by (intro sent) (simp_all add: request_def ns Let_def take_id_def)
      next
        case (Inl e)
        show ?thesis
        proof (cases "is_begin_link c")
          case b: True
          show ?thesis
            by (rule too_long [OF Some True b]) (simp add: request_def ns Let_def take_id_def Some True Inl b)
        next
          case b: False
          show ?thesis
            by (rule answered [OF Some True b]) (simp add: request_def ns Let_def take_id_def Some True Inl b)
        qed
      qed
    qed
  qed
qed

lemma take_id_inv: "sv_inv s \<Longrightarrow> sv_inv (take_id s)"
  by (auto simp: take_id_def sv_inv_def link_inv_def pred_option_def less_SucI)

lemma fail_unsent_pairing_inv [sv_keep]: "sv_inv s \<Longrightarrow> sv_inv (fail_unsent_pairing s)"
  by (cases "sv_link s") (auto simp: fail_unsent_pairing_update sv_inv_def link_inv_def)

lemma request_inv [sv_keep]:
  assumes "sv_inv s"
  shows "sv_inv (request env c s)"
proof (cases rule: request_cases [of s env c])
  case no_helper
  then show ?thesis using assms by (simp add: note_send_inv)
next
  case (kept lk)
  with note_send_inv [OF assms, of c] show ?thesis by (auto simp: sv_inv_def link_inv_def)
next
  case (sent lk)
  with note_send_inv [OF assms, of c] show ?thesis
    by (auto simp: sv_inv_def link_inv_def take_id_def sorted_wrt_append less_SucI)
next
  case (too_long lk)
  with take_id_inv [OF note_send_inv [OF assms]] show ?thesis by (simp add: fail_unsent_pairing_inv)
next
  case (answered lk)
  with take_id_inv [OF note_send_inv [OF assms]] show ?thesis by (simp add: answer_inv)
qed

definition fresh_link :: "helper_env \<Rightarrow> supervisor \<Rightarrow> link" where
  "fresh_link env s =
     \<lparr>lk_run = sv_runs s + 1, lk_started = en_now env, lk_greeted = False,
      lk_hello_deadline = en_now env + ht_hello_wait (sv_timing s), lk_held = fst (start_commands s),
      lk_unacked = [], lk_drain_deadline = None\<rparr>"

definition woken_replay :: "supervisor \<Rightarrow> replay" where
  "woken_replay s =
     (case sv_wake_link s of None \<Rightarrow> sv_replay s | Some (g, _) \<Rightarrow> (sv_replay s)\<lparr>rp_link := Some g\<rparr>)"

text \<open>What becomes of a start.\<close>

lemma launch_cases:
  obtains (off) "sv_link s \<noteq> None \<or> sv_stopping s" "launch env s = s\<lparr>sv_restart_at := None\<rparr>"
  | (waits) "sv_link s = None" "\<not> sv_stopping s" "sv_alive s \<noteq> {}"
      "launch env s = s\<lparr>sv_restart_at := None, sv_start_waits := True,
         sv_old_exit_deadline := Some (case sv_old_exit_deadline s of Some d \<Rightarrow> d
           | None \<Rightarrow> en_now env + ht_kill_wait (sv_timing s))\<rparr>"
  | (absent) "sv_link s = None" "\<not> sv_stopping s" "sv_alive s = {}" "\<not> en_installed env"
      "launch env s = s\<lparr>sv_restart_at := None, sv_start_waits := False, sv_old_exit_deadline := None,
         sv_wake_link := None, sv_reported := Some HMissing,
         sv_events := sv_events s @ helper_event HMissing s @ [EvStatus (sv_protocol s) StError (missing s)]\<rparr>"
  | (failed) "sv_link s = None" "\<not> sv_stopping s" "sv_alive s = {}" "en_installed env" "\<not> en_launch env"
      "launch env s = stop_for StartFailed
         (s\<lparr>sv_restart_at := None, sv_start_waits := False, sv_old_exit_deadline := None\<rparr>)"
  | (started) "sv_link s = None" "\<not> sv_stopping s" "sv_alive s = {}" "en_installed env" "en_launch env"
      "launch env s = s\<lparr>sv_restart_at := None, sv_start_waits := False, sv_old_exit_deadline := None,
         sv_runs := sv_runs s + 1, sv_alive := {sv_runs s + 1}, sv_wake_link := None,
         sv_replay := woken_replay s, sv_link := Some (fresh_link env s), sv_reported := Some HBusy,
         sv_events := sv_events s @ helper_event HBusy s\<rparr>"
proof (cases "sv_link s \<noteq> None \<or> sv_stopping s")
  case True
  with off show ?thesis by (auto simp: launch_def Let_def)
next
  case False
  then have s: "sv_link s = None" "\<not> sv_stopping s" by simp_all
  show ?thesis
  proof (cases "sv_alive s = {}")
    case none: True
    note go = launch_def Let_def s none
    show ?thesis
    proof (cases "en_installed env")
      case False
      show ?thesis
        by (rule absent [OF s none False])
          (simp add: go False helper_event_def sv_emit_def emit_status_def missing_def)
    next
      case inst: True
      show ?thesis
      proof (cases "en_launch env")
        case False
        show ?thesis by (rule failed [OF s none inst False]) (simp add: go inst False)
      next
        case True
        show ?thesis
          by (rule started [OF s none inst True])
            (cases "sv_wake_link s", simp_all add: go inst True start_commands_def woken_replay_def
              fresh_link_def helper_event_def split_beta)
      qed
    qed
  next
    case alive: False
    show ?thesis
      by (rule waits [OF s alive]) (simp add: launch_def Let_def s alive split: option.split)
  qed
qed

lemma launch_inv [sv_keep]:
  assumes "sv_inv s" "sv_failures s < ht_max_failures (sv_timing s)"
  shows "sv_inv (launch env s)"
proof (cases rule: launch_cases [of s env])
  case off
  with assms show ?thesis by (auto simp: sv_inv_def link_inv_def pred_option_def)
next
  case waits
  with assms show ?thesis by (simp add: sv_inv_def)
next
  case absent
  with assms show ?thesis by (simp add: sv_inv_def)
next
  case failed
  have "sv_inv (s\<lparr>sv_restart_at := None, sv_start_waits := False, sv_old_exit_deadline := None\<rparr>)"
    using assms failed(1) by (simp add: sv_inv_def)
  with failed(6) show ?thesis by (simp add: stop_for_inv)
next
  case started
  with assms show ?thesis by (simp add: sv_inv_def link_inv_def fresh_link_def)
qed

lemma sv_inv_reset: "sv_inv s \<Longrightarrow> 0 < ht_max_failures (sv_timing s) \<Longrightarrow> sv_inv (s\<lparr>sv_failures := 0\<rparr>)"
  by (simp add: sv_inv_def)

text \<open>The three ways a command goes: to the helper, as a wake, or to its answer without one.\<close>

lemma on_command_cases:
  obtains (ignored) "sv_stopping s \<or> command_to_wire (sv_protocol s) c (en_phone env) = None"
      "on_command env c s = s"
  | (requested) w where "\<not> sv_stopping s" "command_to_wire (sv_protocol s) c (en_phone env) = Some w"
      "sv_link s \<noteq> None" "on_command env c s = request env w (s\<lparr>sv_replay := replay_note w (sv_replay s)\<rparr>)"
  | (gate) "\<not> sv_stopping s" "sv_link s = None"
      "command_to_wire (sv_protocol s) c (en_phone env) = Some WAcknowledgeGate"
      "on_command env c s =
         launch env (s\<lparr>sv_replay := (sv_replay s)\<lparr>rp_acknowledged := True\<rparr>, sv_failures := 0\<rparr>)"
  | (pairing) g ph where "\<not> sv_stopping s" "sv_link s = None"
      "command_to_wire (sv_protocol s) c (en_phone env) = Some (WBeginLink g ph)"
      "on_command env c s = launch env (s\<lparr>sv_replay := (sv_replay s)\<lparr>rp_link := None\<rparr>,
         sv_wake_link := Some (g, WBeginLink g ph), sv_failures := 0\<rparr>)"
  | (answered) w where "\<not> sv_stopping s" "sv_link s = None" "\<not> in_replay w"
      "command_to_wire (sv_protocol s) c (en_phone env) = Some w"
      "on_command env c s = answer_without_helper w (s\<lparr>sv_replay := replay_note w (sv_replay s)\<rparr>)"
proof (cases "sv_stopping s \<or> command_to_wire (sv_protocol s) c (en_phone env) = None")
  case True
  then show ?thesis by (intro ignored) (auto simp: on_command_def split: option.splits)
next
  case False
  then obtain w where s: "\<not> sv_stopping s" and w: "command_to_wire (sv_protocol s) c (en_phone env) = Some w"
    by auto
  show ?thesis
  proof (cases "sv_link s")
    case (Some lk)
    show ?thesis by (rule requested [OF s w]) (simp_all add: on_command_def s w Some)
  next
    case None
    note go = on_command_def s w None
    show ?thesis
    proof (cases "in_replay w")
      case False
      show ?thesis
        by (rule answered [OF s None False w]) (use False in \<open>cases w; simp add: go\<close>)
    next
      case True
      then consider "w = WAcknowledgeGate" | g ph where "w = WBeginLink g ph" by (cases w) simp_all
      then show ?thesis
      proof cases
        case 1
        show ?thesis by (rule gate) (use w in \<open>simp_all add: go 1\<close>)
      next
        case (2 g ph)
        show ?thesis by (rule pairing) (use w in \<open>simp_all add: go 2\<close>)
      qed
    qed
  qed
qed

lemma on_command_inv [sv_keep]:
  assumes "sv_inv s" "0 < ht_max_failures (sv_timing s)"
  shows "sv_inv (on_command env c s)"
proof (cases rule: on_command_cases [of s c env])
  case gate
  have "sv_inv (s\<lparr>sv_replay := (sv_replay s)\<lparr>rp_acknowledged := True\<rparr>, sv_failures := 0\<rparr>)"
    using sv_inv_reset [of "s\<lparr>sv_replay := (sv_replay s)\<lparr>rp_acknowledged := True\<rparr>\<rparr>"] assms by simp
  with gate(4) assms(2) show ?thesis by (simp add: launch_inv)
next
  case (pairing g ph)
  have "sv_inv (s\<lparr>sv_replay := (sv_replay s)\<lparr>rp_link := None\<rparr>,
      sv_wake_link := Some (g, WBeginLink g ph), sv_failures := 0\<rparr>)"
    using assms pairing(2) by (auto simp: sv_inv_def)
  with pairing(4) assms(2) show ?thesis by (simp add: launch_inv)
qed (use assms in \<open>simp_all add: request_inv answer_inv\<close>)

lemma on_restart_inv [sv_keep]:
  "sv_inv s \<Longrightarrow> 0 < ht_max_failures (sv_timing s) \<Longrightarrow> sv_inv (on_restart env s)"
  by (auto simp: on_restart_def intro!: launch_inv sv_inv_reset)

lemma on_shutdown_cases:
  obtains (ignored) "sv_stopping s" "on_shutdown env s = s"
  | (ends) "\<not> sv_stopping s" "sv_link s = None"
      "on_shutdown env s = s\<lparr>sv_stopping := True, sv_restart_at := None, sv_wake_link := None,
         sv_start_waits := False, sv_old_exit_deadline := None, sv_stop_deadline := None, sv_sends := [],
         sv_events := sv_events s @ [EvStopped (sv_protocol s)]\<rparr>"
  | (asks) lk where "\<not> sv_stopping s" "sv_link s = Some lk"
      "on_shutdown env s = s\<lparr>sv_stopping := True, sv_restart_at := None, sv_wake_link := None,
         sv_start_waits := False, sv_old_exit_deadline := None,
         sv_sent := sv_sent s @ (case encode_line env Shutdown of
           Inr _ \<Rightarrow> [(lk_run lk, Shutdown)] | Inl _ \<Rightarrow> []),
         sv_stop_deadline := Some (en_now env + ht_stop_wait (sv_timing s))\<rparr>"
proof (cases "sv_stopping s")
  case True
  show ?thesis by (rule ignored [OF True]) (simp add: on_shutdown_def True)
next
  case False
  show ?thesis
  proof (cases "sv_link s")
    case None
    show ?thesis by (rule ends [OF False None]) (simp add: on_shutdown_def False None finish_stop_update)
  next
    case (Some lk)
    show ?thesis
      by (rule asks [OF False Some]) (simp add: on_shutdown_def False Some Let_def split: sum.split)
  qed
qed

lemma on_shutdown_inv [sv_keep]: "sv_inv s \<Longrightarrow> sv_inv (on_shutdown env s)"
  by (cases rule: on_shutdown_cases [of s env])
    (auto simp: sv_inv_def link_inv_def hm.ok_none pred_option_def)

text \<open>An \<open>Ack\<close> drops the answered requests; with none slow left, a busy helper runs again.\<close>

definition acked :: "u64 \<Rightarrow> link \<Rightarrow> link" where
  "acked i lk = lk\<lparr>lk_unacked := dropWhile (\<lambda>(sent, _). sent \<le> i) (lk_unacked lk)\<rparr>"

definition calm :: "helper_env \<Rightarrow> supervisor \<Rightarrow> link \<Rightarrow> bool" where
  "calm env s lk \<longleftrightarrow>
     (case lk_unacked lk of [] \<Rightarrow> True | (_, sent) # _ \<Rightarrow> en_now env < sent + ht_busy_after (sv_timing s))"

lemma on_ack_update:
  "sv_link s = Some lk \<Longrightarrow> on_ack env i s =
     (if calm env s (acked i lk) \<and> sv_reported s = Some HBusy
      then report HRunning (s\<lparr>sv_link := Some (acked i lk)\<rparr>) else s\<lparr>sv_link := Some (acked i lk)\<rparr>)"
  by (cases "dropWhile (\<lambda>(sent, _). sent \<le> i) (lk_unacked lk)")
    (simp_all add: on_ack_def Let_def acked_def calm_def not_le split_beta del: dropWhile_eq_Nil_conv)

lemma sorted_dropWhile: "sorted_wrt P xs \<Longrightarrow> sorted_wrt P (dropWhile Q xs)"
  by (induction xs) simp_all

lemma link_inv_acked: "link_inv s lk \<Longrightarrow> link_inv s (acked i lk)"
  by (auto simp: link_inv_def acked_def sorted_wrt_map intro: sorted_dropWhile dest: set_dropWhileD)

lemma on_ack_inv [sv_keep]:
  assumes "sv_inv s"
  shows "sv_inv (on_ack env i s)"
proof (cases "sv_link s")
  case (Some lk)
  with assms link_inv_acked [of s lk i] show ?thesis
    by (simp add: on_ack_update [OF Some] sv_inv_def)
qed (simp add: on_ack_def assms)

lemma acked_filter:
  assumes "sorted_wrt (<) (map fst (lk_unacked lk))"
  shows "lk_unacked (acked i lk) = filter (\<lambda>(sent, _). i < sent) (lk_unacked lk)"
proof -
  have "sorted_wrt (<) (map fst xs) \<Longrightarrow>
      dropWhile (\<lambda>(sent, _). sent \<le> i) xs = filter (\<lambda>(sent, _). i < sent) xs"
    for xs :: "(u64 \<times> instant) list"
  proof (induction xs)
    case (Cons x xs)
    then show ?case by (cases x) (force simp: filter_id_conv not_le intro!: filter_True [symmetric])
  qed simp
  with assms show ?thesis by (simp add: acked_def)
qed

lemma sv_inv_delete_send [simp]:
  "sv_inv s \<Longrightarrow> sv_inv (s\<lparr>sv_sends := AList.delete r (sv_sends s)\<rparr>)"
  by (simp add: sv_inv_def hm.ok_remove)

lemma on_event_inv [sv_keep]: "sv_inv s \<Longrightarrow> sv_inv (on_event e s)"
  by (simp add: on_event_def Let_def sv_emit_def end_pairing_def
      split: option.split adapter_event.split account_state.split)

lemma greet_inv:
  "sv_inv s \<Longrightarrow> sv_link s = Some lk \<Longrightarrow> \<not> lk_greeted lk \<Longrightarrow>
   sv_inv (s\<lparr>sv_link := Some (lk\<lparr>lk_greeted := True, lk_held := []\<rparr>)\<rparr>)"
  by (auto simp: sv_inv_def link_inv_def)

lemma on_hello_inv:
  assumes "sv_inv s" "\<And>lk. sv_link s = Some lk \<Longrightarrow> \<not> lk_greeted lk"
  shows "sv_inv (on_hello env v ps s)"
proof -
  have r: "sv_inv (report st t)" if "sv_inv t" for st t
    using that by simp
  have "sv_inv (foldl (\<lambda>s c. request env c s) (report HRunning t) held)" if "sv_inv t" for t held
    by (rule foldl_keep [where P = sv_inv]) (simp_all only: r that request_inv)
  with assms greet_inv [OF assms(1)] show ?thesis
    by (auto simp: on_hello_def stop_for_inv split_beta simp del: report_update split: option.split)
qed

lemma on_line_inv [sv_keep]: "sv_inv s \<Longrightarrow> sv_inv (on_line env l s)"
  by (auto simp: on_line_def Let_def sv_keep split: helper_line.split option.splits intro!: on_hello_inv)

lemma launch_after_exit:
  "sv_alive s = {} \<Longrightarrow> sv_link s = None \<Longrightarrow> \<not> sv_stopping s \<Longrightarrow>
   launch env s = launch env (s\<lparr>sv_start_waits := False, sv_old_exit_deadline := None\<rparr>)"
  by (simp add: launch_def Let_def)

definition drained :: "helper_env \<Rightarrow> supervisor \<Rightarrow> link \<Rightarrow> link" where
  "drained env s lk = lk\<lparr>lk_drain_deadline := Some (case lk_drain_deadline lk of
     Some d \<Rightarrow> d | None \<Rightarrow> en_now env + ht_drain_wait (sv_timing s))\<rparr>"

lemma on_exited_cases:
  assumes "sv_inv s"
  obtains (current) lk where "sv_link s = Some lk" "lk_run lk = run"
      "on_exited env run s = s\<lparr>sv_alive := sv_alive s - {run}, sv_link := Some (drained env s lk)\<rparr>"
  | (start) "sv_link s = None" "sv_start_waits s" "sv_alive s - {run} = {}" "\<not> sv_stopping s"
      "on_exited env run s = launch env (s\<lparr>sv_alive := {}, sv_start_waits := False, sv_old_exit_deadline := None\<rparr>)"
  | (other) "\<not> is_current run s" "\<not> sv_start_waits s \<or> sv_alive s - {run} \<noteq> {}"
      "on_exited env run s = s\<lparr>sv_alive := sv_alive s - {run}\<rparr>"
proof (cases "\<exists>lk. sv_link s = Some lk \<and> lk_run lk = run")
  case True
  then obtain lk where lk: "sv_link s = Some lk" "lk_run lk = run" by blast
  then have "\<not> sv_start_waits s" using assms by (simp add: sv_inv_def link_inv_def)
  with lk show ?thesis
    by (intro current [OF lk], cases "lk_drain_deadline lk")
      (simp_all add: on_exited_def Let_def drained_def)
next
  case False
  then have cur: "\<not> is_current run s" by (simp add: is_current_def split: option.splits)
  show ?thesis
  proof (cases "sv_start_waits s \<and> sv_alive s - {run} = {}")
    case True
    then have w: "sv_link s = None" "\<not> sv_stopping s"
      using assms by (auto simp: sv_inv_def link_inv_def pred_option_def)
    show ?thesis
    proof (rule start [OF w(1) _ _ w(2)])
      show "on_exited env run s =
          launch env (s\<lparr>sv_alive := {}, sv_start_waits := False, sv_old_exit_deadline := None\<rparr>)"
        using launch_after_exit [of "s\<lparr>sv_alive := {}\<rparr>" env] conjunct1 [OF True] w
        by (simp add: on_exited_def Let_def conjunct2 [OF True] del: Diff_eq_empty_iff)
    qed (use True in simp_all)
  next
    case no: False
    with False show ?thesis
      by (intro other cur) (auto simp: on_exited_def Let_def split: option.split)
  qed
qed

lemma on_exited_inv [sv_keep]:
  assumes "sv_inv s"
  shows "sv_inv (on_exited env run s)"
  using assms
proof (cases rule: on_exited_cases [where run = run and env = env])
  case (current lk)
  with assms show ?thesis by (auto simp: sv_inv_def link_inv_def drained_def)
next
  case start
  have "sv_inv (s\<lparr>sv_alive := {}, sv_start_waits := False, sv_old_exit_deadline := None\<rparr>)"
    using assms start(1) by (simp add: sv_inv_def)
  moreover have "sv_failures s < ht_max_failures (sv_timing s)"
    using assms start(2) by (simp add: sv_inv_def)
  ultimately show ?thesis using start(5) by (simp add: launch_inv)
next
  case other
  with assms show ?thesis by (auto simp: sv_inv_def)
qed

lemma on_msg_inv [sv_keep]:
  "sv_inv s \<Longrightarrow> 0 < ht_max_failures (sv_timing s) \<Longrightarrow> sv_inv (on_msg env m s)"
  by (simp add: on_msg_def sv_keep split: msg.split)

text \<open>What the timer does, by the first deadline in the order of the code.\<close>

lemma on_timer_cases:
  obtains (stop) "due (sv_stop_deadline s) (en_now env)" "on_timer env s = finish_stop s"
  | (kill) "\<not> due (sv_stop_deadline s) (en_now env)" "due (sv_old_exit_deadline s) (en_now env)"
      "on_timer env s = stop_for StillRunning (s\<lparr>sv_start_waits := False, sv_old_exit_deadline := None\<rparr>)"
  | (restart) "\<not> due (sv_stop_deadline s) (en_now env)" "\<not> due (sv_old_exit_deadline s) (en_now env)"
      "due (sv_restart_at s) (en_now env)" "on_timer env s = launch env (s\<lparr>sv_restart_at := None\<rparr>)"
  | (drain) lk where "\<not> due (sv_stop_deadline s) (en_now env)"
      "\<not> due (sv_old_exit_deadline s) (en_now env)" "\<not> due (sv_restart_at s) (en_now env)"
      "sv_link s = Some lk" "due (lk_drain_deadline lk) (en_now env)" "on_timer env s = on_helper_gone env s"
  | (hello) lk where "\<not> due (sv_stop_deadline s) (en_now env)"
      "\<not> due (sv_old_exit_deadline s) (en_now env)" "\<not> due (sv_restart_at s) (en_now env)"
      "sv_link s = Some lk" "\<not> due (lk_drain_deadline lk) (en_now env)"
      "\<not> lk_greeted lk" "lk_hello_deadline lk \<le> en_now env" "on_timer env s = helper_ended env s"
  | (busy) lk where "\<not> due (sv_stop_deadline s) (en_now env)"
      "\<not> due (sv_old_exit_deadline s) (en_now env)" "\<not> due (sv_restart_at s) (en_now env)"
      "sv_link s = Some lk" "\<not> due (lk_drain_deadline lk) (en_now env)"
      "lk_greeted lk" "\<not> calm env s lk" "on_timer env s = report HBusy s"
  | (early) "\<not> due (sv_stop_deadline s) (en_now env)"
      "\<not> due (sv_old_exit_deadline s) (en_now env)" "\<not> due (sv_restart_at s) (en_now env)"
      "\<And>lk. sv_link s = Some lk \<Longrightarrow> \<not> due (lk_drain_deadline lk) (en_now env) \<and>
         (if lk_greeted lk then calm env s lk else en_now env < lk_hello_deadline lk)"
      "on_timer env s = s"
proof -
  have slow: "(case lk_unacked lk of [] \<Rightarrow> False
      | (_, sent) # _ \<Rightarrow> sent + ht_busy_after (sv_timing s) \<le> en_now env) = (\<not> calm env s lk)" for lk
    by (simp add: calm_def not_less split: list.split)
  note t = on_timer_def Let_def slow
  show ?thesis
  proof (cases "due (sv_stop_deadline s) (en_now env)")
    case True
    then show ?thesis by (intro stop) (simp_all add: t)
  next
    case a: False
    show ?thesis
    proof (cases "due (sv_old_exit_deadline s) (en_now env)")
      case True
      with a show ?thesis by (intro kill) (simp_all add: t)
    next
      case b: False
      show ?thesis
      proof (cases "due (sv_restart_at s) (en_now env)")
        case True
        with a b show ?thesis by (intro restart) (simp_all add: t)
      next
        case c: False
        note abc = a b c
        show ?thesis
        proof (cases "sv_link s")
          case None
          with abc show ?thesis by (intro early) (simp_all add: t)
        next
          case (Some lk)
          consider "due (lk_drain_deadline lk) (en_now env)"
            | "\<not> due (lk_drain_deadline lk) (en_now env)" "\<not> lk_greeted lk" "lk_hello_deadline lk \<le> en_now env"
            | "\<not> due (lk_drain_deadline lk) (en_now env)" "\<not> lk_greeted lk" "en_now env < lk_hello_deadline lk"
            | "\<not> due (lk_drain_deadline lk) (en_now env)" "lk_greeted lk" "\<not> calm env s lk"
            | "\<not> due (lk_drain_deadline lk) (en_now env)" "lk_greeted lk" "calm env s lk"
            by linarith
          then show ?thesis
          proof cases
            case 1
            with abc Some show ?thesis by (intro drain) (simp_all add: t)
          next
            case 2
            with abc Some show ?thesis by (intro hello) (simp_all add: t)
          next
            case 3
            with abc Some show ?thesis by (intro early) (simp_all add: t)
          next
            case 4
            with abc Some show ?thesis by (intro busy) (simp_all add: t)
          next
            case 5
            with abc Some show ?thesis by (intro early) (simp_all add: t)
          qed
        qed
      qed
    qed
  qed
qed

lemma on_timer_inv [sv_keep]:
  assumes "sv_inv s"
  shows "sv_inv (on_timer env s)"
proof (cases rule: on_timer_cases [of s env])
  case kill
  have "sv_inv (s\<lparr>sv_start_waits := False, sv_old_exit_deadline := None\<rparr>)"
    using assms by (cases "sv_link s") (auto simp: sv_inv_def link_inv_def)
  with kill(3) show ?thesis by (simp add: stop_for_inv)
next
  case restart
  have "sv_inv (s\<lparr>sv_restart_at := None\<rparr>)"
    using assms by (cases "sv_link s") (auto simp: sv_inv_def link_inv_def)
  moreover have "sv_failures s < ht_max_failures (sv_timing s)"
    using assms restart(3) by (auto simp: sv_inv_def due_def split: option.splits)
  ultimately show ?thesis using restart(4) by (simp add: launch_inv)
qed (use assms in \<open>simp_all add: sv_keep\<close>)

end
