(* ===== verification/Supervisor_Run.thy ===== *)
theory Supervisor_Run
  imports Supervisor_Facts
begin

text \<open>
  Runs of the supervisor: the messages and timer wakes of its loop, what every step keeps of the
  events and of the open sends, the processes it starts, and its properties.
\<close>

section \<open>Events of a step\<close>

definition own_event :: "protocol_id \<Rightarrow> adapter_event \<Rightarrow> bool" where
  "own_event p e \<longleftrightarrow> fst (set_account p e) = e"

fun helper_states :: "events \<Rightarrow> helper_state list" where
  "helper_states [] = []"
| "helper_states (EvHelper _ st # evs) = st # helper_states evs"
| "helper_states (_ # evs) = helper_states evs"

fun is_helper_event :: "adapter_event \<Rightarrow> bool" where
  "is_helper_event (EvHelper _ _) = True"
| "is_helper_event _ = False"

text \<open>The events are the protocol's own, and a helper state is sent only when it changes.\<close>

definition ev_ok :: "protocol_id \<Rightarrow> events \<Rightarrow> helper_state option \<Rightarrow> bool" where
  "ev_ok p evs rep \<longleftrightarrow>
     list_all (own_event p) evs \<and> distinct_adj (helper_states evs) \<and>
     rep = (if helper_states evs = [] then None else Some (last (helper_states evs)))"

lemma helper_states_append [simp]: "helper_states (xs @ ys) = helper_states xs @ helper_states ys"
  by (induction xs rule: helper_states.induct) simp_all

lemma helper_states_plain: "list_all (\<lambda>e. \<not> is_helper_event e) xs \<Longrightarrow> helper_states xs = []"
  by (induction xs rule: helper_states.induct) simp_all

definition plain_events :: "protocol_id \<Rightarrow> events \<Rightarrow> bool" where
  "plain_events p xs \<longleftrightarrow> list_all (\<lambda>e. own_event p e \<and> \<not> is_helper_event e) xs"

lemma plain_events_simps [simp]:
  "plain_events p []"
  "plain_events p (e # xs) \<longleftrightarrow> own_event p e \<and> \<not> is_helper_event e \<and> plain_events p xs"
  "plain_events p (xs @ ys) \<longleftrightarrow> plain_events p xs \<and> plain_events p ys"
  by (simp_all add: plain_events_def)

lemma own_event_simps [simp]:
  "own_event p (EvStatus p st d)" "own_event p (EvAccount p a)" "own_event p (EvHelper p h)"
  "own_event p (EvSendRejected p c r)" "own_event p (EvCommandFailed p co d)"
  "own_event p (EvChatListLoaded p)" "own_event p (EvHistoryLoaded p c cu)"
  "own_event p (EvOlderHistoryLoaded p c b m n t cu)" "own_event p (EvVoiceFailed p i)"
  "own_event p (EvStoreAccess p sr)" "own_event p (EvStopped p)" "own_event p (EvNotice p tx)"
  by (simp_all add: own_event_def)

lemma ev_ok_plain: "ev_ok p evs rep \<Longrightarrow> plain_events p xs \<Longrightarrow> ev_ok p (evs @ xs) rep"
proof -
  assume "plain_events p xs"
  then have "list_all (own_event p) xs" "helper_states xs = []"
    by (auto simp: plain_events_def list_all_iff intro!: helper_states_plain)
  then show "ev_ok p evs rep \<Longrightarrow> ev_ok p (evs @ xs) rep" by (simp add: ev_ok_def)
qed

lemma ev_ok_helper:
  "ev_ok p evs rep \<Longrightarrow> ev_ok p (evs @ (if rep = Some st then [] else [EvHelper p st])) (Some st)"
  by (auto simp: ev_ok_def distinct_adj_append_iff)

lemma ev_ok_report:
  assumes "ev_ok p evs rep" "plain_events p xs" "plain_events p ys"
  shows "ev_ok p (evs @ xs @ (if rep = Some st then [] else [EvHelper p st]) @ ys) (Some st)"
  using ev_ok_plain [OF ev_ok_helper [OF ev_ok_plain [OF assms(1,2)]] assms(3), of st] by simp

text \<open>An answer to a send, or the end of the protocol.\<close>

definition send_done :: "protocol_id \<Rightarrow> u64 \<Rightarrow> events \<Rightarrow> bool" where
  "send_done p r evs \<longleftrightarrow>
     list_ex (\<lambda>e. case e of
        EvSendRejected q _ r' \<Rightarrow> q = p \<and> r' = r
      | EvSendAccepted q _ r' \<Rightarrow> q = p \<and> r' = r
      | EvStopped q \<Rightarrow> q = p
      | _ \<Rightarrow> False) evs"

lemma send_done_simps [simp]:
  "\<not> send_done p r []" "send_done p r (xs @ ys) \<longleftrightarrow> send_done p r xs \<or> send_done p r ys"
  "send_done p r (EvSendRejected p c r # xs)" "send_done p r (EvSendAccepted p c r # xs)"
  "send_done p r (EvStopped p # xs)"
  by (simp_all add: send_done_def)

definition open_send :: "u64 \<Rightarrow> supervisor \<Rightarrow> bool" where
  "open_send r s \<longleftrightarrow> r \<in> fst ` set (sv_sends s)"

text \<open>What every handler does, whatever the state.\<close>

definition evolves :: "supervisor \<Rightarrow> supervisor \<Rightarrow> bool" where
  "evolves s s' \<longleftrightarrow>
     sv_protocol s' = sv_protocol s \<and> sv_wire s' = sv_wire s \<and> sv_timing s' = sv_timing s \<and>
     (sv_stopping s \<longrightarrow> sv_stopping s') \<and>
     (\<exists>evs. sv_events s' = sv_events s @ evs \<and>
        (\<forall>r. open_send r s \<longrightarrow> open_send r s' \<or> send_done (sv_protocol s) r evs)) \<and>
     (ev_ok (sv_protocol s) (sv_events s) (sv_reported s) \<longrightarrow>
        ev_ok (sv_protocol s) (sv_events s') (sv_reported s'))"

lemma evolves_refl [simp]: "evolves s s"
  by (simp add: evolves_def)

lemma evolves_trans: "evolves s t \<Longrightarrow> evolves t u \<Longrightarrow> evolves s u"
  unfolding evolves_def by (clarsimp; metis)

lemma evolves_foldl: "(\<And>s c. evolves s (f s c)) \<Longrightarrow> evolves s (foldl f s cs)"
  by (rule foldl_keep) (auto intro: evolves_trans)

text \<open>Updates of the fields that \<open>evolves\<close> does not look at.\<close>

lemma evolves_intro:
  assumes "sv_protocol s' = sv_protocol s" "sv_wire s' = sv_wire s" "sv_timing s' = sv_timing s"
    and "sv_stopping s \<Longrightarrow> sv_stopping s'"
    and "sv_events s' = sv_events s @ xs" "plain_events (sv_protocol s) xs" "sv_reported s' = sv_reported s"
    and "\<And>r. open_send r s \<Longrightarrow> open_send r s' \<or> send_done (sv_protocol s) r xs"
  shows "evolves s s'"
  using assms ev_ok_plain [of "sv_protocol s" "sv_events s" "sv_reported s" xs] by (simp add: evolves_def)

lemma evolves_report_intro:
  assumes "sv_protocol s' = sv_protocol s" "sv_wire s' = sv_wire s" "sv_timing s' = sv_timing s"
    and "sv_stopping s \<Longrightarrow> sv_stopping s'"
    and "sv_events s' = sv_events s @ xs @ helper_event st s @ ys"
    and "plain_events (sv_protocol s) xs" "plain_events (sv_protocol s) ys" "sv_reported s' = Some st"
    and "\<And>r. open_send r s \<Longrightarrow> open_send r s' \<or> send_done (sv_protocol s) r (xs @ ys)"
  shows "evolves s s'"
proof -
  have "ev_ok (sv_protocol s) (sv_events s) (sv_reported s) \<longrightarrow>
      ev_ok (sv_protocol s) (sv_events s') (sv_reported s')"
    using ev_ok_report [OF _ assms(6,7)] by (auto simp: assms(5,8) helper_event_def)
  then show ?thesis using assms unfolding evolves_def by (metis send_done_simps(2))
qed

lemma idle_event_plain [simp]:
  "own_event (sv_protocol s) (idle_event s)" "\<not> is_helper_event (idle_event s)"
  by (auto simp: idle_event_def own_event_def split: option.split helper_state.split)

lemma answer_events_plain [simp]: "plain_events (sv_protocol s) (answer_events c s)"
  by (cases c) simp_all

lemma reject_events_plain [simp]: "plain_events (sv_protocol s) (reject_events s)"
  by (auto simp: plain_events_def reject_events_def list_all_iff)

lemma account_event_plain [simp]: "plain_events (sv_protocol s) (account_event a s)"
  by (simp add: account_event_def)

lemma send_done_reject: "open_send r s \<Longrightarrow> send_done (sv_protocol s) r (reject_events s)"
  by (force simp: open_send_def send_done_def reject_events_def list_ex_iff)

lemma update_evolves [simp]:
  "evolves s (s\<lparr>sv_sent := x1\<rparr>)" "evolves s (s\<lparr>sv_link := x2\<rparr>)" "evolves s (s\<lparr>sv_alive := x3\<rparr>)"
  "evolves s (s\<lparr>sv_start_waits := x4\<rparr>)" "evolves s (s\<lparr>sv_old_exit_deadline := x5\<rparr>)"
  "evolves s (s\<lparr>sv_failures := x6\<rparr>)" "evolves s (s\<lparr>sv_restart_at := x7\<rparr>)"
  "evolves s (s\<lparr>sv_replay := x8\<rparr>)" "evolves s (s\<lparr>sv_wake_link := x9\<rparr>)"
  "evolves s (s\<lparr>sv_next_id := x10\<rparr>)" "evolves s (s\<lparr>sv_stop_deadline := x11\<rparr>)"
  by (simp_all add: evolves_def open_send_def)

lemma evolves_then:
  "evolves t u \<Longrightarrow> sv_protocol t = sv_protocol s \<Longrightarrow> sv_wire t = sv_wire s \<Longrightarrow>
   sv_timing t = sv_timing s \<Longrightarrow> sv_stopping t = sv_stopping s \<Longrightarrow> sv_events t = sv_events s \<Longrightarrow>
   sv_sends t = sv_sends s \<Longrightarrow> sv_reported t = sv_reported s \<Longrightarrow> evolves s u"
  by (simp add: evolves_def open_send_def)

named_theorems evolve

lemma report_evolves [evolve]: "evolves s (report st s)"
  by (rule evolves_report_intro [where xs = "[]" and ys = "[]" and st = st]) (simp_all add: open_send_def)

lemma give_up_evolves [evolve]: "evolves s (give_up_link s)"
proof (cases "sv_reported s = Some HRestarting")
  case True
  show ?thesis
    by (rule evolves_report_intro [where xs = "[]" and st = HIdle
          and ys = "[EvAccount (sv_protocol s) Unlinked, idle_event s]"])
      (simp_all add: give_up_link_update give_up_events_def True helper_event_def open_send_def)
next
  case False
  show ?thesis
    by (rule evolves_intro [where xs = "[EvAccount (sv_protocol s) Unlinked, idle_event s]"])
      (simp_all add: give_up_link_update give_up_events_def False open_send_def)
qed

lemma drop_send_done:
  "open_send r s \<Longrightarrow> r \<in> fst ` set (drop_send c (sv_sends s)) \<or> send_done (sv_protocol s) r (answer_events c s)"
  by (cases c) (auto simp: open_send_def drop_send_def AList.delete_eq image_iff)

lemma answer_evolves [evolve]: "evolves s (answer_without_helper c s)"
proof (cases "gives_up c")
  case True
  then show ?thesis by (simp add: answer_without_helper_update give_up_evolves)
next
  case False
  show ?thesis
    by (rule evolves_intro [where xs = "answer_events c s"])
      (use drop_send_done [of _ s c] in \<open>simp_all add: answer_without_helper_update False open_send_def\<close>)
qed

lemma answer_held_evolves [evolve]: "evolves s (answer_held s cs)"
  unfolding answer_held_def by (rule evolves_foldl) (simp add: evolve)

lemma end_unsent_evolves [evolve]: "evolves s (end_unsent cs s)"
proof (cases "last_pairing cs")
  case None
  then show ?thesis by (simp add: end_unsent_update answer_held_evolves)
next
  case (Some w)
  have "evolves (answer_held s cs)
      ((answer_held s cs)\<lparr>sv_replay := (sv_replay s)\<lparr>rp_link := None\<rparr>, sv_wake_link := Some w\<rparr>)"
    by (rule evolves_trans [OF update_evolves(8) update_evolves(9)])
  with Some show ?thesis by (simp add: end_unsent_update evolves_trans [OF answer_held_evolves])
qed

lemma reject_evolves [evolve]: "evolves s (reject_open_sends s)"
  by (rule evolves_intro [where xs = "reject_events s"])
    (simp_all add: reject_open_sends_update send_done_reject)

lemma unlinked_evolves [evolve]: "evolves s (unlinked_state lk s)"
  unfolding unlinked_state_def
  by (rule evolves_trans [OF _ reject_evolves], rule evolves_trans [OF _ end_unsent_evolves]) simp

lemma stop_for_evolves [evolve]: "evolves s (stop_for fault s)"
proof (rule evolves_report_intro)
  show "sv_events (stop_for fault s) = sv_events s @ (reject_events s @ account_event Unlinked s) @
      helper_event (HStopped fault) s @ [EvStatus (sv_protocol s) StError (stopped s)]"
    by (simp add: stop_for_update stop_events_def account_event_def)
qed (simp_all add: stop_for_update send_done_reject)

lemma finish_stop_evolves [evolve]: "evolves s (finish_stop s)"
  by (rule evolves_intro [where xs = "[EvStopped (sv_protocol s)]"]) (simp_all add: finish_stop_update)

lemma fail_unsent_evolves [evolve]: "evolves s (fail_unsent_pairing s)"
  by (rule evolves_intro [where xs = "[EvAccount (sv_protocol s) Unlinked,
         EvStatus (sv_protocol s) StError
           (pid_label (sv_protocol s) @ '' pairing did not start: the phone number is too long.'')]"])
    (simp_all add: fail_unsent_pairing_update open_send_def)

lemma go_idle_evolves [evolve]: "evolves s (go_idle s)"
  by (rule evolves_report_intro [where xs = "account_event Unlinked s" and st = HIdle and ys = "[]"])
    (simp_all add: go_idle_def open_send_def)

lemma go_restart_evolves [evolve]: "evolves s (go_restart env s)"
  by (rule evolves_report_intro [where xs = "account_event (restart_account s) s" and st = HRestarting
        and ys = "[EvNotice (sv_protocol s) (''The '' @ pid_label (sv_protocol s) @
          '' helper stopped. thinwire starts it again.'')]"])
    (simp_all add: go_restart_def open_send_def)

lemma helper_ended_evolves [evolve]: "evolves s (helper_ended env s)"
proof (cases "sv_link s")
  case (Some lk)
  have f: "evolves s (h ((unlinked_state lk s)\<lparr>sv_failures := n\<rparr>))" if "\<And>s. evolves s (h s)" for h n
    using that evolves_trans [OF unlinked_evolves] evolves_trans [OF update_evolves(6)] by blast
  have "evolves s (go_idle (unlinked_state lk s))"
    by (rule evolves_trans [OF unlinked_evolves go_idle_evolves])
  then show ?thesis by (simp add: helper_ended_eq [OF Some] Let_def f evolve)
qed (simp add: helper_ended_def)

lemma on_helper_gone_evolves [evolve]: "evolves s (on_helper_gone env s)"
  by (simp add: on_helper_gone_def evolve)

lemma note_send_evolves [evolve]: "evolves s (note_send c s)"
  by (rule evolves_intro [where xs = "[]"]) (auto simp: open_send_def note_send_def dom_update split: option.split)

lemma request_evolves [evolve]: "evolves s (request env c s)"
proof -
  have t: "evolves s (take_id (note_send c s))"
    by (rule evolves_trans [OF note_send_evolves [of s c]]) (simp only: take_id_def update_evolves)
  show ?thesis
  proof (cases rule: request_cases [of s env c])
    case (kept lk)
    then show ?thesis using evolves_trans [OF note_send_evolves [of s c] update_evolves(2)] by simp
  next
    case (sent lk)
    then show ?thesis using evolves_trans [OF t] evolves_trans [OF update_evolves(2) update_evolves(1)]
      by simp
  qed (use t in \<open>auto simp: evolve intro: evolves_trans [OF note_send_evolves] evolves_trans [OF t]\<close>)
qed

lemma launch_evolves [evolve]: "evolves s (launch env s)"
proof (cases rule: launch_cases [of s env])
  case waits
  show ?thesis by (rule evolves_intro [where xs = "[]"]) (simp_all add: waits(4) open_send_def)
next
  case absent
  show ?thesis
    by (rule evolves_report_intro [where xs = "[]" and st = HMissing
          and ys = "[EvStatus (sv_protocol s) StError (missing s)]"])
      (simp_all add: absent(5) open_send_def)
next
  case failed
  show ?thesis unfolding failed(6) by (rule evolves_then [OF stop_for_evolves]) simp_all
next
  case started
  show ?thesis
    by (rule evolves_report_intro [where xs = "[]" and st = HBusy and ys = "[]"])
      (simp_all add: started(6) open_send_def)
qed simp

lemma on_command_evolves [evolve]: "evolves s (on_command env c s)"
proof (cases rule: on_command_cases [of s c env])
  case (requested w)
  show ?thesis unfolding requested(4) by (rule evolves_then [OF request_evolves]) simp_all
next
  case gate
  show ?thesis unfolding gate(4) by (rule evolves_then [OF launch_evolves]) simp_all
next
  case (pairing g ph)
  show ?thesis unfolding pairing(4) by (rule evolves_then [OF launch_evolves]) simp_all
next
  case (answered w)
  show ?thesis unfolding answered(5) by (rule evolves_then [OF answer_evolves]) simp_all
qed simp

lemma on_restart_evolves [evolve]: "evolves s (on_restart env s)"
  by (simp add: on_restart_def) (auto intro: evolves_then [OF launch_evolves])

lemma on_shutdown_evolves [evolve]: "evolves s (on_shutdown env s)"
proof (cases rule: on_shutdown_cases [of s env])
  case ends
  show ?thesis
    by (rule evolves_intro [where xs = "[EvStopped (sv_protocol s)]"]) (simp_all add: ends(3))
next
  case (asks lk)
  show ?thesis
    by (rule evolves_intro [where xs = "[]"]) (simp_all add: asks(3) open_send_def)
qed simp

lemma on_ack_evolves [evolve]: "evolves s (on_ack env i s)"
proof (cases "sv_link s")
  case (Some lk)
  show ?thesis unfolding on_ack_update [OF Some]
    using evolves_trans [OF update_evolves(2) [of s "Some (acked i lk)"] report_evolves]
    by (simp del: report_update)
qed (simp add: on_ack_def)

lemma event_from_wire_plain:
  "event_from_wire p w = Some e \<Longrightarrow> own_event p e \<and> \<not> is_helper_event e"
  using event_from_wire_tag [of p w e]
  by (cases w) (auto simp: own_event_def event_wire_defs split: if_splits option.splits)

text \<open>Only an answer of the helper takes a send off the table.\<close>

lemma on_event_evolves [evolve]: "evolves s (on_event w s)"
proof (cases "event_from_wire (sv_protocol s) w")
  case (Some e)
  have e: "own_event (sv_protocol s) e" "\<not> is_helper_event e"
    using event_from_wire_plain [OF Some] by simp_all
  have q: "e = EvSendAccepted q c r \<Longrightarrow> q = sv_protocol s" "e = EvSendRejected q c r \<Longrightarrow> q = sv_protocol s"
    for q c r using e(1) by (auto simp: own_event_def)
  show ?thesis
  proof (rule evolves_intro [where xs = "[e]"])
    fix r assume r: "open_send r s"
    show "open_send r (on_event w s) \<or> send_done (sv_protocol s) r [e]"
      using r q by (cases e) (auto simp: on_event_def Some Let_def sv_emit_def end_pairing_def
          open_send_def AList.delete_eq send_done_def image_iff split: account_state.split)
  qed (use e in \<open>cases e; simp add: on_event_def Some Let_def sv_emit_def end_pairing_def
      split: account_state.split\<close>)+
qed (simp add: on_event_def)

lemma on_hello_evolves [evolve]: "evolves s (on_hello env v ps s)"
proof -
  have "evolves s (foldl (\<lambda>s c. request env c s) (report HRunning t) held)"
    if "evolves s t" for t held
    by (rule evolves_trans [OF that], rule evolves_trans [OF report_evolves], rule evolves_foldl)
      (rule request_evolves)
  then show ?thesis
    by (simp add: on_hello_def stop_for_evolves split_beta del: report_update split: option.split)
qed

lemma on_line_evolves [evolve]: "evolves s (on_line env l s)"
  by (simp add: on_line_def Let_def evolve split: helper_line.split)

lemma on_exited_evolves [evolve]: "evolves s (on_exited env run s)"
proof -
  define t where "t = (case sv_link s of
      Some lk \<Rightarrow> if lk_run lk = run then s\<lparr>sv_alive := sv_alive s - {run}, sv_link := Some (drained env s lk)\<rparr>
        else s\<lparr>sv_alive := sv_alive s - {run}\<rparr>
    | None \<Rightarrow> s\<lparr>sv_alive := sv_alive s - {run}\<rparr>)"
  have t: "sv_protocol t = sv_protocol s" "sv_wire t = sv_wire s" "sv_timing t = sv_timing s"
    "sv_stopping t = sv_stopping s" "sv_events t = sv_events s" "sv_sends t = sv_sends s"
    "sv_reported t = sv_reported s"
    by (simp_all add: t_def split: option.split)
  have "on_exited env run s = (if sv_start_waits t \<and> sv_alive t = {} then launch env t else t)"
  proof (cases "sv_link s")
    case (Some lk)
    then show ?thesis
      by (cases "lk_drain_deadline lk") (simp_all add: on_exited_def Let_def t_def drained_def)
  qed (simp add: on_exited_def Let_def t_def)
  with evolves_then [OF launch_evolves t, of env] evolves_then [OF evolves_refl t] show ?thesis
    by simp
qed

lemma on_msg_evolves [evolve]: "evolves s (on_msg env m s)"
  by (simp add: on_msg_def evolve split: msg.split)

lemma on_timer_evolves [evolve]: "evolves s (on_timer env s)"
proof (cases rule: on_timer_cases [of s env])
  case kill
  show ?thesis unfolding kill(3) by (rule evolves_then [OF stop_for_evolves]) simp_all
next
  case restart
  show ?thesis unfolding restart(4) by (rule evolves_then [OF launch_evolves]) simp_all
qed (simp_all add: evolve del: report_update)

section \<open>No open send without a helper\<close>

definition idle_ok :: "supervisor \<Rightarrow> bool" where
  "idle_ok s \<longleftrightarrow> (sv_link s = None \<longrightarrow> sv_sends s = [])"

lemma idle_ok_answer: "idle_ok s \<Longrightarrow> idle_ok (answer_without_helper c s)"
  by (auto simp: idle_ok_def answer_without_helper_update give_up_link_update drop_send_def
      split: option.split)

lemma idle_ok_stop_for [simp]: "idle_ok (stop_for fault s)"
  by (simp add: idle_ok_def stop_for_update)

lemma idle_ok_finish [simp]: "idle_ok (finish_stop s)"
  by (simp add: idle_ok_def finish_stop_update)

lemma idle_ok_ended: "idle_ok s \<Longrightarrow> idle_ok (helper_ended env s)"
proof (cases "sv_link s")
  case (Some lk)
  then show ?thesis
    by (simp add: helper_ended_eq Let_def idle_ok_def go_idle_def go_restart_def stop_for_update)
qed (simp add: helper_ended_def)

lemma idle_ok_request: "sv_link s \<noteq> None \<Longrightarrow> idle_ok (request env c s)"
  by (cases rule: request_cases [of s env c])
    (auto simp: idle_ok_def fail_unsent_pairing_update take_id_def)

lemma request_link: "sv_link s \<noteq> None \<Longrightarrow> sv_link (request env c s) \<noteq> None"
  by (cases rule: request_cases [of s env c])
    (auto simp: fail_unsent_pairing_update take_id_def)

lemma idle_ok_launch: "idle_ok s \<Longrightarrow> idle_ok (launch env s)"
  by (cases rule: launch_cases [of s env]) (auto simp: idle_ok_def stop_for_update)

lemma idle_ok_update [simp]:
  "idle_ok (s\<lparr>sv_replay := x1\<rparr>) = idle_ok s" "idle_ok (s\<lparr>sv_failures := x2\<rparr>) = idle_ok s"
  "idle_ok (s\<lparr>sv_wake_link := x3\<rparr>) = idle_ok s" "idle_ok (s\<lparr>sv_restart_at := x4\<rparr>) = idle_ok s"
  "idle_ok (s\<lparr>sv_alive := x5\<rparr>) = idle_ok s" "idle_ok (s\<lparr>sv_start_waits := x6\<rparr>) = idle_ok s"
  "idle_ok (s\<lparr>sv_old_exit_deadline := x7\<rparr>) = idle_ok s" "idle_ok (s\<lparr>sv_reported := x8\<rparr>) = idle_ok s"
  "idle_ok (s\<lparr>sv_events := x9\<rparr>) = idle_ok s"
  by (simp_all add: idle_ok_def)

lemma idle_ok_line: "sv_link s \<noteq> None \<Longrightarrow> idle_ok (on_line env l s)"
proof -
  assume link: "sv_link s \<noteq> None"
  then have s: "idle_ok s" by (auto simp: idle_ok_def)
  have held: "sv_link (foldl (\<lambda>s c. request env c s) t held) \<noteq> None" if "sv_link t \<noteq> None" for t held
    by (rule foldl_keep [where P = "\<lambda>s. sv_link s \<noteq> None"]) (use that request_link in auto)
  have "idle_ok (foldl (\<lambda>s c. request env c s) t hs)" if "sv_link t \<noteq> None" for t hs
    using held [OF that, of hs] by (auto simp: idle_ok_def)
  then have "idle_ok (on_hello env v ps s)" for v ps
    using link by (auto simp: on_hello_def)
  moreover have "idle_ok (on_ack env i s)" for i
    using link by (auto simp: on_ack_update idle_ok_def)
  moreover have "idle_ok (on_event w s)" for w
    using link by (auto simp: on_event_def idle_ok_def Let_def sv_emit_def end_pairing_def
        split: option.split adapter_event.split account_state.split)
  ultimately show ?thesis
    by (simp add: on_line_def Let_def idle_ok_ended s split: helper_line.split)
qed

lemma idle_ok_exited:
  assumes "sv_inv s" "idle_ok s"
  shows "idle_ok (on_exited env run s)"
  using assms(1)
proof (cases rule: on_exited_cases [where env = env and run = run])
  case (current lk)
  then show ?thesis by (simp add: idle_ok_def)
qed (use assms(2) in \<open>simp_all add: idle_ok_launch\<close>)

lemma idle_ok_msg: "sv_inv s \<Longrightarrow> idle_ok s \<Longrightarrow> idle_ok (on_msg env m s)"
proof (cases m)
  case (MsgCommand c)
  assume "idle_ok s"
  then show ?thesis unfolding MsgCommand on_msg_def msg.case
    by (cases rule: on_command_cases [of s c env]) (simp_all add: idle_ok_request idle_ok_launch idle_ok_answer)
next
  case MsgShutdown
  assume "idle_ok s"
  then show ?thesis unfolding MsgShutdown on_msg_def msg.case
    by (cases rule: on_shutdown_cases [of s env]) (simp_all add: idle_ok_def)
qed (auto simp: on_msg_def on_restart_def idle_ok_launch idle_ok_line idle_ok_exited is_current_def
    on_helper_gone_def idle_ok_ended split: option.splits)

lemma idle_ok_timer: "idle_ok s \<Longrightarrow> idle_ok (on_timer env s)"
  by (cases rule: on_timer_cases [of s env])
    (simp_all add: idle_ok_launch on_helper_gone_def idle_ok_ended)

section \<open>Processes\<close>

text \<open>A step starts no process, or the next one when none is left and the app is not closing.\<close>

definition spawns :: "u64 set \<Rightarrow> supervisor \<Rightarrow> supervisor \<Rightarrow> bool" where
  "spawns alive s s' \<longleftrightarrow>
     (sv_runs s' = sv_runs s \<and> sv_alive s' = alive) \<or>
     (alive = {} \<and> \<not> sv_stopping s \<and> sv_runs s' = sv_runs s + 1 \<and> sv_alive s' = {sv_runs s + 1})"

definition steady :: "supervisor \<Rightarrow> supervisor \<Rightarrow> bool" where
  "steady s s' \<longleftrightarrow> sv_runs s' = sv_runs s \<and> sv_alive s' = sv_alive s"

lemma steady_spawns: "steady s s' \<Longrightarrow> spawns (sv_alive s) s s'"
  by (simp add: steady_def spawns_def)

lemma steady_simps [simp]:
  "steady s s" "steady s (stop_for fault s)" "steady s (finish_stop s)"
  "steady s (answer_without_helper c s)" "steady s (on_event w s)" "steady s (report st s)"
  by (simp_all add: steady_def stop_for_update finish_stop_update on_event_def Let_def sv_emit_def
      end_pairing_def split: option.split adapter_event.split account_state.split)

lemma steady_ended [simp]: "steady s (helper_ended env s)"
proof (cases "sv_link s")
  case (Some lk)
  then show ?thesis
    by (simp add: helper_ended_eq Let_def steady_def go_idle_def go_restart_def stop_for_update)
qed (simp add: helper_ended_def)

lemma steady_gone [simp]: "steady s (on_helper_gone env s)"
  by (simp add: on_helper_gone_def)

lemma steady_request [simp]: "steady s (request env c s)"
  by (cases rule: request_cases [of s env c])
    (simp_all add: steady_def fail_unsent_pairing_update take_id_def)

lemma steady_foldl: "(\<And>s c. steady s (f s c)) \<Longrightarrow> steady s (foldl f s cs)"
  by (rule foldl_keep) (auto simp: steady_def)

lemma steady_line: "steady s (on_line env l s)"
proof -
  have "steady (report HRunning t) (foldl (\<lambda>s c. request env c s) (report HRunning t) held)" for t held
    by (rule steady_foldl) (rule steady_request)
  then have "steady s (foldl (\<lambda>s c. request env c s) (report HRunning t) held)" if "steady s t" for t held
    using that by (simp add: steady_def)
  moreover have "steady s (s\<lparr>sv_link := x\<rparr>)" for x by (simp add: steady_def)
  ultimately have "steady s (on_hello env v ps s)" for v ps
    by (simp add: on_hello_def split_beta del: report_update split: option.split)
  moreover have "steady s (on_ack env i s)" for i
    by (cases "sv_link s") (simp_all add: on_ack_def [of env i s] Let_def steady_def)
  ultimately show ?thesis by (simp add: on_line_def Let_def split: helper_line.split)
qed

lemma launch_spawns: "spawns (sv_alive s) s (launch env s)"
  by (cases rule: launch_cases [of s env]) (simp_all add: spawns_def stop_for_update)

lemma spawns_other:
  "spawns alive t u \<Longrightarrow> sv_runs t = sv_runs s \<Longrightarrow> sv_stopping t = sv_stopping s \<Longrightarrow> spawns alive s u"
  by (simp add: spawns_def)

lemma msg_spawns:
  assumes "sv_inv s"
  shows "spawns (case m of MsgExited run \<Rightarrow> sv_alive s - {run} | _ \<Rightarrow> sv_alive s) s (on_msg env m s)"
proof (cases m)
  case (MsgCommand c)
  have "spawns (sv_alive s) s (on_command env c s)"
  proof (cases rule: on_command_cases [of s c env])
    case gate
    show ?thesis unfolding gate(4) by (rule spawns_other, rule launch_spawns [THEN back_subst [of "\<lambda>a. spawns a _ _"]]) simp_all
  next
    case (pairing g ph)
    show ?thesis unfolding pairing(4) by (rule spawns_other, rule launch_spawns [THEN back_subst [of "\<lambda>a. spawns a _ _"]]) simp_all
  next
    case (requested w)
    then show ?thesis using steady_request [of "s\<lparr>sv_replay := replay_note w (sv_replay s)\<rparr>" env w]
      by (simp add: steady_def spawns_def)
  next
    case (answered w)
    then show ?thesis by (simp add: spawns_def)
  qed (simp add: spawns_def)
  then show ?thesis by (simp add: MsgCommand on_msg_def)
next
  case MsgRestart
  then show ?thesis using launch_spawns [of "s\<lparr>sv_failures := 0\<rparr>" env]
    by (auto simp: on_msg_def on_restart_def spawns_def)
next
  case MsgShutdown
  show ?thesis unfolding MsgShutdown on_msg_def msg.case
    by (cases rule: on_shutdown_cases [of s env]) (simp_all add: spawns_def)
next
  case (MsgExited run)
  from assms have "spawns (sv_alive s - {run}) s (on_exited env run s)"
  proof (cases rule: on_exited_cases [where env = env and run = run])
    case start
    show ?thesis
      unfolding start(3,5)
      using launch_spawns [of "s\<lparr>sv_alive := {}, sv_start_waits := False, sv_old_exit_deadline := None\<rparr>" env]
      by (simp add: spawns_def)
  qed (simp_all add: spawns_def)
  then show ?thesis by (simp add: MsgExited on_msg_def)
qed (simp_all add: on_msg_def steady_spawns steady_line)

lemma timer_spawns: "spawns (sv_alive s) s (on_timer env s)"
proof (cases rule: on_timer_cases [of s env])
  case kill
  then show ?thesis by (simp add: spawns_def stop_for_update)
next
  case restart
  then show ?thesis using launch_spawns [of "s\<lparr>sv_restart_at := None\<rparr>" env]
    by (simp add: spawns_def)
qed (simp_all add: steady_spawns del: report_update)

section \<open>The phone number on the wire\<close>

fun has_phone :: "wire_command \<Rightarrow> bool" where
  "has_phone (WBeginLink _ (Some _)) = True"
| "has_phone _ = False"

fun line_has_phone :: "app_line \<Rightarrow> bool" where
  "line_has_phone (Request _ _ c) = has_phone c"
| "line_has_phone Shutdown = False"

abbreviation phones_in :: "wire_command list \<Rightarrow> nat" where
  "phones_in cs \<equiv> length (filter has_phone cs)"

definition phones_sent :: "supervisor \<Rightarrow> nat" where
  "phones_sent s = length (filter (\<lambda>(_, l). line_has_phone l) (sv_sent s))"

text \<open>Every pairing start with a phone that crossed the pipe or still can.\<close>

definition phones :: "supervisor \<Rightarrow> nat" where
  "phones s = phones_sent s +
     (case sv_link s of Some lk \<Rightarrow> phones_in (lk_held lk) | None \<Rightarrow> 0) +
     (case sv_wake_link s of Some (_, c) \<Rightarrow> of_bool (has_phone c) | None \<Rightarrow> 0)"

definition no_link_phones :: "supervisor \<Rightarrow> nat" where
  "no_link_phones s = phones_sent s + (case sv_wake_link s of Some (_, c) \<Rightarrow> of_bool (has_phone c) | None \<Rightarrow> 0)"

lemma phones_update [simp]:
  "phones (s\<lparr>sv_events := x1\<rparr>) = phones s" "phones (s\<lparr>sv_account := x2\<rparr>) = phones s"
  "phones (s\<lparr>sv_linked_once := x3\<rparr>) = phones s" "phones (s\<lparr>sv_replay := x4\<rparr>) = phones s"
  "phones (s\<lparr>sv_sends := x5\<rparr>) = phones s" "phones (s\<lparr>sv_reported := x6\<rparr>) = phones s"
  "phones (s\<lparr>sv_failures := x7\<rparr>) = phones s" "phones (s\<lparr>sv_restart_at := x8\<rparr>) = phones s"
  "phones (s\<lparr>sv_alive := x9\<rparr>) = phones s" "phones (s\<lparr>sv_start_waits := x10\<rparr>) = phones s"
  "phones (s\<lparr>sv_old_exit_deadline := x11\<rparr>) = phones s"
  by (simp_all add: phones_def phones_sent_def)

lemma phones_answer: "phones (answer_without_helper c s) \<le> phones s"
  by (simp add: phones_def phones_sent_def answer_without_helper_update give_up_link_update split: option.split)

lemma phones_answer_held: "phones (answer_held s cs) \<le> phones s"
  by (rule answer_held_keep [where P = "\<lambda>t. phones t \<le> phones s"])
    (use phones_answer le_trans in blast)+

lemma phones_in_ge: "c \<in> set cs \<Longrightarrow> has_phone c \<Longrightarrow> 1 \<le> phones_in cs"
  by (induction cs) auto

lemma phones_end_unsent: "sv_link s = None \<Longrightarrow> phones (end_unsent cs s) \<le> phones s + phones_in cs"
proof (cases "last_pairing cs")
  case None
  then show ?thesis using phones_answer_held [of s cs] by (simp add: end_unsent_update)
next
  case (Some w)
  assume link: "sv_link s = None"
  obtain g c where w: "w = (g, c)" by (cases w)
  have "of_bool (has_phone c) \<le> phones_in cs"
    using phones_in_ge [of c cs] last_pairing_begin [of cs g c] Some w by auto
  moreover have "phones_sent s \<le> phones s" by (simp add: phones_def)
  ultimately show ?thesis using Some w link
    by (simp add: end_unsent_update phones_def phones_sent_def)
qed

lemma phones_stop_for [simp]: "phones (stop_for fault s) = phones_sent s"
  by (simp add: phones_def phones_sent_def stop_for_update)

lemma phones_sent_le: "phones_sent s \<le> phones s"
  by (simp add: phones_def)

lemma phones_unlinked: "sv_link s = Some lk \<Longrightarrow> phones (unlinked_state lk s) \<le> phones s"
proof -
  assume l: "sv_link s = Some lk"
  let ?cs = "if lk_greeted lk then [] else lk_held lk"
  have "phones (reject_open_sends t) = phones t" for t
    by (simp add: phones_def phones_sent_def reject_open_sends_update)
  then have "phones (unlinked_state lk s) \<le> phones (s\<lparr>sv_link := None\<rparr>) + phones_in ?cs"
    using phones_end_unsent [of "s\<lparr>sv_link := None\<rparr>" ?cs] by (simp add: unlinked_state_def)
  also have "\<dots> \<le> phones s" by (simp add: phones_def phones_sent_def l)
  finally show ?thesis .
qed

lemma phones_ended: "phones (helper_ended env s) \<le> phones s"
proof (cases "sv_link s")
  case (Some lk)
  have "phones (go_idle t) = phones t" "phones (go_restart env t) = phones t"
    "phones (t\<lparr>sv_failures := n\<rparr>) = phones t" "phones_sent (t\<lparr>sv_failures := n\<rparr>) = phones_sent t" for t n
    by (simp_all add: phones_def phones_sent_def go_idle_def go_restart_def)
  then show ?thesis
    using phones_unlinked [OF Some] phones_sent_le [of "unlinked_state lk s"]
    by (simp add: helper_ended_eq [OF Some] Let_def)
qed (simp add: helper_ended_def)

lemma phones_finish: "phones (finish_stop s) \<le> phones s"
  by (simp add: phones_def phones_sent_def finish_stop_update)

lemma phones_gone: "phones (on_helper_gone env s) \<le> phones s"
  by (simp add: on_helper_gone_def phones_ended phones_finish)

lemma phones_take [simp]: "phones (take_id (note_send c s)) = phones s"
  by (simp add: phones_def phones_sent_def take_id_def)

lemma phones_request: "phones (request env c s) \<le> phones s + of_bool (has_phone c)"
proof (cases rule: request_cases [of s env c])
  case (kept lk)
  have "phones_in (filter (\<lambda>c. \<not> is_begin_link c) cs) \<le> phones_in cs" for cs by (induction cs) auto
  with kept show ?thesis
    by (simp add: phones_def phones_sent_def keep_held_def le_SucI)
next
  case (sent lk)
  then show ?thesis by (simp add: phones_def phones_sent_def take_id_def)
next
  case (too_long lk)
  have "phones (fail_unsent_pairing t) \<le> phones t" for t
    by (simp add: phones_def phones_sent_def fail_unsent_pairing_update)
  from this [of "take_id (note_send c s)"] show ?thesis by (simp add: too_long)
next
  case (answered lk)
  then show ?thesis using phones_answer [of c "take_id (note_send c s)"] by simp
qed (simp add: phones_def phones_sent_def)

lemma phones_requests:
  "phones (foldl (\<lambda>s c. request env c s) s cs) \<le> phones s + phones_in cs"
proof (induction cs arbitrary: s)
  case (Cons c cs)
  have "phones (foldl (\<lambda>s c. request env c s) (request env c s) cs)
      \<le> phones (request env c s) + phones_in cs" by (rule Cons.IH)
  also have "\<dots> \<le> phones s + phones_in (c # cs)" using phones_request [of env c s]
    by (cases "has_phone c") simp_all
  finally show ?case by simp
qed simp

lemma phones_launch: "phones (launch env s) \<le> phones s"
proof (cases rule: launch_cases [of s env])
  case started
  then show ?thesis
    by (cases "rp_acknowledged (sv_replay s)"; cases "rp_link (sv_replay s)"; cases "sv_wake_link s")
      (auto simp: phones_def phones_sent_def fresh_link_def start_commands_def Let_def)
qed (simp_all add: phones_def phones_sent_def stop_for_update)

lemma phones_line: "phones (on_line env l s) \<le> phones s"
proof -
  have hello: "phones (on_hello env v ps s) \<le> phones s" if "\<And>lk. sv_link s = Some lk \<Longrightarrow> \<not> lk_greeted lk" for v ps
  proof (cases "sv_link s")
    case None
    have "phones (report HRunning s) = phones s" by (simp add: phones_def phones_sent_def)
    with None phones_sent_le [of s] show ?thesis by (simp add: on_hello_def del: report_update)
  next
    case (Some lk)
    let ?t = "report HRunning (s\<lparr>sv_link := Some (lk\<lparr>lk_greeted := True, lk_held := []\<rparr>)\<rparr>)"
    have "phones ?t + phones_in (lk_held lk) = phones s"
      by (simp add: phones_def phones_sent_def Some)
    with phones_requests [of env ?t "lk_held lk"] phones_sent_le [of s] show ?thesis
      by (simp add: on_hello_def Some split_beta del: report_update)
  qed
  have ack: "phones (on_ack env i s) \<le> phones s" for i
    by (cases "sv_link s")
      (simp_all add: on_ack_def [of _ _ s] Let_def phones_def phones_sent_def)
  have event: "phones (on_event w s) \<le> phones s" for w
    by (simp add: on_event_def Let_def sv_emit_def end_pairing_def
        split: option.split adapter_event.split account_state.split)
  have greeted: "\<not> lk_greeted lk"
    if "\<not> (case sv_link s of Some lk \<Rightarrow> lk_greeted lk | None \<Rightarrow> False)" "sv_link s = Some lk" for lk
    using that by simp
  show ?thesis
  proof (cases l)
    case (Hello v x ps)
    show ?thesis
    proof (cases "case sv_link s of Some lk \<Rightarrow> lk_greeted lk | None \<Rightarrow> False")
      case True
      then show ?thesis by (simp add: on_line_def Hello phones_ended)
    next
      case False
      with hello [of v ps, OF greeted [OF False]] show ?thesis by (simp add: on_line_def Hello)
    qed
  qed (simp_all add: on_line_def Let_def phones_ended phones_finish phones_sent_le ack event)
qed

lemma phones_shutdown: "phones (on_shutdown env s) \<le> phones s"
  by (cases rule: on_shutdown_cases [of s env])
    (auto simp: phones_def phones_sent_def split: option.split sum.split)

text \<open>Only a pairing start of the user, with a number in the vault, adds one.\<close>

fun gives_phone :: "helper_env \<Rightarrow> msg \<Rightarrow> bool" where
  "gives_phone env (MsgCommand c) = (starts_pairing c \<and> en_phone env \<noteq> None)"
| "gives_phone env _ = False"

lemma command_phone:
  "command_to_wire p c ph = Some w \<Longrightarrow> has_phone w = (starts_pairing c \<and> ph \<noteq> None)"
  by (cases ph) (cases c; auto simp: command_to_wire_def split: if_splits option.splits)+

lemma phones_command:
  "phones (on_command env c s) \<le> phones s + of_bool (starts_pairing c \<and> en_phone env \<noteq> None)"
proof (cases rule: on_command_cases [of s c env])
  case (requested w)
  have "phones (request env w t) \<le> phones t + of_bool (has_phone w)" for t by (rule phones_request)
  from this [of "s\<lparr>sv_replay := replay_note w (sv_replay s)\<rparr>"] command_phone [OF requested(2)] show ?thesis
    by (simp only: requested(4) phones_update)
next
  case gate
  show ?thesis unfolding gate(4) by (rule order_trans [OF phones_launch]) simp
next
  case (pairing g ph)
  have "phones (s\<lparr>sv_replay := r, sv_wake_link := Some (g, WBeginLink g ph), sv_failures := 0\<rparr>)
      \<le> phones s + of_bool (has_phone (WBeginLink g ph))" for r
    by (simp add: phones_def phones_sent_def)
  then show ?thesis unfolding pairing(4) command_phone [OF pairing(3)]
    by (rule order_trans [OF phones_launch])
next
  case (answered w)
  show ?thesis unfolding answered(5) by (rule order_trans [OF phones_answer]) simp
qed simp

lemma phones_exited:
  assumes "sv_inv s"
  shows "phones (on_exited env run s) \<le> phones s"
  using assms
proof (cases rule: on_exited_cases [where env = env and run = run])
  case (current lk)
  then show ?thesis by (simp add: phones_def phones_sent_def drained_def)
next
  case start
  show ?thesis unfolding start(5) by (rule order_trans [OF phones_launch]) simp
qed simp_all

lemma phones_msg: "sv_inv s \<Longrightarrow> phones (on_msg env m s) \<le> phones s + of_bool (gives_phone env m)"
proof (cases m)
  case MsgRestart
  have "phones (launch env (s\<lparr>sv_failures := 0\<rparr>)) \<le> phones s"
    by (rule order_trans [OF phones_launch]) simp
  then show ?thesis by (simp add: MsgRestart on_msg_def on_restart_def)
qed (use phones_command phones_gone phones_line phones_exited phones_shutdown in
    \<open>simp_all add: on_msg_def\<close>)

lemma phones_timer: "phones (on_timer env s) \<le> phones s"
proof (cases rule: on_timer_cases [of s env])
  case kill
  have "phones_sent (s\<lparr>sv_start_waits := False, sv_old_exit_deadline := None\<rparr>) = phones_sent s"
    by (simp add: phones_sent_def)
  then show ?thesis by (simp add: kill(3) phones_sent_le)
next
  case restart
  show ?thesis unfolding restart(4) by (rule order_trans [OF phones_launch]) simp
qed (simp_all add: phones_finish phones_gone phones_ended)

section \<open>The end of the protocol\<close>

fun is_stopped :: "adapter_event \<Rightarrow> bool" where
  "is_stopped (EvStopped _) = True"
| "is_stopped _ = False"

abbreviation stops_in :: "events \<Rightarrow> nat" where
  "stops_in evs \<equiv> length (filter is_stopped evs)"

definition same_stop :: "supervisor \<Rightarrow> supervisor \<Rightarrow> bool" where
  "same_stop s s' \<longleftrightarrow> sv_stopping s' = sv_stopping s \<and> sv_stop_deadline s' = sv_stop_deadline s \<and>
     stops_in (sv_events s') = stops_in (sv_events s)"

lemma same_stop_trans: "same_stop s t \<Longrightarrow> same_stop t u \<Longrightarrow> same_stop s u"
  by (simp add: same_stop_def)

lemma same_stop_foldl: "(\<And>s c. same_stop s (f s c)) \<Longrightarrow> same_stop s (foldl f s cs)"
  by (rule foldl_keep) (auto simp: same_stop_def)

lemma no_stop_idle [simp]: "\<not> is_stopped (idle_event s)"
  by (simp add: idle_event_def split: option.split helper_state.split)

lemma no_stops [simp]:
  "stops_in (reject_events s) = 0" "stops_in (helper_event st s) = 0" "stops_in (account_event a s) = 0"
  "stops_in (give_up_events s) = 0" "stops_in (stop_events fault s) = 0"
  by (simp_all add: reject_events_def helper_event_def account_event_def give_up_events_def
      stop_events_def filter_empty_conv split_beta)

lemma no_stops_answer [simp]: "stops_in (answer_events c s) = 0"
  by (cases c) simp_all

lemma same_stop_simps [simp]:
  "same_stop s s" "same_stop s (report st s)" "same_stop s (stop_for fault s)"
  "same_stop s (answer_without_helper c s)" "same_stop s (fail_unsent_pairing s)"
  by (simp_all add: same_stop_def updates)

lemma same_stop_ended [simp]: "same_stop s (helper_ended env s)"
proof (cases "sv_link s")
  case (Some lk)
  have "same_stop t (answer_held t cs)" for t cs
    unfolding answer_held_def by (rule same_stop_foldl) simp
  then have "same_stop t (end_unsent cs t)" for t cs
    by (simp add: end_unsent_update same_stop_def split: option.split)
  then have "same_stop (s\<lparr>sv_link := None\<rparr>) (unlinked_state lk s)"
    by (simp add: unlinked_state_def reject_open_sends_update same_stop_def)
  then show ?thesis
    by (simp add: helper_ended_eq [OF Some] Let_def same_stop_def go_idle_def go_restart_def stop_for_update)
qed (simp add: helper_ended_def)

lemma same_stop_request [simp]: "same_stop s (request env c s)"
proof -
  have t: "same_stop s (take_id (note_send c s))" by (simp add: same_stop_def take_id_def)
  show ?thesis
  proof (cases rule: request_cases [of s env c])
    case (too_long lk)
    then show ?thesis using same_stop_trans [OF t] by simp
  next
    case (answered lk)
    then show ?thesis using same_stop_trans [OF t] by simp
  qed (simp_all add: same_stop_def take_id_def)
qed

lemma same_stop_launch [simp]: "same_stop s (launch env s)"
  by (cases rule: launch_cases [of s env]) (simp_all add: same_stop_def stop_for_update)

lemma same_stop_hello [simp]: "same_stop s (on_hello env v ps s)"
proof -
  have "same_stop (report HRunning t) (foldl (\<lambda>s c. request env c s) (report HRunning t) hs)" for t hs
    by (rule same_stop_foldl) simp
  then have "same_stop s (foldl (\<lambda>s c. request env c s) (report HRunning t) hs)" if "same_stop s t" for t hs
    using same_stop_trans [OF that same_stop_trans [OF same_stop_simps(2)]] by blast
  moreover have "same_stop s (s\<lparr>sv_link := x\<rparr>)" for x by (simp add: same_stop_def)
  ultimately show ?thesis
    by (simp add: on_hello_def split_beta del: report_update split: option.split)
qed

lemma same_stop_event [simp]: "same_stop s (on_event w s)"
proof (cases "event_from_wire (sv_protocol s) w")
  case (Some e)
  then have "\<not> is_stopped e"
    by (cases w) (auto simp: event_wire_defs split: if_splits option.splits)
  then show ?thesis
    by (simp add: on_event_def Some Let_def sv_emit_def end_pairing_def same_stop_def
        split: adapter_event.split account_state.split)
qed (simp add: on_event_def)

lemma same_stop_ack [simp]: "same_stop s (on_ack env i s)"
  by (cases "sv_link s") (simp_all add: on_ack_update same_stop_def, simp add: on_ack_def)

text \<open>\<open>Stopped\<close> was sent exactly when the app closes and no wait for the helper is left.\<close>

definition stop_ok :: "supervisor \<Rightarrow> bool" where
  "stop_ok s \<longleftrightarrow> stops_in (sv_events s) = of_bool (sv_stopping s \<and> sv_stop_deadline s = None)"

lemma stop_ok_same: "same_stop s s' \<Longrightarrow> stop_ok s \<Longrightarrow> stop_ok s'"
  by (simp add: same_stop_def stop_ok_def)

lemma stop_ok_finish: "sv_stopping s \<Longrightarrow> sv_stop_deadline s \<noteq> None \<Longrightarrow> stop_ok s \<Longrightarrow> stop_ok (finish_stop s)"
  by (simp add: stop_ok_def finish_stop_update)

lemma stopping_link_deadline: "sv_inv s \<Longrightarrow> sv_stopping s \<Longrightarrow> sv_link s \<noteq> None \<Longrightarrow> sv_stop_deadline s \<noteq> None"
  by (auto simp: sv_inv_def)

lemma stop_ok_gone:
  "sv_inv s \<Longrightarrow> sv_link s \<noteq> None \<Longrightarrow> stop_ok s \<Longrightarrow> stop_ok (on_helper_gone env s)"
  by (simp add: on_helper_gone_def stop_ok_finish stopping_link_deadline stop_ok_same [OF same_stop_ended])

lemma stop_ok_line:
  "sv_inv s \<Longrightarrow> sv_link s \<noteq> None \<Longrightarrow> stop_ok s \<Longrightarrow> stop_ok (on_line env l s)"
  using stop_ok_same stop_ok_finish stopping_link_deadline
  by (cases l) (simp_all add: on_line_def Let_def stop_ok_same [where s = s])

lemma same_stop_other:
  "same_stop t u \<Longrightarrow> sv_stopping t = sv_stopping s \<Longrightarrow> sv_stop_deadline t = sv_stop_deadline s \<Longrightarrow>
   sv_events t = sv_events s \<Longrightarrow> same_stop s u"
  by (simp add: same_stop_def)

lemma same_stop_command: "same_stop s (on_command env c s)"
proof (cases rule: on_command_cases [of s c env])
  case (requested w)
  show ?thesis unfolding requested(4) by (rule same_stop_other [OF same_stop_request]) simp_all
next
  case gate
  show ?thesis unfolding gate(4) by (rule same_stop_other [OF same_stop_launch]) simp_all
next
  case (pairing g ph)
  show ?thesis unfolding pairing(4) by (rule same_stop_other [OF same_stop_launch]) simp_all
next
  case (answered w)
  show ?thesis unfolding answered(5) by (rule same_stop_other [OF same_stop_simps(4)]) simp_all
qed simp

lemma same_stop_exited: "sv_inv s \<Longrightarrow> same_stop s (on_exited env run s)"
  using same_stop_launch [of "s\<lparr>sv_alive := {}, sv_start_waits := False, sv_old_exit_deadline := None\<rparr>" env]
  by (elim on_exited_cases [where env = env and run = run]) (simp_all add: same_stop_def)

lemma stop_ok_msg:
  assumes "sv_inv s" "stop_ok s"
  shows "stop_ok (on_msg env m s)"
proof (cases m)
  case MsgRestart
  have "same_stop s (on_restart env s)"
    using same_stop_launch [of "s\<lparr>sv_failures := 0\<rparr>" env] by (simp add: on_restart_def same_stop_def)
  then show ?thesis using assms(2) by (simp add: MsgRestart on_msg_def stop_ok_same)
next
  case MsgShutdown
  show ?thesis unfolding MsgShutdown on_msg_def msg.case using assms
    by (cases rule: on_shutdown_cases [of s env]) (auto simp: stop_ok_def sv_inv_def)
qed (use assms in \<open>auto simp: on_msg_def stop_ok_same [OF same_stop_command] stop_ok_same [OF same_stop_exited]
    stop_ok_gone stop_ok_line is_current_def split: option.splits\<close>)

lemma stop_ok_timer:
  assumes "sv_inv s" "stop_ok s"
  shows "stop_ok (on_timer env s)"
proof (cases rule: on_timer_cases [of s env])
  case stop
  then have "sv_stop_deadline s \<noteq> None" "sv_stopping s"
    using assms(1) by (auto simp: due_def sv_inv_def split: option.splits)
  with stop assms(2) show ?thesis by (simp add: stop_ok_finish)
next
  case kill
  have "same_stop s (on_timer env s)"
    unfolding kill(3) by (rule same_stop_other [OF same_stop_simps(3)]) simp_all
  then show ?thesis using assms(2) by (rule stop_ok_same)
next
  case restart
  have "same_stop s (on_timer env s)"
    unfolding restart(4) by (rule same_stop_other [OF same_stop_launch]) simp_all
  then show ?thesis using assms(2) by (rule stop_ok_same)
qed (use assms in \<open>simp_all add: stop_ok_gone stop_ok_same [OF same_stop_ended]
    stop_ok_same [OF same_stop_simps(2)] del: report_update\<close>)

end
