(* ===== verification/Supervisor_Props.thy ===== *)
theory Supervisor_Props
  imports Supervisor_Run
begin

text \<open>
  Runs of the supervisor and of its helper processes, and what holds in all of them.
\<close>

section \<open>Runs\<close>

datatype sv_input = InMsg helper_env msg | InTimer helper_env

fun sv_step :: "supervisor \<Rightarrow> sv_input \<Rightarrow> supervisor" where
  "sv_step s (InMsg env m) = on_msg env m s"
| "sv_step s (InTimer env) = on_timer env s"

definition sv_run :: "sv_input list \<Rightarrow> supervisor \<Rightarrow> supervisor" where
  "sv_run ins s = foldl sv_step s ins"

definition started :: "helper_env \<Rightarrow> helper_adapter \<Rightarrow> supervisor option" where
  "started env a = (case ha_start env a [] of (_, _, s) \<Rightarrow> s)"

definition sv_good :: "supervisor \<Rightarrow> bool" where
  "sv_good s \<longleftrightarrow> sv_inv s \<and> idle_ok s \<and> stop_ok s \<and> 0 < ht_max_failures (sv_timing s) \<and>
     ev_ok (sv_protocol s) (sv_events s) (sv_reported s)"

lemma step_evolves: "evolves s (sv_step s i)"
  by (cases i) (simp_all add: evolve)

lemma run_evolves: "evolves s (sv_run ins s)"
  unfolding sv_run_def by (rule evolves_foldl) (rule step_evolves)

lemma evolves_timing: "evolves s s' \<Longrightarrow> sv_timing s' = sv_timing s \<and> sv_protocol s' = sv_protocol s"
  by (simp add: evolves_def)

lemma step_good:
  assumes "sv_good s"
  shows "sv_good (sv_step s i)"
proof -
  have "sv_inv (sv_step s i)" "idle_ok (sv_step s i)" "stop_ok (sv_step s i)"
    using assms by (cases i; simp add: sv_good_def on_msg_inv on_timer_inv idle_ok_msg idle_ok_timer
        stop_ok_msg stop_ok_timer)+
  with step_evolves [of s i] assms show ?thesis by (simp add: sv_good_def evolves_def)
qed

lemma run_good: "sv_good s \<Longrightarrow> sv_good (sv_run ins s)"
  unfolding sv_run_def by (rule foldl_keep) (auto intro: step_good)

lemma run_append: "sv_run (xs @ ys) s = sv_run ys (sv_run xs s)"
  by (simp add: sv_run_def)

lemma started_good:
  assumes "started env a = Some s" "0 < ht_max_failures (ha_timing a)"
  shows "sv_good s"
proof -
  obtain w where w: "wire_protocol_of (ha_protocol a) = Some w"
    using assms(1) by (cases "wire_protocol_of (ha_protocol a)") (simp_all add: started_def ha_start_def Let_def)
  let ?n = "new_supervisor (ha_protocol a) w (ha_timing a)
      [EvStatus (ha_protocol a) Stubbed (cap_detail (ha_capabilities a))]"
  have s: "s = (if en_installed env then ?n else report HMissing ?n)"
    using assms(1) by (simp add: started_def ha_start_def Let_def w emit_status_def split: if_splits)
  have "sv_good ?n" using assms(2)
    by (simp add: sv_good_def new_supervisor_def sv_inv_def hm.ok_none idle_ok_def stop_ok_def ev_ok_def
        own_event_def)
  moreover have "sv_good (report HMissing t)" if "sv_good t" for t
    using that report_evolves [of t HMissing] stop_ok_same [OF same_stop_simps(2), of t HMissing]
    by (simp add: sv_good_def evolves_def)
  ultimately show ?thesis by (simp add: s del: report_update)
qed

lemma started_fields:
  assumes "started env a = Some s"
  shows "sv_protocol s = ha_protocol a" "sv_timing s = ha_timing a" "sv_runs s = 0" "sv_alive s = {}"
    "sv_sent s = []" "sv_link s = None" "sv_wake_link s = None"
  using assms by (auto simp: started_def ha_start_def Let_def new_supervisor_def split: option.splits if_splits)

section \<open>Processes\<close>

text \<open>
  The supervisor with its queue and the helper processes of the system. A line or the end of an
  output may come at any time, also from a process that was dropped; the end of a process is
  queued once, when it ends.
\<close>

record world =
  w_sv :: supervisor
  w_queue :: "msg list"
  w_procs :: "u64 set"

fun is_exit :: "msg \<Rightarrow> bool" where
  "is_exit (MsgExited _) = True"
| "is_exit _ = False"

definition after_step :: "supervisor \<Rightarrow> world \<Rightarrow> world" where
  "after_step s w = w\<lparr>w_sv := s, w_procs := w_procs w \<union> {sv_runs (w_sv w) <.. sv_runs s}\<rparr>"

inductive world_step :: "world \<Rightarrow> world \<Rightarrow> bool" where
  ws_deliver: "w_queue w = m # q \<Longrightarrow>
     world_step w (after_step (on_msg env m (w_sv w)) (w\<lparr>w_queue := q\<rparr>))"
| ws_timer: "next_deadline (w_sv w) = Some d \<Longrightarrow> d \<le> en_now env \<Longrightarrow>
     world_step w (after_step (on_timer env (w_sv w)) w)"
| ws_enqueue: "\<not> is_exit m \<Longrightarrow> world_step w (w\<lparr>w_queue := w_queue w @ [m]\<rparr>)"
| ws_exit: "r \<in> w_procs w \<Longrightarrow>
     world_step w (w\<lparr>w_queue := w_queue w @ [MsgExited r], w_procs := w_procs w - {r}\<rparr>)"

inductive world_reach :: "helper_adapter \<Rightarrow> world \<Rightarrow> bool" for a where
  wr_start: "started env a = Some s \<Longrightarrow> world_reach a \<lparr>w_sv = s, w_queue = [], w_procs = {}\<rparr>"
| wr_step: "world_reach a w \<Longrightarrow> world_step w w' \<Longrightarrow> world_reach a w'"

definition world_ok :: "world \<Rightarrow> bool" where
  "world_ok w \<longleftrightarrow> sv_good (w_sv w) \<and> w_procs w \<subseteq> sv_alive (w_sv w) \<and>
     (\<forall>r. MsgExited r \<in> set (w_queue w) \<longrightarrow> r \<notin> w_procs w \<and> r \<le> sv_runs (w_sv w))"

lemma spawns_world:
  assumes "spawns alive s s'" "procs \<subseteq> alive" "\<forall>r. MsgExited r \<in> Q \<longrightarrow> r \<notin> procs \<and> r \<le> sv_runs s"
  shows "procs \<union> {sv_runs s <.. sv_runs s'} \<subseteq> sv_alive s' \<and>
    (\<forall>r. MsgExited r \<in> Q \<longrightarrow> r \<notin> procs \<union> {sv_runs s <.. sv_runs s'} \<and> r \<le> sv_runs s')"
  using assms by (fastforce simp: spawns_def)

lemma world_step_ok:
  assumes "world_step w w'" "world_ok w"
  shows "world_ok w'"
  using assms
proof cases
  case (ws_deliver m q env)
  let ?s = "w_sv w"
  have good: "sv_good ?s" and alive: "w_procs w \<subseteq> sv_alive ?s"
    and ex: "\<forall>r. MsgExited r \<in> set (m # q) \<longrightarrow> r \<notin> w_procs w \<and> r \<le> sv_runs ?s"
    using assms(2) ws_deliver(2) by (simp_all add: world_ok_def)
  have "spawns (case m of MsgExited run \<Rightarrow> sv_alive ?s - {run} | _ \<Rightarrow> sv_alive ?s) ?s (on_msg env m ?s)"
    using good by (intro msg_spawns) (simp add: sv_good_def)
  moreover have "w_procs w \<subseteq> (case m of MsgExited run \<Rightarrow> sv_alive ?s - {run} | _ \<Rightarrow> sv_alive ?s)"
    using alive ex by (auto split: msg.split)
  moreover have "\<forall>r. MsgExited r \<in> set q \<longrightarrow> r \<notin> w_procs w \<and> r \<le> sv_runs ?s" using ex by simp
  ultimately have "w_procs w \<union> {sv_runs ?s <.. sv_runs (on_msg env m ?s)} \<subseteq> sv_alive (on_msg env m ?s) \<and>
      (\<forall>r. MsgExited r \<in> set q \<longrightarrow> r \<notin> w_procs w \<union> {sv_runs ?s <.. sv_runs (on_msg env m ?s)} \<and>
         r \<le> sv_runs (on_msg env m ?s))"
    by (rule spawns_world)
  moreover have "sv_good (on_msg env m ?s)" using step_good [OF good, of "InMsg env m"] by simp
  ultimately show ?thesis unfolding world_ok_def ws_deliver(1) after_step_def
    by (simp add: not_less) (meson not_le)
next
  case (ws_timer d env)
  let ?s = "w_sv w"
  have good: "sv_good ?s" using assms(2) by (simp add: world_ok_def)
  from spawns_world [OF timer_spawns, of "w_procs w" ?s "set (w_queue w)" env] assms(2)
    step_good [OF good, of "InTimer env"]
  show ?thesis unfolding world_ok_def ws_timer(1) after_step_def
    by (auto simp: not_less)
next
  case (ws_enqueue m)
  with assms(2) show ?thesis by (auto simp: world_ok_def)
next
  case (ws_exit r)
  have "sv_alive (w_sv w) \<subseteq> {sv_runs (w_sv w)}"
    using assms(2) by (simp add: world_ok_def sv_good_def sv_inv_def)
  with assms(2) ws_exit show ?thesis by (auto simp: world_ok_def)
qed

lemma world_reach_ok: "world_reach a w \<Longrightarrow> 0 < ht_max_failures (ha_timing a) \<Longrightarrow> world_ok w"
proof (induction rule: world_reach.induct)
  case (wr_start env s)
  then show ?case by (simp add: world_ok_def started_good)
qed (use world_step_ok in blast)

section \<open>Timers\<close>

definition due_count :: "instant \<Rightarrow> supervisor \<Rightarrow> nat" where
  "due_count now s =
     of_bool (due (sv_restart_at s) now) + of_bool (due (sv_stop_deadline s) now) +
     of_bool (due (sv_old_exit_deadline s) now) + of_bool (due (hello_due_at s) now) +
     of_bool (due (busy_due_at s) now) + of_bool (due (Option.bind (sv_link s) lk_drain_deadline) now)"

lemma next_deadline_due:
  "(\<exists>d. next_deadline s = Some d \<and> d \<le> now) \<longleftrightarrow> 0 < due_count now s"
proof -
  have fold_min: "foldl min a xs \<le> now \<longleftrightarrow> (\<exists>x \<in> set (a # xs). x \<le> now)" for a :: nat and xs
    by (induction xs arbitrary: a) (auto simp: min_le_iff_disj)
  have "(\<exists>d. next_deadline s = Some d \<and> d \<le> now) \<longleftrightarrow> (\<exists>x \<in> set (deadlines s). x \<le> now)"
    by (cases "deadlines s") (auto simp: next_deadline_def fold_min)
  also have "\<dots> \<longleftrightarrow> 0 < due_count now s"
    by (auto simp: deadlines_def due_count_def due_def map_filter_def split: option.splits)
  finally show ?thesis .
qed

definition waits_positive :: "helper_timing \<Rightarrow> bool" where
  "waits_positive tm \<longleftrightarrow> 0 < ht_hello_wait tm \<and> 0 < ht_restart_base tm \<and> 0 < ht_restart_max tm \<and>
     0 < ht_kill_wait tm"

lemma backoff_pos: "waits_positive tm \<Longrightarrow> 0 < backoff tm n"
  by (simp add: backoff_def waits_positive_def Let_def)

lemma due_none [simp]: "\<not> due None now"
  by (simp add: due_def)

lemma no_link_dues: "sv_link s = None \<Longrightarrow> hello_due_at s = None \<and> busy_due_at s = None"
  by (simp add: hello_due_at_def busy_due_at_def)

lemma end_unsent_exit_wait:
  "sv_old_exit_deadline (end_unsent cs s) \<in> {None, sv_old_exit_deadline s}"
proof -
  have "sv_old_exit_deadline (answer_held s cs) \<in> {None, sv_old_exit_deadline s}"
    by (rule answer_held_keep [where P = "\<lambda>t. sv_old_exit_deadline t \<in> {None, sv_old_exit_deadline s}"])
      (auto simp: updates)
  then show ?thesis by (simp add: end_unsent_update split: option.split)
qed

lemma ended_dues:
  assumes "waits_positive (sv_timing s)" "sv_link s = Some lk"
    "\<not> due (sv_stop_deadline s) (en_now env)" "\<not> due (sv_old_exit_deadline s) (en_now env)"
    "sv_inv s"
  shows "due_count (en_now env) (helper_ended env s) = 0"
proof -
  have r: "sv_restart_at (unlinked_state lk s) = None" using unlinked_state_inv [OF assms(5,2)] by simp
  have "sv_old_exit_deadline (unlinked_state lk s) \<in> {None, sv_old_exit_deadline s}"
    using end_unsent_exit_wait [of _ "s\<lparr>sv_link := None\<rparr>"]
    by (simp add: unlinked_state_def reject_open_sends_update)
  then have o: "\<not> due (sv_old_exit_deadline (unlinked_state lk s)) (en_now env)" using assms(4) by auto
  show ?thesis
    using assms(3) backoff_pos [OF assms(1)]
    by (simp add: helper_ended_eq [OF assms(2)] Let_def go_idle_def go_restart_def stop_for_update
        due_count_def no_link_dues r o) (simp add: due_def)
qed

lemma timer_dues:
  assumes "waits_positive (sv_timing s)" "sv_inv s" "0 < due_count (en_now env) s"
  shows "due_count (en_now env) (on_timer env s) < due_count (en_now env) s"
proof (cases rule: on_timer_cases [of s env])
  case stop
  then show ?thesis by (simp add: finish_stop_update due_count_def no_link_dues)
next
  case kill
  then show ?thesis by (simp add: stop_for_update due_count_def no_link_dues)
next
  case restart
  then have link: "sv_link s = None" using assms(2)
    by (auto simp: sv_inv_def link_inv_def due_def pred_option_def split: option.splits)
  have k: "\<not> due (case sv_old_exit_deadline s of Some d \<Rightarrow> Some d
      | None \<Rightarrow> Some (en_now env + ht_kill_wait (sv_timing s))) (en_now env)"
    using restart(2) assms(1) by (auto simp: due_def waits_positive_def split: option.splits)
  let ?s = "s\<lparr>sv_restart_at := None\<rparr>"
  have "due_count (en_now env) (launch env ?s) = 0"
  proof (cases rule: launch_cases [of ?s env])
    case off
    with restart link show ?thesis by (simp add: due_count_def no_link_dues)
  next
    case waits
    with restart link k show ?thesis
      by (cases "sv_old_exit_deadline s") (simp_all add: due_count_def no_link_dues)
  next
    case started
    with restart assms(1) show ?thesis
      by (simp add: due_count_def hello_due_at_def busy_due_at_def fresh_link_def waits_positive_def)
        (simp add: due_def)
  qed (use restart link in \<open>simp_all add: due_count_def no_link_dues stop_for_update\<close>)
  with restart(4) assms(3) show ?thesis by simp
next
  case (drain lk)
  show ?thesis
  proof (cases "sv_stopping s")
    case True
    with drain assms(3) show ?thesis
      by (simp add: on_helper_gone_def finish_stop_update due_count_def no_link_dues)
  next
    case False
    with drain ended_dues [OF assms(1) drain(4,1,2) assms(2)] assms(3) show ?thesis
      by (simp add: on_helper_gone_def)
  qed
next
  case (hello lk)
  with ended_dues [OF assms(1) hello(4,1,2) assms(2)] assms(3) show ?thesis by simp
next
  case (busy lk)
  with assms(3) show ?thesis
    by (simp add: due_count_def hello_due_at_def busy_due_at_def split: if_splits)
next
  case early
  then have "due_count (en_now env) s = 0"
    by (cases "sv_link s") (auto simp: due_count_def hello_due_at_def busy_due_at_def due_def calm_def
        split: list.split)
  with assms(3) show ?thesis by simp
qed

section \<open>The close of the app\<close>

lemma sv_good_inv: "sv_good s \<Longrightarrow> sv_inv s"
  by (simp add: sv_good_def)

lemma step_spawns:
  assumes "sv_good s"
  shows "sv_runs s \<le> sv_runs (sv_step s i)" "sv_stopping s \<Longrightarrow> sv_runs (sv_step s i) = sv_runs s"
proof -
  have "\<exists>alive. spawns alive s (sv_step s i)"
  proof (cases i)
    case (InMsg env m)
    show ?thesis unfolding InMsg sv_step.simps by (rule exI) (rule msg_spawns [OF sv_good_inv [OF assms]])
  next
    case (InTimer env)
    show ?thesis unfolding InTimer sv_step.simps by (rule exI) (rule timer_spawns)
  qed
  then obtain alive where "spawns alive s (sv_step s i)" ..
  then have "sv_runs (sv_step s i) = sv_runs s \<or> \<not> sv_stopping s \<and> sv_runs (sv_step s i) = sv_runs s + 1"
    unfolding spawns_def by blast
  then show "sv_runs s \<le> sv_runs (sv_step s i)" "sv_stopping s \<Longrightarrow> sv_runs (sv_step s i) = sv_runs s"
    by linarith+
qed

lemma run_closing:
  assumes "sv_good s" "sv_stopping s"
  shows "sv_runs (sv_run ins s) = sv_runs s"
  using assms
proof (induction ins arbitrary: s)
  case (Cons i ins)
  have "sv_stopping (sv_step s i)" using Cons.prems(2) step_evolves [of s i] by (simp add: evolves_def)
  with Cons.IH [OF step_good [OF Cons.prems(1)]] step_spawns(2) [OF Cons.prems] show ?case
    by (simp add: sv_run_def)
qed (simp add: sv_run_def)

lemma same_deadline: "same_stop s s' \<Longrightarrow> sv_stop_deadline s' \<in> {sv_stop_deadline s, None}"
  by (simp add: same_stop_def)

lemma finish_deadline: "sv_stop_deadline (finish_stop s) \<in> {sv_stop_deadline s, None}"
  by (simp add: finish_stop_update)

lemma closing_msg:
  assumes "sv_inv s" "sv_stopping s"
  shows "sv_stop_deadline (on_msg env m s) \<in> {sv_stop_deadline s, None}"
proof (cases m)
  case (MsgLine run l)
  have "sv_stop_deadline (on_line env l s) \<in> {sv_stop_deadline s, None}"
    using finish_deadline [of s]
    by (cases l) (simp_all add: on_line_def Let_def same_deadline same_stop_simps del: insert_iff)
  then show ?thesis by (simp add: MsgLine on_msg_def)
next
  case (MsgExited run)
  show ?thesis using same_deadline [OF same_stop_exited [OF assms(1)]] by (simp add: MsgExited on_msg_def)
qed (use assms(2) in \<open>simp_all add: on_msg_def on_command_def on_restart_def on_shutdown_def
      on_helper_gone_def finish_stop_update\<close>)

lemma closing_timer: "sv_stop_deadline (on_timer env s) \<in> {sv_stop_deadline s, None}"
proof (cases rule: on_timer_cases [of s env])
  case restart
  show ?thesis
    unfolding restart(4) using same_stop_launch [of "s\<lparr>sv_restart_at := None\<rparr>" env] by (simp add: same_stop_def)
next
  case (hello lk)
  then show ?thesis using same_deadline [OF same_stop_ended] by simp
next
  case (drain lk)
  then show ?thesis using same_deadline [OF same_stop_ended] finish_deadline by (simp add: on_helper_gone_def)
qed (simp_all add: finish_stop_update stop_for_update)

lemma run_deadline:
  assumes "sv_good s" "sv_stopping s"
  shows "sv_stop_deadline (sv_run ins s) \<in> {sv_stop_deadline s, None}"
  using assms
proof (induction ins arbitrary: s)
  case (Cons i ins)
  have "sv_stop_deadline (sv_step s i) \<in> {sv_stop_deadline s, None}"
    using closing_msg [OF sv_good_inv] Cons.prems closing_timer by (cases i) simp_all
  moreover have "sv_stopping (sv_step s i)" using Cons.prems(2) step_evolves [of s i] by (simp add: evolves_def)
  moreover note Cons.IH [OF step_good [OF Cons.prems(1)] this]
  ultimately show ?case by (auto simp: sv_run_def)
qed (simp add: sv_run_def)

lemma stopped_sent:
  assumes "sv_good s" "sv_stopping s" "sv_stop_deadline s = None"
  shows "EvStopped (sv_protocol s) \<in> set (sv_events s)"
proof -
  have "stops_in (sv_events s) = 1" using assms by (simp add: sv_good_def stop_ok_def)
  then obtain e where e: "e \<in> set (sv_events s)" "is_stopped e"
    by (metis filter_empty_conv length_0_conv zero_neq_one)
  from e(2) obtain q where q: "e = EvStopped q" by (cases e) simp_all
  have "own_event (sv_protocol s) e" using assms(1) e(1) by (simp add: sv_good_def ev_ok_def list_all_iff)
  with e(1) q show ?thesis by (simp add: own_event_def)
qed

lemma shutdown_ends:
  assumes "sv_good s" "\<not> sv_stopping s" "en_now env + ht_stop_wait (sv_timing s) \<le> en_now late"
  shows "EvStopped (sv_protocol s) \<in> set (sv_events (on_timer late (sv_run ins (on_shutdown env s))))"
proof -
  define t where "t = on_shutdown env s"
  define u where "u = sv_run ins t"
  have t: "sv_good t" using step_good [OF assms(1), of "InMsg env MsgShutdown"] by (simp add: t_def on_msg_def)
  have "sv_stopping t \<and> sv_stop_deadline t \<in> {None, Some (en_now env + ht_stop_wait (sv_timing s))}"
    unfolding t_def using assms(2) by (cases rule: on_shutdown_cases [of s env]) simp_all
  then have ts: "sv_stopping t" and td: "sv_stop_deadline t \<in> {None, Some (en_now env + ht_stop_wait (sv_timing s))}"
    by simp_all
  have p: "sv_protocol u = sv_protocol s" "sv_protocol (on_timer late u) = sv_protocol s"
    using evolves_timing [OF run_evolves [of t ins]] evolves_timing [OF on_shutdown_evolves [of s env]]
      evolves_timing [OF on_timer_evolves [of u late]] by (simp_all add: u_def t_def)
  have u: "sv_good (on_timer late u)" "sv_stopping (on_timer late u)" "sv_stopping u"
    using step_good [OF run_good [OF t, of ins], of "InTimer late"] run_evolves [of t ins]
      on_timer_evolves [of u late] ts by (simp_all add: u_def evolves_def)
  have "sv_stop_deadline u \<in> {None, Some (en_now env + ht_stop_wait (sv_timing s))}"
    using run_deadline [OF t ts, of ins] td by (auto simp: u_def)
  then have "sv_stop_deadline (on_timer late u) = None"
  proof
    assume "sv_stop_deadline u = None"
    then show ?thesis using closing_timer [of late u] by simp
  next
    assume "sv_stop_deadline u \<in> {Some (en_now env + ht_stop_wait (sv_timing s))}"
    then have "due (sv_stop_deadline u) (en_now late)" using assms(3) by (simp add: due_def)
    then show ?thesis by (simp add: on_timer_def Let_def finish_stop_update)
  qed
  from stopped_sent [OF u(1,2) this] have "EvStopped (sv_protocol s) \<in> set (sv_events (on_timer late u))"
    by (simp only: p)
  then show ?thesis by (simp only: u_def t_def)
qed

section \<open>Sends, phones, acks and a given-up link\<close>

lemma command_send_known:
  assumes "idle_ok s" "\<not> sv_stopping s" "command_to_wire (sv_protocol s) c (en_phone env) = Some w"
    "send_key w = Some (r, chat)"
  shows "\<exists>evs. sv_events (on_command env c s) = sv_events s @ evs \<and>
    (open_send r (on_command env c s) \<or> send_done (sv_protocol s) r evs)"
proof -
  have w: "\<not> is_begin_link w" "\<not> gives_up w" "\<not> in_replay w" "w \<noteq> WAcknowledgeGate" "\<And>g ph. w \<noteq> WBeginLink g ph"
    using assms(4) by (cases w; simp)+
  have answered_now: "send_done p r (answer_events w t)" if "sv_protocol t = p" for t p
    using assms(4) that by (cases w) auto
  show ?thesis
  proof (cases rule: on_command_cases [of s c env])
    case (requested v)
    then have v: "v = w" using assms(3) by simp
    define t where "t = s\<lparr>sv_replay := replay_note w (sv_replay s)\<rparr>"
    have t: "sv_events t = sv_events s" "sv_protocol t = sv_protocol s" "sv_link t \<noteq> None"
      using requested(3) by (simp_all add: t_def)
    have o: "open_send r (note_send w t)" using assms(4) by (simp add: open_send_def note_send_def dom_update)
    have "\<exists>evs. sv_events (request env w t) = sv_events s @ evs \<and>
        (open_send r (request env w t) \<or> send_done (sv_protocol s) r evs)"
    proof (cases rule: request_cases [of t env w])
      case (answered lk)
      have "sv_protocol (take_id (note_send w t)) = sv_protocol s" by (simp add: take_id_def t)
      from answered_now [OF this] show ?thesis using w(2)
        by (simp add: answered answer_without_helper_update) (simp add: take_id_def t)
    qed (use o t w(1) in \<open>simp_all add: take_id_def open_send_def\<close>)
    then show ?thesis by (simp only: requested(4) v t_def)
  next
    case (answered v)
    then have "v = w" using assms(3) by simp
    with answered(5) w(2) answered_now [of "s\<lparr>sv_replay := replay_note w (sv_replay s)\<rparr>", OF refl] show ?thesis
      by (simp add: answer_without_helper_update)
  qed (use assms(2,3) w(4,5) in auto)
qed

lemma evolves_send:
  assumes "evolves s s'" "open_send r s"
  shows "open_send r s' \<or> send_done (sv_protocol s) r (drop (length (sv_events s)) (sv_events s'))"
  using assms by (auto simp: evolves_def)

lemma send_settled:
  assumes "sv_good s" "\<not> sv_stopping s"
    "command_to_wire (sv_protocol s) c (en_phone env) = Some w" "send_key w = Some (r, chat)"
    "t = sv_run (InMsg env (MsgCommand c) # ins) s"
  shows "(open_send r t \<and> sv_link t \<noteq> None) \<or>
    send_done (sv_protocol s) r (drop (length (sv_events s)) (sv_events t))"
proof -
  define u where "u = on_command env c s"
  obtain evs where evs: "sv_events u = sv_events s @ evs"
    and u: "open_send r u \<or> send_done (sv_protocol s) r evs"
    using command_send_known [OF _ assms(2,3,4)] assms(1) by (auto simp: u_def sv_good_def)
  have tu: "t = sv_run ins u" by (simp add: assms(5) u_def sv_run_def on_msg_def)
  have e: "evolves u t" unfolding tu by (rule run_evolves)
  have p: "sv_protocol u = sv_protocol s" unfolding u_def using on_command_evolves [of s env c]
    by (simp add: evolves_def)
  obtain more' where more': "sv_events t = sv_events s @ evs @ more'"
    and keep: "open_send r u \<longrightarrow> open_send r t \<or> send_done (sv_protocol s) r more'"
    using e evs by (auto simp: evolves_def p)
  have "sv_good t" unfolding assms(5) by (rule run_good [OF assms(1)])
  then have "open_send r t \<Longrightarrow> sv_link t \<noteq> None" by (auto simp: sv_good_def idle_ok_def open_send_def)
  with u keep show ?thesis by (auto simp: more')
qed

lemma run_phones:
  "sv_good s \<Longrightarrow> phones (sv_run ins s) \<le> phones s +
     length (filter (\<lambda>i. case i of InMsg env m \<Rightarrow> gives_phone env m | InTimer _ \<Rightarrow> False) ins)"
proof (induction ins arbitrary: s)
  case (Cons i ins)
  have "phones (sv_step s i) \<le> phones s +
      of_bool (case i of InMsg env m \<Rightarrow> gives_phone env m | InTimer _ \<Rightarrow> False)"
    using phones_msg [OF sv_good_inv [OF Cons.prems]] phones_timer by (cases i) simp_all
  moreover note Cons.IH [OF step_good [OF Cons.prems], of i]
  ultimately show ?case by (auto simp: sv_run_def)
qed (simp add: sv_run_def)

lemma disconnect_held:
  assumes "sv_link s = Some lk" "\<not> lk_greeted lk" "\<not> sv_stopping s"
  shows "on_command env (CmdDisconnect (sv_protocol s)) s = s\<lparr>sv_replay := no_replay,
    sv_link := Some (lk\<lparr>lk_held := filter (\<lambda>c. \<not> is_begin_link c) (lk_held lk) @ [WDisconnect]\<rparr>)\<rparr>"
  using assms by (simp add: on_command_def command_to_wire_def request_def)

lemma answer_held_append: "answer_held s (xs @ ys) = answer_held (answer_held s xs) ys"
  by (simp add: answer_held_def)

lemma unlinked_after_cancel:
  assumes "sv_link s = Some lk" "\<not> lk_greeted lk" "lk_held lk = xs @ [WDisconnect]"
  shows "sv_wake_link (unlinked_state lk s) = None" "sv_replay (unlinked_state lk s) = sv_replay s"
  using assms by (simp_all add: unlinked_state_def reject_open_sends_update end_unsent_update
      last_pairing_def answer_held_append) (simp_all add: answer_held_def updates)

text \<open>After a log out the end of the helper starts nothing again.\<close>

definition link_given_up :: "supervisor \<Rightarrow> bool" where
  "link_given_up s \<longleftrightarrow> sv_link s = None \<and> sv_restart_at s = None \<and> \<not> sv_start_waits s \<and>
     sv_wake_link s = None \<and> replay_is_empty (sv_replay s) \<and> sv_account s = Unlinked"

lemma ended_idle:
  assumes "sv_link s = Some lk" "sv_inv s" "sv_wake_link (unlinked_state lk s) = None"
    "replay_is_empty (sv_replay (unlinked_state lk s))"
  shows "link_given_up (helper_ended env s)"
  using unlinked_state_inv [OF assms(2,1)] assms(3,4)
  by (simp add: helper_ended_eq [OF assms(1)] Let_def go_idle_def link_given_up_def)

lemma disconnect_gives_up:
  assumes "sv_good s" "\<not> sv_stopping s"
  shows "link_given_up (let t = on_command env (CmdDisconnect (sv_protocol s)) s in
    if sv_link t = None then t else helper_ended env' t)"
proof -
  define t where "t = on_command env (CmdDisconnect (sv_protocol s)) s"
  have c: "command_to_wire (sv_protocol s) (CmdDisconnect (sv_protocol s)) ph = Some WDisconnect" for ph
    by (simp add: command_to_wire_def)
  have t: "sv_inv t" using assms(1) on_command_inv by (simp add: t_def sv_good_def)
  have e: "replay_is_empty no_replay" by (simp add: replay_is_empty_def no_replay_def)
  show ?thesis
  proof (cases "sv_link s")
    case None
    then have "t = give_up_link (s\<lparr>sv_replay := no_replay\<rparr>)"
      using assms(2) by (simp add: t_def on_command_def c)
    then have "link_given_up t" "sv_link t = None" using None e by (simp_all add: give_up_link_update link_given_up_def)
    then show ?thesis by (simp add: t_def [symmetric] Let_def)
  next
    case (Some lk)
    define s1 where "s1 = s\<lparr>sv_replay := no_replay\<rparr>"
    have t1: "t = request env WDisconnect s1" using assms(2) Some by (simp add: t_def on_command_def c s1_def)
    have "\<exists>lk'. sv_link t = Some lk' \<and> sv_wake_link (unlinked_state lk' t) = None \<and>
        sv_replay (unlinked_state lk' t) = no_replay"
    proof (cases "lk_greeted lk")
      case False
      note th = disconnect_held [OF Some False assms(2), of env, folded t_def]
      then show ?thesis using unlinked_after_cancel [of t] False by simp
    next
      case True
      have g: "sv_wake_link (unlinked_state lk' u) = sv_wake_link u" "sv_replay (unlinked_state lk' u) = sv_replay u"
        if "lk_greeted lk'" for lk' u
        using that by (simp_all add: unlinked_state_def reject_open_sends_update end_unsent_update
            last_pairing_def answer_held_def)
      obtain lk' where lk': "sv_link t = Some lk'" "lk_greeted lk'" "sv_replay t = no_replay"
        using True Some unfolding t1
        by (cases rule: request_cases [of s1 env WDisconnect])
          (auto simp: s1_def take_id_def give_up_link_update)
      have "sv_wake_link t = None" using t lk'(1) by (simp add: sv_inv_def link_inv_def)
      with lk' g [OF lk'(2), of t] show ?thesis by auto
    qed
    then obtain lk' where "sv_link t = Some lk'" "sv_wake_link (unlinked_state lk' t) = None"
        "sv_replay (unlinked_state lk' t) = no_replay" by blast
    with ended_idle [OF _ t] e show ?thesis by (simp add: t_def [symmetric] Let_def)
  qed
qed

section \<open>A run to look at\<close>

definition demo_env :: "instant \<Rightarrow> helper_env" where
  "demo_env now = \<lparr>en_now = now, en_installed = True, en_launch = True, en_phone = Some ''+15550100'',
     en_json = (\<lambda>_. Inr ''{}'')\<rparr>"

definition demo_adapter :: helper_adapter where
  "demo_adapter = \<lparr>ha_protocol = primary WhatsApp,
     ha_capabilities = \<lparr>cap_id = primary WhatsApp, cap_support = Experimental, cap_short_label = ''WA'',
       cap_detail = ''experimental'', cap_official_api = False, cap_automation = True, cap_sends_text = True,
       cap_pages_history = True, cap_sends_media = True,
       cap_actions = \<lparr>act_reply = True, act_react = True, act_delete_for_me = True,
         act_delete_for_everyone = True, act_one_reaction = True, act_edit = False\<rparr>\<rparr>,
     ha_timing = APP, ha_supervisor = None\<rparr>"

definition demo_start :: supervisor where
  "demo_start = new_supervisor (primary WhatsApp) WireWhatsApp APP
     [EvStatus (primary WhatsApp) Stubbed ''experimental'']"

lemma demo_started: "started (demo_env 0) demo_adapter = Some demo_start"
  by (simp add: started_def ha_start_def demo_adapter_def demo_env_def demo_start_def wire_protocol_of_def
      primary_def emit_status_def Let_def)

lemma demo_timing: "0 < ht_max_failures (ha_timing demo_adapter)" "waits_positive (ha_timing demo_adapter)"
  by (simp_all add: demo_adapter_def APP_def waits_positive_def)

lemmas demo_eval = demo_start_def new_supervisor_def sv_run_def on_msg_def on_command_def
  command_to_wire_def launch_def start_commands_def no_replay_def demo_env_def primary_def
  on_line_def on_hello_def is_current_def request_def encode_line_def encode_def MAX_LINE_BYTES_def
  PROTOCOL_VERSION_def APP_def on_shutdown_def Let_def sv_emit_def

section \<open>Properties\<close>

text \<open>C1: At most one helper process of a protocol runs: in every state that the supervisor, its queue,
  its processes, the user and the clock can reach, the running processes are at most the one that
  was started last, also across kills, crashes and restarts.\<close>

theorem one_helper_process:
  assumes "world_reach a w" "0 < ht_max_failures (ha_timing a)"
  shows "w_procs w \<subseteq> {sv_runs (w_sv w)} \<and> card (w_procs w) \<le> 1"
proof -
  have "world_ok w" using assms by (rule world_reach_ok)
  then have "w_procs w \<subseteq> {sv_runs (w_sv w)}"
    by (auto simp: world_ok_def sv_good_def sv_inv_def)
  moreover from card_mono [OF _ this] have "card (w_procs w) \<le> 1" by simp
  ultimately show ?thesis ..
qed

theorem one_helper_process_witness:
  "\<exists>w. world_reach demo_adapter w \<and> w_procs w = {1} \<and> card (w_procs w) \<le> 1"
proof -
  let ?w0 = "\<lparr>w_sv = demo_start, w_queue = [], w_procs = {}\<rparr>"
  let ?w1 = "?w0\<lparr>w_queue := w_queue ?w0 @ [MsgCommand CmdWhatsAppAcknowledgeRisk]\<rparr>"
  let ?w2 = "after_step (on_msg (demo_env 0) (MsgCommand CmdWhatsAppAcknowledgeRisk) (w_sv ?w1))
      (?w1\<lparr>w_queue := []\<rparr>)"
  have "world_reach demo_adapter ?w0" by (rule wr_start [OF demo_started])
  moreover have "world_step ?w0 ?w1" by (rule ws_enqueue) simp
  moreover have "world_step ?w1 ?w2" by (rule ws_deliver) simp
  ultimately have "world_reach demo_adapter ?w2" by (blast intro: wr_step)
  moreover from one_helper_process [OF this demo_timing(1)] have "card (w_procs ?w2) \<le> 1" by blast
  moreover have "w_procs ?w2 = {1}" by (auto simp: after_step_def demo_eval)
  ultimately show ?thesis by blast
qed

text \<open>C9: In every run the supervisor's state is consistent: a link excludes a pending start, a start waits
  only while the old process is alive, a pending start means that tries are left, requests without
  an \<open>Ack\<close> have increasing ids below the next one, and no send is open without a helper.\<close>

theorem supervisor_consistent:
  assumes "started env a = Some s" "0 < ht_max_failures (ha_timing a)"
  shows "sv_inv (sv_run ins s) \<and> idle_ok (sv_run ins s)"
  using run_good [OF started_good [OF assms]] by (simp add: sv_good_def)

theorem supervisor_consistent_witness:
  "sv_inv (sv_run [InMsg (demo_env 0) (MsgCommand CmdWhatsAppAcknowledgeRisk),
     InMsg (demo_env 5) (MsgExited 1), InTimer (demo_env 1005)] demo_start)"
  using supervisor_consistent [OF demo_started demo_timing(1)] by blast

text \<open>C3: Every send or retry that the supervisor takes before the app closes is answered: later it is
  still open with a helper behind it, or an accept, a reject or the end of the protocol was sent for
  it. A crash, a kill, a version mismatch or a log out never loses one.\<close>

theorem sends_answered:
  assumes "started env0 a = Some s0" "0 < ht_max_failures (ha_timing a)" "s = sv_run before s0"
    "\<not> sv_stopping s" "command_to_wire (sv_protocol s) c (en_phone env) = Some w"
    "send_key w = Some (r, chat)" "t = sv_run (InMsg env (MsgCommand c) # ins) s"
  shows "(open_send r t \<and> sv_link t \<noteq> None) \<or>
    send_done (sv_protocol s) r (drop (length (sv_events s)) (sv_events t))"
  by (rule send_settled [OF _ assms(4-7)]) (simp add: assms(3) run_good started_good [OF assms(1,2)])

theorem sends_answered_witness:
  "send_done (primary WhatsApp) 7 (drop 1 (sv_events (sv_run
     [InMsg (demo_env 0) (MsgCommand (CmdSendText (primary WhatsApp) ''c'' ''hi'' 7 None))] demo_start)))"
proof -
  have n: "sv_run [] demo_start = demo_start" by (simp add: sv_run_def)
  have "sv_link (sv_run [InMsg (demo_env 0) (MsgCommand (CmdSendText (primary WhatsApp) ''c'' ''hi'' 7 None))]
      demo_start) = None"
    by (simp add: demo_eval)
  then show ?thesis
    using sends_answered [OF demo_started demo_timing(1) n [symmetric], of "CmdSendText (primary WhatsApp) ''c'' ''hi'' 7 None"
        "demo_env 0" "WSendText ''c'' ''hi'' 7 None" 7 "''c''" _ "[]"]
    by (simp add: demo_start_def new_supervisor_def command_to_wire_def)
qed

text \<open>C2: A phone number crosses the pipe at most once per pairing start of the user: in every run the
  lines with a number are at most as many as the pairing commands that read one from the vault. A
  replay after a restart never carries it.\<close>

theorem phone_crosses_once:
  assumes "started env a = Some s" "0 < ht_max_failures (ha_timing a)"
  shows "phones_sent (sv_run ins s) \<le>
    length (filter (\<lambda>i. case i of InMsg e m \<Rightarrow> gives_phone e m | InTimer _ \<Rightarrow> False) ins)"
proof -
  have "phones s = 0" using started_fields [OF assms(1)] by (simp add: phones_def phones_sent_def)
  with run_phones [OF started_good [OF assms], of ins] phones_sent_le [of "sv_run ins s"] show ?thesis
    by simp
qed

definition demo_pairing :: "sv_input list" where
  "demo_pairing = [InMsg (demo_env 0) (MsgCommand (CmdWhatsAppBeginLink 3)),
     InMsg (demo_env 1) (MsgLine 1 (Hello 6 ''1'' [WireWhatsApp])),
     InMsg (demo_env 2) (MsgEnded 1 Closed), InMsg (demo_env 3) (MsgExited 1),
     InTimer (demo_env 1002), InMsg (demo_env 1003) (MsgLine 2 (Hello 6 ''1'' [WireWhatsApp]))]"

theorem phone_crosses_once_witness: "phones_sent (sv_run demo_pairing demo_start) \<le> 1"
  using phone_crosses_once [OF demo_started demo_timing(1), of demo_pairing]
  by (simp add: demo_pairing_def demo_env_def)

text \<open>C10: After \<open>Shutdown\<close> the protocol ends exactly once and in time: \<open>Stopped\<close> is sent once the stop
  wait is over at the latest, whatever the helper does, never twice, and no helper starts any more.\<close>

theorem shutdown_stops_once:
  assumes "started env0 a = Some s0" "0 < ht_max_failures (ha_timing a)" "s = sv_run before s0"
    "\<not> sv_stopping s" "t = sv_run ins (on_shutdown env s)"
    "en_now env + ht_stop_wait (sv_timing s) \<le> en_now late"
  shows "EvStopped (sv_protocol s) \<in> set (sv_events (on_timer late t)) \<and>
    stops_in (sv_events t) \<le> 1 \<and> sv_runs t = sv_runs s"
proof -
  have s: "sv_good s" by (simp add: assms(3) run_good started_good [OF assms(1,2)])
  define u where "u = on_shutdown env s"
  have u: "sv_good u" using step_good [OF s, of "InMsg env MsgShutdown"] by (simp add: u_def on_msg_def)
  have us: "sv_stopping u \<and> sv_runs u = sv_runs s"
    using assms(4) unfolding u_def by (cases rule: on_shutdown_cases [of s env]) simp_all
  have "sv_good t" unfolding assms(5) by (rule run_good) (use u in \<open>simp add: u_def\<close>)
  then have "stops_in (sv_events t) \<le> 1" by (simp add: sv_good_def stop_ok_def)
  moreover have "sv_runs t = sv_runs s"
    unfolding assms(5) using run_closing [OF u, of ins] us by (simp add: u_def)
  ultimately show ?thesis using shutdown_ends [OF s assms(4,6), of ins] by (simp add: assms(5))
qed

theorem shutdown_stops_once_witness:
  "EvStopped (primary WhatsApp) \<in> set (sv_events (on_timer (demo_env 9000)
     (sv_run [] (on_shutdown (demo_env 10) (sv_run
       [InMsg (demo_env 0) (MsgCommand CmdWhatsAppAcknowledgeRisk)] demo_start)))))"
proof -
  let ?s = "sv_run [InMsg (demo_env 0) (MsgCommand CmdWhatsAppAcknowledgeRisk)] demo_start"
  have s: "sv_stopping ?s = False" "sv_protocol ?s = primary WhatsApp" "ht_stop_wait (sv_timing ?s) = 4750"
    by (simp_all add: demo_eval HELPER_STOP_WAIT_def APP_CLOSE_LIMIT_def)
  from shutdown_stops_once [OF demo_started demo_timing(1) refl _ refl, of
      "[InMsg (demo_env 0) (MsgCommand CmdWhatsAppAcknowledgeRisk)]" "demo_env 10" "demo_env 9000" "[]"]
  show ?thesis using s by (simp add: demo_env_def)
qed

text \<open>The timer never spins: when a deadline is due, the wake handles it and leaves strictly fewer due
  deadlines behind, in every run, for the waits of the app.\<close>

theorem timer_progress:
  assumes "started env0 a = Some s0" "0 < ht_max_failures (ha_timing a)" "waits_positive (ha_timing a)"
    "s = sv_run ins s0" "next_deadline s = Some d" "d \<le> en_now env"
  shows "due_count (en_now env) (on_timer env s) < due_count (en_now env) s"
proof -
  have s: "sv_inv s" by (simp add: assms(4) sv_good_inv [OF run_good [OF started_good [OF assms(1,2)]]])
  have "sv_timing s = ha_timing a"
    using evolves_timing [OF run_evolves [of s0 ins]] started_fields(2) [OF assms(1)] by (simp add: assms(4))
  moreover have "0 < due_count (en_now env) s"
    using assms(5,6) by (simp add: next_deadline_due [symmetric])
  ultimately show ?thesis using timer_dues [OF _ s, of env] assms(3) by simp
qed

theorem timer_progress_witness:
  "due_count 20000 (on_timer (demo_env 20000)
     (sv_run [InMsg (demo_env 0) (MsgCommand CmdWhatsAppAcknowledgeRisk)] demo_start))
   < due_count 20000 (sv_run [InMsg (demo_env 0) (MsgCommand CmdWhatsAppAcknowledgeRisk)] demo_start)"
proof -
  have "next_deadline (sv_run [InMsg (demo_env 0) (MsgCommand CmdWhatsAppAcknowledgeRisk)] demo_start) = Some 10000"
    by (simp add: demo_eval next_deadline_def deadlines_def hello_due_at_def busy_due_at_def map_filter_def)
  from timer_progress [OF demo_started demo_timing refl this, of "demo_env 20000"] show ?thesis
    by (simp add: demo_env_def)
qed

text \<open>In every run the supervisor sends events of its own protocol only, reports a helper state only
  when it differs from the last one, and remembers the one it reported last.\<close>

theorem own_events_only:
  assumes "started env a = Some s" "0 < ht_max_failures (ha_timing a)"
  shows "ev_ok (ha_protocol a) (sv_events (sv_run ins s)) (sv_reported (sv_run ins s))"
  using run_good [OF started_good [OF assms], of ins] evolves_timing [OF run_evolves [of s ins]]
    started_fields(1) [OF assms(1)] by (simp add: sv_good_def)

theorem own_events_only_witness:
  "ev_ok (primary WhatsApp) (sv_events (sv_run demo_pairing demo_start)) (sv_reported (sv_run demo_pairing demo_start))"
  using own_events_only [OF demo_started demo_timing(1), of demo_pairing] by (simp add: demo_adapter_def)

text \<open>A log out ends the link for good: after \<open>Disconnect\<close>, with no helper at once and with one when it
  ends, nothing is left to start again, no pairing is replayed and the account is unlinked.\<close>

theorem disconnect_final:
  assumes "started env0 a = Some s0" "0 < ht_max_failures (ha_timing a)" "s = sv_run ins s0"
    "\<not> sv_stopping s"
  shows "link_given_up (let t = on_command env (CmdDisconnect (sv_protocol s)) s in
    if sv_link t = None then t else helper_ended env' t)"
  by (rule disconnect_gives_up [OF _ assms(4)]) (simp add: assms(3) run_good started_good [OF assms(1,2)])

theorem disconnect_final_witness:
  "link_given_up (let t = on_command (demo_env 5) (CmdDisconnect (primary WhatsApp))
       (sv_run [InMsg (demo_env 0) (MsgCommand (CmdWhatsAppBeginLink 3))] demo_start)
     in if sv_link t = None then t else helper_ended (demo_env 6) t)"
proof -
  let ?s = "sv_run [InMsg (demo_env 0) (MsgCommand (CmdWhatsAppBeginLink 3))] demo_start"
  have "\<not> sv_stopping ?s" "sv_protocol ?s = primary WhatsApp" by (simp_all add: demo_eval)
  with disconnect_final [OF demo_started demo_timing(1) refl, of
      "[InMsg (demo_env 0) (MsgCommand (CmdWhatsAppBeginLink 3))]" "demo_env 5" "demo_env 6"]
  show ?thesis by simp
qed

text \<open>An \<open>Ack\<close> takes exactly the requests up to its id off the list, in every run.\<close>

theorem ack_drops_prefix:
  assumes "started env0 a = Some s0" "0 < ht_max_failures (ha_timing a)" "s = sv_run ins s0"
    "sv_link s = Some lk" "sv_link (on_ack env i s) = Some lk'"
  shows "lk_unacked lk' = filter (\<lambda>(sent, _). i < sent) (lk_unacked lk)"
proof -
  have "sv_inv s" by (simp add: assms(3) sv_good_inv [OF run_good [OF started_good [OF assms(1,2)]]])
  then have "sorted_wrt (<) (map fst (lk_unacked lk))" using assms(4) by (simp add: sv_inv_def link_inv_def)
  moreover have "lk' = acked i lk"
    using assms(5) by (simp add: on_ack_update [OF assms(4)] split: if_splits)
  ultimately show ?thesis by (simp add: acked_filter)
qed

definition demo_up :: "sv_input list" where
  "demo_up = [InMsg (demo_env 0) (MsgCommand CmdWhatsAppAcknowledgeRisk),
     InMsg (demo_env 1) (MsgLine 1 (Hello 6 ''1'' [WireWhatsApp]))]"

theorem ack_drops_prefix_witness:
  "lk_unacked (acked 1 \<lparr>lk_run = 1, lk_started = 0, lk_greeted = True, lk_hello_deadline = 10000,
     lk_held = [], lk_unacked = [(1, 1)], lk_drain_deadline = None\<rparr>) = []"
proof -
  let ?lk = "\<lparr>lk_run = 1, lk_started = 0, lk_greeted = True, lk_hello_deadline = 10000,
     lk_held = [], lk_unacked = [(1::nat, 1::nat)], lk_drain_deadline = None\<rparr>"
  have l: "sv_link (sv_run demo_up demo_start) = Some ?lk"
    by (simp add: demo_up_def demo_eval)
  have "sv_link (on_ack (demo_env 2) 1 (sv_run demo_up demo_start)) = Some (acked 1 ?lk)"
    by (simp add: on_ack_update [OF l])
  from ack_drops_prefix [OF demo_started demo_timing(1) refl l this] show ?thesis by simp
qed

text \<open>The wait before a restart doubles with every failure in a row from the base wait, never
  shrinks, never passes the limit, and for the app is 1, 2, 4 and 8 seconds before it gives up.\<close>

theorem backoff_doubles:
  "backoff tm n \<le> ht_restart_max tm \<and> backoff tm n \<le> backoff tm (n + 1) \<and>
   backoff tm (n + 1) \<le> 2 * backoff tm n \<and>
   map (backoff APP) [1, 2, 3, 4] = [1000, 2000, 4000, 8000]"
proof -
  define x where "x = ht_restart_base tm * 2 ^ min (n - 1) 16"
  define y where "y = ht_restart_base tm * 2 ^ min n 16"
  have "(2::nat) ^ min (n - 1) 16 \<le> 2 ^ min n 16" by (rule power_increasing) auto
  then have xy: "x \<le> y" unfolding x_def y_def by (rule mult_le_mono2)
  have "(2::nat) ^ min n 16 \<le> 2 * 2 ^ min (n - 1) 16"
  proof (cases n)
    case (Suc m)
    have "(2::nat) ^ min (Suc m) 16 \<le> 2 ^ Suc (min m 16)" by (rule power_increasing) auto
    then show ?thesis using Suc by simp
  qed simp
  then have "y \<le> ht_restart_base tm * (2 * 2 ^ min (n - 1) 16)" unfolding y_def by (rule mult_le_mono2)
  then have yx: "y \<le> 2 * x" by (simp only: x_def mult.left_commute)
  have "backoff tm n = min x (ht_restart_max tm)" "backoff tm (n + 1) = min y (ht_restart_max tm)"
    by (simp_all add: backoff_def x_def y_def)
  with xy yx have "backoff tm n \<le> ht_restart_max tm" "backoff tm n \<le> backoff tm (n + 1)"
    "backoff tm (n + 1) \<le> 2 * backoff tm n" by (simp_all add: min_def)
  moreover have "map (backoff APP) [1, 2, 3, 4] = [1000, 2000, 4000, 8000]"
    by (simp add: backoff_def APP_def)
  ultimately show ?thesis by blast
qed

text \<open>While the app closes, a line of the helper out of place still takes the restart path: the row
  reports a restart that never comes, and \<open>Stopped\<close> waits for the stop deadline though the
  process is gone.\<close>

theorem closing_reports_restart:
  "let t = sv_run (demo_up @ [InMsg (demo_env 2) MsgShutdown,
         InMsg (demo_env 3) (MsgLine 1 (Hello 6 ''1'' [WireWhatsApp]))]) demo_start
   in sv_stopping t \<and> sv_link t = None \<and> sv_reported t = Some HRestarting \<and>
      sv_restart_at t \<noteq> None \<and> stops_in (sv_events t) = 0 \<and> sv_stop_deadline t = Some 4752"
  by (simp add: demo_up_def demo_eval helper_ended_def end_unsent_def reject_open_sends_def
      replay_is_empty_def HELPER_STOP_WAIT_def APP_CLOSE_LIMIT_def backoff_def emit_notice_def
      helper_event_def)

end
