(* ===== verification/Adapters.thy ===== *)
theory Adapters
  imports Supervisor_Props
begin

text \<open>
  The trait \<open>ProtocolAdapter\<close> (\<open>crates/thinwire-protocol/src/adapter.rs\<close>) as a record of
  operations and the contract its users rely on as a locale; the feature-off adapters of
  WhatsApp and Signal (\<open>whatsapp.rs\<close>, \<open>signal.rs\<close>), the phone vault, and the chat ids of
  previous Signal accounts. An operation gets an empty channel and returns what it sent: an
  adapter only appends to its channel. \<open>ad_handle\<close> also gets what the phone vault holds.
\<close>

section \<open>The trait\<close>

record 'a adapter_ops =
  ad_id :: "'a \<Rightarrow> protocol_id"
  ad_start :: "'a \<Rightarrow> 'a \<times> events"
  ad_handle :: "string option \<Rightarrow> adapter_command \<Rightarrow> 'a \<Rightarrow> adapter_error option \<times> 'a \<times> events"
  ad_shutdown :: "'a \<Rightarrow> 'a \<times> events"
  ad_view_chat :: "string option \<Rightarrow> 'a \<Rightarrow> 'a \<times> events"
  ad_view_topic :: "string \<Rightarrow> message_topic \<Rightarrow> 'a \<Rightarrow> 'a \<times> events"

text \<open>The provided methods: an adapter that tracks no read state ignores the viewed chat, and a
  topic counts as its chat.\<close>

definition default_view_chat :: "string option \<Rightarrow> 'a \<Rightarrow> 'a \<times> events" where
  "default_view_chat chat a = (a, [])"

definition default_view_topic ::
    "(string option \<Rightarrow> 'a \<Rightarrow> 'a \<times> events) \<Rightarrow> string \<Rightarrow> message_topic \<Rightarrow> 'a \<Rightarrow> 'a \<times> events" where
  "default_view_topic view_chat chat topic a = view_chat (Some chat) a"

fun error_protocol :: "adapter_error \<Rightarrow> protocol_id" where
  "error_protocol (ErrRefused p _) = p"
| "error_protocol (ErrUnavailable p _) = p"

fun error_status :: "adapter_error \<Rightarrow> adapter_status" where
  "error_status (ErrRefused _ _) = StRefused"
| "error_status (ErrUnavailable _ _) = StError"

text \<open>What the host and the helper loop rely on: an adapter keeps its id, and its events and its
  errors name that protocol.\<close>

locale protocol_adapter =
  fixes ops :: "'a adapter_ops"
  assumes start_own: "ad_start ops a = (a', evs) \<Longrightarrow>
      ad_id ops a' = ad_id ops a \<and> list_all (own_event (ad_id ops a)) evs"
    and handle_own: "ad_handle ops vault c a = (r, a', evs) \<Longrightarrow>
      ad_id ops a' = ad_id ops a \<and> list_all (own_event (ad_id ops a)) evs \<and>
      pred_option (\<lambda>e. error_protocol e = ad_id ops a) r"
    and shutdown_own: "ad_shutdown ops a = (a', evs) \<Longrightarrow>
      ad_id ops a' = ad_id ops a \<and> list_all (own_event (ad_id ops a)) evs"
    and view_chat_own: "ad_view_chat ops chat a = (a', evs) \<Longrightarrow>
      ad_id ops a' = ad_id ops a \<and> list_all (own_event (ad_id ops a)) evs"
    and view_topic_own: "ad_view_topic ops conv topic a = (a', evs) \<Longrightarrow>
      ad_id ops a' = ad_id ops a \<and> list_all (own_event (ad_id ops a)) evs"

text \<open>An adapter with nothing running says \<open>Stopped\<close> at once.\<close>

locale idle_adapter = protocol_adapter +
  assumes shutdown_stops: "snd (ad_shutdown ops a) = [EvStopped (ad_id ops a)]"

section \<open>The phone vault\<close>

definition vault_set_phone :: "string \<Rightarrow> string option" where
  "vault_set_phone val = (let trimmed = trim val in if trimmed = [] then None else Some trimmed)"

definition vault_clear :: "string option" where
  "vault_clear = None"

section \<open>WhatsApp with its feature off\<close>

definition whatsapp_detail :: string where
  "whatsapp_detail = ''Unofficial Web / linked-device style (whatsapp-rust). Experimental spike is off in this build. Ban risk.''"

definition wa_not_connected :: string where
  "wa_not_connected = ''WhatsApp is not connected. Pass the ban gate and pair a device first.''"

definition wa_gate_required :: string where
  "wa_gate_required = ''WhatsApp pairing is refused until the full-screen ban gate is accepted''"

definition wa_feature_off :: string where
  "wa_feature_off = ''whatsapp-web is off in this build. No QR or pair session is started.''"

datatype whatsapp_adapter = WhatsAppAdapter (risk_acknowledged: bool)

definition wa_unavailable :: "string \<Rightarrow> adapter_error" where
  "wa_unavailable reason = ErrUnavailable (primary WhatsApp) reason"

definition wa_command_failed :: "string option \<Rightarrow> events" where
  "wa_command_failed chat = [EvCommandFailed (primary WhatsApp) chat wa_not_connected]"

definition wa_acknowledge :: "whatsapp_adapter \<Rightarrow> adapter_error option \<times> whatsapp_adapter \<times> events" where
  "wa_acknowledge a = (None, WhatsAppAdapter True,
     emit_status (primary WhatsApp) Stubbed
       ''WhatsApp ban gate accepted. No linked-device session has started.'' [])"

definition wa_begin_link :: "whatsapp_adapter \<Rightarrow> adapter_error option \<times> whatsapp_adapter \<times> events" where
  "wa_begin_link a =
     (if \<not> risk_acknowledged a then (Some (ErrRefused (primary WhatsApp) wa_gate_required), a, [])
      else (Some (wa_unavailable wa_feature_off), a, []))"

definition wa_cancel_link :: "whatsapp_adapter \<Rightarrow> adapter_error option \<times> whatsapp_adapter \<times> events" where
  "wa_cancel_link a = (None, WhatsAppAdapter False,
     emit_status (primary WhatsApp) Stubbed
       ''WhatsApp pairing cancelled. No linked-device session is running.''
       (emit_account (primary WhatsApp) Unlinked []))"

definition wa_handle ::
    "adapter_command \<Rightarrow> whatsapp_adapter \<Rightarrow> adapter_error option \<times> whatsapp_adapter \<times> events" where
  "wa_handle c a =
     (let wa = primary WhatsApp;
          other = (Some (wa_unavailable ''command is not handled by the WhatsApp adapter''), a, [])
      in case c of
        CmdConnect p \<Rightarrow> if p = wa then (None, a, emit_status wa Stubbed whatsapp_detail []) else other
      | CmdLoadChats p \<Rightarrow>
          if p = wa then (None, a, emit_chat_list_loaded wa (wa_command_failed None)) else other
      | CmdOpenChat p chat \<Rightarrow>
          if p = wa then (None, a, emit_history_loaded wa chat (wa_command_failed (Some chat))) else other
      | CmdSendText p chat _ r _ \<Rightarrow> if p = wa then (None, a, emit_send_rejected wa chat r []) else other
      | CmdResendMessage p chat _ r \<Rightarrow> if p = wa then (None, a, emit_send_rejected wa chat r []) else other
      | CmdLoadOlderMessages p chat before _ \<Rightarrow>
          if p = wa then (None, a, emit_older_history_loaded wa chat before False None None []) else other
      | CmdDisconnect p \<Rightarrow> if p = wa then wa_cancel_link a else other
      | CmdWhatsAppCancelLink \<Rightarrow> wa_cancel_link a
      | CmdWhatsAppAcknowledgeRisk \<Rightarrow> wa_acknowledge a
      | CmdWhatsAppBeginLink _ \<Rightarrow> wa_begin_link a
      | _ \<Rightarrow> other)"

definition wa_start :: "whatsapp_adapter \<Rightarrow> whatsapp_adapter \<times> events" where
  "wa_start a = (a, emit_status (primary WhatsApp) Stubbed whatsapp_detail [])"

definition wa_shutdown :: "whatsapp_adapter \<Rightarrow> whatsapp_adapter \<times> events" where
  "wa_shutdown a = (WhatsAppAdapter False, emit_stopped (primary WhatsApp) [])"

definition whatsapp_ops :: "whatsapp_adapter adapter_ops" where
  "whatsapp_ops = \<lparr>ad_id = (\<lambda>_. primary WhatsApp), ad_start = wa_start, ad_handle = (\<lambda>_. wa_handle),
     ad_shutdown = wa_shutdown, ad_view_chat = default_view_chat,
     ad_view_topic = default_view_topic default_view_chat\<rparr>"

section \<open>Signal with its feature off\<close>

definition signal_detail :: string where
  "signal_detail = ''Linked secondary device (presage). The signal-local feature is off in this build. No supported third-party API, expect breakage.''"

definition si_feature_off :: string where
  "si_feature_off = ''signal-local is off in this build. No Signal session is started.''"

definition si_notice_required :: string where
  "si_notice_required = ''Signal linking is refused until the full-screen Signal notice is accepted''"

datatype signal_adapter = SignalAdapter (notice_accepted: bool)

definition si_acknowledge :: "signal_adapter \<Rightarrow> adapter_error option \<times> signal_adapter \<times> events" where
  "si_acknowledge a = (None, SignalAdapter True,
     emit_status (primary Signal) Stubbed ''Signal notice accepted. No session has started.'' [])"

definition si_begin_link :: "signal_adapter \<Rightarrow> adapter_error option \<times> signal_adapter \<times> events" where
  "si_begin_link a =
     (if \<not> notice_accepted a then (Some (ErrRefused (primary Signal) si_notice_required), a, [])
      else (Some (ErrUnavailable (primary Signal) si_feature_off), a, []))"

definition si_cancel_link :: "signal_adapter \<Rightarrow> adapter_error option \<times> signal_adapter \<times> events" where
  "si_cancel_link a = (None, SignalAdapter False,
     emit_status (primary Signal) Stubbed ''Signal linking cancelled. No session is running.'' [])"

definition si_handle ::
    "adapter_command \<Rightarrow> signal_adapter \<Rightarrow> adapter_error option \<times> signal_adapter \<times> events" where
  "si_handle c a =
     (let other = (Some (ErrUnavailable (primary Signal) si_feature_off), a, [])
      in case c of
        CmdConnect p \<Rightarrow>
          if p = primary Signal then (None, a, emit_status (primary Signal) Stubbed signal_detail []) else other
      | CmdDisconnect p \<Rightarrow> if p = primary Signal then si_cancel_link a else other
      | CmdSignalCancelLink \<Rightarrow> si_cancel_link a
      | CmdSignalAcknowledgeNotice \<Rightarrow> si_acknowledge a
      | CmdSignalBeginLink _ \<Rightarrow> si_begin_link a
      | _ \<Rightarrow> other)"

definition si_start :: "signal_adapter \<Rightarrow> signal_adapter \<times> events" where
  "si_start a = (a, emit_status (primary Signal) Stubbed signal_detail [])"

definition si_shutdown :: "signal_adapter \<Rightarrow> signal_adapter \<times> events" where
  "si_shutdown a = (SignalAdapter False, emit_stopped (primary Signal) [])"

definition signal_ops :: "signal_adapter adapter_ops" where
  "signal_ops = \<lparr>ad_id = (\<lambda>_. primary Signal), ad_start = si_start, ad_handle = (\<lambda>_. si_handle),
     ad_shutdown = si_shutdown, ad_view_chat = default_view_chat,
     ad_view_topic = default_view_topic default_view_chat\<rparr>"

section \<open>The helper adapter\<close>

text \<open>Its commands go to the supervisor's queue; the events come from the supervisor.\<close>

definition helper_ops :: "helper_env \<Rightarrow> helper_adapter adapter_ops" where
  "helper_ops env = \<lparr>ad_id = ha_protocol,
     ad_start = (\<lambda>a. case ha_start env a [] of (a', evs, _) \<Rightarrow> (a', evs)),
     ad_handle = (\<lambda>_ c a. case ha_handle c a of (r, a') \<Rightarrow> (r, a', [])),
     ad_shutdown = (\<lambda>a. ha_shutdown a []),
     ad_view_chat = (\<lambda>chat a. (ha_view_chat chat a, [])),
     ad_view_topic = default_view_topic (\<lambda>chat a. (ha_view_chat chat a, []))\<rparr>"

section \<open>The contract holds\<close>

lemmas emit_defs = emit_status_def emit_account_def emit_stopped_def emit_send_rejected_def
  emit_chat_list_loaded_def emit_history_loaded_def emit_older_history_loaded_def

lemmas wa_defs = wa_handle_def wa_command_failed_def wa_acknowledge_def wa_begin_link_def
  wa_cancel_link_def wa_start_def wa_shutdown_def wa_unavailable_def emit_defs

lemmas si_defs = si_handle_def si_acknowledge_def si_begin_link_def si_cancel_link_def si_start_def
  si_shutdown_def emit_defs

lemma wa_handle_own:
  "wa_handle c a = (r, a', evs) \<Longrightarrow>
   list_all (own_event (primary WhatsApp)) evs \<and> pred_option (\<lambda>e. error_protocol e = primary WhatsApp) r"
  by (cases c) (auto simp: wa_defs Let_def split: if_splits)

lemma si_handle_own:
  "si_handle c a = (r, a', evs) \<Longrightarrow>
   list_all (own_event (primary Signal)) evs \<and> pred_option (\<lambda>e. error_protocol e = primary Signal) r"
  by (cases c) (auto simp: si_defs Let_def split: if_splits)

interpretation whatsapp: idle_adapter whatsapp_ops
  by unfold_locales
    (auto simp: whatsapp_ops_def wa_start_def wa_shutdown_def emit_defs default_view_chat_def
      default_view_topic_def dest: wa_handle_own)

interpretation signal: idle_adapter signal_ops
  by unfold_locales
    (auto simp: signal_ops_def si_start_def si_shutdown_def emit_defs default_view_chat_def
      default_view_topic_def dest: si_handle_own)

lemma ha_send_id [simp]: "ha_protocol (ha_send m a) = ha_protocol a"
  by (simp add: ha_send_def)

interpretation helper: protocol_adapter "helper_ops env" for env
proof
  show "ad_start (helper_ops env) a = (a', evs) \<Longrightarrow> ad_id (helper_ops env) a' = ad_id (helper_ops env) a \<and>
      list_all (own_event (ad_id (helper_ops env) a)) evs" for a a' evs
    by (auto simp: helper_ops_def ha_start_def Let_def emit_status_def new_supervisor_def
        helper_event_def split: option.splits if_splits)
qed (auto simp: helper_ops_def ha_handle_def ha_shutdown_def emit_stopped_def ha_view_chat_def
    default_view_topic_def split: if_splits)

section \<open>Properties\<close>

text \<open>An event with its free text left out.\<close>

fun without_text :: "adapter_event \<Rightarrow> adapter_event" where
  "without_text (EvCommandFailed p chat _) = EvCommandFailed p chat []"
| "without_text (EvStatus p status _) = EvStatus p status []"
| "without_text e = e"

definition stub_events :: "adapter_error option \<times> 'a \<times> events \<Rightarrow> events" where
  "stub_events r = map without_text (snd (snd r))"

definition no_helper_events :: "wire_command \<Rightarrow> supervisor \<Rightarrow> events" where
  "no_helper_events w s = map without_text (drop (length (sv_events s)) (sv_events (answer_without_helper w s)))"

text \<open>The answers of the supervisor with no helper are those of the feature-off stub for WhatsApp
  (up to the text of a failure), for loads, opened chats, older pages, sends and retries. For Signal
  they are not: the stub fails a send with an error and never rejects it.\<close>

theorem stub_answers:
  "let wa = primary WhatsApp; si = primary Signal;
       s = new_supervisor wa WireWhatsApp tm []; t = new_supervisor si WireSignal tm []
   in stub_events (wa_handle (CmdLoadChats wa) a) = no_helper_events WLoadChats s \<and>
     stub_events (wa_handle (CmdOpenChat wa chat) a) = no_helper_events (WOpenChat chat) s \<and>
     stub_events (wa_handle (CmdLoadOlderMessages wa chat before cur) a) =
       no_helper_events (WLoadOlderMessages chat before wcur) s \<and>
     stub_events (wa_handle (CmdSendText wa chat body r y) a) = no_helper_events (WSendText chat body r y) s \<and>
     stub_events (wa_handle (CmdResendMessage wa chat m r) a) = no_helper_events (WResendMessage chat m r) s \<and>
     no_helper_events (WSendText chat body r y) t = [EvSendRejected si chat r] \<and>
     si_handle (CmdSendText si chat body r y) b = (Some (ErrUnavailable si si_feature_off), b, [])"
  by (simp add: Let_def stub_events_def no_helper_events_def wa_defs si_defs new_supervisor_def sv_emit_def emit_command_failed_def)

end
