(* ===== verification/Host.thy ===== *)
theory Host
  imports Adapters
begin

text \<open>
  The host of the adapters (\<open>crates/thinwire-protocol/src/host.rs\<close>): the worker that owns one
  adapter per account, the routing of commands, and the Telegram login epoch on the side of the
  UI. The forwarder of an account other than 0 is a task that tags each event and keeps their
  order; the model tags an event when the adapter sends it, so the events of one instance keep
  their order and two instances may interleave differently in the code. A send to a closed
  channel is ignored by the code.
\<close>

section \<open>The login epoch\<close>

fun stamp_auth_epoch :: "u64 \<Rightarrow> adapter_command \<Rightarrow> adapter_command" where
  "stamp_auth_epoch epoch (CmdTelegramAuth step _) = CmdTelegramAuth step epoch"
| "stamp_auth_epoch epoch (CmdToAccount a c) = CmdToAccount a (stamp_auth_epoch epoch c)"
| "stamp_auth_epoch epoch c = c"

fun ends_telegram_login :: "adapter_command \<Rightarrow> bool" where
  "ends_telegram_login (CmdDisconnect p) = pid_is p Telegram"
| "ends_telegram_login (CmdShutdown p) = pid_is p Telegram"
| "ends_telegram_login _ = False"

text \<open>The command as it goes to the worker, and the epoch after it.\<close>

definition send_stamped :: "adapter_command \<Rightarrow> u64 \<Rightarrow> adapter_command \<times> u64" where
  "send_stamped command epoch =
     (stamp_auth_epoch epoch command, if ends_telegram_login command then epoch + 1 else epoch)"

definition stamp_login_failure :: "u64 option \<Rightarrow> adapter_event \<Rightarrow> adapter_event" where
  "stamp_login_failure auth_epoch status =
     (case auth_epoch of Some epoch \<Rightarrow> EvLogin epoch status | None \<Rightarrow> status)"

fun deliver :: "adapter_event \<Rightarrow> u64 \<Rightarrow> adapter_event option" where
  "deliver (EvLogin epoch event) current = (if epoch = current then Some event else None)"
| "deliver (EvFromAccount a event) current =
     map_option (\<lambda>inner. ev_for_account inner a) (deliver event current)"
| "deliver event current = Some event"

definition poll_events :: "events \<Rightarrow> u64 \<Rightarrow> events" where
  "poll_events evs current = List.map_filter (\<lambda>e. deliver e current) evs"

section \<open>The instances\<close>

record 'a host_instance =
  in_account :: protocol_id
  in_adapter :: 'a
  in_forwarded :: bool

definition forward_to :: "'a host_instance \<Rightarrow> events \<Rightarrow> events \<Rightarrow> events" where
  "forward_to i new main =
     main @ (if in_forwarded i then map (\<lambda>e. ev_for_account e (in_account i)) new else new)"

definition find_account :: "protocol_id \<Rightarrow> 'a host_instance list \<Rightarrow> nat option" where
  "find_account acc insts =
     (let at = length (takeWhile (\<lambda>i. in_account i \<noteq> acc) insts)
      in if at < length insts then Some at else None)"

definition auth_epoch_of :: "adapter_command \<Rightarrow> u64 option" where
  "auth_epoch_of c = (case c of CmdTelegramAuth _ epoch \<Rightarrow> Some epoch | _ \<Rightarrow> None)"

definition dispatch_to ::
    "'a adapter_ops \<Rightarrow> string option \<Rightarrow> adapter_command \<Rightarrow> 'a \<Rightarrow> bool \<times> 'a \<times> events" where
  "dispatch_to ops vault command a =
     (case command of
        CmdShutdown _ \<Rightarrow> (False, ad_shutdown ops a)
      | CmdViewChat _ chat \<Rightarrow> (False, ad_view_chat ops chat a)
      | CmdViewTopic _ chat topic \<Rightarrow> (False, ad_view_topic ops chat topic a)
      | _ \<Rightarrow>
          (case ad_handle ops vault command a of
             (None, a', new) \<Rightarrow> (False, a', new)
           | (Some err, a', new) \<Rightarrow>
               (True, a', new @ [stamp_login_failure (auth_epoch_of command)
                  (EvStatus (error_protocol err) (error_status err) (error_text err))])))"

definition dispatch ::
    "'a adapter_ops \<Rightarrow> string option \<Rightarrow> 'a host_instance list \<Rightarrow> protocol_id \<Rightarrow> adapter_command \<Rightarrow> events \<Rightarrow>
     bool \<times> 'a host_instance list \<times> events" where
  "dispatch ops vault insts acc command main =
     (case find_account acc insts of
        None \<Rightarrow>
          (False, insts, (case command of CmdShutdown _ \<Rightarrow> main @ [EvStopped acc] | _ \<Rightarrow> main))
      | Some at \<Rightarrow>
          let i = insts ! at;
              (failed, a', new) = dispatch_to ops vault command (in_adapter i)
          in (failed, insts[at := i\<lparr>in_adapter := a'\<rparr>], forward_to i new main))"

text \<open>\<open>build\<close> is the factory of more accounts; \<open>None\<close> is a build with no factory.\<close>

definition add_account ::
    "'a adapter_ops \<Rightarrow> (protocol_id \<Rightarrow> 'a option) option \<Rightarrow> protocol_id \<Rightarrow> 'a host_instance list \<Rightarrow> events \<Rightarrow>
     'a host_instance list \<times> events" where
  "add_account ops build acc insts main =
     (if pid_slot acc = 0 \<or> list_ex (\<lambda>i. in_account i = acc) insts then (insts, main)
      else case Option.bind build (\<lambda>b. b acc) of
        None \<Rightarrow> (insts, main)
      | Some a \<Rightarrow>
          let (a', new) = ad_start ops a;
              i = \<lparr>in_account = acc, in_adapter = a', in_forwarded = True\<rparr>
          in (insts @ [i], forward_to i new main))"

definition remove_account ::
    "'a adapter_ops \<Rightarrow> protocol_id \<Rightarrow> 'a host_instance list \<Rightarrow> events \<Rightarrow> 'a host_instance list \<times> events" where
  "remove_account ops acc insts main =
     (if pid_slot acc = 0 then (insts, main)
      else case find_account acc insts of
        None \<Rightarrow> (insts, main)
      | Some at \<Rightarrow>
          (take at insts @ drop (at + 1) insts,
           forward_to (insts ! at) (snd (ad_shutdown ops (in_adapter (insts ! at)))) main))"

definition host_start :: "'a adapter_ops \<Rightarrow> 'a list \<Rightarrow> 'a host_instance list \<times> events" where
  "host_start ops adapters =
     foldl (\<lambda>(insts, main) a.
        let (a', new) = ad_start ops a;
            i = \<lparr>in_account = ad_id ops a, in_adapter = a', in_forwarded = False\<rparr>
        in (insts @ [i], forward_to i new main)) ([], []) adapters"

definition host_step ::
    "'a adapter_ops \<Rightarrow> (protocol_id \<Rightarrow> 'a option) option \<Rightarrow> string option \<Rightarrow> adapter_command \<Rightarrow>
     'a host_instance list \<times> events \<Rightarrow> 'a host_instance list \<times> events" where
  "host_step ops build vault sent h =
     (let (insts, main) = h; (acc, command) = route sent
      in case command of
           CmdAddAccount _ \<Rightarrow> add_account ops build acc insts main
         | CmdRemoveAccount _ \<Rightarrow> remove_account ops acc insts main
         | _ \<Rightarrow> snd (dispatch ops vault insts acc command main))"

text \<open>An adapter may also send events from a task of its own.\<close>

definition host_emit :: "nat \<Rightarrow> adapter_event \<Rightarrow> 'a host_instance list \<times> events \<Rightarrow> 'a host_instance list \<times> events" where
  "host_emit at e h =
     (case h of (insts, main) \<Rightarrow> if at < length insts then (insts, forward_to (insts ! at) [e] main) else (insts, main))"

section \<open>Facts\<close>

lemma find_account_Some:
  "find_account acc insts = Some at \<Longrightarrow> at < length insts \<and> in_account (insts ! at) = acc"
  by (auto simp: find_account_def Let_def split: if_splits dest: nth_length_takeWhile)

lemma find_account_None: "find_account acc insts = None \<longleftrightarrow> acc \<notin> in_account ` set insts"
proof -
  have "length (takeWhile (\<lambda>i. in_account i \<noteq> acc) insts) = length insts \<longleftrightarrow>
      (\<forall>i \<in> set insts. in_account i \<noteq> acc)"
    by (metis (mono_tags, lifting) takeWhile_eq_all_conv takeWhile_eq_take take_all_iff order_refl)
  moreover have "length (takeWhile (\<lambda>i. in_account i \<noteq> acc) insts) \<le> length insts" by (rule length_takeWhile_le)
  ultimately show ?thesis by (auto simp: find_account_def Let_def)
qed

lemma find_account_at:
  assumes "distinct (map in_account insts)" "at < length insts"
  shows "find_account (in_account (insts ! at)) insts = Some at"
proof -
  have "in_account (insts ! at) \<in> in_account ` set insts" using assms(2) by simp
  then obtain k where k: "find_account (in_account (insts ! at)) insts = Some k"
    using find_account_None by fastforce
  from find_account_Some [OF k] have "k < length insts" "map in_account insts ! k = map in_account insts ! at"
    using assms(2) by simp_all
  with assms have "k = at" by (metis length_map nth_eq_iff_index_eq)
  with k show ?thesis by simp
qed

fun login_epoch_of :: "adapter_event \<Rightarrow> u64 option" where
  "login_epoch_of (EvLogin epoch _) = Some epoch"
| "login_epoch_of (EvFromAccount _ e) = login_epoch_of e"
| "login_epoch_of _ = None"

lemma deliver_iff:
  "deliver e cur = None \<longleftrightarrow> (case login_epoch_of e of Some ep \<Rightarrow> ep \<noteq> cur | None \<Rightarrow> False)"
  by (induction e cur rule: deliver.induct) (auto split: option.split)

lemma deliver_plain:
  "login_epoch_of e = None \<Longrightarrow> (\<And>a x. e \<noteq> EvFromAccount a x) \<Longrightarrow> deliver e cur = Some e"
  by (cases e) auto

definition epoch_after :: "u64 \<Rightarrow> adapter_command list \<Rightarrow> u64" where
  "epoch_after epoch cs = foldl (\<lambda>e c. snd (send_stamped c e)) epoch cs"

lemma epoch_after_count: "epoch_after epoch cs = epoch + length (filter ends_telegram_login cs)"
  by (induction cs arbitrary: epoch) (simp_all add: epoch_after_def send_stamped_def)


lemma epoch_after_same: "epoch_after epoch cs = epoch \<longleftrightarrow> \<not> list_ex ends_telegram_login cs"
  by (auto simp: epoch_after_count filter_empty_conv list_ex_iff)

lemma set_protocol_stamp:
  "fst (set_protocol a (stamp_auth_epoch epoch c)) = stamp_auth_epoch epoch (fst (set_protocol a c))"
  by (cases c) simp_all

lemma route_stamp:
  assumes "route c = (acc, CmdTelegramAuth tstep n)"
  shows "route (stamp_auth_epoch epoch c) = (acc, CmdTelegramAuth tstep epoch)"
  using assms
  by (cases c) (auto simp: route_def Let_def set_protocol_stamp)

lemma login_step_no_end: "route c = (acc, CmdTelegramAuth tstep n) \<Longrightarrow> \<not> ends_telegram_login c"
  by (cases c) (auto simp: route_def Let_def)

definition host_ok :: "'a host_instance list \<Rightarrow> bool" where
  "host_ok insts \<longleftrightarrow> distinct (map in_account insts) \<and>
     list_all (\<lambda>i. in_forwarded i \<longleftrightarrow> pid_slot (in_account i) \<noteq> 0) insts"

abbreviation accounts :: "'a host_instance list \<Rightarrow> protocol_id list" where
  "accounts insts \<equiv> map in_account insts"

lemma accounts_update [simp]:
  "at < length insts \<Longrightarrow> accounts (insts[at := (insts ! at)\<lparr>in_adapter := a\<rparr>]) = accounts insts"
  by (simp add: map_update list_update_same_conv)

lemma host_ok_update [intro]:
  "host_ok insts \<Longrightarrow> at < length insts \<Longrightarrow> host_ok (insts[at := (insts ! at)\<lparr>in_adapter := a\<rparr>])"
  by (simp add: host_ok_def list_all_length nth_list_update)

text \<open>What a step appends carries the account.\<close>

definition carries :: "protocol_id \<Rightarrow> adapter_event \<Rightarrow> bool" where
  "carries acc e \<longleftrightarrow> ev_for_account e acc = e"

lemma forward_to_app:
  "\<exists>out. forward_to i new main = main @ out \<and> (in_forwarded i \<longrightarrow> list_all (carries (in_account i)) out)"
  by (auto simp: forward_to_def carries_def evs.idem list_all_iff)

lemma carries_stopped: "carries acc (EvStopped acc)"
  by (simp add: carries_def ev_for_account_def)

lemma dispatch_cases:
  assumes "dispatch ops vault insts acc c main = (failed, insts', main')"
  obtains (absent) "find_account acc insts = None" "insts' = insts"
      "main' = (case c of CmdShutdown _ \<Rightarrow> main @ [EvStopped acc] | _ \<Rightarrow> main)"
    | (at) k a' new where "find_account acc insts = Some k"
      "dispatch_to ops vault c (in_adapter (insts ! k)) = (failed, a', new)"
      "insts' = insts[k := (insts ! k)\<lparr>in_adapter := a'\<rparr>]" "main' = forward_to (insts ! k) new main"
  using assms by (cases "find_account acc insts") (auto simp: dispatch_def Let_def split: prod.splits)

text \<open>Everything a step with a given account may do to the instances and the events.\<close>

definition account_step :: "protocol_id \<Rightarrow> 'a host_instance list \<times> events \<Rightarrow> 'a host_instance list \<times> events \<Rightarrow> bool" where
  "account_step acc h h' \<longleftrightarrow>
     host_ok (fst h') \<and>
     filter (\<lambda>i. in_account i \<noteq> acc) (fst h') = filter (\<lambda>i. in_account i \<noteq> acc) (fst h) \<and>
     (pid_slot acc = 0 \<longrightarrow> accounts (fst h') = accounts (fst h)) \<and>
     (\<exists>out. snd h' = snd h @ out \<and> (pid_slot acc \<noteq> 0 \<longrightarrow> list_all (carries acc) out))"

lemma filter_update_out:
  "\<not> P (xs ! k) \<Longrightarrow> \<not> P x \<Longrightarrow> filter P (xs[k := x]) = filter P xs"
  by (induction xs arbitrary: k) (auto split: nat.split)

lemma filter_remove_out:
  "k < length xs \<Longrightarrow> \<not> P (xs ! k) \<Longrightarrow> filter P (take k xs) @ filter P (drop (Suc k) xs) = filter P xs"
  by (subst (3) id_take_nth_drop [of k xs]) simp_all

lemma account_stepI:
  assumes "host_ok insts'"
    and "filter (\<lambda>i. in_account i \<noteq> acc) insts' = filter (\<lambda>i. in_account i \<noteq> acc) insts"
    and "pid_slot acc = 0 \<Longrightarrow> accounts insts' = accounts insts"
    and "main' = main @ out" "pid_slot acc \<noteq> 0 \<Longrightarrow> list_all (carries acc) out"
  shows "account_step acc (insts, main) (insts', main')"
  using assms by (simp add: account_step_def)

lemma account_step_refl [simp]: "host_ok (fst h) \<Longrightarrow> account_step acc h h"
  by (cases h) (auto intro: account_stepI [where out = "[]"])

lemma account_step_update:
  assumes ok: "host_ok insts" and k: "k < length insts" "in_account (insts ! k) = acc"
  shows "account_step acc (insts, main)
    (insts[k := (insts ! k)\<lparr>in_adapter := a'\<rparr>], forward_to (insts ! k) new main)"
proof -
  obtain out where out: "forward_to (insts ! k) new main = main @ out"
      "in_forwarded (insts ! k) \<longrightarrow> list_all (carries (in_account (insts ! k))) out"
    using forward_to_app by blast
  have fwd: "in_forwarded (insts ! k) \<longleftrightarrow> pid_slot acc \<noteq> 0"
    using ok k by (auto simp: host_ok_def list_all_length)
  show ?thesis
    by (rule account_stepI [OF host_ok_update [OF ok k(1)] _ _ out(1)])
      (use k out(2) fwd in \<open>simp_all add: filter_update_out\<close>)
qed

lemma dispatch_step:
  assumes ok: "host_ok insts" and d: "dispatch ops vault insts acc c main = (failed, insts', main')"
  shows "account_step acc (insts, main) (insts', main')"
  using d
proof (cases rule: dispatch_cases)
  case absent
  have "\<exists>out. main' = main @ out \<and> list_all (carries acc) out"
    unfolding absent(3) by (cases c) (auto simp: carries_stopped)
  with ok absent(2) show ?thesis by (auto simp: account_step_def)
next
  case (at k a' new)
  from find_account_Some [OF at(1)] show ?thesis
    unfolding at(3,4) by (auto intro: account_step_update [OF ok])
qed

lemma add_account_step:
  assumes ok: "host_ok insts"
  shows "account_step acc (insts, main) (add_account ops build acc insts main)"
proof (cases "pid_slot acc = 0 \<or> list_ex (\<lambda>i. in_account i = acc) insts \<or> Option.bind build (\<lambda>b. b acc) = None")
  case True
  then have "add_account ops build acc insts main = (insts, main)" by (auto simp: add_account_def)
  with ok show ?thesis by simp
next
  case False
  then obtain a where a: "Option.bind build (\<lambda>b. b acc) = Some a" by blast
  obtain a' new where n: "ad_start ops a = (a', new)" by fastforce
  let ?i = "\<lparr>in_account = acc, in_adapter = a', in_forwarded = True\<rparr>"
  obtain out where out: "forward_to ?i new main = main @ out" "list_all (carries acc) out"
    using forward_to_app [of ?i new main] by auto
  from False a n out(1) have eq: "add_account ops build acc insts main = (insts @ [?i], main @ out)"
    by (simp add: add_account_def)
  from False have "acc \<notin> set (accounts insts)" by (auto simp: list_ex_iff)
  with False ok have "host_ok (insts @ [?i])" by (auto simp: host_ok_def)
  then show ?thesis unfolding eq
    by (rule account_stepI [OF _ _ _ refl]) (use False out(2) in simp_all)
qed

lemma remove_account_step:
  assumes ok: "host_ok insts"
  shows "account_step acc (insts, main) (remove_account ops acc insts main)"
proof (cases "pid_slot acc = 0 \<or> find_account acc insts = None")
  case True
  then have "remove_account ops acc insts main = (insts, main)" by (auto simp: remove_account_def)
  with ok show ?thesis by simp
next
  case False
  then obtain k where k: "find_account acc insts = Some k" by blast
  from find_account_Some [OF k] have k': "k < length insts" "in_account (insts ! k) = acc" by auto
  let ?new = "snd (ad_shutdown ops (in_adapter (insts ! k)))"
  obtain out where out: "forward_to (insts ! k) ?new main = main @ out"
      "in_forwarded (insts ! k) \<longrightarrow> list_all (carries acc) out"
    using forward_to_app [of "insts ! k" ?new main] k'(2) by auto
  have fwd: "in_forwarded (insts ! k) \<longleftrightarrow> pid_slot acc \<noteq> 0"
    using ok k' by (auto simp: host_ok_def list_all_length)
  from False k have eq: "remove_account ops acc insts main =
      (take k insts @ drop (k + 1) insts, forward_to (insts ! k) ?new main)"
    by (simp add: remove_account_def)
  have "distinct (take k (accounts insts) @ drop (k + 1) (accounts insts))"
    using ok by (auto simp: host_ok_def set_take_disj_set_drop_if_distinct dest: in_set_dropD)
  then have "host_ok (take k insts @ drop (k + 1) insts)"
    using ok by (auto simp: host_ok_def list_all_iff take_map drop_map dest: in_set_takeD in_set_dropD)
  then show ?thesis unfolding eq
    by (rule account_stepI [OF _ _ _ out(1)])
      (use False out(2) fwd k' in \<open>simp_all add: filter_remove_out\<close>)
qed

lemma host_step_account:
  assumes "host_ok (fst h)"
  shows "account_step (cmd_protocol sent) h (host_step ops build vault sent h)"
proof -
  obtain insts main where h: "h = (insts, main)" by fastforce
  obtain acc c where r: "route sent = (acc, c)" by fastforce
  then have acc: "cmd_protocol sent = acc" using route_account [of sent] by simp
  from assms h have ok: "host_ok insts" by simp
  have d: "account_step acc (insts, main) (snd (dispatch ops vault insts acc x main))" for x
    using dispatch_step [OF ok] by (metis prod.collapse)
  show ?thesis
    unfolding acc h host_step_def
    by (cases c) (auto simp: r intro: add_account_step [OF ok] remove_account_step [OF ok] d)
qed


section \<open>Runs of the host\<close>

datatype host_input =
    HostSend "string option" adapter_command
  | HostEmit nat adapter_event

fun host_input_step ::
    "'a adapter_ops \<Rightarrow> (protocol_id \<Rightarrow> 'a option) option \<Rightarrow> host_input \<Rightarrow>
     'a host_instance list \<times> events \<Rightarrow> 'a host_instance list \<times> events" where
  "host_input_step ops build (HostSend vault c) h = host_step ops build vault c h"
| "host_input_step ops build (HostEmit k e) h = host_emit k e h"

definition host_run ::
    "'a adapter_ops \<Rightarrow> (protocol_id \<Rightarrow> 'a option) option \<Rightarrow> host_input list \<Rightarrow>
     'a host_instance list \<times> events \<Rightarrow> 'a host_instance list \<times> events" where
  "host_run ops build ins h = foldl (\<lambda>h i. host_input_step ops build i h) h ins"

lemma host_run_simps [simp]:
  "host_run ops build [] h = h"
  "host_run ops build (i # ins) h = host_run ops build ins (host_input_step ops build i h)"
  by (simp_all add: host_run_def)

definition primaries :: "'a host_instance list \<Rightarrow> protocol_id list" where
  "primaries insts = filter (\<lambda>a. pid_slot a = 0) (accounts insts)"

lemma primaries_filter:
  "pid_slot acc \<noteq> 0 \<Longrightarrow>
   primaries insts = filter (\<lambda>a. pid_slot a = 0) (accounts (filter (\<lambda>i. in_account i \<noteq> acc) insts))"
  by (induction insts) (auto simp: primaries_def)

lemma account_step_primaries:
  assumes "account_step acc h h'"
  shows "primaries (fst h') = primaries (fst h)"
proof (cases "pid_slot acc = 0")
  case True
  with assms show ?thesis by (simp add: account_step_def primaries_def)
next
  case False
  from assms show ?thesis unfolding primaries_filter [OF False] by (simp add: account_step_def)
qed

lemma host_emit_keeps: "fst (host_emit k e h) = fst h" "\<exists>out. snd (host_emit k e h) = snd h @ out"
  by (auto simp: host_emit_def forward_to_def split: prod.split)

lemma host_input_keeps:
  assumes "host_ok (fst h)"
  shows "host_ok (fst (host_input_step ops build i h)) \<and>
    primaries (fst (host_input_step ops build i h)) = primaries (fst h) \<and>
    (\<exists>out. snd (host_input_step ops build i h) = snd h @ out)"
proof (cases i)
  case (HostSend vault c)
  have s: "account_step (cmd_protocol c) h (host_step ops build vault c h)"
    using assms by (rule host_step_account)
  with account_step_primaries [OF s] HostSend show ?thesis by (auto simp: account_step_def)
next
  case (HostEmit k e)
  with assms host_emit_keeps [of k e h] show ?thesis by simp
qed

lemma host_run_keeps:
  assumes "host_ok (fst h)"
  shows "host_ok (fst (host_run ops build ins h)) \<and>
    primaries (fst (host_run ops build ins h)) = primaries (fst h) \<and>
    (\<exists>out. snd (host_run ops build ins h) = snd h @ out)"
  using assms
proof (induction ins arbitrary: h)
  case (Cons i ins)
  from host_input_keeps [OF Cons.prems, of ops build i] obtain out where
    k: "host_ok (fst (host_input_step ops build i h))"
      "primaries (fst (host_input_step ops build i h)) = primaries (fst h)"
      "snd (host_input_step ops build i h) = snd h @ out" by blast
  from Cons.IH [OF k(1)] k(2,3) show ?case by auto
qed simp

lemma host_start_accounts:
  "accounts (fst (host_start ops as)) = map (ad_id ops) as \<and>
   list_all (\<lambda>i. \<not> in_forwarded i) (fst (host_start ops as))"
  by (induction as rule: rev_induct) (auto simp: host_start_def Let_def split: prod.splits)

lemma host_start_ok:
  assumes "distinct (map (ad_id ops) as)" "\<forall>a \<in> set as. pid_slot (ad_id ops a) = 0"
  shows "host_ok (fst (host_start ops as)) \<and> primaries (fst (host_start ops as)) = map (ad_id ops) as"
proof -
  note acc = host_start_accounts [of ops as]
  then have "in_account ` set (fst (host_start ops as)) = ad_id ops ` set as"
    by (metis list.set_map)
  with assms(2) have "\<forall>i \<in> set (fst (host_start ops as)). pid_slot (in_account i) = 0"
    by (metis imageE imageI)
  with acc assms show ?thesis by (auto simp: host_ok_def primaries_def list_all_iff)
qed

text \<open>An adapter with nothing running: the host's answer to a Shutdown.\<close>

context idle_adapter
begin

lemma shutdown_answered:
  assumes ok: "host_ok insts"
    and ids: "\<And>i. i \<in> set insts \<Longrightarrow> pid_slot (in_account i) = 0 \<Longrightarrow> ad_id ops (in_adapter i) = in_account i"
  shows "snd (host_step ops build vault (CmdShutdown acc) (insts, main)) = main @ [EvStopped acc]"
proof -
  have r: "route (CmdShutdown acc) = (acc, CmdShutdown (first_account acc))"
    by (simp add: route_def Let_def)
  show ?thesis
  proof (cases "find_account acc insts")
    case None
    then show ?thesis by (simp add: host_step_def r dispatch_def)
  next
    case (Some k)
    from find_account_Some [OF Some] have k: "k < length insts" "in_account (insts ! k) = acc" by auto
    obtain a' where s: "ad_shutdown ops (in_adapter (insts ! k)) =
        (a', [EvStopped (ad_id ops (in_adapter (insts ! k)))])"
      using shutdown_stops by (metis prod.collapse)
    have fwd: "in_forwarded (insts ! k) \<longleftrightarrow> pid_slot acc \<noteq> 0"
      using ok k by (auto simp: host_ok_def list_all_length)
    have "pid_slot acc = 0 \<Longrightarrow> ad_id ops (in_adapter (insts ! k)) = acc"
      using ids k nth_mem by blast
    with fwd s k show ?thesis
      by (auto simp: host_step_def r dispatch_def Some dispatch_to_def forward_to_def
          ev_for_account_def Let_def)
  qed
qed

end

section \<open>Properties\<close>

text \<open>C8: A command reaches one account only. A step of the host leaves the instances of every
  other account as they are, keeps the accounts distinct, never adds or removes an account 0, and
  what it sends carries the account when that is not account 0.\<close>

theorem command_reaches_one_account:
  assumes "host_ok insts" and "host_step ops build vault sent (insts, main) = (insts', main')"
    and "cmd_protocol sent = acc"
  shows "host_ok insts' \<and>
    filter (\<lambda>i. in_account i \<noteq> acc) insts' = filter (\<lambda>i. in_account i \<noteq> acc) insts \<and>
    (pid_slot acc = 0 \<longrightarrow> accounts insts' = accounts insts) \<and>
    (\<exists>out. main' = main @ out \<and> (pid_slot acc \<noteq> 0 \<longrightarrow> list_all (\<lambda>e. ev_for_account e acc = e) out))"
  using host_step_account [of "(insts, main)" sent ops build vault] assms
  by (simp add: account_step_def carries_def [abs_def])

definition demo_host :: "whatsapp_adapter host_instance list" where
  "demo_host =
     [\<lparr>in_account = primary WhatsApp, in_adapter = WhatsAppAdapter True, in_forwarded = False\<rparr>,
      \<lparr>in_account = ProtocolId WhatsApp 1, in_adapter = WhatsAppAdapter False, in_forwarded = True\<rparr>]"

lemma demo_host_ok: "host_ok demo_host"
  by (simp add: host_ok_def demo_host_def primary_def)

theorem command_reaches_one_account_witness:
  "host_step whatsapp_ops None None (CmdToAccount (ProtocolId WhatsApp 1) CmdWhatsAppAcknowledgeRisk) (demo_host, []) =
     (demo_host[1 := (demo_host ! 1)\<lparr>in_adapter := WhatsAppAdapter True\<rparr>],
      [EvStatus (ProtocolId WhatsApp 1) Stubbed
         ''WhatsApp ban gate accepted. No linked-device session has started.'']) \<and>
   host_ok (demo_host[1 := (demo_host ! 1)\<lparr>in_adapter := WhatsAppAdapter True\<rparr>])"
proof -
  let ?c = "CmdToAccount (ProtocolId WhatsApp 1) CmdWhatsAppAcknowledgeRisk"
  have "host_step whatsapp_ops None None ?c (demo_host, []) =
     (demo_host[1 := (demo_host ! 1)\<lparr>in_adapter := WhatsAppAdapter True\<rparr>],
      [EvStatus (ProtocolId WhatsApp 1) Stubbed
         ''WhatsApp ban gate accepted. No linked-device session has started.''])"
    by (simp add: demo_host_def host_step_def route_def dispatch_def find_account_def dispatch_to_def
        whatsapp_ops_def wa_defs forward_to_def ev_for_account_def primary_def first_account_def)
  with command_reaches_one_account [OF demo_host_ok this] show ?thesis by simp
qed

text \<open>However the host runs from its start, the accounts stay distinct, the accounts 0 are
  those of the adapters it was started with, and events are only appended.\<close>

theorem first_accounts_stay:
  assumes "distinct (map (ad_id ops) as)" and "\<forall>a \<in> set as. pid_slot (ad_id ops a) = 0"
    and "host_run ops build ins (host_start ops as) = (insts, main)"
  shows "distinct (accounts insts) \<and> filter (\<lambda>a. pid_slot a = 0) (accounts insts) = map (ad_id ops) as \<and>
    (\<exists>out. main = snd (host_start ops as) @ out)"
  using host_start_ok [OF assms(1,2)] host_run_keeps [of "host_start ops as" ops build ins] assms(3)
  by (simp add: host_ok_def primaries_def)

theorem first_accounts_stay_witness:
  "\<exists>insts main. host_run whatsapp_ops (Some (\<lambda>_. Some (WhatsAppAdapter False)))
      [HostSend None (CmdAddAccount (ProtocolId WhatsApp 1)), HostSend None (CmdRemoveAccount (primary WhatsApp))]
      (host_start whatsapp_ops [WhatsAppAdapter False]) = (insts, main) \<and>
    accounts insts = [primary WhatsApp, ProtocolId WhatsApp 1] \<and>
    filter (\<lambda>a. pid_slot a = 0) (accounts insts) = [primary WhatsApp]"
proof -
  let ?ins = "[HostSend None (CmdAddAccount (ProtocolId WhatsApp 1)), HostSend None (CmdRemoveAccount (primary WhatsApp))]"
  let ?b = "Some (\<lambda>_. Some (WhatsAppAdapter False))"
  obtain insts main where r: "host_run whatsapp_ops ?b ?ins (host_start whatsapp_ops [WhatsAppAdapter False]) = (insts, main)"
    by fastforce
  moreover from r have "accounts insts = [primary WhatsApp, ProtocolId WhatsApp 1]"
    by (auto simp: host_start_def whatsapp_ops_def wa_defs host_step_def route_def add_account_def
        remove_account_def primary_def Let_def first_account_def)
  moreover have "filter (\<lambda>a. pid_slot a = 0) (accounts insts) = map (ad_id whatsapp_ops) [WhatsAppAdapter False]"
    using first_accounts_stay [OF _ _ r] by (simp add: whatsapp_ops_def primary_def)
  ultimately show ?thesis by (simp add: whatsapp_ops_def)
qed

text \<open>Shutdown is always answered: whether the account has an adapter or not, and whether it
  is account 0 or another, the host sends exactly one Stopped, and it names that account.\<close>

theorem shutdown_always_answered:
  assumes "host_ok insts"
    and "\<forall>i \<in> set insts. pid_slot (in_account i) = 0 \<longrightarrow> in_account i = primary WhatsApp"
  shows "snd (host_step whatsapp_ops build vault (CmdShutdown acc) (insts, main)) = main @ [EvStopped acc]"
  by (rule whatsapp.shutdown_answered) (use assms in \<open>simp_all add: whatsapp_ops_def\<close>)

theorem shutdown_always_answered_witness:
  "snd (host_step whatsapp_ops None None (CmdShutdown (ProtocolId WhatsApp 1)) (demo_host, [])) =
     [EvStopped (ProtocolId WhatsApp 1)]"
  using shutdown_always_answered [OF demo_host_ok, of None None "ProtocolId WhatsApp 1" "[]"]
  by (simp add: demo_host_def)

text \<open>A login step that fails after the login was ended leaves no error behind. The status of
  the failure carries the epoch of the step: after the commands \<open>cs\<close> it is delivered, tagged with
  its account, exactly when none of them was a Telegram Disconnect or Shutdown.\<close>

theorem stale_login_failure_dropped:
  assumes "route c = (acc, CmdTelegramAuth tstep n)"
    and "find_account acc insts = Some k"
    and "ad_handle ops vault (CmdTelegramAuth tstep epoch) (in_adapter (insts ! k)) = (Some err, a', new)"
    and "send_stamped c epoch = (sent, epoch')"
    and "host_ok insts"
  shows "\<exists>pre last. snd (host_step ops build vault sent (insts, main)) = main @ pre @ [last] \<and>
    length pre = length new \<and>
    deliver last (epoch_after epoch' cs) =
      (if list_ex ends_telegram_login cs then None
       else Some (EvStatus (if pid_slot acc = 0 then error_protocol err else acc)
         (error_status err) (error_text err)))"
proof -
  from assms(4) login_step_no_end [OF assms(1)]
  have s: "sent = stamp_auth_epoch epoch c" "epoch' = epoch" by (auto simp: send_stamped_def)
  note r = route_stamp [OF assms(1), of epoch]
  let ?fail = "EvLogin epoch (EvStatus (error_protocol err) (error_status err) (error_text err))"
  from find_account_Some [OF assms(2)] assms(5)
  have acc: "in_account (insts ! k) = acc" "in_forwarded (insts ! k) \<longleftrightarrow> pid_slot acc \<noteq> 0"
    by (auto simp: host_ok_def list_all_length)
  let ?tag = "\<lambda>e. if pid_slot acc = 0 then e else ev_for_account e acc"
  have "snd (host_step ops build vault sent (insts, main)) = main @ map ?tag new @ [?tag ?fail]"
    using assms(2,3) acc
    by (simp add: s host_step_def r dispatch_def dispatch_to_def auth_epoch_of_def
        stamp_login_failure_def forward_to_def Let_def)
  moreover have "deliver (?tag ?fail) cur =
      (if epoch = cur then Some (EvStatus (if pid_slot acc = 0 then error_protocol err else acc)
         (error_status err) (error_text err)) else None)" for cur
    by (simp add: ev_for_account_def)
  moreover have "epoch = epoch_after epoch cs \<longleftrightarrow> \<not> list_ex ends_telegram_login cs"
    using epoch_after_same by metis
  ultimately show ?thesis unfolding s
    by (intro exI [of _ "map ?tag new"] exI [of _ "?tag ?fail"]) simp
qed

definition demo_login_ops :: "unit adapter_ops" where
  "demo_login_ops = \<lparr>ad_id = (\<lambda>_. primary Telegram), ad_start = (\<lambda>a. (a, [])),
     ad_handle = (\<lambda>_ _ a. (Some (ErrUnavailable (primary Telegram) ''no client''), a, [])),
     ad_shutdown = (\<lambda>a. (a, emit_stopped (primary Telegram) [])),
     ad_view_chat = default_view_chat, ad_view_topic = default_view_topic default_view_chat\<rparr>"

theorem stale_login_failure_dropped_witness:
  "let insts = [\<lparr>in_account = ProtocolId Telegram 1, in_adapter = (), in_forwarded = True\<rparr>];
       (sent, epoch) = send_stamped (CmdToAccount (ProtocolId Telegram 1) (CmdTelegramAuth PhoneStep 0)) 7
   in \<exists>pre last. snd (host_step demo_login_ops None None sent (insts, [])) = pre @ [last] \<and>
     deliver last (epoch_after epoch [CmdDisconnect (primary Telegram)]) = None"
proof -
  let ?insts = "[\<lparr>in_account = ProtocolId Telegram 1, in_adapter = (), in_forwarded = True\<rparr>]"
  let ?c = "CmdToAccount (ProtocolId Telegram 1) (CmdTelegramAuth PhoneStep 0)"
  have 1: "route ?c = (ProtocolId Telegram 1, CmdTelegramAuth PhoneStep 0)" by (simp add: route_def)
  have 2: "find_account (ProtocolId Telegram 1) ?insts = Some 0" by (simp add: find_account_def)
  have 3: "ad_handle demo_login_ops None (CmdTelegramAuth PhoneStep 7) (in_adapter (?insts ! 0)) =
      (Some (ErrUnavailable (primary Telegram) ''no client''), (), [])"
    by (simp add: demo_login_ops_def)
  have 4: "send_stamped ?c 7 = (CmdToAccount (ProtocolId Telegram 1) (CmdTelegramAuth PhoneStep 7), 7)"
    by (simp add: send_stamped_def)
  have 5: "host_ok ?insts" by (simp add: host_ok_def)
  from stale_login_failure_dropped [OF 1 2 3 4 5, of None "[]" "[CmdDisconnect (primary Telegram)]"]
  show ?thesis by (simp only: 4 Let_def prod.case) (auto simp: pid_is_def primary_def)
qed

end
