(* ===== verification/Serve.thy ===== *)
theory Serve
  imports Adapters
begin

text \<open>
  The helper side of the pipe (\<open>crates/thinwire-protocol/src/helper/serve.rs\<close>): the loop that
  runs one adapter behind the wire protocol, as a step function over what its \<open>select\<close> sees: a
  line from the app, the next event of the adapter's channel, the end of the stop wait; the
  adapter's own tasks put events into the channel. \<open>se_pipe\<close> says whether a write of the step
  reaches the pipe, \<open>se_json\<close> is serde's text of a line. The phone vault is \<open>None\<close> for a helper
  with no vault. An adapter only reads its vault.
\<close>

section \<open>State\<close>

datatype serve_end = EndShutdown | AppGone | EndBadLine "unit frame_error" | NotAHelperProtocol

datatype serve_phase = Serving | Stopping serve_end | Returned serve_end

record 'a serve_state =
  he_protocol :: protocol_id
  he_wire :: wire_protocol
  he_vault :: "string option option"
  he_adapter :: 'a
  he_queue :: events
  he_out :: "helper_line list"
  he_open :: bool
  he_phase :: serve_phase

record serve_config =
  sc_version :: string
  sc_phone :: "string option option"

record serve_env =
  se_json :: "helper_line \<Rightarrow> json_category + string"
  se_pipe :: bool

section \<open>Writing\<close>

definition serve_write ::
    "serve_env \<Rightarrow> helper_line \<Rightarrow> 'a serve_state \<Rightarrow> unit frame_error option \<times> 'a serve_state" where
  "serve_write env line s =
     (case encode (se_json env) line of
        Inl e \<Rightarrow> (Some e, s)
      | Inr _ \<Rightarrow> if se_pipe env then (None, s\<lparr>he_out := he_out s @ [line]\<rparr>) else (Some (Io ()), s))"

text \<open>\<open>refuse\<close>: what a helper that cannot run writes in place of \<open>Hello\<close>.\<close>

definition refuse :: "serve_env \<Rightarrow> helper_refusal \<Rightarrow> helper_line list" where
  "refuse env reason =
     (case encode (se_json env) (HRefused reason) of
        Inl (e :: unit frame_error) \<Rightarrow> []
      | Inr _ \<Rightarrow> if se_pipe env then [HRefused reason] else [])"

definition forward :: "serve_env \<Rightarrow> adapter_event \<Rightarrow> 'a serve_state \<Rightarrow> bool \<times> 'a serve_state" where
  "forward env event s =
     (case event_to_wire (he_protocol s) event of
        None \<Rightarrow> (True, s)
      | Some ev \<Rightarrow>
          (case serve_write env (Event (he_wire s) ev) s of
             (None, s) \<Rightarrow> (True, s)
           | (Some TooLong, s) \<Rightarrow> (True, s)
           | (Some _, s) \<Rightarrow> (False, s)))"

definition serve_report :: "adapter_error \<Rightarrow> 'a serve_state \<Rightarrow> 'a serve_state" where
  "serve_report err s =
     s\<lparr>he_queue := he_queue s @ [EvStatus (error_protocol err) (error_status err) (error_text err)]\<rparr>"

section \<open>One request\<close>

definition set_vault :: "wire_command \<Rightarrow> secret_text option \<Rightarrow> 'a serve_state \<Rightarrow> 'a serve_state" where
  "set_vault command phone s =
     (if is_begin_link command
      then s\<lparr>he_vault := map_option (\<lambda>_. case phone of
               Some ph \<Rightarrow> vault_set_phone (expose ph) | None \<Rightarrow> vault_clear) (he_vault s)\<rparr>
      else s)"

definition serve_route :: "'a adapter_ops \<Rightarrow> wire_command \<Rightarrow> 'a serve_state \<Rightarrow> 'a serve_state" where
  "serve_route ops command s =
     (case command_from_wire (he_protocol s) command of
        None \<Rightarrow> serve_report (ErrUnavailable (he_protocol s) ''this helper does not have that command'') s
      | Some (c, phone) \<Rightarrow>
          let s = set_vault command phone s in
          case c of
            CmdViewChat _ chat \<Rightarrow>
              let (a', new) = ad_view_chat ops chat (he_adapter s)
              in s\<lparr>he_adapter := a', he_queue := he_queue s @ new\<rparr>
          | _ \<Rightarrow>
              let (r, a', new) = ad_handle ops (Option.bind (he_vault s) id) c (he_adapter s);
                  s = s\<lparr>he_adapter := a', he_queue := he_queue s @ new\<rparr>
              in (case r of None \<Rightarrow> s | Some err \<Rightarrow> serve_report err s))"

section \<open>The loop\<close>

definition begin_stop :: "'a adapter_ops \<Rightarrow> serve_end \<Rightarrow> 'a serve_state \<Rightarrow> 'a serve_state" where
  "begin_stop ops e s =
     (let (a', new) = ad_shutdown ops (he_adapter s)
      in s\<lparr>he_adapter := a', he_queue := he_queue s @ new, he_phase := Stopping e\<rparr>)"

definition serve_start ::
    "'a adapter_ops \<Rightarrow> serve_config \<Rightarrow> serve_env \<Rightarrow> 'a \<Rightarrow> serve_end + 'a serve_state" where
  "serve_start ops config env a =
     (case wire_protocol_of (ad_id ops a) of
        None \<Rightarrow> Inl NotAHelperProtocol
      | Some w \<Rightarrow>
          let s = \<lparr>he_protocol = ad_id ops a, he_wire = w, he_vault = sc_phone config, he_adapter = a,
                   he_queue = [], he_out = [], he_open = True, he_phase = Serving\<rparr>
          in (case serve_write env (Hello PROTOCOL_VERSION (sc_version config) [w]) s of
                (Some _, _) \<Rightarrow> Inl AppGone
              | (None, s) \<Rightarrow>
                  let (a', new) = ad_start ops a in Inr (s\<lparr>he_adapter := a', he_queue := new\<rparr>)))"

datatype serve_input =
    AppLine "unit frame_error + app_line option"
  | NextEvent
  | AdapterEmits adapter_event
  | StopWaitOver

definition serve_line ::
    "'a adapter_ops \<Rightarrow> serve_env \<Rightarrow> unit frame_error + app_line option \<Rightarrow> 'a serve_state \<Rightarrow> 'a serve_state" where
  "serve_line ops env line s =
     (case line of
        Inr (Some (Request i named command)) \<Rightarrow>
          if named \<noteq> he_wire s then begin_stop ops (EndBadLine Unexpected) s
          else
            (case serve_write env (Ack i) (serve_route ops command s) of
               (None, s) \<Rightarrow> s
             | (Some _, s) \<Rightarrow> begin_stop ops AppGone (s\<lparr>he_open := False\<rparr>))
      | Inr (Some Shutdown) \<Rightarrow> begin_stop ops EndShutdown s
      | Inr None \<Rightarrow> begin_stop ops AppGone s
      | Inl e \<Rightarrow> begin_stop ops (EndBadLine e) s)"

definition serve_event :: "'a adapter_ops \<Rightarrow> serve_env \<Rightarrow> 'a serve_state \<Rightarrow> 'a serve_state" where
  "serve_event ops env s =
     (case he_queue s of
        [] \<Rightarrow> s
      | ev # q \<Rightarrow>
          (case forward env ev (s\<lparr>he_queue := q\<rparr>) of
             (True, s) \<Rightarrow> s
           | (False, s) \<Rightarrow> begin_stop ops AppGone (s\<lparr>he_open := False\<rparr>)))"

text \<open>\<open>wait_stopped\<close> and the rest of \<open>stop\<close>.\<close>

definition stop_event :: "serve_env \<Rightarrow> serve_end \<Rightarrow> 'a serve_state \<Rightarrow> 'a serve_state" where
  "stop_event env e s =
     (case he_queue s of
        [] \<Rightarrow> s
      | ev # q \<Rightarrow>
          let s = s\<lparr>he_queue := q\<rparr> in
          if ev = EvStopped (he_protocol s) then
            (if he_open s then snd (serve_write env (HelperStopped (he_wire s)) s) else s)\<lparr>he_phase := Returned e\<rparr>
          else if he_open s then
            (case forward env ev s of (True, s) \<Rightarrow> s | (False, s) \<Rightarrow> s\<lparr>he_open := False\<rparr>)
          else s)"

definition serve_step ::
    "'a adapter_ops \<Rightarrow> serve_env \<times> serve_input \<Rightarrow> 'a serve_state \<Rightarrow> 'a serve_state" where
  "serve_step ops x s =
     (case x of (env, input) \<Rightarrow>
        (case he_phase s of
           Serving \<Rightarrow>
             (case input of
                AppLine line \<Rightarrow> serve_line ops env line s
              | NextEvent \<Rightarrow> serve_event ops env s
              | AdapterEmits ev \<Rightarrow> s\<lparr>he_queue := he_queue s @ [ev]\<rparr>
              | StopWaitOver \<Rightarrow> s)
         | Stopping e \<Rightarrow>
             (case input of
                NextEvent \<Rightarrow> stop_event env e s
              | StopWaitOver \<Rightarrow> s\<lparr>he_phase := Returned e\<rparr>
              | AdapterEmits ev \<Rightarrow> s\<lparr>he_queue := he_queue s @ [ev]\<rparr>
              | AppLine _ \<Rightarrow> s)
         | Returned _ \<Rightarrow> s))"

definition serve_run ::
    "'a adapter_ops \<Rightarrow> (serve_env \<times> serve_input) list \<Rightarrow> 'a serve_state \<Rightarrow> 'a serve_state" where
  "serve_run ops ins s = foldl (\<lambda>s x. serve_step ops x s) s ins"

lemma serve_run_simps [simp]:
  "serve_run ops [] s = s" "serve_run ops (x # ins) s = serve_run ops ins (serve_step ops x s)"
  "serve_run ops (ins @ ins') s = serve_run ops ins' (serve_run ops ins s)"
  by (simp_all add: serve_run_def)

section \<open>What a step changes\<close>

definition wrote :: "'a serve_state \<Rightarrow> helper_line list \<Rightarrow> 'a serve_state" where
  "wrote s new = s\<lparr>he_out := he_out s @ new\<rparr>"

lemma wrote_simps [simp]:
  "he_out (wrote s new) = he_out s @ new" "he_protocol (wrote s new) = he_protocol s"
  "he_wire (wrote s new) = he_wire s" "he_vault (wrote s new) = he_vault s"
  "he_adapter (wrote s new) = he_adapter s" "he_queue (wrote s new) = he_queue s"
  "he_open (wrote s new) = he_open s" "he_phase (wrote s new) = he_phase s" "wrote s [] = s"
  by (simp_all add: wrote_def)

lemma serve_write_cases:
  obtains (failed) e where "serve_write env line s = (Some e, s)"
    | (written) "serve_write env line s = (None, wrote s [line])"
  by (cases "encode (se_json env) line :: unit frame_error + string"; cases "se_pipe env")
    (simp_all add: serve_write_def wrote_def)

lemma forward_cases:
  obtains (left) ok where "forward env ev s = (ok, s)"
    | (sent) w where "event_to_wire (he_protocol s) ev = Some w" "forward env ev s = (True, wrote s [Event (he_wire s) w])"
proof (cases "event_to_wire (he_protocol s) ev")
  case None
  then show ?thesis by (intro left [of True]) (simp add: forward_def)
next
  case (Some w)
  show ?thesis
  proof (cases env "Event (he_wire s) w" s rule: serve_write_cases)
    case (failed e)
    with Some show ?thesis by (cases e) (auto simp: forward_def intro: left)
  next
    case written
    with Some show ?thesis by (intro sent) (simp_all add: forward_def)
  qed
qed

lemma set_vault_keeps [simp]:
  "he_out (set_vault c ph s) = he_out s" "he_protocol (set_vault c ph s) = he_protocol s"
  "he_wire (set_vault c ph s) = he_wire s" "he_adapter (set_vault c ph s) = he_adapter s"
  "he_queue (set_vault c ph s) = he_queue s" "he_open (set_vault c ph s) = he_open s"
  "he_phase (set_vault c ph s) = he_phase s"
  by (simp_all add: set_vault_def)

lemma not_view_chat:
  "(\<And>p chat. c \<noteq> CmdViewChat p chat) \<Longrightarrow> (case c of CmdViewChat p chat \<Rightarrow> f p chat | _ \<Rightarrow> g) = g"
  by (cases c) auto

lemma serve_route_command:
  assumes "command_from_wire (he_protocol s) w = Some (c, phone)" and "\<And>p chat. c \<noteq> CmdViewChat p chat"
    and "ad_handle ops (Option.bind (he_vault (set_vault w phone s)) id) c (he_adapter s) = (r, a', new)"
  shows "serve_route ops w s = (set_vault w phone s)\<lparr>he_adapter := a', he_queue := he_queue s @ new @
    (case r of None \<Rightarrow> [] | Some err \<Rightarrow> [EvStatus (error_protocol err) (error_status err) (error_text err)])\<rparr>"
  using assms by (simp add: serve_route_def not_view_chat Let_def serve_report_def split: option.split)

lemma serve_route_form: "\<exists>v a q. serve_route ops w s = s\<lparr>he_vault := v, he_adapter := a, he_queue := q\<rparr>"
proof -
  have id: "t = t\<lparr>he_vault := he_vault t, he_adapter := he_adapter t, he_queue := he_queue t\<rparr>" for t :: "'a serve_state"
    by simp
  have v: "\<exists>v. set_vault w phone s = s\<lparr>he_vault := v\<rparr>" for phone
    by (cases "is_begin_link w") (fastforce simp: set_vault_def intro: exI [of _ "he_vault s"])+
  show ?thesis
  proof (cases "command_from_wire (he_protocol s) w")
    case None
    then show ?thesis
      by (intro exI [of _ "he_vault s"] exI [of _ "he_adapter s"] exI) (simp add: serve_route_def serve_report_def)
  next
    case (Some cp)
    obtain c phone where cp: "cp = (c, phone)" by fastforce
    obtain u where u: "set_vault w phone s = s\<lparr>he_vault := u\<rparr>" using v by blast
    show ?thesis
    proof (cases "\<exists>p chat. c = CmdViewChat p chat")
      case True
      then obtain p chat where c: "c = CmdViewChat p chat" by blast
      obtain a' new where "ad_view_chat ops chat (he_adapter s) = (a', new)" by fastforce
      with Some cp c u have "serve_route ops w s = s\<lparr>he_vault := u, he_adapter := a', he_queue := he_queue s @ new\<rparr>"
        by (simp add: serve_route_def)
      then show ?thesis by blast
    next
      case False
      obtain r a' new where "ad_handle ops (Option.bind (he_vault (set_vault w phone s)) id) c (he_adapter s) = (r, a', new)"
        by (metis prod_cases3)
      with serve_route_command [of s w c phone ops r a' new] Some cp False u show ?thesis by auto
    qed
  qed
qed

lemma serve_route_keeps [simp]:
  "he_out (serve_route ops w s) = he_out s" "he_protocol (serve_route ops w s) = he_protocol s"
  "he_wire (serve_route ops w s) = he_wire s" "he_open (serve_route ops w s) = he_open s"
  "he_phase (serve_route ops w s) = he_phase s"
  using serve_route_form [of ops w s] by auto

lemma begin_stop_keeps [simp]:
  "he_out (begin_stop ops e s) = he_out s" "he_protocol (begin_stop ops e s) = he_protocol s"
  "he_wire (begin_stop ops e s) = he_wire s" "he_open (begin_stop ops e s) = he_open s"
  "he_phase (begin_stop ops e s) = Stopping e"
  by (simp_all add: begin_stop_def split: prod.split)

text \<open>What one step gives in each phase.\<close>

lemma serve_line_cases:
  obtains (answered) i c where "line = Inr (Some (Request i (he_wire s) c))"
      "serve_line ops env line s = wrote (serve_route ops c s) [Ack i]"
    | (unanswered) i c where "line = Inr (Some (Request i (he_wire s) c))"
      "serve_line ops env line s = begin_stop ops AppGone ((serve_route ops c s)\<lparr>he_open := False\<rparr>)"
    | (ends) e where "serve_line ops env line s = begin_stop ops e s"
proof (cases "\<exists>i c. line = Inr (Some (Request i (he_wire s) c))")
  case True
  then obtain i c where l: "line = Inr (Some (Request i (he_wire s) c))" by blast
  show ?thesis
    by (cases env "Ack i" "serve_route ops c s" rule: serve_write_cases)
      (simp_all add: serve_line_def l answered unanswered)
next
  case False
  then have "\<exists>e. serve_line ops env line s = begin_stop ops e s"
    by (auto simp: serve_line_def split: sum.split option.split app_line.split)
  with ends show ?thesis by blast
qed

lemma serve_event_cases:
  obtains (same) "he_queue s = []" "serve_event ops env s = s"
    | (sent) ev q w where "he_queue s = ev # q" "event_to_wire (he_protocol s) ev = Some w"
      "serve_event ops env s = wrote (s\<lparr>he_queue := q\<rparr>) [Event (he_wire s) w]"
    | (left) ev q where "he_queue s = ev # q" "serve_event ops env s = s\<lparr>he_queue := q\<rparr>"
    | (broken) ev q where "he_queue s = ev # q"
      "serve_event ops env s = begin_stop ops AppGone (s\<lparr>he_queue := q, he_open := False\<rparr>)"
proof (cases "he_queue s")
  case Nil
  then show ?thesis by (intro same) (simp_all add: serve_event_def)
next
  case (Cons ev q)
  show ?thesis
  proof (cases env ev "s\<lparr>he_queue := q\<rparr>" rule: forward_cases)
    case (left ok)
    with Cons that(3,4) show ?thesis by (cases ok) (simp_all add: serve_event_def)
  next
    case (sent w)
    with Cons that(2) show ?thesis by (simp add: serve_event_def)
  qed
qed

lemma same_open: "he_open t = b \<Longrightarrow> t\<lparr>he_open := b\<rparr> = t"
  by auto

lemma stop_event_cases:
  assumes "he_phase s = Stopping e"
  obtains (same) "he_queue s = []" "stop_event env e s = s"
    | (last) q new where "he_queue s = EvStopped (he_protocol s) # q" "new \<in> {[], [HelperStopped (he_wire s)]}"
      "stop_event env e s = (wrote (s\<lparr>he_queue := q\<rparr>) new)\<lparr>he_phase := Returned e\<rparr>"
    | (later) ev q new b where "he_queue s = ev # q" "ev \<noteq> EvStopped (he_protocol s)"
      "new \<in> {[]} \<union> range (\<lambda>w. [Event (he_wire s) w])"
      "stop_event env e s = (wrote (s\<lparr>he_queue := q\<rparr>) new)\<lparr>he_open := b\<rparr>"
proof (cases "he_queue s")
  case Nil
  then show ?thesis by (intro same) (simp_all add: stop_event_def)
next
  case (Cons ev q)
  show ?thesis
  proof (cases "ev = EvStopped (he_protocol s)")
    case True
    obtain r where "serve_write env (HelperStopped (he_wire s)) (s\<lparr>he_queue := q\<rparr>) =
        (r, wrote (s\<lparr>he_queue := q\<rparr>) (if r = None then [HelperStopped (he_wire s)] else []))"
      by (cases env "HelperStopped (he_wire s)" "s\<lparr>he_queue := q\<rparr>" rule: serve_write_cases) auto
    with True Cons that(2) [of q "if he_open s \<and> r = None then [HelperStopped (he_wire s)] else []"]
    show ?thesis by (cases "he_open s") (simp_all add: stop_event_def Let_def)
  next
    case False
    show ?thesis
    proof (cases env ev "s\<lparr>he_queue := q\<rparr>" rule: forward_cases)
      case (left ok)
      with Cons False have "stop_event env e s = (wrote (s\<lparr>he_queue := q\<rparr>) [])\<lparr>he_open := he_open s \<and> ok\<rparr>"
        by (cases "he_open s"; cases ok) (simp_all add: stop_event_def Let_def same_open)
      with Cons False show ?thesis by (intro later) auto
    next
      case (sent w)
      with Cons False have "stop_event env e s =
          (wrote (s\<lparr>he_queue := q\<rparr>) (if he_open s then [Event (he_wire s) w] else []))\<lparr>he_open := he_open s\<rparr>"
        by (cases "he_open s") (simp_all add: stop_event_def Let_def same_open)
      with Cons False show ?thesis by (intro later) auto
    qed
  qed
qed

text \<open>All steps at once: what a step writes and where it leads.\<close>

lemma serve_step_cases:
  obtains (serving) i where "he_phase s = Serving" "he_phase (serve_step ops x s) = Serving"
      "\<exists>c. snd x = AppLine (Inr (Some (Request i (he_wire s) c)))"
      "he_out (serve_step ops x s) = he_out s @ [Ack i]"
    | (event) w where "he_phase (serve_step ops x s) = he_phase s" "\<forall>l. snd x \<noteq> AppLine l"
      "he_out (serve_step ops x s) = he_out s @ [Event (he_wire s) w]" "\<forall>e. he_phase s \<noteq> Returned e"
    | (quiet) "he_phase (serve_step ops x s) = he_phase s" "he_out (serve_step ops x s) = he_out s"
      "he_phase s = Serving \<longrightarrow> (\<forall>l. snd x \<noteq> AppLine l)"
    | (leaves) e where "he_phase s = Serving" "he_phase (serve_step ops x s) = Stopping e"
      "he_out (serve_step ops x s) = he_out s"
    | (ends) e new where "he_phase s = Stopping e" "he_phase (serve_step ops x s) = Returned e"
      "he_out (serve_step ops x s) = he_out s @ new" "new \<in> {[], [HelperStopped (he_wire s)]}"
proof -
  obtain env input where x: "x = (env, input)" by fastforce
  show ?thesis
  proof (cases "he_phase s")
    case Serving
    show ?thesis
    proof (cases input)
      case (AppLine line)
      show ?thesis
        by (rule serve_line_cases [of line s ops env])
          (use x Serving AppLine that(1,4) in \<open>auto simp: serve_step_def\<close>)
    next
      case NextEvent
      show ?thesis
        by (rule serve_event_cases [of s ops env])
          (use x Serving NextEvent that(2,3,4) in \<open>auto simp: serve_step_def\<close>)
    qed (use x Serving that(3) in \<open>simp_all add: serve_step_def\<close>)
  next
    case (Stopping e)
    show ?thesis
    proof (cases input)
      case NextEvent
      show ?thesis
        by (rule stop_event_cases [OF Stopping, of env])
          (use x Stopping NextEvent that(2,3,5) in \<open>auto simp: serve_step_def\<close>)
    qed (use x Stopping that(3) that(5) [of e "[]"] in \<open>simp_all add: serve_step_def\<close>)
  next
    case (Returned e)
    with that(3) show ?thesis by (simp add: serve_step_def x)
  qed
qed

lemma serve_step_ids [simp]:
  "he_wire (serve_step ops x s) = he_wire s" "he_protocol (serve_step ops x s) = he_protocol s"
proof -
  obtain env input where x: "x = (env, input)" by fastforce
  have l: "he_wire (serve_line ops env line s) = he_wire s \<and> he_protocol (serve_line ops env line s) = he_protocol s"
    for line
    by (rule serve_line_cases [of line s ops env]) simp_all
  have e: "he_wire (serve_event ops env s) = he_wire s \<and> he_protocol (serve_event ops env s) = he_protocol s"
    by (rule serve_event_cases [of s ops env]) simp_all
  have t: "he_phase s = Stopping e \<Longrightarrow> he_wire (stop_event env e s) = he_wire s \<and>
      he_protocol (stop_event env e s) = he_protocol s" for e
    by (erule stop_event_cases [of s e env]) simp_all
  show "he_wire (serve_step ops x s) = he_wire s" "he_protocol (serve_step ops x s) = he_protocol s"
    using l e t by (auto simp: serve_step_def x split: serve_phase.split serve_input.split)
qed

section \<open>What the helper writes\<close>

fun reply_ok :: "wire_protocol \<Rightarrow> helper_line \<Rightarrow> bool" where
  "reply_ok w (Ack _) = True"
| "reply_ok w (Event p _) = (p = w)"
| "reply_ok w _ = False"

text \<open>A greeting, then answers and events of the own protocol, and, once the helper is \<open>over\<close>,
  \<open>Stopped\<close> last if at all.\<close>

definition ends_well :: "bool \<Rightarrow> wire_protocol \<Rightarrow> helper_line list \<Rightarrow> bool" where
  "ends_well over w ending \<longleftrightarrow> ending = [] \<or> over \<and> ending = [HelperStopped w]"

definition proper_output :: "bool \<Rightarrow> wire_protocol \<Rightarrow> helper_line list \<Rightarrow> bool" where
  "proper_output over w out \<longleftrightarrow> (\<exists>version rest ending. out = Hello PROTOCOL_VERSION version [w] # rest @ ending \<and>
     list_all (reply_ok w) rest \<and> ends_well over w ending)"

definition returned :: "serve_phase \<Rightarrow> bool" where
  "returned ph \<longleftrightarrow> (case ph of Returned _ \<Rightarrow> True | _ \<Rightarrow> False)"

definition serve_inv :: "'a serve_state \<Rightarrow> bool" where
  "serve_inv s \<longleftrightarrow> proper_output (returned (he_phase s)) (he_wire s) (he_out s)"

lemma returned_simps [simp]: "returned (Returned e)" "\<not> returned Serving" "\<not> returned (Stopping e)"
  by (simp_all add: returned_def)

lemma returned_iff: "returned ph \<longleftrightarrow> (\<exists>e. ph = Returned e)"
  by (cases ph) simp_all

lemma proper_output_more:
  assumes "proper_output False w out" "list_all (reply_ok w) new" "ends_well over w ending"
  shows "proper_output over w (out @ new @ ending)"
proof -
  from assms(1) obtain version rest where "out = Hello PROTOCOL_VERSION version [w] # rest" "list_all (reply_ok w) rest"
    by (auto simp: proper_output_def ends_well_def)
  with assms(2,3) have "out @ new @ ending = Hello PROTOCOL_VERSION version [w] # (rest @ new) @ ending \<and>
      list_all (reply_ok w) (rest @ new) \<and> ends_well over w ending" by simp
  then show ?thesis unfolding proper_output_def by blast
qed

lemma serve_inv_more:
  assumes "serve_inv s" "\<not> returned (he_phase s)" "he_wire t = he_wire s" "he_out t = he_out s @ new @ ending"
    and "list_all (reply_ok (he_wire s)) new" and "ends_well (returned (he_phase t)) (he_wire s) ending"
  shows "serve_inv t"
  using proper_output_more [OF _ assms(5,6)] assms(1-4) by (simp add: serve_inv_def)

lemma serve_step_inv:
  assumes "serve_inv s"
  shows "serve_inv (serve_step ops x s)"
proof (cases ops x s rule: serve_step_cases)
  case (serving i)
  show ?thesis
    by (rule serve_inv_more [OF assms, where new = "[Ack i]" and ending = "[]"])
      (use serving in \<open>simp_all add: ends_well_def\<close>)
next
  case (event w)
  show ?thesis
    by (rule serve_inv_more [OF assms, where new = "[Event (he_wire s) w]" and ending = "[]"])
      (use event in \<open>simp_all add: ends_well_def returned_iff\<close>)
next
  case (ends e new)
  show ?thesis
    by (rule serve_inv_more [OF assms, where new = "[]" and ending = new])
      (use ends in \<open>auto simp: ends_well_def\<close>)
qed (use assms in \<open>simp_all add: serve_inv_def\<close>)

lemma serve_run_inv: "serve_inv s \<Longrightarrow> serve_inv (serve_run ops ins s)"
  by (induction ins arbitrary: s) (simp_all add: serve_step_inv)

lemma serve_run_ids [simp]:
  "he_wire (serve_run ops ins s) = he_wire s" "he_protocol (serve_run ops ins s) = he_protocol s"
  by (induction ins arbitrary: s) simp_all

lemma serve_start_form:
  assumes "serve_start ops config env a = Inr s"
  shows "wire_protocol_of (ad_id ops a) = Some (he_wire s) \<and> he_protocol s = ad_id ops a \<and>
    he_out s = [Hello PROTOCOL_VERSION (sc_version config) [he_wire s]] \<and> he_phase s = Serving \<and> he_open s \<and>
    he_vault s = sc_phone config \<and> ad_start ops a = (he_adapter s, he_queue s)"
  using assms
  by (auto simp: serve_start_def serve_write_def Let_def split: option.splits sum.splits if_splits prod.splits)

lemma serve_start_inv: "serve_start ops config env a = Inr s \<Longrightarrow> serve_inv s"
  using serve_start_form [of ops config env a s]
  by (simp add: serve_inv_def proper_output_def ends_well_def)

section \<open>Answers to requests\<close>

fun ack_ids :: "helper_line list \<Rightarrow> u64 list" where
  "ack_ids [] = []"
| "ack_ids (Ack i # ls) = i # ack_ids ls"
| "ack_ids (_ # ls) = ack_ids ls"

lemma ack_ids_append [simp]: "ack_ids (xs @ ys) = ack_ids xs @ ack_ids ys"
  by (induction xs rule: ack_ids.induct) simp_all

fun request_ids :: "(serve_env \<times> serve_input) list \<Rightarrow> u64 list" where
  "request_ids [] = []"
| "request_ids ((_, AppLine (Inr (Some (Request i _ _)))) # ins) = i # request_ids ins"
| "request_ids (_ # ins) = request_ids ins"

lemma request_ids_other: "(\<forall>l. snd x \<noteq> AppLine l) \<Longrightarrow> request_ids (x # ins) = request_ids ins"
  by (cases x; cases "snd x") auto

lemma serve_run_stopped:
  "he_phase s \<noteq> Serving \<Longrightarrow>
   he_phase (serve_run ops ins s) \<noteq> Serving \<and> ack_ids (he_out (serve_run ops ins s)) = ack_ids (he_out s)"
proof (induction ins arbitrary: s)
  case (Cons x ins)
  have "he_phase (serve_step ops x s) \<noteq> Serving \<and> ack_ids (he_out (serve_step ops x s)) = ack_ids (he_out s)"
    by (cases ops x s rule: serve_step_cases) (use Cons.prems in auto)
  with Cons.IH show ?case by simp
qed simp

lemma serve_run_acks:
  assumes "he_phase s = Serving"
  shows "(he_phase (serve_run ops ins s) = Serving \<longrightarrow>
       ack_ids (he_out (serve_run ops ins s)) = ack_ids (he_out s) @ request_ids ins) \<and>
    (\<exists>later. ack_ids (he_out s) @ request_ids ins = ack_ids (he_out (serve_run ops ins s)) @ later)"
  using assms
proof (induction ins arbitrary: s)
  case (Cons x ins)
  let ?t = "serve_step ops x s"
  show ?case
  proof (cases ops x s rule: serve_step_cases)
    case (serving i)
    then obtain env c where "x = (env, AppLine (Inr (Some (Request i (he_wire s) c))))" by (cases x) auto
    with Cons.IH [OF serving(2)] serving(4) show ?thesis by simp
  next
    case (event w)
    with Cons.IH [of ?t] Cons.prems request_ids_other [of x ins] show ?thesis by simp
  next
    case quiet
    with Cons.IH [of ?t] Cons.prems request_ids_other [of x ins] show ?thesis by simp
  next
    case (leaves e)
    with serve_run_stopped [of ?t ops ins] show ?thesis by simp
  next
    case (ends e new)
    with Cons.prems show ?thesis by simp
  qed
qed simp

section \<open>The app takes what the helper writes\<close>

definition greeted_run :: "supervisor \<Rightarrow> u64 \<Rightarrow> wire_protocol \<Rightarrow> bool" where
  "greeted_run s run w \<longleftrightarrow> \<not> sv_stopping s \<and> sv_wire s = w \<and>
     pred_option (\<lambda>lk. lk_greeted lk \<and> lk_run lk = run) (sv_link s) \<and> sv_link s \<noteq> None"

lemma greeted_run_other [simp]:
  "greeted_run (s\<lparr>sv_events := x1\<rparr>) = greeted_run s" "greeted_run (s\<lparr>sv_sends := x2\<rparr>) = greeted_run s"
  "greeted_run (s\<lparr>sv_account := x3\<rparr>) = greeted_run s" "greeted_run (s\<lparr>sv_reported := x4\<rparr>) = greeted_run s"
  "greeted_run (s\<lparr>sv_replay := x5\<rparr>) = greeted_run s" "greeted_run (s\<lparr>sv_linked_once := x6\<rparr>) = greeted_run s"
  "greeted_run (s\<lparr>sv_wake_link := x7\<rparr>) = greeted_run s" "greeted_run (s\<lparr>sv_next_id := x8\<rparr>) = greeted_run s"
  "greeted_run (s\<lparr>sv_restart_at := x9\<rparr>) = greeted_run s" "greeted_run (s\<lparr>sv_start_waits := x10\<rparr>) = greeted_run s"
  "greeted_run (s\<lparr>sv_old_exit_deadline := x11\<rparr>) = greeted_run s" "greeted_run (s\<lparr>sv_sent := x12\<rparr>) = greeted_run s"
  by (rule ext, rule ext, simp add: greeted_run_def)+

lemma note_send_greeted [simp]: "greeted_run (note_send c s) = greeted_run s"
  by (auto simp: note_send_def split: option.split)

lemma take_id_greeted [simp]: "greeted_run (take_id s) = greeted_run s"
  by (simp add: take_id_def)

lemma answer_greeted [simp]: "greeted_run (answer_without_helper c s) = greeted_run s"
  by (simp add: updates)

lemma request_greeted: "greeted_run s run w \<Longrightarrow> greeted_run (request env c s) run w"
proof -
  assume g: "greeted_run s run w"
  then obtain lk where lk: "sv_link s = Some lk" "lk_greeted lk" "lk_run lk = run" "\<not> sv_stopping s" "sv_wire s = w"
    by (cases "sv_link s") (auto simp: greeted_run_def)
  show ?thesis
    by (rule request_cases [of s env c])
      (use lk g in \<open>simp_all add: fail_unsent_pairing_update, simp_all add: greeted_run_def take_id_def\<close>)
qed

lemma requests_greeted: "greeted_run s run w \<Longrightarrow> greeted_run (foldl (\<lambda>s c. request env c s) s cs) run w"
  by (induction cs arbitrary: s) (simp_all add: request_greeted)

lemma on_line_greeted:
  assumes "greeted_run s run w" and "reply_ok w line \<or> line = HelperStopped w"
  shows "greeted_run (on_line env line s) run w"
proof -
  obtain lk where lk: "sv_link s = Some lk" "lk_greeted lk" "lk_run lk = run" "\<not> sv_stopping s" "sv_wire s = w"
    using assms(1) by (cases "sv_link s") (auto simp: greeted_run_def)
  show ?thesis
  proof (cases line)
    case (Ack i)
    with lk show ?thesis by (simp add: on_line_def on_ack_def Let_def greeted_run_def)
  next
    case (Event p ev)
    moreover have "greeted_run (on_event ev s) run w"
      using assms(1)
      by (auto simp: on_event_def sv_emit_def end_pairing_def Let_def split: option.split
          adapter_event.split account_state.split)
    ultimately show ?thesis using assms lk by (simp add: on_line_def Let_def)
  qed (use assms lk in \<open>auto simp: on_line_def Let_def\<close>)
qed

lemma on_hello_greeted:
  assumes "sv_link s = Some lk" "\<not> lk_greeted lk" "\<not> sv_stopping s" "sv_wire s = w"
  shows "greeted_run (on_line env (Hello PROTOCOL_VERSION version [w]) s) (lk_run lk) w"
  using assms by (auto simp: on_line_def on_hello_def Let_def intro!: requests_greeted) (simp add: greeted_run_def)

lemma replies_greeted:
  "greeted_run s run w \<Longrightarrow> list_all (\<lambda>l. reply_ok w l \<or> l = HelperStopped w) (map snd ls) \<Longrightarrow>
   greeted_run (foldl (\<lambda>s (env, line). on_line env line s) s ls) run w"
  by (induction ls arbitrary: s) (auto simp: on_line_greeted)

lemma proper_output_accepted:
  assumes "proper_output over w (map snd ls)"
    and "sv_link s = Some lk" "\<not> lk_greeted lk" "\<not> sv_stopping s" "sv_wire s = w"
  shows "greeted_run (foldl (\<lambda>s (env, line). on_line env line s) s ls) (lk_run lk) w"
proof -
  from assms(1) obtain version rest ending where o: "map snd ls = Hello PROTOCOL_VERSION version [w] # rest @ ending"
      "list_all (reply_ok w) rest" "ends_well over w ending"
    unfolding proper_output_def by (elim exE conjE) (rule that)
  then obtain env ls' where l: "ls = (env, Hello PROTOCOL_VERSION version [w]) # ls'" "map snd ls' = rest @ ending"
    by (cases ls) auto
  from o(2,3) have "list_all (\<lambda>l. reply_ok w l \<or> l = HelperStopped w) (map snd ls')"
    unfolding l(2) by (auto simp: list_all_iff ends_well_def)
  with replies_greeted [OF on_hello_greeted [OF assms(2-5), of env version]] show ?thesis
    by (simp add: l(1))
qed

section \<open>Stopping\<close>

text \<open>Every line has a JSON text, the farewell fits in a line, and the pipe takes a write.\<close>

definition writable :: "wire_protocol \<Rightarrow> serve_env \<Rightarrow> bool" where
  "writable w env \<longleftrightarrow> se_pipe env \<and> (\<forall>l. \<exists>t. se_json env l = Inr t \<and>
     (l = HelperStopped w \<longrightarrow> length t \<le> MAX_LINE_BYTES))"

lemma writable_farewell: "writable w env \<Longrightarrow> serve_write env (HelperStopped w) s = (None, wrote s [HelperStopped w])"
proof -
  assume "writable w env"
  then obtain t where "se_pipe env" "se_json env (HelperStopped w) = Inr t" "length t \<le> MAX_LINE_BYTES"
    unfolding writable_def by blast
  then show ?thesis by (simp add: serve_write_def encode_def wrote_def)
qed

lemma writable_forward: "writable w env \<Longrightarrow> fst (forward env ev s)"
proof -
  assume "writable w env"
  then have "se_pipe env" "\<And>l. \<exists>t. se_json env l = Inr t" by (auto simp: writable_def)
  from this(2) [of "Event (he_wire s) (the (event_to_wire (he_protocol s) ev))"] this(1) show ?thesis
    by (auto simp: forward_def serve_write_def encode_def split: option.split)
qed

lemma stop_event_writable:
  assumes "he_queue s = ev # q" "ev \<noteq> EvStopped (he_protocol s)" "he_open s" "writable w env" "he_phase s = Stopping e"
  shows "\<exists>new. stop_event env e s = wrote (s\<lparr>he_queue := q\<rparr>) new"
proof (cases env ev "s\<lparr>he_queue := q\<rparr>" rule: forward_cases)
  case (left ok)
  with writable_forward [OF assms(4), of ev "s\<lparr>he_queue := q\<rparr>"] assms
  have "stop_event env e s = wrote (s\<lparr>he_queue := q\<rparr>) []" by (simp add: stop_event_def)
  then show ?thesis by blast
next
  case (sent x)
  with assms have "stop_event env e s = wrote (s\<lparr>he_queue := q\<rparr>) [Event (he_wire s) x]" by (simp add: stop_event_def)
  then show ?thesis by blast
qed

lemma stopping_drains:
  assumes "he_phase s = Stopping e" "he_open s" "writable (he_wire s) env"
    and "he_queue s = pre @ EvStopped (he_protocol s) # post" "EvStopped (he_protocol s) \<notin> set pre"
  shows "let t = serve_run ops (replicate (Suc (length pre)) (env, NextEvent)) s
    in he_phase t = Returned e \<and> (\<exists>out. he_out t = out @ [HelperStopped (he_wire s)])"
  using assms
proof (induction pre arbitrary: s)
  case Nil
  then show ?case by (simp add: serve_step_def stop_event_def writable_farewell)
next
  case (Cons ev pre)
  from Cons.prems obtain new where n:
    "stop_event env e s = wrote (s\<lparr>he_queue := pre @ EvStopped (he_protocol s) # post\<rparr>) new"
    using stop_event_writable [of s ev "pre @ EvStopped (he_protocol s) # post" "he_wire s" env e] by auto
  have "serve_step ops (env, NextEvent) s = stop_event env e s" using Cons.prems(1) by (simp add: serve_step_def)
  with Cons.IH [of "stop_event env e s"] Cons.prems show ?case by (simp add: n)
qed

context idle_adapter
begin

lemma helper_stop_confirmed:
  assumes "he_phase s = Serving" "he_open s" "writable (he_wire s) env" "ad_id ops (he_adapter s) = he_protocol s"
  shows "\<exists>n \<le> Suc (length (he_queue s)).
    let t = serve_run ops ((env, AppLine (Inr (Some Shutdown))) # replicate n (env, NextEvent)) s
    in he_phase t = Returned EndShutdown \<and> (\<exists>out. he_out t = out @ [HelperStopped (he_wire s)])"
proof -
  let ?u = "begin_stop ops EndShutdown s" and ?x = "EvStopped (he_protocol s)"
  have q: "he_queue ?u = he_queue s @ [?x]"
    using shutdown_stops [of "he_adapter s"] assms(4)
    by (cases "ad_shutdown ops (he_adapter s)") (simp add: begin_stop_def)
  have step: "serve_step ops (env, AppLine (Inr (Some Shutdown))) s = ?u"
    using assms(1) by (simp add: serve_step_def serve_line_def)
  from q obtain pre post where split: "he_queue ?u = pre @ ?x # post" "?x \<notin> set pre"
    by (metis in_set_conv_decomp_first list.set_intros(1) append_is_Nil_conv in_set_conv_decomp)
  from q split have "length pre \<le> length (he_queue s)"
    by (metis append_eq_append_conv2 length_append_singleton length_append length_Cons add_Suc_right
        le_add1 Suc_le_mono)
  then show ?thesis
    using stopping_drains [of ?u EndShutdown env pre post ops] split assms(2,3)
    by (intro exI [of _ "Suc (length pre)"]) (simp add: step Let_def)
qed

end

section \<open>Properties\<close>

text \<open>The helper answers the requests in order: from its start on, the acknowledged ids are those of
  the requests it read, none skipped and none twice; all of them while it serves, a prefix of them
  once it stops.\<close>

theorem requests_acknowledged:
  assumes "serve_start ops config env a = Inr s0" and "serve_run ops ins s0 = s"
  shows "(he_phase s = Serving \<longrightarrow> ack_ids (he_out s) = request_ids ins) \<and>
    (\<exists>later. request_ids ins = ack_ids (he_out s) @ later)"
proof -
  from serve_start_form [OF assms(1)] have "he_phase s0 = Serving" "ack_ids (he_out s0) = []" by simp_all
  with serve_run_acks [of s0 ops ins] assms(2) show ?thesis by simp
qed

definition demo_serve_env :: serve_env where
  "demo_serve_env = \<lparr>se_json = (\<lambda>_. Inr ''{}''), se_pipe = True\<rparr>"

definition demo_serve :: "whatsapp_adapter serve_state" where
  "demo_serve = \<lparr>he_protocol = primary WhatsApp, he_wire = WireWhatsApp, he_vault = Some None,
     he_adapter = WhatsAppAdapter False, he_queue = emit_status (primary WhatsApp) Stubbed whatsapp_detail [],
     he_out = [Hello PROTOCOL_VERSION ''1.0'' [WireWhatsApp]], he_open = True, he_phase = Serving\<rparr>"

lemma demo_write: "serve_write demo_serve_env l s = (None, s\<lparr>he_out := he_out s @ [l]\<rparr>)"
  by (simp add: serve_write_def encode_def demo_serve_env_def MAX_LINE_BYTES_def)

lemma demo_serve_started:
  "serve_start whatsapp_ops \<lparr>sc_version = ''1.0'', sc_phone = Some None\<rparr> demo_serve_env (WhatsAppAdapter False) =
     Inr demo_serve"
  by (simp add: serve_start_def demo_write whatsapp_ops_def wire_protocol_of_def wa_start_def demo_serve_def primary_def)

theorem requests_acknowledged_witness:
  "ack_ids (he_out (serve_run whatsapp_ops
      [(demo_serve_env, AppLine (Inr (Some (Request 1 WireWhatsApp WAcknowledgeGate)))),
       (demo_serve_env, AppLine (Inr (Some (Request 2 WireWhatsApp WLoadChats))))] demo_serve)) = [1, 2]"
proof -
  let ?ins = "[(demo_serve_env, AppLine (Inr (Some (Request 1 WireWhatsApp WAcknowledgeGate)))),
       (demo_serve_env, AppLine (Inr (Some (Request 2 WireWhatsApp WLoadChats))))]"
  have "he_phase (serve_run whatsapp_ops ?ins demo_serve) = Serving"
    by (simp add: serve_step_def serve_line_def demo_write demo_serve_def)
  with requests_acknowledged [OF demo_serve_started refl, of ?ins] show ?thesis by simp
qed

text \<open>C5: The app takes everything a helper of this code writes: however the helper runs, the
  supervisor that started it greets it and keeps the link for every line, in order; no line of it is
  out of place, so it never counts as a crash.\<close>

theorem helper_output_accepted:
  assumes "serve_start ops config env a = Inr s0"
    and "he_out (serve_run ops ins s0) = map snd ls"
    and "sv_link s = Some lk" "\<not> lk_greeted lk" "\<not> sv_stopping s" "sv_wire s = he_wire s0"
  shows "\<exists>lk'. sv_link (foldl (\<lambda>s (env, line). on_line env line s) s ls) = Some lk' \<and>
    lk_run lk' = lk_run lk \<and> lk_greeted lk'"
proof -
  have "serve_inv (serve_run ops ins s0)"
    by (rule serve_run_inv) (rule serve_start_inv [OF assms(1)])
  with assms(2) have "proper_output (returned (he_phase (serve_run ops ins s0))) (he_wire s0) (map snd ls)"
    by (simp add: serve_inv_def)
  from proper_output_accepted [OF this assms(3-6)] show ?thesis
    by (cases "sv_link (foldl (\<lambda>s (env, line). on_line env line s) s ls)") (auto simp: greeted_run_def)
qed

theorem helper_output_accepted_witness:
  "let lk = \<lparr>lk_run = 1, lk_started = 0, lk_greeted = False, lk_hello_deadline = 9, lk_held = [WLoadChats],
        lk_unacked = [], lk_drain_deadline = None\<rparr>;
       s = (new_supervisor (primary WhatsApp) WireWhatsApp APP [])\<lparr>sv_link := Some lk\<rparr>
   in \<exists>lk'. sv_link (foldl (\<lambda>s (env, line). on_line env line s) s
        [(demo_env 0, Hello PROTOCOL_VERSION ''1.0'' [WireWhatsApp])]) = Some lk' \<and> lk_run lk' = 1 \<and> lk_greeted lk'"
proof -
  let ?lk = "\<lparr>lk_run = 1, lk_started = 0, lk_greeted = False, lk_hello_deadline = 9, lk_held = [WLoadChats],
        lk_unacked = [], lk_drain_deadline = None\<rparr>"
  let ?ls = "[(demo_env 0, Hello PROTOCOL_VERSION ''1.0'' [WireWhatsApp])]"
  have o: "he_out (serve_run whatsapp_ops [] demo_serve) = map snd ?ls" by (simp add: demo_serve_def)
  have "he_wire demo_serve = WireWhatsApp" by (simp add: demo_serve_def)
  with helper_output_accepted [OF demo_serve_started o,
      of "(new_supervisor (primary WhatsApp) WireWhatsApp APP [])\<lparr>sv_link := Some ?lk\<rparr>" ?lk]
  show ?thesis by (simp add: new_supervisor_def Let_def)
qed



text \<open>A helper with the WhatsApp adapter confirms the end: after the app's \<open>Shutdown\<close> it sends the
  events that were left, then \<open>Stopped\<close> as its last line, and returns, after at most one event more
  than waited in the channel.\<close>

theorem helper_shutdown_confirmed:
  assumes "he_phase s = Serving" and "he_open s" and "writable (he_wire s) env" and "he_protocol s = primary WhatsApp"
  shows "\<exists>n \<le> Suc (length (he_queue s)).
    let t = serve_run whatsapp_ops ((env, AppLine (Inr (Some Shutdown))) # replicate n (env, NextEvent)) s
    in he_phase t = Returned EndShutdown \<and> (\<exists>out. he_out t = out @ [HelperStopped (he_wire s)])"
  by (rule whatsapp.helper_stop_confirmed) (use assms in \<open>simp_all add: whatsapp_ops_def\<close>)

theorem helper_shutdown_confirmed_witness:
  "\<exists>n \<le> 2. he_phase (serve_run whatsapp_ops
     ((demo_serve_env, AppLine (Inr (Some Shutdown))) # replicate n (demo_serve_env, NextEvent)) demo_serve) =
     Returned EndShutdown"
proof -
  have "writable WireWhatsApp demo_serve_env" by (simp add: writable_def demo_serve_env_def MAX_LINE_BYTES_def)
  moreover have "length (he_queue demo_serve) = 1" by (simp add: demo_serve_def emit_status_def)
  moreover have "he_phase demo_serve = Serving" "he_open demo_serve" "he_wire demo_serve = WireWhatsApp"
      "he_protocol demo_serve = primary WhatsApp"
    by (simp_all add: demo_serve_def)
  ultimately show ?thesis
    using helper_shutdown_confirmed [of demo_serve demo_serve_env] by (simp add: Let_def numeral_2_eq_2) blast
qed

end
