(* ===== verification/Persist.thy ===== *)
theory Persist
  imports TW_Prelude
begin

text \<open>
  Disk writes off the UI thread (\<open>PersistJob\<close> of \<open>crates/thinwire-core/src/settings.rs\<close>): jobs that
  share the newest epoch and a write lock and run on any number of workers, in any order. The file
  system is an input of the step that writes: it may fail, and a plain write that fails may leave
  anything (\<open>fs::write\<close> truncates first), while a private one keeps the old file, because it renames
  a finished file. The phases of a job are the points of \<open>commit\<close> between which another thread may
  run.
\<close>

record persist_job =
  pj_path :: string
  pj_contents :: string
  pj_epoch :: u64
  pj_private :: bool

definition is_current :: "persist_job \<Rightarrow> u64 \<Rightarrow> bool" where
  "is_current job latest \<longleftrightarrow> latest = pj_epoch job"

datatype job_phase = PQueued | PWaiting | PLocked | PWriting | PFinished

datatype write_result = WriteOk | NoParent | WriteFailed "string option"

text \<open>\<open>pw_writes\<close> and \<open>pw_failed\<close> are for the specification: which jobs wrote, in order, and whether
  one failed.\<close>

record persist_world =
  pw_latest :: u64
  pw_lock :: "nat option"
  pw_disk :: "string option"
  pw_jobs :: "(persist_job \<times> job_phase) list"
  pw_writes :: "nat list"
  pw_failed :: bool

definition persist_world_start :: "string option \<Rightarrow> persist_world" where
  "persist_world_start disk =
     \<lparr>pw_latest = 0, pw_lock = None, pw_disk = disk, pw_jobs = [], pw_writes = [], pw_failed = False\<rparr>"

fun written :: "persist_job \<Rightarrow> write_result \<Rightarrow> string option \<Rightarrow> string option" where
  "written job WriteOk old = Some (pj_contents job)"
| "written job NoParent old = old"
| "written job (WriteFailed left) old = (if pj_private job then old else left)"

definition set_phase :: "nat \<Rightarrow> job_phase \<Rightarrow> persist_world \<Rightarrow> persist_world" where
  "set_phase i ph w = w\<lparr>pw_jobs := (pw_jobs w)[i := (fst (pw_jobs w ! i), ph)]\<rparr>"

text \<open>One step of the job \<open>i\<close> in \<open>commit\<close>; \<open>None\<close> when it has no step: it waits for the lock, or it
  returned.\<close>

definition advance :: "nat \<Rightarrow> write_result \<Rightarrow> persist_world \<Rightarrow> persist_world option" where
  "advance i r w =
     (if length (pw_jobs w) \<le> i then None
      else case pw_jobs w ! i of (job, ph) \<Rightarrow>
        (case ph of
           PQueued \<Rightarrow> Some (set_phase i (if is_current job (pw_latest w) then PWaiting else PFinished) w)
         | PWaiting \<Rightarrow> if pw_lock w = None then Some (set_phase i PLocked (w\<lparr>pw_lock := Some i\<rparr>)) else None
         | PLocked \<Rightarrow>
             if is_current job (pw_latest w) then Some (set_phase i PWriting w)
             else Some (set_phase i PFinished (w\<lparr>pw_lock := None\<rparr>))
         | PWriting \<Rightarrow>
             Some (set_phase i PFinished
               (w\<lparr>pw_disk := written job r (pw_disk w), pw_lock := None,
                  pw_writes := pw_writes w @ [i], pw_failed := pw_failed w \<or> r \<noteq> WriteOk\<rparr>))
         | PFinished \<Rightarrow> None))"

text \<open>\<open>take_persist_job\<close> makes the next epoch the newest and hands out the job.\<close>

definition add_job :: "persist_job \<Rightarrow> persist_world \<Rightarrow> persist_world" where
  "add_job job w = w\<lparr>pw_latest := pj_epoch job, pw_jobs := pw_jobs w @ [(job, PQueued)]\<rparr>"

inductive persist_reach :: "string option \<Rightarrow> persist_world \<Rightarrow> bool" for disk where
  start: "persist_reach disk (persist_world_start disk)"
| hand_out: "persist_reach disk w \<Longrightarrow> pj_epoch job = pw_latest w + 1 \<Longrightarrow> persist_reach disk (add_job job w)"
| work: "persist_reach disk w \<Longrightarrow> advance i r w = Some w' \<Longrightarrow> persist_reach disk w'"

section \<open>The invariant\<close>

definition phase_of_job :: "persist_world \<Rightarrow> nat \<Rightarrow> job_phase" where
  "phase_of_job w i = snd (pw_jobs w ! i)"

definition epochs_ok :: "persist_world \<Rightarrow> bool" where
  "epochs_ok w \<longleftrightarrow> pw_latest w = length (pw_jobs w) \<and> (\<forall>i < length (pw_jobs w). pj_epoch (fst (pw_jobs w ! i)) = Suc i)"

definition lock_ok :: "persist_world \<Rightarrow> bool" where
  "lock_ok w \<longleftrightarrow>
     (\<forall>i. pw_lock w = Some i \<longleftrightarrow> i < length (pw_jobs w) \<and> phase_of_job w i \<in> {PLocked, PWriting})"

definition writes_ok :: "persist_world \<Rightarrow> bool" where
  "writes_ok w \<longleftrightarrow>
     (\<forall>i \<in> set (pw_writes w). i < length (pw_jobs w) \<and> phase_of_job w i = PFinished) \<and> sorted_wrt (<) (pw_writes w) \<and>
     (\<forall>i < length (pw_jobs w). phase_of_job w i = PWriting \<longrightarrow> (\<forall>k \<in> set (pw_writes w). k < i))"

definition newest_ok :: "persist_world \<Rightarrow> bool" where
  "newest_ok w \<longleftrightarrow>
     (\<forall>n. length (pw_jobs w) = Suc n \<longrightarrow>
        (phase_of_job w n \<in> {PLocked, PWriting, PFinished} \<longrightarrow> (\<forall>i < n. phase_of_job w i \<noteq> PWriting)) \<and>
        (phase_of_job w n = PFinished \<longrightarrow> n \<in> set (pw_writes w)))"

definition disk_ok :: "string option \<Rightarrow> persist_world \<Rightarrow> bool" where
  "disk_ok disk w \<longleftrightarrow>
     (\<not> pw_failed w \<longrightarrow>
        pw_disk w = (if pw_writes w = [] then disk else Some (pj_contents (fst (pw_jobs w ! last (pw_writes w))))))"

definition pw_inv :: "string option \<Rightarrow> persist_world \<Rightarrow> bool" where
  "pw_inv disk w \<longleftrightarrow> epochs_ok w \<and> lock_ok w \<and> writes_ok w \<and> newest_ok w \<and> disk_ok disk w"

lemmas pw_parts = epochs_ok_def lock_ok_def writes_ok_def newest_ok_def disk_ok_def

lemma set_phase_simps [simp]:
  "length (pw_jobs (set_phase i ph w)) = length (pw_jobs w)" "pw_latest (set_phase i ph w) = pw_latest w"
  "pw_lock (set_phase i ph w) = pw_lock w" "pw_writes (set_phase i ph w) = pw_writes w"
  "pw_failed (set_phase i ph w) = pw_failed w" "pw_disk (set_phase i ph w) = pw_disk w"
  "i < length (pw_jobs w) \<Longrightarrow> fst (pw_jobs (set_phase i ph w) ! j) = fst (pw_jobs w ! j)"
  "i < length (pw_jobs w) \<Longrightarrow> phase_of_job (set_phase i ph w) j = (if j = i then ph else phase_of_job w j)"
  by (auto simp: set_phase_def phase_of_job_def nth_list_update)

lemma phase_of_job_upd [simp]:
  "phase_of_job (w\<lparr>pw_lock := l\<rparr>) = phase_of_job w" "phase_of_job (w\<lparr>pw_disk := d\<rparr>) = phase_of_job w"
  "phase_of_job (w\<lparr>pw_writes := q\<rparr>) = phase_of_job w" "phase_of_job (w\<lparr>pw_failed := b\<rparr>) = phase_of_job w"
  by (simp_all add: phase_of_job_def fun_eq_iff)

lemma advance_cases [consumes 1, case_names queued_current queued_old waiting locked_current locked_old writing]:
  assumes "advance i r w = Some w'"
  obtains
    "i < length (pw_jobs w)" "phase_of_job w i = PQueued" "is_current (fst (pw_jobs w ! i)) (pw_latest w)"
      "w' = set_phase i PWaiting w"
  | "i < length (pw_jobs w)" "phase_of_job w i = PQueued" "\<not> is_current (fst (pw_jobs w ! i)) (pw_latest w)"
      "w' = set_phase i PFinished w"
  | "i < length (pw_jobs w)" "phase_of_job w i = PWaiting" "pw_lock w = None"
      "w' = set_phase i PLocked (w\<lparr>pw_lock := Some i\<rparr>)"
  | "i < length (pw_jobs w)" "phase_of_job w i = PLocked" "is_current (fst (pw_jobs w ! i)) (pw_latest w)"
      "w' = set_phase i PWriting w"
  | "i < length (pw_jobs w)" "phase_of_job w i = PLocked" "\<not> is_current (fst (pw_jobs w ! i)) (pw_latest w)"
      "w' = set_phase i PFinished (w\<lparr>pw_lock := None\<rparr>)"
  | "i < length (pw_jobs w)" "phase_of_job w i = PWriting"
      "w' = set_phase i PFinished
         (w\<lparr>pw_disk := written (fst (pw_jobs w ! i)) r (pw_disk w), pw_lock := None,
            pw_writes := pw_writes w @ [i], pw_failed := pw_failed w \<or> r \<noteq> WriteOk\<rparr>)"
  using assms
  by (auto simp: advance_def phase_of_job_def split: if_splits prod.splits job_phase.splits)

lemma pw_inv_start: "pw_inv disk (persist_world_start disk)"
  by (simp add: pw_inv_def pw_parts persist_world_start_def)

lemma add_job_simps [simp]:
  "length (pw_jobs (add_job job w)) = Suc (length (pw_jobs w))" "pw_latest (add_job job w) = pj_epoch job"
  "pw_lock (add_job job w) = pw_lock w" "pw_writes (add_job job w) = pw_writes w"
  "pw_failed (add_job job w) = pw_failed w" "pw_disk (add_job job w) = pw_disk w" "pw_jobs (add_job job w) \<noteq> []"
  "i < length (pw_jobs w) \<Longrightarrow> fst (pw_jobs (add_job job w) ! i) = fst (pw_jobs w ! i)"
  "fst (pw_jobs (add_job job w) ! length (pw_jobs w)) = job"
  "i < length (pw_jobs w) \<Longrightarrow> phase_of_job (add_job job w) i = phase_of_job w i"
  "phase_of_job (add_job job w) (length (pw_jobs w)) = PQueued"
  by (simp_all add: add_job_def phase_of_job_def nth_append)

lemma pw_inv_add:
  assumes "pw_inv disk w" "pj_epoch job = pw_latest w + 1"
  shows "pw_inv disk (add_job job w)"
proof -
  have w: "writes_ok w" using assms(1) by (simp add: pw_inv_def)
  then have "pw_writes w \<noteq> [] \<Longrightarrow> last (pw_writes w) < length (pw_jobs w)" by (simp add: writes_ok_def)
  with assms have "disk_ok disk (add_job job w)" by (simp add: pw_inv_def disk_ok_def)
  moreover have "epochs_ok (add_job job w)" "newest_ok (add_job job w)"
    using assms by (auto simp: pw_inv_def epochs_ok_def newest_ok_def less_Suc_eq)
  moreover have "writes_ok (add_job job w)"
    using w by (auto simp: writes_ok_def less_Suc_eq)
  moreover have "pw_lock w = Some i \<longleftrightarrow> i < Suc (length (pw_jobs w)) \<and> phase_of_job (add_job job w) i \<in> {PLocked, PWriting}" for i
    using assms(1) by (cases "i < length (pw_jobs w)") (simp_all add: pw_inv_def lock_ok_def less_Suc_eq)
  ultimately show ?thesis by (simp add: pw_inv_def lock_ok_def)
qed

text \<open>Only the newest job passes a check.\<close>

lemma only_newest:
  "epochs_ok w \<Longrightarrow> i < length (pw_jobs w) \<Longrightarrow> is_current (fst (pw_jobs w ! i)) (pw_latest w) \<longleftrightarrow>
   Suc i = length (pw_jobs w)"
  by (auto simp: epochs_ok_def is_current_def)

lemma epochs_ok_advance: "advance i r w = Some w' \<Longrightarrow> epochs_ok w \<Longrightarrow> epochs_ok w'"
  by (erule advance_cases) (simp_all add: epochs_ok_def)

lemma lock_ok_advance:
  assumes "advance i r w = Some w'" "lock_ok w"
  shows "lock_ok w'"
proof -
  have l: "pw_lock w = Some j \<longleftrightarrow> j < length (pw_jobs w) \<and> phase_of_job w j \<in> {PLocked, PWriting}" for j
    using assms(2) by (simp add: lock_ok_def)
  have "pw_lock w' = Some j \<longleftrightarrow> j < length (pw_jobs w') \<and> phase_of_job w' j \<in> {PLocked, PWriting}" for j
    using assms(1)
  proof (cases rule: advance_cases)
    case waiting
    with l [of j] show ?thesis by auto
  next
    case locked_old
    with l [of j] l [of i] show ?thesis by auto
  next
    case writing
    with l [of j] l [of i] show ?thesis by auto
  qed (use l [of j] in auto)
  then show ?thesis by (simp add: lock_ok_def)
qed

lemma writing_has_lock: "lock_ok w \<Longrightarrow> i < length (pw_jobs w) \<Longrightarrow> phase_of_job w i = PWriting \<Longrightarrow> pw_lock w = Some i"
  by (simp add: lock_ok_def)

lemma writes_ok_advance:
  assumes "advance i r w = Some w'" "epochs_ok w" "lock_ok w" "writes_ok w"
  shows "writes_ok w'"
  using assms(1)
proof (cases rule: advance_cases)
  case locked_current
  with only_newest [OF assms(2) locked_current(1)] assms(4) show ?thesis
    by (auto simp: writes_ok_def) (metis job_phase.distinct(17) not_less_less_Suc_eq)
next
  case writing
  have "phase_of_job w j \<noteq> PWriting" if "j \<noteq> i" "j < length (pw_jobs w)" for j
    using writing_has_lock [OF assms(3) that(2)] writing_has_lock [OF assms(3) writing(1,2)] that(1) by auto
  with writing assms(4) show ?thesis by (auto simp: writes_ok_def sorted_wrt_append)
qed (use assms(4) in \<open>auto simp: writes_ok_def\<close>)

lemma newest_ok_advance:
  assumes "advance i r w = Some w'" "epochs_ok w" "lock_ok w" "newest_ok w"
  shows "newest_ok w'"
  using assms(1)
proof (cases rule: advance_cases)
  case waiting
  then have "phase_of_job w j \<noteq> PWriting" if "j < length (pw_jobs w)" for j
    using writing_has_lock [OF assms(3) that] by auto
  with waiting assms(4) show ?thesis by (auto simp: newest_ok_def)
next
  case queued_old
  with only_newest [OF assms(2) queued_old(1)] assms(4) show ?thesis by (auto simp: newest_ok_def)
next
  case locked_old
  with only_newest [OF assms(2) locked_old(1)] assms(4) show ?thesis by (auto simp: newest_ok_def)
next
  case locked_current
  with only_newest [OF assms(2) locked_current(1)] assms(4) show ?thesis by (auto simp: newest_ok_def)
qed (use assms(4) in \<open>auto simp: newest_ok_def\<close>)

lemma disk_ok_advance: "advance i r w = Some w' \<Longrightarrow> disk_ok disk w \<Longrightarrow> disk_ok disk w'"
  by (erule advance_cases) (auto simp: disk_ok_def)

lemma pw_inv_advance: "advance i r w = Some w' \<Longrightarrow> pw_inv disk w \<Longrightarrow> pw_inv disk w'"
  unfolding pw_inv_def
  by (blast intro: epochs_ok_advance lock_ok_advance writes_ok_advance newest_ok_advance disk_ok_advance)

lemma persist_reach_inv: "persist_reach disk w \<Longrightarrow> pw_inv disk w"
  by (induction rule: persist_reach.induct) (simp_all add: pw_inv_start pw_inv_add pw_inv_advance)

section \<open>Properties\<close>

definition all_finished :: "persist_world \<Rightarrow> bool" where
  "all_finished w \<longleftrightarrow> list_all (\<lambda>(_, ph). ph = PFinished) (pw_jobs w)"

fun steps_left :: "job_phase \<Rightarrow> nat" where
  "steps_left PQueued = 4"
| "steps_left PWaiting = 3"
| "steps_left PLocked = 2"
| "steps_left PWriting = 1"
| "steps_left PFinished = 0"

definition work_left :: "persist_world \<Rightarrow> nat" where
  "work_left w = sum_list (map (\<lambda>(_, ph). steps_left ph) (pw_jobs w))"

lemma phase_finished: "all_finished w \<Longrightarrow> i < length (pw_jobs w) \<Longrightarrow> phase_of_job w i = PFinished"
  by (auto simp: all_finished_def list_all_length phase_of_job_def case_prod_unfold)

lemma newest_on_disk:
  assumes "persist_reach disk w" "all_finished w" "\<not> pw_failed w" "pw_jobs w \<noteq> []"
  shows "pw_disk w = Some (pj_contents (fst (last (pw_jobs w)))) \<and> sorted_wrt (<) (pw_writes w)"
proof -
  have inv: "pw_inv disk w" using assms(1) by (rule persist_reach_inv)
  obtain n where n: "length (pw_jobs w) = Suc n" using assms(4) by (cases "pw_jobs w") auto
  have "phase_of_job w n = PFinished" using phase_finished [OF assms(2)] n by simp
  with inv n have m: "n \<in> set (pw_writes w)" by (simp add: pw_inv_def newest_ok_def)
  have s: "sorted_wrt (<) (pw_writes w)" "\<forall>i \<in> set (pw_writes w). i \<le> n"
    using inv n by (auto simp: pw_inv_def writes_ok_def)
  have "last (pw_writes w) = n"
  proof -
    obtain xs y where x: "pw_writes w = xs @ [y]" using m by (cases "pw_writes w" rule: rev_cases) auto
    with s m show ?thesis by (auto simp: sorted_wrt_append)
  qed
  with inv n m s(1) assms(3,4) show ?thesis by (auto simp: pw_inv_def disk_ok_def last_conv_nth)
qed

text \<open>C35: Whatever the order in which the workers run, once every job of the settings returned and no write
  failed, the file holds the text of the newest job: an older job never overwrites a newer one, and
  the newest one is never skipped.\<close>

theorem newest_write_wins:
  assumes "persist_reach disk w" "all_finished w" "\<not> pw_failed w" "pw_jobs w \<noteq> []"
  shows "pw_disk w = Some (pj_contents (fst (last (pw_jobs w)))) \<and> sorted_wrt (<) (pw_writes w)"
  using assms by (rule newest_on_disk)

lemma advance_less: "advance i r w = Some w' \<Longrightarrow> work_left w' < work_left w"
proof -
  assume a: "advance i r w = Some w'"
  then have "\<exists>ph v. w' = set_phase i ph v \<and> pw_jobs v = pw_jobs w \<and> steps_left ph < steps_left (phase_of_job w i)"
    by (cases rule: advance_cases) fastforce+
  then obtain ph v where v: "w' = set_phase i ph v" "pw_jobs v = pw_jobs w" "steps_left ph < steps_left (phase_of_job w i)" by blast
  have i: "i < length (pw_jobs w)" using a by (cases rule: advance_cases)
  let ?f = "\<lambda>(_ :: persist_job, ph). steps_left ph"
  have "?f (pw_jobs w ! i) \<le> sum_list (map ?f (pw_jobs w))"
    using i elem_le_sum_list [of i "map ?f (pw_jobs w)"] by simp
  then have "work_left w' + steps_left (phase_of_job w i) = work_left w + steps_left ph"
    using i v(1,2)
    by (simp add: work_left_def set_phase_def map_update case_prod_unfold phase_of_job_def sum_list_update)
  with v(3) show "work_left w' < work_left w" by simp
qed

lemma some_job_moves: "persist_reach disk w \<Longrightarrow> \<not> all_finished w \<Longrightarrow> \<exists>i w'. advance i r w = Some w'"
proof -
  assume reach: "persist_reach disk w" and "\<not> all_finished w"
  then obtain j where j: "j < length (pw_jobs w)" "snd (pw_jobs w ! j) \<noteq> PFinished"
    by (auto simp: all_finished_def list_all_length case_prod_unfold)
  have inv: "lock_ok w" using persist_reach_inv [OF reach] by (simp add: pw_inv_def)
  show ?thesis
  proof (cases "pw_lock w")
    case None
    with j have "\<exists>w'. advance j r w = Some w'"
      by (auto simp: advance_def case_prod_unfold split: job_phase.split)
    then show ?thesis by blast
  next
    case (Some i)
    then have "i < length (pw_jobs w) \<and> phase_of_job w i \<in> {PLocked, PWriting}"
      using inv unfolding lock_ok_def by blast
    then have "\<exists>w'. advance i r w = Some w'"
      by (auto simp: advance_def case_prod_unfold phase_of_job_def)
    then show ?thesis by blast
  qed
qed

text \<open>The jobs always come to an end: while one has not returned, some job can take a step, whatever
  the file system answers, and each step leaves less to do, so neither the lock nor the checks can
  hold a write up for ever.\<close>

theorem writes_come_to_end:
  assumes "persist_reach disk w"
  shows "(all_finished w \<or> (\<exists>i w'. advance i r w = Some w')) \<and>
    (\<forall>i s w'. advance i s w = Some w' \<longrightarrow> work_left w' < work_left w)"
  using some_job_moves [OF assms] advance_less by blast

text \<open>Two jobs of which the older one already passed the first check: the newer one waits for the lock,
  the older one sees that it is old, and the file gets the newer text.\<close>

definition sample_job :: "string \<Rightarrow> nat \<Rightarrow> persist_job" where
  "sample_job c e = \<lparr>pj_path = ''settings.toml'', pj_contents = c, pj_epoch = e, pj_private = False\<rparr>"

definition advance_all :: "nat list \<Rightarrow> persist_world \<Rightarrow> persist_world" where
  "advance_all ks w = foldl (\<lambda>w i. case advance i WriteOk w of Some w' \<Rightarrow> w' | None \<Rightarrow> w) w ks"

lemma advance_all_reach: "persist_reach disk w \<Longrightarrow> persist_reach disk (advance_all ks w)"
  by (induction ks arbitrary: w) (auto simp: advance_all_def intro: persist_reach.work split: option.split)

definition two_jobs :: persist_world where
  "two_jobs =
     advance_all [0, 0, 1, 0, 1, 1, 1]
       (add_job (sample_job ''new'' 2)
         (advance_all [0] (add_job (sample_job ''old'' 1) (persist_world_start (Some ''first'')))))"

lemma two_jobs_reach: "persist_reach (Some ''first'') two_jobs"
  unfolding two_jobs_def
  by (intro advance_all_reach persist_reach.hand_out persist_reach.start)
    (simp_all add: persist_world_start_def sample_job_def advance_all_def add_job_def advance_def set_phase_def is_current_def)

theorem newest_write_wins_witness: "pw_disk two_jobs = Some ''new''"
proof -
  have "all_finished two_jobs" "\<not> pw_failed two_jobs" "pw_jobs two_jobs \<noteq> []"
    "pj_contents (fst (last (pw_jobs two_jobs))) = ''new''"
    by code_simp+
  with newest_write_wins [OF two_jobs_reach] show ?thesis by simp
qed

theorem writes_come_to_end_witness: "\<exists>i w'. advance i NoParent (add_job (sample_job ''old'' 1) (persist_world_start None)) = Some w'"
proof -
  have "persist_reach None (add_job (sample_job ''old'' 1) (persist_world_start None))"
    by (intro persist_reach.hand_out persist_reach.start) (simp add: sample_job_def persist_world_start_def)
  moreover have "\<not> all_finished (add_job (sample_job ''old'' 1) (persist_world_start None))" by code_simp
  ultimately show ?thesis using writes_come_to_end by blast
qed

section \<open>A state with its file\<close>

text \<open>
  The settings and the muted chats keep their files the same way: a change asks for a write, and
  \<open>take\<close> (the code's \<open>take_persist_job\<close>) hands out a job with the text of that moment and the next
  epoch. \<open>change\<close> is any operation of the owner. The laws are what the client below needs: that the
  file follows the state, however the changes, the jobs and the workers interleave.
\<close>

locale write_queue =
  fixes take_job :: "'s \<Rightarrow> persist_job option \<times> 's"
    and render_file :: "'s \<Rightarrow> string"
    and wants :: "'s \<Rightarrow> bool"
    and epoch :: "'s \<Rightarrow> nat"
    and has_file :: "'s \<Rightarrow> bool"
    and change :: "'s \<Rightarrow> 's \<Rightarrow> bool"
  assumes change_epoch: "change s s' \<Longrightarrow> epoch s' = epoch s"
    and change_file: "change s s' \<Longrightarrow> has_file s' = has_file s"
    and change_wants: "change s s' \<Longrightarrow> wants s' \<or> (render_file s' = render_file s \<and> \<not> wants s)"
    and take_some: "take_job s = (Some job, s') \<Longrightarrow>
      pj_contents job = render_file s \<and> pj_epoch job = epoch s + 1 \<and> epoch s' = epoch s + 1 \<and>
      \<not> wants s' \<and> render_file s' = render_file s \<and> has_file s \<and> has_file s'"
    and take_none: "take_job s = (None, s') \<Longrightarrow>
      \<not> (wants s \<and> has_file s) \<and> epoch s' = epoch s \<and> render_file s' = render_file s \<and> has_file s' = has_file s"
begin

inductive file_run :: "'s \<Rightarrow> string option \<Rightarrow> 's \<Rightarrow> persist_world \<Rightarrow> bool" for s0 disk where
  begins: "epoch s0 = 0 \<Longrightarrow> file_run s0 disk s0 (persist_world_start disk)"
| changes: "file_run s0 disk s w \<Longrightarrow> change s s' \<Longrightarrow> file_run s0 disk s' w"
| takes: "file_run s0 disk s w \<Longrightarrow> take_job s = (Some job, s') \<Longrightarrow> file_run s0 disk s' (add_job job w)"
| takes_nothing: "file_run s0 disk s w \<Longrightarrow> take_job s = (None, s') \<Longrightarrow> file_run s0 disk s' w"
| works: "file_run s0 disk s w \<Longrightarrow> advance i r w = Some w' \<Longrightarrow> file_run s0 disk s w'"

lemma advance_same: "advance i r w = Some w' \<Longrightarrow> pw_latest w' = pw_latest w \<and> map fst (pw_jobs w') = map fst (pw_jobs w)"
  by (cases rule: advance_cases) (auto simp: set_phase_def map_update list_update_same_conv)

lemma file_run_reach: "file_run s0 disk s w \<Longrightarrow> persist_reach disk w \<and> pw_latest w = epoch s"
proof (induction rule: file_run.induct)
  case begins
  then show ?case using persist_reach.start by (simp add: persist_world_start_def)
next
  case (takes s w job s')
  with take_some [OF takes.hyps(2)] show ?case by (auto intro: persist_reach.hand_out)
next
  case (works s w i r w')
  with advance_same [OF works.hyps(2)] show ?case by (auto intro: persist_reach.work)
qed (auto dest: change_epoch take_none)

lemma file_run_newest:
  "file_run s0 disk s w \<Longrightarrow> has_file s \<Longrightarrow> \<not> wants s \<Longrightarrow>
   render_file s = (if pw_jobs w = [] then render_file s0 else pj_contents (fst (last (pw_jobs w))))"
proof (induction rule: file_run.induct)
  case begins
  then show ?case by (simp add: persist_world_start_def)
next
  case (changes s w s')
  with change_wants [OF changes.hyps(2)] change_file [OF changes.hyps(2)] show ?case by simp
next
  case (takes s w job s')
  with take_some [OF takes.hyps(2)] show ?case by (simp add: add_job_def)
next
  case (takes_nothing s w s')
  with take_none [OF takes_nothing.hyps(2)] show ?case by auto
next
  case (works s w i r w')
  have "map fst (pw_jobs w') = map fst (pw_jobs w)" using advance_same [OF works.hyps(2)] by simp
  then have "pw_jobs w' = [] \<longleftrightarrow> pw_jobs w = []" "pw_jobs w \<noteq> [] \<Longrightarrow> fst (last (pw_jobs w')) = fst (last (pw_jobs w))"
    by (metis list.map_disc_iff) (metis last_map list.map_disc_iff \<open>map fst (pw_jobs w') = map fst (pw_jobs w)\<close>)
  with works show ?case by simp
qed

text \<open>Once nothing waits to be written and the jobs returned, the file is the state.\<close>

lemma file_follows:
  assumes "file_run s0 disk s w" "has_file s" "\<not> wants s" "all_finished w" "\<not> pw_failed w"
  shows "pw_jobs w \<noteq> [] \<and> pw_disk w = Some (render_file s) \<or> pw_jobs w = [] \<and> pw_disk w = disk \<and> render_file s = render_file s0"
proof -
  have reach: "persist_reach disk w" using file_run_reach [OF assms(1)] by simp
  show ?thesis
  proof (cases "pw_jobs w = []")
    case True
    have inv: "pw_inv disk w" using persist_reach_inv [OF reach] .
    then have "pw_writes w = []" using True by (cases "pw_writes w") (auto simp: pw_inv_def writes_ok_def)
    with inv True assms(5) file_run_newest [OF assms(1-3)] show ?thesis by (simp add: pw_inv_def disk_ok_def)
  next
    case False
    with newest_on_disk [OF reach assms(4,5) False] file_run_newest [OF assms(1-3)] show ?thesis by simp
  qed
qed

end

end
