(* ===== verification/Texts.thy ===== *)
theory Texts
  imports TW_Prelude
begin

text \<open>
  Text files of lines: \<open>str::lines\<close>, \<open>str::split\<close>, \<open>str::trim_matches\<close>, \<open>strip_prefix\<close> and
  \<open>strip_suffix\<close>, \<open>parse::<u64>\<close>, \<open>Iterator::find_map\<close>, with the facts that the readers of the
  settings and of the muted chats share. Texts are UTF-8 bytes.
\<close>

definition NL :: char where
  "NL = CHR 0x0A"

definition CR :: char where
  "CR = CHR 0x0D"

definition QUOTE :: char where
  "QUOTE = CHR 0x22"

definition BACKSLASH :: char where
  "BACKSLASH = CHR 0x5C"

lemma special_chars [simp]:
  "(of_char NL :: nat) = 10" "(of_char CR :: nat) = 13" "(of_char QUOTE :: nat) = 34" "(of_char BACKSLASH :: nat) = 92"
  by (simp_all add: NL_def CR_def QUOTE_def BACKSLASH_def)

lemma special_distinct [simp]:
  "NL \<noteq> CR" "NL \<noteq> QUOTE" "NL \<noteq> BACKSLASH" "CR \<noteq> NL" "CR \<noteq> QUOTE" "CR \<noteq> BACKSLASH"
  "QUOTE \<noteq> NL" "QUOTE \<noteq> CR" "QUOTE \<noteq> BACKSLASH" "BACKSLASH \<noteq> NL" "BACKSLASH \<noteq> CR" "BACKSLASH \<noteq> QUOTE"
  by (simp_all add: NL_def CR_def QUOTE_def BACKSLASH_def)

lemma special_not_space [simp]: "NL \<noteq> CHR '' ''" "CR \<noteq> CHR '' ''" "CHR '' '' \<noteq> NL" "CHR '' '' \<noteq> CR"
  by (simp_all add: NL_def CR_def)

section \<open>Lines\<close>

definition strip_cr :: "string \<Rightarrow> string" where
  "strip_cr s = (if s \<noteq> [] \<and> last s = CR then butlast s else s)"

text \<open>\<open>str::lines\<close>: a line ends at a line feed, with the carriage return before it; the last line
  may have none.\<close>

function str_lines :: "string \<Rightarrow> string list" where
  "str_lines s =
     (if s = [] then []
      else case split_once NL s of
        None \<Rightarrow> [s]
      | Some (line, rest) \<Rightarrow> strip_cr line # str_lines rest)"
  by auto
termination by (relation "measure length") (auto dest: split_once_Some)

text \<open>\<open>str::split\<close> at a character: one piece more than there are separators.\<close>

function str_split :: "char \<Rightarrow> string \<Rightarrow> string list" where
  "str_split d s = (case split_once d s of None \<Rightarrow> [s] | Some (piece, rest) \<Rightarrow> piece # str_split d rest)"
  by auto
termination by (relation "measure (\<lambda>(_, s). length s)") (auto dest: split_once_Some)

declare str_lines.simps [simp del] str_split.simps [simp del]

lemma str_lines_Nil [simp]: "str_lines [] = []"
  by (simp add: str_lines.simps)

lemma str_lines_line: "NL \<notin> set line \<Longrightarrow> str_lines (line @ NL # rest) = strip_cr line # str_lines rest"
  by (subst str_lines.simps) (simp add: split_once_append)

lemma str_lines_concat:
  "(\<And>l. l \<in> set ls \<Longrightarrow> NL \<notin> set l) \<Longrightarrow> str_lines (concat (map (\<lambda>l. l @ [NL]) ls)) = map strip_cr ls"
  by (induction ls) (simp_all add: str_lines_line)

lemma str_split_piece: "d \<notin> set piece \<Longrightarrow> str_split d (piece @ d # rest) = piece # str_split d rest"
  by (subst str_split.simps) (simp add: split_once_append)

lemma str_split_last: "d \<notin> set piece \<Longrightarrow> str_split d piece = [piece]"
  using split_once_None [of d piece] by (subst str_split.simps) simp

text \<open>\<open>[String]::join\<close> with one character.\<close>

fun join :: "char \<Rightarrow> string list \<Rightarrow> string" where
  "join d [] = []"
| "join d [s] = s"
| "join d (s # t # ss) = s @ d # join d (t # ss)"

lemma str_split_join:
  "(\<And>s. s \<in> set ss \<Longrightarrow> d \<notin> set s) \<Longrightarrow> ss \<noteq> [] \<Longrightarrow> str_split d (join d ss) = ss"
  by (induction d ss rule: join.induct) (simp_all add: str_split_piece str_split_last)

lemma set_join: "set (join d ss) \<subseteq> insert d (\<Union> (set ` set ss))"
  by (induction d ss rule: join.induct) auto

section \<open>Ends of a text\<close>

definition trim_matches :: "char \<Rightarrow> string \<Rightarrow> string" where
  "trim_matches d s = rev (dropWhile (\<lambda>c. c = d) (rev (dropWhile (\<lambda>c. c = d) s)))"

definition strip_prefix_char :: "char \<Rightarrow> string \<Rightarrow> string option" where
  "strip_prefix_char d s = (case s of [] \<Rightarrow> None | c # r \<Rightarrow> if c = d then Some r else None)"

definition strip_suffix_char :: "char \<Rightarrow> string \<Rightarrow> string option" where
  "strip_suffix_char d s = (if s \<noteq> [] \<and> last s = d then Some (butlast s) else None)"

lemma strip_chars [simp]:
  "strip_prefix_char d (d # s) = Some s" "strip_suffix_char d (s @ [d]) = Some s"
  by (simp_all add: strip_prefix_char_def strip_suffix_char_def)

lemma trim_matches_quoted: "d \<notin> set s \<Longrightarrow> s \<noteq> [] \<Longrightarrow> trim_matches d (d # s @ [d]) = s"
proof -
  assume d: "d \<notin> set s" and s: "s \<noteq> []"
  from d s have a: "dropWhile (\<lambda>c. c = d) (s @ t) = s @ t" for t by (cases s) auto
  from d have b: "dropWhile (\<lambda>c. c = d) (rev s) = rev s" by (cases "rev s") (auto simp: dropWhile_eq_self_iff)
  show ?thesis using a [of "[d]"] b by (simp add: trim_matches_def)
qed

lemma trim_matches_none: "d \<notin> set s \<Longrightarrow> trim_matches d s = s"
proof -
  assume d: "d \<notin> set s"
  have "dropWhile (\<lambda>c. c = d) t = t" if "d \<notin> set t" for t using that by (cases t) auto
  from this [of s] this [of "rev s"] d show ?thesis by (simp add: trim_matches_def)
qed

text \<open>A character that \<open>trim\<close> leaves alone: ASCII and not white space.\<close>

definition is_solid :: "char \<Rightarrow> bool" where
  "is_solid c \<longleftrightarrow> (32 :: nat) < of_char c \<and> (of_char c :: nat) < 128"

lemma solid_not_cont: "is_solid c \<Longrightarrow> \<not> is_cont c"
  by (simp add: is_solid_def is_cont_def)

lemma solid_not_white: "is_solid c \<Longrightarrow> \<not> is_white (c # cs)"
  by (auto simp: is_solid_def is_white_def split: list.split)

lemma utf8_chars_snoc: "\<not> is_cont d \<Longrightarrow> utf8_chars (s @ [d]) = utf8_chars s @ [[d]]"
proof (induction s rule: utf8_chars.induct)
  case (2 c cs)
  show ?case
  proof (cases "\<forall>x \<in> set cs. is_cont x")
    case True
    then have e: "dropWhile is_cont cs = []" "takeWhile is_cont cs = cs"
      by (simp_all add: dropWhile_eq_Nil_conv takeWhile_eq_all_conv)
    with True 2 show ?thesis by (simp add: takeWhile_append dropWhile_append e)
  next
    case False
    with 2 show ?thesis by (auto simp: takeWhile_append dropWhile_append)
  qed
qed simp

lemma utf8_chars_ends:
  "is_solid c \<Longrightarrow> \<not> is_white (hd (utf8_chars (c # s)))" "is_solid d \<Longrightarrow> last (utf8_chars (s @ [d])) = [d]"
  using utf8_chars_snoc [OF solid_not_cont] by (simp_all add: solid_not_white)

lemma trim_keep:
  assumes "\<not> is_white (hd (utf8_chars s))" "\<not> is_white (last (utf8_chars s))"
  shows "trim s = s" "trim (s @ '' '') = s"
proof -
  have keep: "dropWhile is_white xs = xs" if "\<not> is_white (hd xs)" for xs using that by (cases xs) auto
  have a: "dropWhile is_white (utf8_chars s) = utf8_chars s" using keep assms(1) .
  have b: "dropWhile is_white (rev (utf8_chars s)) = rev (utf8_chars s)" using keep assms(2) by (simp add: hd_rev)
  show "trim s = s" by (simp add: trim_def a b)
  have u: "utf8_chars (s @ '' '') = utf8_chars s @ ['' '']"
    using utf8_chars_snoc [of "CHR '' ''"] by (simp add: is_cont_def)
  have c: "dropWhile is_white (utf8_chars s @ ['' '']) = (if s = [] then [] else utf8_chars s @ ['' ''])"
    using assms(1) by (cases s) (simp_all add: is_white_def)
  show "trim (s @ '' '') = s" using b by (simp add: trim_def u c is_white_def)
qed

lemma trim_solid:
  assumes "s \<noteq> []" "is_solid (hd s)" "is_solid (last s)"
  shows "trim s = s" "trim (s @ '' '') = s"
proof -
  have "\<not> is_white (hd (utf8_chars s))" using utf8_chars_ends(1) [of "hd s" "tl s"] assms by simp
  moreover have "last (utf8_chars s) = [last s]" using utf8_chars_ends(2) [of "last s" "butlast s"] assms by simp
  then have "\<not> is_white (last (utf8_chars s))" using assms(3) by (simp add: solid_not_white)
  ultimately show "trim s = s" "trim (s @ '' '') = s" by (rule trim_keep)+
qed

lemma trim_space: "s \<noteq> [] \<Longrightarrow> \<not> is_cont (hd s) \<Longrightarrow> trim (CHR '' '' # s) = trim s"
proof -
  assume "s \<noteq> []" "\<not> is_cont (hd s)"
  then have "utf8_chars (CHR '' '' # s) = '' '' # utf8_chars s" by (cases s) auto
  then show ?thesis by (simp add: trim_def is_white_def)
qed

end
