(* ===== verification/Mutes.thy ===== *)
theory Mutes
  imports Adapter Persist Texts "HOL-Library.List_Lexorder" "HOL-Library.Char_ord" "HOL-Library.Option_ord"
begin

text \<open>
  Chats muted in thinwire (\<open>crates/thinwire-core/src/mutes.rs\<close>): the set, its file and the writes.
  The map from an account to its ids is an association list of lists without repetition (a hash map
  of hash sets). Reading the file gives its bytes, a missing file or an error.
\<close>

section \<open>Mute of a chat\<close>

datatype chat_mute = NotMuted | MutedHere | MutedByProtocol

fun mute_is_muted :: "chat_mute \<Rightarrow> bool" where
  "mute_is_muted NotMuted = False"
| "mute_is_muted _ = True"

definition chat_mute_of :: "bool \<Rightarrow> bool \<Rightarrow> chat_mute" where
  "chat_mute_of protocol_muted muted_here =
     (if protocol_muted then MutedByProtocol else if muted_here then MutedHere else NotMuted)"

section \<open>The muted chats\<close>

definition MUTES_HEADER :: string where
  "MUTES_HEADER = ''# Chats muted in thinwire. One '' @ [CHR 39] @ ''<protocol> <conversation_id>'' @ [CHR 39] @ '' per line.''"

type_synonym chats = "(protocol_id \<times> string list) list"

record chat_mutes =
  mu_chats :: chats
  mu_path :: "string option"
  mu_persist_pending :: bool
  mu_persist_epoch :: u64
  mu_latest_persist :: u64

definition mutes_with_chats :: "chats \<Rightarrow> chat_mutes" where
  "mutes_with_chats chats =
     \<lparr>mu_chats = chats, mu_path = None, mu_persist_pending = False, mu_persist_epoch = 0, mu_latest_persist = 0\<rparr>"

definition mutes_in_memory :: chat_mutes where
  "mutes_in_memory = mutes_with_chats []"

definition chats_contain :: "chats \<Rightarrow> protocol_id \<Rightarrow> string \<Rightarrow> bool" where
  "chats_contain chats protocol conversation_id \<longleftrightarrow>
     (case hm_get chats protocol of Some ids \<Rightarrow> conversation_id \<in> set ids | None \<Rightarrow> False)"

definition mutes_contains :: "protocol_id \<Rightarrow> string \<Rightarrow> chat_mutes \<Rightarrow> bool" where
  "mutes_contains protocol conversation_id m = chats_contain (mu_chats m) protocol conversation_id"

text \<open>\<open>entry(protocol).or_default().insert(id)\<close>: whether the id is new, and the map.\<close>

definition insert_id :: "protocol_id \<Rightarrow> string \<Rightarrow> chats \<Rightarrow> bool \<times> chats" where
  "insert_id protocol i chats =
     (let ids = (case hm_get chats protocol of Some ids \<Rightarrow> ids | None \<Rightarrow> [])
      in (i \<notin> set ids, hm_insert protocol (if i \<in> set ids then ids else ids @ [i]) chats))"

definition mutes_set :: "protocol_id \<Rightarrow> string \<Rightarrow> bool \<Rightarrow> chat_mutes \<Rightarrow> bool \<times> chat_mutes" where
  "mutes_set protocol conversation_id muted m =
     (let (changed, chats) =
        (if muted then insert_id protocol conversation_id (mu_chats m)
         else case hm_get (mu_chats m) protocol of
             None \<Rightarrow> (False, mu_chats m)
           | Some ids \<Rightarrow>
               (conversation_id \<in> set ids, hm_insert protocol (removeAll conversation_id ids) (mu_chats m)))
      in (changed, m\<lparr>mu_chats := chats, mu_persist_pending := mu_persist_pending m \<or> changed\<rparr>))"

definition mutes_forget :: "protocol_id \<Rightarrow> chat_mutes \<Rightarrow> chat_mutes" where
  "mutes_forget protocol m =
     (let changed = (case hm_get (mu_chats m) protocol of Some ids \<Rightarrow> ids \<noteq> [] | None \<Rightarrow> False)
      in m\<lparr>mu_chats := hm_remove protocol (mu_chats m), mu_persist_pending := mu_persist_pending m \<or> changed\<rparr>)"

section \<open>The file\<close>

definition is_ascii_whitespace :: "char \<Rightarrow> bool" where
  "is_ascii_whitespace c \<longleftrightarrow> (of_char c :: nat) \<in> {9, 10, 12, 13, 32}"

definition trim_ascii :: "string \<Rightarrow> string" where
  "trim_ascii s = rev (dropWhile is_ascii_whitespace (rev (dropWhile is_ascii_whitespace s)))"

definition mute_line :: "string \<Rightarrow> (protocol_id \<times> string) option" where
  "mute_line line =
     (if \<not> valid_utf8 line then None
      else case split_once (CHR '' '') line of
        None \<Rightarrow> None
      | Some (protocol, i) \<Rightarrow>
          (case from_key protocol of
             None \<Rightarrow> None
           | Some p \<Rightarrow> if i = [] then None else Some (p, i)))"

definition mute_lines :: "string \<Rightarrow> (protocol_id \<times> string) list" where
  "mute_lines contents =
     List.map_filter mute_line
       (filter (\<lambda>line. trim_ascii line \<noteq> [] \<and> \<not> (line \<noteq> [] \<and> hd line = CHR ''#''))
         (map strip_cr (str_split NL contents)))"

definition parse_mutes :: "string \<Rightarrow> chats" where
  "parse_mutes contents = foldl (\<lambda>chats (protocol, i). snd (insert_id protocol i chats)) [] (mute_lines contents)"

fun position :: "('a \<Rightarrow> bool) \<Rightarrow> 'a list \<Rightarrow> nat option" where
  "position P [] = None"
| "position P (x # xs) = (if P x then Some 0 else map_option Suc (position P xs))"

definition mute_accounts :: "chats \<Rightarrow> protocol_id list" where
  "mute_accounts chats =
     sort_key (\<lambda>a. (position (\<lambda>known. known = first_account a) all_protocols, pid_slot a)) (map fst chats)"

definition render_mutes :: "chats \<Rightarrow> string" where
  "render_mutes chats =
     MUTES_HEADER @ [NL] @
     concat (map (\<lambda>protocol.
       case hm_get chats protocol of
         None \<Rightarrow> []
       | Some ids \<Rightarrow>
           concat (map (\<lambda>i. if NL \<in> set i \<or> CR \<in> set i then [] else pid_key protocol @ '' '' @ i @ [NL]) (sort ids)))
       (mute_accounts chats))"

datatype file_read = FileBytes string | FileMissing | FileError

fun mutes_load_from :: "string \<Rightarrow> file_read \<Rightarrow> chat_mutes" where
  "mutes_load_from path (FileBytes bytes) = (mutes_with_chats (parse_mutes bytes))\<lparr>mu_path := Some path\<rparr>"
| "mutes_load_from path FileMissing = mutes_in_memory\<lparr>mu_path := Some path\<rparr>"
| "mutes_load_from path FileError = mutes_in_memory"

definition mutes_take_persist_job :: "chat_mutes \<Rightarrow> persist_job option \<times> chat_mutes" where
  "mutes_take_persist_job m =
     (if \<not> mu_persist_pending m then (None, m\<lparr>mu_persist_pending := False\<rparr>)
      else let m = m\<lparr>mu_persist_pending := False\<rparr>
        in case mu_path m of
             None \<Rightarrow> (None, m)
           | Some path \<Rightarrow>
               let m = m\<lparr>mu_persist_epoch := mu_persist_epoch m + 1, mu_latest_persist := mu_persist_epoch m + 1\<rparr>
               in (Some \<lparr>pj_path = path, pj_contents = render_mutes (mu_chats m), pj_epoch = mu_persist_epoch m,
                         pj_private = True\<rparr>, m))"

section \<open>Facts about the set\<close>

lemma chats_contain_insert [simp]:
  "chats_contain (snd (insert_id p i chats)) q j \<longleftrightarrow> (q = p \<and> j = i) \<or> chats_contain chats q j"
  by (auto simp: chats_contain_def insert_id_def Let_def update_conv' split: option.splits)

definition chats_ok :: "chats \<Rightarrow> bool" where
  "chats_ok chats \<longleftrightarrow> hm_ok chats \<and>
     (\<forall>p ids. hm_get chats p = Some ids \<longrightarrow> pid_wf p \<and> distinct ids \<and> (\<forall>i \<in> set ids. valid_utf8 i))"

lemma chats_contain_fold:
  "chats_contain (foldl (\<lambda>chats (p, i). snd (insert_id p i chats)) chats es) q j \<longleftrightarrow>
   chats_contain chats q j \<or> (q, j) \<in> set es"
proof (induction es arbitrary: chats)
  case (Cons e es)
  obtain p i where "e = (p, i)" by fastforce
  with Cons.IH [of "snd (insert_id p i chats)"] show ?case by auto
qed simp

lemma set_mute_accounts [simp]: "set (mute_accounts chats) = fst ` set chats"
  by (simp add: mute_accounts_def)

text \<open>The entries of the file, in order.\<close>

definition mute_entries :: "chats \<Rightarrow> (protocol_id \<times> string) list" where
  "mute_entries chats =
     concat (map (\<lambda>p. map (Pair p) (filter (\<lambda>i. NL \<notin> set i \<and> CR \<notin> set i)
       (case hm_get chats p of None \<Rightarrow> [] | Some ids \<Rightarrow> sort ids))) (mute_accounts chats))"

definition entry_line :: "protocol_id \<times> string \<Rightarrow> string" where
  "entry_line e = pid_key (fst e) @ '' '' @ snd e"

lemma concat_entries:
  "concat (map (\<lambda>i. if NL \<in> set i \<or> CR \<in> set i then [] else pid_key p @ '' '' @ i @ [NL]) ids) =
   concat (map (\<lambda>e. entry_line e @ [NL]) (map (Pair p) (filter (\<lambda>i. NL \<notin> set i \<and> CR \<notin> set i) ids)))"
  by (induction ids) (auto simp: entry_line_def)

lemma concat_nested: "concat (map (\<lambda>x. concat (g x)) xs) = concat (concat (map g xs))"
  by (induction xs) simp_all

lemma render_entries:
  "render_mutes chats = concat (map (\<lambda>l. l @ [NL]) (MUTES_HEADER # map entry_line (mute_entries chats)))"
proof -
  have "(case hm_get chats p of None \<Rightarrow> []
       | Some ids \<Rightarrow> concat (map (\<lambda>i. if NL \<in> set i \<or> CR \<in> set i then [] else pid_key p @ '' '' @ i @ [NL]) (sort ids))) =
     concat (map (\<lambda>e. entry_line e @ [NL]) (map (Pair p) (filter (\<lambda>i. NL \<notin> set i \<and> CR \<notin> set i)
       (case hm_get chats p of None \<Rightarrow> [] | Some ids \<Rightarrow> sort ids))))" for p
    by (cases "hm_get chats p") (simp_all only: concat_entries option.case, simp)
  then show ?thesis
    unfolding render_mutes_def mute_entries_def by (simp add: map_concat comp_def concat_nested)
qed

lemma mute_entries_set:
  "(p, i) \<in> set (mute_entries chats) \<longleftrightarrow> chats_contain chats p i \<and> NL \<notin> set i \<and> CR \<notin> set i"
proof (cases "hm_get chats p")
  case None
  then show ?thesis by (auto simp: mute_entries_def chats_contain_def split: option.splits)
next
  case (Some ids)
  then have p: "p \<in> fst ` set chats" by (metis domI dom_map_of_conv_image_fst)
  have "(p, i) \<in> set (mute_entries chats) \<longleftrightarrow>
      (\<exists>q \<in> fst ` set chats. q = p \<and> i \<in> set (case hm_get chats q of None \<Rightarrow> [] | Some ids \<Rightarrow> sort ids) \<and> NL \<notin> set i \<and> CR \<notin> set i)"
    by (auto simp: mute_entries_def)
  with Some p show ?thesis by (auto simp: chats_contain_def)
qed

lemma str_split_lines:
  "(\<And>l. l \<in> set ls \<Longrightarrow> NL \<notin> set l) \<Longrightarrow> str_split NL (concat (map (\<lambda>l. l @ [NL]) ls)) = ls @ [[]]"
  by (induction ls) (simp_all add: str_split_piece str_split_last)

lemma kind_key_solid: "c \<in> set (kind_key k) \<Longrightarrow> is_solid c" "kind_key k \<noteq> []" "hd (kind_key k) \<noteq> CHR ''#''"
  by (cases k; auto simp: is_solid_def)+

lemma show_nat_solid: "c \<in> set (show_nat n) \<Longrightarrow> is_solid c"
  using show_nat_digits [of c n] by (auto simp: is_digit_def is_solid_def)

lemma pid_key_solid: "c \<in> set (pid_key p) \<Longrightarrow> is_solid c" "pid_key p \<noteq> []" "hd (pid_key p) \<noteq> CHR ''#''"
proof -
  have "is_solid (CHR ''#'')" by (simp add: is_solid_def)
  then show "c \<in> set (pid_key p) \<Longrightarrow> is_solid c"
    by (auto simp: pid_key_def intro: kind_key_solid(1) show_nat_solid split: if_splits)
qed (use kind_key_solid(2,3) [of "pid_kind p"] in \<open>simp_all add: pid_key_def\<close>)

lemma entry_read_back:
  assumes "pid_wf p" "valid_utf8 i" "CR \<notin> set i"
  shows "strip_cr (entry_line (p, i)) = entry_line (p, i)" (is ?strip)
    and "trim_ascii (entry_line (p, i)) \<noteq> []" (is ?trim)
    and "entry_line (p, i) \<noteq> []" (is ?nonempty) and "hd (entry_line (p, i)) \<noteq> CHR ''#''" (is ?hash)
    and "mute_line (entry_line (p, i)) = (if i = [] then None else Some (p, i))" (is ?line)
proof -
  have sp: "CHR '' '' \<notin> set (pid_key p)" using pid_key_solid(1) [of "CHR '' ''" p] by (auto simp: is_solid_def)
  have "CR \<notin> set (entry_line (p, i))"
    using assms(3) pid_key_solid(1) [of CR p] by (auto simp: entry_line_def is_solid_def)
  then show ?strip unfolding strip_cr_def by (metis last_in_set)
  show ?nonempty ?hash using pid_key_solid(2,3) [of p] by (simp_all add: entry_line_def)
  have hd: "\<not> is_ascii_whitespace (hd (pid_key p))"
    using pid_key_solid(1) [OF list.set_sel(1) [OF pid_key_solid(2) [of p]]] by (auto simp: is_solid_def is_ascii_whitespace_def)
  have "hd (pid_key p) \<in> set (entry_line (p, i))" using pid_key_solid(2) [of p] by (simp add: entry_line_def)
  moreover have "dropWhile is_ascii_whitespace (entry_line (p, i)) = entry_line (p, i)"
    using hd pid_key_solid(2) [of p] by (cases "pid_key p") (simp_all add: entry_line_def)
  ultimately show ?trim using hd by (auto simp: trim_ascii_def dropWhile_eq_Nil_conv)
  have "valid_utf8 (entry_line (p, i))"
    using assms(2) by (simp add: entry_line_def valid_utf8_append valid_utf8_ascii pid_key_ascii utf8_tail_def)
  moreover have "split_once (CHR '' '') (entry_line (p, i)) = Some (pid_key p, i)"
    using split_once_append [OF sp] by (simp add: entry_line_def)
  ultimately show ?line using pid_key_roundtrip [OF assms(1)] by (simp add: mute_line_def)
qed

lemma strip_header: "strip_cr MUTES_HEADER = MUTES_HEADER" "hd MUTES_HEADER = CHR ''#''" "NL \<notin> set MUTES_HEADER"
  "MUTES_HEADER \<noteq> []"
  by (simp_all add: strip_cr_def MUTES_HEADER_def CR_def NL_def)

lemma entry_line_no_break: "NL \<notin> set i \<Longrightarrow> NL \<notin> set (entry_line (p, i))"
  using pid_key_solid(1) [of NL p] by (auto simp: entry_line_def is_solid_def)

lemma map_filter_entries:
  assumes "\<And>p i. (p, i) \<in> set es \<Longrightarrow> pid_wf p \<and> valid_utf8 i \<and> CR \<notin> set i"
  shows "List.map_filter mute_line
      (filter (\<lambda>line. trim_ascii line \<noteq> [] \<and> \<not> (line \<noteq> [] \<and> hd line = CHR ''#'')) (map strip_cr (map entry_line es))) =
    filter (\<lambda>e. snd e \<noteq> []) es"
  using assms
proof (induction es)
  case (Cons e es)
  obtain p i where e: "e = (p, i)" by fastforce
  with Cons.prems [of p i] have pi: "pid_wf p" "valid_utf8 i" "CR \<notin> set i" by simp_all
  have "List.map_filter mute_line
      (filter (\<lambda>line. trim_ascii line \<noteq> [] \<and> \<not> (line \<noteq> [] \<and> hd line = CHR ''#'')) (map strip_cr (map entry_line es))) =
    filter (\<lambda>e. snd e \<noteq> []) es"
    by (rule Cons.IH) (use Cons.prems in auto)
  then show ?case
    using entry_read_back [OF pi]
    by (cases "i = []") (simp_all add: e List.map_filter_simps)
qed (simp add: List.map_filter_simps)

lemma mute_lines_render:
  assumes "chats_ok chats"
  shows "mute_lines (render_mutes chats) = filter (\<lambda>e. snd e \<noteq> []) (mute_entries chats)"
proof -
  have wf: "pid_wf p \<and> valid_utf8 i \<and> CR \<notin> set i \<and> NL \<notin> set i" if "(p, i) \<in> set (mute_entries chats)" for p i
    using that assms
    by (auto simp: mute_entries_set chats_ok_def chats_contain_def split: option.splits dest!: map_of_SomeD)
  have "str_split NL (render_mutes chats) = (MUTES_HEADER # map entry_line (mute_entries chats)) @ [[]]"
    unfolding render_entries
    by (rule str_split_lines) (use wf strip_header(3) entry_line_no_break in fastforce)
  moreover have "List.map_filter mute_line (xs @ ys) = List.map_filter mute_line xs @ List.map_filter mute_line ys" for xs ys
    by (simp add: List.map_filter_def)
  moreover have "trim_ascii (strip_cr []) = []" by (simp add: trim_ascii_def strip_cr_def)
  ultimately show ?thesis
    using map_filter_entries [of "mute_entries chats"] wf strip_header
    by (simp add: mute_lines_def List.map_filter_simps)
qed

lemma parse_render:
  assumes "chats_ok chats"
  shows "chats_contain (parse_mutes (render_mutes chats)) p i \<longleftrightarrow>
    chats_contain chats p i \<and> i \<noteq> [] \<and> NL \<notin> set i \<and> CR \<notin> set i"
  unfolding parse_mutes_def chats_contain_fold mute_lines_render [OF assms]
  by (auto simp: chats_contain_def mute_entries_set)

lemma mutes_set_contains:
  "mutes_contains q j (snd (mutes_set p i muted m)) \<longleftrightarrow> (if q = p \<and> j = i then muted else mutes_contains q j m)"
  "fst (mutes_set p i muted m) \<longleftrightarrow> mutes_contains p i m \<noteq> muted"
  by (auto simp: mutes_set_def mutes_contains_def chats_contain_def insert_id_def Let_def update_conv' split: option.splits)

lemma mutes_forget_contains: "mutes_contains q j (mutes_forget p m) \<longleftrightarrow> q \<noteq> p \<and> mutes_contains q j m"
  by (simp add: mutes_forget_def mutes_contains_def chats_contain_def Let_def delete_conv')

lemma chats_ok_insert:
  "chats_ok chats \<Longrightarrow> pid_wf p \<Longrightarrow> distinct ids \<Longrightarrow> \<forall>i \<in> set ids. valid_utf8 i \<Longrightarrow> chats_ok (hm_insert p ids chats)"
  by (auto simp: chats_ok_def hm.ok_insert update_conv' split: if_splits)

lemma chats_ok_get: "chats_ok chats \<Longrightarrow> hm_get chats p = Some ids \<Longrightarrow> distinct ids" "chats_ok chats \<Longrightarrow> hm_get chats p = Some ids \<Longrightarrow> i \<in> set ids \<Longrightarrow> valid_utf8 i"
  by (auto simp: chats_ok_def)

lemma mutes_set_ok:
  "chats_ok (mu_chats m) \<Longrightarrow> pid_wf p \<Longrightarrow> valid_utf8 i \<Longrightarrow> chats_ok (mu_chats (snd (mutes_set p i muted m)))"
  by (auto simp: mutes_set_def insert_id_def Let_def chats_ok_get split: option.splits
      intro!: chats_ok_insert intro: distinct_removeAll)

lemma mutes_forget_ok: "chats_ok (mu_chats m) \<Longrightarrow> chats_ok (mu_chats (mutes_forget p m))"
  by (simp add: mutes_forget_def Let_def chats_ok_def hm.ok_remove delete_conv')

lemma mutes_load_ok: "chats_ok []"
  by (simp add: chats_ok_def hm.ok_none)

section \<open>The file follows\<close>

text \<open>What the app does with the muted chats between two writes.\<close>

inductive mutes_change :: "chat_mutes \<Rightarrow> chat_mutes \<Rightarrow> bool" where
  "mutes_change m (snd (mutes_set p i muted m))"
| "mutes_change m (mutes_forget p m)"

text \<open>A call that changes nothing writes nothing, so the text must not change either.\<close>

lemma insert_same_get: "hm_get m k = Some v \<Longrightarrow> hm_insert k v m = m"
  by (induction m) (auto split: if_splits)

lemma keys_hm_remove: "map fst (hm_remove p chats) = filter (\<lambda>q. q \<noteq> p) (map fst chats)"
  by (induction chats) (auto simp: AList.delete_eq)

lemma concat_map_filter: "(\<And>x. x \<in> set xs \<Longrightarrow> \<not> P x \<Longrightarrow> f x = []) \<Longrightarrow> concat (map f (filter P xs)) = concat (map f xs)"
  by (induction xs) auto

lemma render_delete_empty:
  assumes "case hm_get chats p of Some ids \<Rightarrow> ids = [] | None \<Rightarrow> True"
  shows "render_mutes (hm_remove p chats) = render_mutes chats"
proof -
  define f where "f = (\<lambda>m q. case hm_get m q of None \<Rightarrow> [] | Some ids \<Rightarrow>
      concat (map (\<lambda>i. if NL \<in> set i \<or> CR \<in> set i then [] else pid_key q @ '' '' @ i @ [NL]) (sort ids)))"
  have r: "render_mutes m = MUTES_HEADER @ [NL] @ concat (map (f m) (mute_accounts m))" for m
    by (simp add: render_mutes_def f_def)
  have k: "mute_accounts (hm_remove p chats) = filter (\<lambda>q. q \<noteq> p) (mute_accounts chats)"
    by (simp only: mute_accounts_def keys_hm_remove filter_sort)
  have p: "f chats p = []" using assms by (auto simp: f_def split: option.splits)
  have e: "map (f (hm_remove p chats)) (filter (\<lambda>q. q \<noteq> p) (mute_accounts chats)) =
      map (f chats) (filter (\<lambda>q. q \<noteq> p) (mute_accounts chats))"
    by (auto simp: f_def delete_conv')
  then show ?thesis
    unfolding r k e by (subst concat_map_filter) (auto simp: p)
qed

definition mutes_in_file :: "chat_mutes \<Rightarrow> bool" where
  "mutes_in_file m \<longleftrightarrow> mu_path m \<noteq> None"

interpretation mutes_file: write_queue mutes_take_persist_job "\<lambda>m. render_mutes (mu_chats m)" mu_persist_pending
  mu_persist_epoch mutes_in_file mutes_change
proof unfold_locales
  fix m m'
  assume c: "mutes_change m m'"
  then show "mu_persist_epoch m' = mu_persist_epoch m" "mutes_in_file m' = mutes_in_file m"
    by (cases rule: mutes_change.cases; auto simp: mutes_set_def mutes_forget_def mutes_in_file_def Let_def split: prod.split)+
  show "mu_persist_pending m' \<or> render_mutes (mu_chats m') = render_mutes (mu_chats m) \<and> \<not> mu_persist_pending m"
    using c
  proof cases
    case (1 p i muted)
    then show ?thesis
      by (auto simp: mutes_set_def insert_id_def Let_def insert_same_get split: option.split)
  next
    case (2 p)
    then show ?thesis
      by (auto simp: mutes_forget_def Let_def intro!: render_delete_empty split: option.split)
  qed
qed (auto simp: mutes_take_persist_job_def mutes_in_file_def Let_def split: if_splits option.splits)

text \<open>What is muted is on disk: whatever the order in which the user mutes and unmutes, accounts end, jobs
  are taken and workers write, once no write waits and the jobs returned, reading the file back gives
  exactly the muted chats, except an id that is empty or has a line break.\<close>

theorem mutes_survive_restart:
  assumes "mutes_file.file_run (mutes_load_from path read) disk m w"
    and "chats_ok (mu_chats m)" "mutes_in_file m" "\<not> mu_persist_pending m" "all_finished w" "\<not> pw_failed w" "pw_jobs w \<noteq> []"
  shows "\<exists>bytes. pw_disk w = Some bytes \<and>
    (mutes_contains p i (mutes_load_from path (FileBytes bytes)) \<longleftrightarrow>
       mutes_contains p i m \<and> i \<noteq> [] \<and> NL \<notin> set i \<and> CR \<notin> set i)"
  using mutes_file.file_follows [OF assms(1,3-6)] parse_render [OF assms(2)] assms(7)
  by (auto simp: mutes_contains_def mutes_with_chats_def)

theorem mutes_survive_restart_witness:
  "\<exists>bytes. mutes_contains (primary Telegram) ''telegram:1''
     (mutes_load_from ''muted_chats'' (FileBytes bytes))"
proof -
  let ?m0 = "mutes_load_from ''muted_chats'' FileMissing"
  define m1 where "m1 = snd (mutes_set (primary Telegram) ''telegram:1'' True ?m0)"
  define job where "job = \<lparr>pj_path = ''muted_chats'', pj_contents = render_mutes (mu_chats m1), pj_epoch = 1, pj_private = True\<rparr>"
  define m2 where "m2 = snd (mutes_take_persist_job m1)"
  define w where "w = add_job job (persist_world_start None)"
  have fields: "mu_chats m1 = [(primary Telegram, [''telegram:1''])]" "mu_persist_pending m1" "mu_path m1 = Some ''muted_chats''"
    "mu_persist_epoch m1 = 0"
    by (simp_all add: m1_def mutes_set_def insert_id_def mutes_in_memory_def mutes_with_chats_def)
  have t: "mutes_take_persist_job m1 = (Some job, m2)"
    using fields by (simp add: m2_def job_def mutes_take_persist_job_def)
  have "mutes_file.file_run ?m0 None ?m0 (persist_world_start None)"
    by (rule mutes_file.file_run.begins) (simp add: mutes_in_memory_def mutes_with_chats_def)
  then have "mutes_file.file_run ?m0 None m1 (persist_world_start None)"
    unfolding m1_def by (rule mutes_file.file_run.changes) (rule mutes_change.intros)
  then have r: "mutes_file.file_run ?m0 None m2 w"
    unfolding w_def by (rule mutes_file.file_run.takes) (rule t)
  have adv: "mutes_file.file_run ?m0 None m2 (advance_all ks v)" if "mutes_file.file_run ?m0 None m2 v" for ks v
    using that by (induction ks arbitrary: v)
      (auto simp: advance_all_def intro: mutes_file.file_run.works split: option.split)
  define v where "v = advance_all [0, 0, 0, 0] w"
  have v: "pw_jobs v = [(job, PFinished)]" "\<not> pw_failed v"
    by (simp_all add: v_def w_def advance_all_def advance_def add_job_def persist_world_start_def set_phase_def is_current_def job_def)
  have m2: "mu_chats m2 = mu_chats m1" "\<not> mu_persist_pending m2" "mutes_in_file m2"
    using fields by (simp_all add: m2_def mutes_take_persist_job_def mutes_in_file_def)
  have "valid_utf8 ''telegram:1''" by (rule valid_utf8_ascii) simp
  then have ok: "chats_ok (mu_chats m2)"
    by (simp add: m2 fields chats_ok_def hm_ok_def pid_wf_def del: valid_utf8.simps)
  have "all_finished v" "pw_jobs v \<noteq> []" using v by (simp_all add: all_finished_def)
  from mutes_survive_restart [OF adv [OF r, of "[0, 0, 0, 0]", folded v_def] ok m2(3,2) this(1) v(2) this(2),
      of "primary Telegram" "''telegram:1''"]
  show ?thesis by (auto simp: mutes_contains_def m2 fields chats_contain_def NL_def CR_def)
qed

end
