(* ===== verification/Notify.thy ===== *)
theory Notify
  imports Mutes
begin

text \<open>
  Desktop notifications (\<open>crates/thinwire-core/src/notify.rs\<close>): the rules, the pending
  notifications and the queue of commands for the frontend. The map
  of pending notifications is a hash map; keys that the code's sort takes for equal (topics of one
  chat) come in the order of the map. The frontend is not in this file: \<open>shown\<close> is what the
  commands mean by their documentation.
\<close>

section \<open>Notifications and commands\<close>

definition STALE_AFTER_SECS :: i64 where
  "STALE_AFTER_SECS = 300"

definition QUEUE_LIMIT :: nat where
  "QUEUE_LIMIT = 64"

definition PREVIEW_CHARS :: nat where
  "PREVIEW_CHARS = 120"

definition HIDDEN_PREVIEW :: string where
  "HIDDEN_PREVIEW = ''New message''"

record notify_key =
  nk_protocol :: protocol_id
  nk_conversation_id :: string
  nk_topic :: "message_topic option"

record notification =
  nt_key :: notify_key
  nt_title :: string
  nt_sender :: "string option"
  nt_preview :: string
  nt_count :: u32

definition notification_body :: "notification \<Rightarrow> string" where
  "notification_body n =
     (let body = (case nt_sender n of Some sender \<Rightarrow> sender @ '': '' @ nt_preview n | None \<Rightarrow> nt_preview n)
      in if 1 < nt_count n then body @ '' ('' @ show_nat (unat (nt_count n)) @ '' new)'' else body)"

datatype notify_command = Show notification | Update notification | Dismiss notify_key

fun command_key :: "notify_command \<Rightarrow> notify_key" where
  "command_key (Show n) = nt_key n"
| "command_key (Update n) = nt_key n"
| "command_key (Dismiss k) = k"

fun is_content :: "notify_command \<Rightarrow> bool" where
  "is_content (Dismiss _) = False"
| "is_content _ = True"

section \<open>The rules\<close>

record notify_context =
  nc_enabled :: bool
  nc_preview :: bool
  nc_window_focused :: bool
  nc_viewed :: "(protocol_id \<times> string) option"
  nc_viewed_topic :: "message_topic option"
  nc_has_session :: bool
  nc_muted_here :: bool
  nc_topic_muted :: bool
  nc_topic_name :: "string option"
  nc_now :: i64

datatype skip_reason =
  SkipDisabled | SkipHistory | SkipOutbound | NoSession | UnknownChat | SkipMuted | SkipViewed | SkipStale

text \<open>\<open>None\<close> is the code's \<open>Ok\<close>.\<close>

definition decide :: "chat_message \<Rightarrow> conversation option \<Rightarrow> notify_context \<Rightarrow> skip_reason option" where
  "decide message chat ctx =
     (if \<not> nc_enabled ctx then Some SkipDisabled
      else if cm_arrival message \<noteq> Live then Some SkipHistory
      else if cm_outbound message then Some SkipOutbound
      else if \<not> nc_has_session ctx then Some NoSession
      else case chat of
        None \<Rightarrow> Some UnknownChat
      | Some c \<Rightarrow>
          if mute_is_muted (chat_mute_of (cv_muted c) (nc_muted_here ctx)) \<or> nc_topic_muted ctx
          then Some SkipMuted
          else
            let seen = nc_viewed ctx = Some (cm_protocol message, cm_conversation_id message) \<and>
                  cm_topic message = nc_viewed_topic ctx
            in if nc_window_focused ctx \<and> seen then Some SkipViewed
               else if cm_sent_at message \<noteq> 0 \<and> STALE_AFTER_SECS < nc_now ctx - cm_sent_at message
               then Some SkipStale
               else None)"

section \<open>Pending notifications and the queue\<close>

datatype chat_now = Gone | Listed u32

record pending_notification =
  pn_shown :: notification
  pn_saw_unread :: bool

record notifications =
  nf_pending :: "(notify_key \<times> pending_notification) list"
  nf_queue :: "notify_command list"
  nf_window_focused :: bool
  nf_closing :: bool

definition notifications_new :: notifications where
  "notifications_new = \<lparr>nf_pending = [], nf_queue = [], nf_window_focused = True, nf_closing = False\<rparr>"

definition set_focus :: "bool \<Rightarrow> notifications \<Rightarrow> notifications" where
  "set_focus focused s = s\<lparr>nf_window_focused := focused\<rparr>"

fun remove_first :: "('a \<Rightarrow> bool) \<Rightarrow> 'a list \<Rightarrow> 'a list" where
  "remove_first P [] = []"
| "remove_first P (x # xs) = (if P x then xs else x # remove_first P xs)"

lemma length_remove_first: "list_ex P xs \<Longrightarrow> length (remove_first P xs) < length xs"
  by (induction xs) auto

function trim_queue :: "notify_command list \<Rightarrow> notify_command list" where
  "trim_queue q =
     (if QUEUE_LIMIT < length q \<and> list_ex is_content q then trim_queue (remove_first is_content q) else q)"
  by auto
termination by (relation "measure length") (auto simp: length_remove_first)

declare trim_queue.simps [simp del]

definition push :: "notify_command \<Rightarrow> notifications \<Rightarrow> notifications" where
  "push c s = s\<lparr>nf_queue := trim_queue (nf_queue s @ [c])\<rparr>"

definition content_of :: "notify_key \<Rightarrow> notify_command \<Rightarrow> bool" where
  "content_of key c \<longleftrightarrow> is_content c \<and> command_key c = key"

definition show_notification :: "notification \<Rightarrow> notifications \<Rightarrow> notifications" where
  "show_notification n s =
     push (Show n) (s\<lparr>nf_queue := filter (\<lambda>c. \<not> content_of (nt_key n) c) (nf_queue s)\<rparr>)"

definition topic_separator :: string where
  "topic_separator = [CHR '' '', CHR 0xE2, CHR 0x80, CHR 0xBA, CHR '' '']"

definition notification_text :: "chat_message \<Rightarrow> string" where
  "notification_text message =
     (if cm_body message = [] \<and> cm_photo message \<noteq> None then ''Photo''
      else if cm_body message = [] then
        (case cm_file message of Some f \<Rightarrow> mf_name f | None \<Rightarrow> cm_body message)
      else cm_body message)"

definition notification_for :: "chat_message \<Rightarrow> conversation \<Rightarrow> notify_context \<Rightarrow> notifications \<Rightarrow> notification" where
  "notification_for message c ctx s =
     (let key = \<lparr>nk_protocol = cm_protocol message, nk_conversation_id = cm_conversation_id message,
                 nk_topic = cm_topic message\<rparr>
      in \<lparr>nt_key = key,
          nt_title = (case nc_topic_name ctx of
              Some name \<Rightarrow> if cm_topic message \<noteq> None then cv_title c @ topic_separator @ name else cv_title c
            | None \<Rightarrow> cv_title c),
          nt_sender = (if nc_preview ctx \<and> cv_is_group c then Some (cm_sender message) else None),
          nt_preview = (if nc_preview ctx
            then concat (take PREVIEW_CHARS (utf8_chars (notification_text message)))
            else HIDDEN_PREVIEW),
          nt_count = (case map_of (nf_pending s) key of Some p \<Rightarrow> nt_count (pn_shown p) | None \<Rightarrow> 0) + 1\<rparr>)"

definition on_message ::
    "chat_message \<Rightarrow> conversation option \<Rightarrow> notify_context \<Rightarrow> notifications \<Rightarrow> skip_reason option \<times> notifications" where
  "on_message message chat ctx s =
     (if nf_closing s then (Some SkipDisabled, s)
      else case decide message chat ctx of
        Some reason \<Rightarrow> (Some reason, s)
      | None \<Rightarrow>
          (case chat of
             None \<Rightarrow> (Some UnknownChat, s)
           | Some c \<Rightarrow>
               let n = notification_for message c ctx s
               in (None, show_notification n
                    (s\<lparr>nf_pending :=
                         AList.update (nt_key n) \<lparr>pn_shown = n, pn_saw_unread = False\<rparr> (nf_pending s)\<rparr>))))"

definition pending_keys :: "notifications \<Rightarrow> notify_key list" where
  "pending_keys s =
     sort_key (\<lambda>k. (kind_display_name (pid_kind (nk_protocol k)), nk_conversation_id k)) (map fst (nf_pending s))"

definition dismiss :: "notify_key \<Rightarrow> notifications \<Rightarrow> notifications" where
  "dismiss key s =
     (if map_of (nf_pending s) key = None then s
      else push (Dismiss key)
        (s\<lparr>nf_pending := AList.delete key (nf_pending s),
           nf_queue := filter (\<lambda>c. \<not> content_of key c) (nf_queue s)\<rparr>))"

definition clear_all :: "notifications \<Rightarrow> notifications" where
  "clear_all s = foldl (\<lambda>s k. dismiss k s) s (pending_keys s)"

definition hidden :: "notification \<Rightarrow> bool" where
  "hidden n \<longleftrightarrow> nt_preview n = HIDDEN_PREVIEW \<and> nt_sender n = None"

definition queued_show :: "notify_key \<Rightarrow> notify_command \<Rightarrow> bool" where
  "queued_show key c \<longleftrightarrow> (case c of Show n \<Rightarrow> nt_key n = key | _ \<Rightarrow> False)"

definition queued_update :: "notify_key \<Rightarrow> notify_command \<Rightarrow> bool" where
  "queued_update key c \<longleftrightarrow> (case c of Update n \<Rightarrow> nt_key n = key | _ \<Rightarrow> False)"

fun replace_first :: "('a \<Rightarrow> bool) \<Rightarrow> 'a \<Rightarrow> 'a list \<Rightarrow> 'a list" where
  "replace_first P y [] = []"
| "replace_first P y (x # xs) = (if P x then y # xs else x # replace_first P y xs)"

definition hide_preview :: "notify_key \<Rightarrow> notifications \<Rightarrow> notifications" where
  "hide_preview key s =
     (case map_of (nf_pending s) key of
        None \<Rightarrow> s
      | Some p \<Rightarrow>
          if hidden (pn_shown p) then s
          else
            let n = (pn_shown p)\<lparr>nt_preview := HIDDEN_PREVIEW, nt_sender := None\<rparr>;
                s = s\<lparr>nf_pending := AList.update key (p\<lparr>pn_shown := n\<rparr>) (nf_pending s)\<rparr>
            in if list_ex (queued_show key) (nf_queue s)
               then s\<lparr>nf_queue := replace_first (queued_show key) (Show n) (nf_queue s)\<rparr>
               else push (Update n) (s\<lparr>nf_queue := filter (\<lambda>c. \<not> queued_update key c) (nf_queue s)\<rparr>))"

definition hide_previews :: "notifications \<Rightarrow> notifications" where
  "hide_previews s = foldl (\<lambda>s k. hide_preview k s) s (pending_keys s)"

definition mute_names :: "protocol_id \<Rightarrow> string \<Rightarrow> notify_key \<Rightarrow> bool" where
  "mute_names protocol conversation_id key \<longleftrightarrow>
     nk_protocol key = protocol \<and>
     (nk_conversation_id key = conversation_id \<or>
      (case nk_topic key of
         Some topic \<Rightarrow> topic_mute_id (nk_conversation_id key) topic = conversation_id
       | None \<Rightarrow> False))"

definition dismiss_muted :: "protocol_id \<Rightarrow> string \<Rightarrow> notifications \<Rightarrow> notifications" where
  "dismiss_muted protocol conversation_id s =
     foldl (\<lambda>s k. dismiss k s) s (filter (mute_names protocol conversation_id) (map fst (nf_pending s)))"

definition sync_key ::
    "(protocol_id \<times> string \<times> message_topic option) option \<Rightarrow> (protocol_id \<Rightarrow> bool) \<Rightarrow>
     (notify_key \<Rightarrow> chat_now) \<Rightarrow> notify_key \<Rightarrow> notify_key list \<times> notifications \<Rightarrow> notify_key list \<times> notifications" where
  "sync_key viewed has_session chat_now key x =
     (case x of (gone, s) \<Rightarrow>
        let seen = nf_window_focused s \<and>
              viewed = Some (nk_protocol key, nk_conversation_id key, nk_topic key);
            (read_elsewhere, s) =
              (case chat_now key of
                 Gone \<Rightarrow> (True, s)
               | Listed unread \<Rightarrow>
                   if unread = 0
                   then ((case map_of (nf_pending s) key of Some p \<Rightarrow> pn_saw_unread p | None \<Rightarrow> False), s)
                   else (False, (case map_of (nf_pending s) key of
                       Some p \<Rightarrow> s\<lparr>nf_pending := AList.update key (p\<lparr>pn_saw_unread := True\<rparr>) (nf_pending s)\<rparr>
                     | None \<Rightarrow> s)))
        in (if seen \<or> read_elsewhere \<or> \<not> has_session (nk_protocol key) then gone @ [key] else gone, s))"

definition sync ::
    "(protocol_id \<times> string \<times> message_topic option) option \<Rightarrow> (protocol_id \<Rightarrow> bool) \<Rightarrow>
     (notify_key \<Rightarrow> chat_now) \<Rightarrow> notifications \<Rightarrow> notifications" where
  "sync viewed has_session chat_now s =
     (let (gone, s) = foldl (\<lambda>x k. sync_key viewed has_session chat_now k x) ([], s) (pending_keys s)
      in foldl (\<lambda>s k. dismiss k s) s gone)"

definition close_notifications :: "notifications \<Rightarrow> notifications" where
  "close_notifications s = (clear_all s)\<lparr>nf_closing := True\<rparr>"

definition take_commands :: "notifications \<Rightarrow> notify_command list \<times> notifications" where
  "take_commands s = (nf_queue s, s\<lparr>nf_queue := []\<rparr>)"

section \<open>What the frontend shows\<close>

type_synonym screen = "notify_key \<Rightarrow> notification option"

fun show_on :: "notify_command \<Rightarrow> screen \<Rightarrow> screen" where
  "show_on (Show n) scr = scr(nt_key n \<mapsto> n)"
| "show_on (Update n) scr = (if scr (nt_key n) = None then scr else scr(nt_key n \<mapsto> n))"
| "show_on (Dismiss k) scr = scr(k := None)"

definition screen_after :: "notify_command list \<Rightarrow> screen \<Rightarrow> screen" where
  "screen_after q scr = foldl (\<lambda>scr c. show_on c scr) scr q"

lemma screen_after_simps [simp]:
  "screen_after [] scr = scr" "screen_after (c # q) scr = screen_after q (show_on c scr)"
  "screen_after (q @ q') scr = screen_after q' (screen_after q scr)"
  by (simp_all add: screen_after_def)

lemma show_on_mono: "dom scr \<subseteq> dom scr' \<Longrightarrow> dom (show_on c scr) \<subseteq> dom (show_on c scr')"
  by (cases c) (auto split: if_splits)

lemma content_adds: "is_content c \<Longrightarrow> dom scr \<subseteq> dom (show_on c scr)"
  by (cases c) auto

lemma show_on_dom: "dom (show_on c scr) \<subseteq> (if is_content c then insert (command_key c) (dom scr) else dom scr - {command_key c})"
  by (cases c) auto

text \<open>\<open>q'\<close> is \<open>q\<close> with some \<open>Show\<close> and \<open>Update\<close> left out.\<close>

inductive thinned :: "notify_command list \<Rightarrow> notify_command list \<Rightarrow> bool" where
  nil: "thinned [] []"
| keep: "thinned q q' \<Longrightarrow> thinned (c # q) (c # q')"
| leave: "is_content c \<Longrightarrow> thinned q q' \<Longrightarrow> thinned (c # q) q'"

inductive_cases thinned_consE: "thinned (c # q) q'"

lemma thinned_refl [simp]: "thinned q q"
  by (induction q) (auto intro: thinned.intros)

lemma thinned_trans: "thinned q q' \<Longrightarrow> thinned q' q'' \<Longrightarrow> thinned q q''"
proof (induction arbitrary: q'' rule: thinned.induct)
  case (keep q q' c)
  from keep.prems show ?case by (rule thinned_consE) (auto intro: thinned.intros keep.IH)
qed (auto intro: thinned.intros)

lemma thinned_append: "thinned q q' \<Longrightarrow> thinned (q @ r) (q' @ r)"
  by (induction rule: thinned.induct) (auto intro: thinned.intros)

lemma thinned_remove_first: "thinned q (remove_first is_content q)"
  by (induction q) (auto intro: thinned.intros)

lemma thinned_filter: "(\<And>c. \<not> P c \<Longrightarrow> is_content c) \<Longrightarrow> thinned q (filter P q)"
  by (induction q) (auto intro: thinned.intros)

lemma thinned_content [simp]: "thinned q (filter (\<lambda>c. \<not> content_of k c) q)"
  by (rule thinned_filter) (simp add: content_of_def)

lemma thinned_trim: "thinned q (trim_queue q)"
proof (induction q rule: trim_queue.induct)
  case (1 q)
  then show ?case
    using thinned_trans [OF thinned_remove_first [of q]] by (subst trim_queue.simps) simp
qed

lemma trim_limit: "QUEUE_LIMIT < length (trim_queue q) \<Longrightarrow> \<not> list_ex is_content (trim_queue q)"
  by (induction q rule: trim_queue.induct) (subst (asm) (2) trim_queue.simps, subst trim_queue.simps, simp split: if_splits)

lemma thinned_set: "thinned q q' \<Longrightarrow> set q' \<subseteq> set q"
  by (induction rule: thinned.induct) auto

lemma thinned_dismisses: "thinned q q' \<Longrightarrow> filter (\<lambda>c. \<not> is_content c) q' = filter (\<lambda>c. \<not> is_content c) q"
  by (induction rule: thinned.induct) auto

lemma thinned_distinct:
  "thinned q q' \<Longrightarrow> distinct (map command_key (filter is_content q)) \<Longrightarrow> distinct (map command_key (filter is_content q'))"
  by (induction rule: thinned.induct) (auto dest!: thinned_set)

lemma thinned_screen: "thinned q q' \<Longrightarrow> dom scr' \<subseteq> dom scr \<Longrightarrow> dom (screen_after q' scr') \<subseteq> dom (screen_after q scr)"
proof (induction arbitrary: scr scr' rule: thinned.induct)
  case (keep q q' c)
  then show ?case using show_on_mono by simp
next
  case (leave c q q')
  then show ?case using content_adds [of c scr] by auto
qed simp

section \<open>The invariant\<close>

definition queue_ok :: "(notify_key \<times> pending_notification) list \<Rightarrow> notify_command list \<Rightarrow> bool" where
  "queue_ok pend q \<longleftrightarrow>
     distinct (map command_key (filter is_content q)) \<and>
     (\<forall>c \<in> set q. is_content c \<longrightarrow>
        (\<exists>p. map_of pend (command_key c) = Some p \<and> c \<in> {Show (pn_shown p), Update (pn_shown p)}))"

definition nf_inv :: "notifications \<Rightarrow> bool" where
  "nf_inv s \<longleftrightarrow> hm_ok (nf_pending s) \<and> (\<forall>k p. map_of (nf_pending s) k = Some p \<longrightarrow> nt_key (pn_shown p) = k) \<and>
     queue_ok (nf_pending s) (nf_queue s) \<and>
     (QUEUE_LIMIT < length (nf_queue s) \<longrightarrow> \<not> list_ex is_content (nf_queue s)) \<and>
     (nf_closing s \<longrightarrow> nf_pending s = [])"

definition screen_inv :: "notifications \<Rightarrow> screen \<Rightarrow> bool" where
  "screen_inv s scr \<longleftrightarrow> dom (screen_after (nf_queue s) scr) \<subseteq> fst ` set (nf_pending s)"

lemma queue_ok_thinned: "queue_ok pend q \<Longrightarrow> thinned q q' \<Longrightarrow> queue_ok pend q'"
  unfolding queue_ok_def using thinned_distinct thinned_set by blast

lemma queue_ok_dismiss: "queue_ok pend q \<Longrightarrow> queue_ok pend (q @ [Dismiss k])"
  by (auto simp: queue_ok_def)

lemma queue_ok_content:
  assumes "queue_ok pend (filter (\<lambda>c. \<not> content_of (command_key c') c) q)" "is_content c'"
    "map_of pend (command_key c') = Some p" "c' \<in> {Show (pn_shown p), Update (pn_shown p)}"
  shows "queue_ok pend (filter (\<lambda>c. \<not> content_of (command_key c') c) q @ [c'])"
  using assms by (auto simp: queue_ok_def content_of_def)

lemma queue_ok_without:
  assumes "queue_ok pend q" "\<And>k'. k' \<noteq> k \<Longrightarrow> map_of pend' k' = map_of pend k'"
  shows "queue_ok pend' (filter (\<lambda>c. \<not> content_of k c) q)"
proof -
  from queue_ok_thinned [OF assms(1) thinned_content [of q k]] assms(2) show ?thesis
    by (auto simp: queue_ok_def content_of_def)
qed

lemma push_inv:
  assumes "hm_ok (nf_pending s)" "\<And>k p. map_of (nf_pending s) k = Some p \<Longrightarrow> nt_key (pn_shown p) = k"
    and "queue_ok (nf_pending s) (nf_queue s @ [c])" "nf_closing s \<longrightarrow> nf_pending s = []"
  shows "nf_inv (push c s)"
  using assms queue_ok_thinned [OF assms(3) thinned_trim] trim_limit
  by (auto simp: nf_inv_def push_def)

lemma push_fields [simp]:
  "nf_pending (push c s) = nf_pending s" "nf_window_focused (push c s) = nf_window_focused s"
  "nf_closing (push c s) = nf_closing s"
  by (simp_all add: push_def)

lemma push_screen:
  assumes "thinned q (nf_queue s)" "dom (screen_after (q @ [c]) scr) \<subseteq> fst ` set (nf_pending s)"
  shows "screen_inv (push c s) scr"
proof -
  have "thinned (q @ [c]) (trim_queue (nf_queue s @ [c]))"
    using thinned_append [OF assms(1)] thinned_trim thinned_trans by blast
  from thinned_screen [OF this order_refl, of scr] assms(2) show ?thesis by (simp add: screen_inv_def push_def)
qed

subsection \<open>Every operation keeps it\<close>

lemma keys_delete: "fst ` set (AList.delete k m) = fst ` set m - {k}"
  by (induction m) (auto simp: AList.delete_eq)

lemma dismiss_keeps:
  assumes "nf_inv s" "screen_inv s scr"
  shows "nf_inv (dismiss k s) \<and> screen_inv (dismiss k s) scr"
proof (cases "map_of (nf_pending s) k")
  case None
  with assms show ?thesis by (simp add: dismiss_def)
next
  case (Some p)
  let ?s = "s\<lparr>nf_pending := AList.delete k (nf_pending s), nf_queue := filter (\<lambda>c. \<not> content_of k c) (nf_queue s)\<rparr>"
  have d: "dismiss k s = push (Dismiss k) ?s" using Some by (simp add: dismiss_def)
  have "nf_inv (push (Dismiss k) ?s)"
    using assms(1)
    by (intro push_inv queue_ok_dismiss)
      (auto simp: nf_inv_def hm.ok_remove delete_conv' split: if_splits intro: queue_ok_without)
  moreover have "screen_inv (push (Dismiss k) ?s) scr"
  proof (rule push_screen)
    show "thinned (nf_queue s) (nf_queue ?s)" by simp
    show "dom (screen_after (nf_queue s @ [Dismiss k]) scr) \<subseteq> fst ` set (nf_pending ?s)"
      using assms(2) by (auto simp: screen_inv_def keys_delete)
  qed
  ultimately show ?thesis by (simp add: d)
qed

lemma delete_absent: "map_of m k = None \<Longrightarrow> AList.delete k m = m"
  by (induction m) (auto split: if_splits)

lemma dismiss_pending:
  "nf_pending (dismiss k s) = AList.delete k (nf_pending s)" "nf_closing (dismiss k s) = nf_closing s"
  "nf_window_focused (dismiss k s) = nf_window_focused s"
  by (simp_all add: dismiss_def delete_absent)

lemma dismiss_all_keeps:
  assumes "nf_inv s" "screen_inv s scr"
  shows "nf_inv (foldl (\<lambda>s k. dismiss k s) s ks) \<and> screen_inv (foldl (\<lambda>s k. dismiss k s) s ks) scr \<and>
    nf_pending (foldl (\<lambda>s k. dismiss k s) s ks) = filter (\<lambda>(k, _). k \<notin> set ks) (nf_pending s) \<and>
    nf_closing (foldl (\<lambda>s k. dismiss k s) s ks) = nf_closing s"
  using assms
proof (induction ks arbitrary: s)
  case (Cons k ks)
  have "filter (\<lambda>(k', _). k' \<notin> set ks) (AList.delete k xs) = filter (\<lambda>(k', _). k' \<notin> set (k # ks)) xs"
    for xs :: "(notify_key \<times> pending_notification) list"
    by (induction xs) (auto simp: AList.delete_eq)
  with Cons.IH [of "dismiss k s"] dismiss_keeps [OF Cons.prems] show ?case by (simp add: dismiss_pending)
qed (simp add: case_prod_unfold)

lemma clear_all_keeps:
  assumes "nf_inv s" "screen_inv s scr"
  shows "nf_inv (clear_all s) \<and> screen_inv (clear_all s) scr \<and> nf_pending (clear_all s) = []"
  using dismiss_all_keeps [OF assms, of "pending_keys s"]
  by (auto simp: clear_all_def pending_keys_def filter_empty_conv intro: rev_image_eqI)

lemma on_message_keeps:
  assumes "nf_inv s" "screen_inv s scr"
  shows "nf_inv (snd (on_message m chat ctx s)) \<and> screen_inv (snd (on_message m chat ctx s)) scr"
proof (cases "nf_closing s \<or> decide m chat ctx \<noteq> None \<or> chat = None")
  case True
  with assms show ?thesis by (auto simp: on_message_def split: option.split)
next
  case False
  then obtain c where c: "chat = Some c" by blast
  define n where "n = notification_for m c ctx s"
  have n: "snd (on_message m chat ctx s) = show_notification n
      (s\<lparr>nf_pending := AList.update (nt_key n) \<lparr>pn_shown = n, pn_saw_unread = False\<rparr> (nf_pending s)\<rparr>)"
    using False c by (simp add: on_message_def n_def Let_def)
  let ?s = "s\<lparr>nf_pending := AList.update (nt_key n) \<lparr>pn_shown = n, pn_saw_unread = False\<rparr> (nf_pending s),
    nf_queue := filter (\<lambda>c. \<not> content_of (nt_key n) c) (nf_queue s)\<rparr>"
  have e: "snd (on_message m chat ctx s) = push (Show n) ?s" unfolding n by (simp add: show_notification_def)
  have "queue_ok (nf_pending ?s) (nf_queue ?s)"
    using assms(1) by (auto simp: nf_inv_def update_conv' intro: queue_ok_without)
  then have "queue_ok (nf_pending ?s) (nf_queue ?s @ [Show n])"
    using queue_ok_content [of "nf_pending ?s" "Show n" "nf_queue s" "\<lparr>pn_shown = n, pn_saw_unread = False\<rparr>"]
    by (simp add: update_conv')
  then have "nf_inv (push (Show n) ?s)"
    using assms(1) False by (intro push_inv) (auto simp: nf_inv_def hm.ok_insert update_conv' split: if_splits)
  moreover have "screen_inv (push (Show n) ?s) scr"
  proof (rule push_screen)
    show "thinned (nf_queue s) (nf_queue ?s)" by simp
    show "dom (screen_after (nf_queue s @ [Show n]) scr) \<subseteq> fst ` set (nf_pending ?s)"
      using assms(2) by (auto simp: screen_inv_def dom_update)
  qed
  ultimately show ?thesis by (simp add: e)
qed

lemma replace_first_keys:
  "nt_key n = k \<Longrightarrow>
   map command_key (filter is_content (replace_first (queued_show k) (Show n) q)) = map command_key (filter is_content q)"
  by (induction q) (auto simp: queued_show_def split: notify_command.splits)

lemma queued_show_content: "queued_show k z \<Longrightarrow> is_content z \<and> command_key z = k"
  by (cases z) (simp_all add: queued_show_def)

lemma replace_first_mem:
  assumes "distinct (map command_key (filter is_content q))" "list_ex (queued_show k) q"
    and "c \<in> set (replace_first (queued_show k) y q)" "is_content c"
  shows "c = y \<or> c \<in> set q \<and> command_key c \<noteq> k"
  using assms
proof (induction q)
  case (Cons x q)
  note s = queued_show_content
  show ?case
  proof (cases "queued_show k x")
    case True
    with s [OF True] Cons.prems(1) have "k \<notin> command_key ` set (filter is_content q)" by simp
    moreover from True Cons.prems(3) have "c = y \<or> c \<in> set q" by simp
    ultimately show ?thesis using Cons.prems(4) by (auto simp: image_iff)
  next
    case False
    with Cons.prems obtain z where z: "z \<in> set q" "queued_show k z" by (auto simp: list_ex_iff)
    have x: "command_key x \<noteq> k" if "is_content x"
    proof -
      from that Cons.prems(1) have "command_key x \<notin> command_key ` set (filter is_content q)" by simp
      with z s [OF z(2)] show ?thesis by (auto simp: image_iff)
    qed
    from False Cons.prems(3) have "c = x \<or> c \<in> set (replace_first (queued_show k) y q)" by simp
    then show ?thesis
    proof
      assume "c = x"
      with x Cons.prems(4) show ?thesis by simp
    next
      assume c: "c \<in> set (replace_first (queued_show k) y q)"
      from Cons.prems(1) have "distinct (map command_key (filter is_content q))" by (simp split: if_splits)
      with Cons.IH [OF _ _ c Cons.prems(4)] z show ?thesis by (auto simp: list_ex_iff)
    qed
  qed
qed simp

lemma length_replace_first [simp]: "length (replace_first P y q) = length q"
  by (induction q) auto

lemma replace_first_screen:
  "nt_key n = k \<Longrightarrow> dom scr' \<subseteq> dom scr \<Longrightarrow>
   dom (screen_after (replace_first (queued_show k) (Show n) q) scr') \<subseteq> dom (screen_after q scr)"
proof (induction q arbitrary: scr scr')
  case (Cons c q)
  show ?case
  proof (cases "queued_show k c")
    case True
    with Cons.prems have "dom (show_on (Show n) scr') \<subseteq> dom (show_on c scr)"
      by (cases c) (auto simp: queued_show_def)
    with thinned_screen [OF thinned_refl this, of q] True show ?thesis by simp
  next
    case False
    with Cons show ?thesis using show_on_mono by simp
  qed
qed simp

lemma queue_ok_pending:
  "queue_ok pend q \<Longrightarrow> (\<And>k. map_option pn_shown (map_of pend' k) = map_option pn_shown (map_of pend k)) \<Longrightarrow> queue_ok pend' q"
proof -
  assume q: "queue_ok pend q"
    and eq: "\<And>k. map_option pn_shown (map_of pend' k) = map_option pn_shown (map_of pend k)"
  have "\<exists>p'. map_of pend' k = Some p' \<and> pn_shown p' = pn_shown p" if "map_of pend k = Some p" for k p
    using eq [of k] that by (cases "map_of pend' k") simp_all
  with q show "queue_ok pend' q" unfolding queue_ok_def by fastforce
qed

lemma hide_preview_keeps:
  assumes "nf_inv s" "screen_inv s scr"
  shows "nf_inv (hide_preview k s) \<and> screen_inv (hide_preview k s) scr"
proof (cases "case map_of (nf_pending s) k of None \<Rightarrow> True | Some p \<Rightarrow> hidden (pn_shown p)")
  case True
  with assms show ?thesis by (auto simp: hide_preview_def split: option.splits)
next
  case False
  then obtain p where p: "map_of (nf_pending s) k = Some p" "\<not> hidden (pn_shown p)" by (auto split: option.splits)
  define n where "n = (pn_shown p)\<lparr>nt_preview := HIDDEN_PREVIEW, nt_sender := None\<rparr>"
  let ?pend = "AList.update k (p\<lparr>pn_shown := n\<rparr>) (nf_pending s)"
  from p(1) assms(1) have key: "nt_key n = k" by (auto simp: n_def nf_inv_def)
  have q: "queue_ok (nf_pending s) (nf_queue s)" "hm_ok ?pend" "nf_closing s \<longrightarrow> nf_pending s = []"
    using assms(1) by (auto simp: nf_inv_def hm.ok_insert)
  have keys: "\<And>k' p'. map_of ?pend k' = Some p' \<Longrightarrow> nt_key (pn_shown p') = k'"
    using assms(1) key by (auto simp: nf_inv_def update_conv' split: if_splits)
  have dom: "fst ` set ?pend = fst ` set (nf_pending s)"
    using p(1) by (auto simp: dom_update dest: map_of_SomeD intro: rev_image_eqI)
  show ?thesis
  proof (cases "list_ex (queued_show k) (nf_queue s)")
    case True
    let ?q = "replace_first (queued_show k) (Show n) (nf_queue s)"
    have h: "hide_preview k s = s\<lparr>nf_pending := ?pend, nf_queue := ?q\<rparr>"
      using p True by (simp add: hide_preview_def n_def Let_def)
    have "list_ex is_content (nf_queue s)"
      using True queued_show_content unfolding list_ex_iff by blast
    then have lim: "length ?q \<le> QUEUE_LIMIT" using assms(1) by (simp add: nf_inv_def)
    have "queue_ok ?pend ?q"
      unfolding queue_ok_def replace_first_keys [OF key]
    proof (intro conjI ballI impI)
      show d: "distinct (map command_key (filter is_content (nf_queue s)))" using q(1) by (simp add: queue_ok_def)
      fix c assume "c \<in> set ?q" "is_content c"
      from replace_first_mem [OF d True this] key q(1) \<open>is_content c\<close>
      show "\<exists>p. map_of ?pend (command_key c) = Some p \<and> c \<in> {Show (pn_shown p), Update (pn_shown p)}"
        by (auto simp: queue_ok_def update_conv')
    qed
    moreover have "screen_inv (hide_preview k s) scr"
      using replace_first_screen [OF key order_refl, of "nf_queue s" scr] assms(2)
      by (simp add: h screen_inv_def dom)
    ultimately show ?thesis using q(2,3) keys lim p(1) by (auto simp: h nf_inv_def)
  next
    case False
    let ?s = "s\<lparr>nf_pending := ?pend, nf_queue := filter (\<lambda>c. \<not> content_of k c) (nf_queue s)\<rparr>"
    have "filter (\<lambda>c. \<not> queued_update k c) (nf_queue s) = filter (\<lambda>c. \<not> content_of k c) (nf_queue s)"
      using False by (intro filter_cong refl)
        (auto simp: list_ex_iff content_of_def queued_update_def queued_show_def split: notify_command.splits)
    then have h: "hide_preview k s = push (Update n) ?s"
      using p False by (simp add: hide_preview_def n_def Let_def)
    have "queue_ok ?pend (filter (\<lambda>c. \<not> content_of k c) (nf_queue s))"
      using q(1) by (auto simp: update_conv' intro: queue_ok_without)
    then have "queue_ok (nf_pending ?s) (nf_queue ?s @ [Update n])"
      using queue_ok_content [of ?pend "Update n" "nf_queue s" "p\<lparr>pn_shown := n\<rparr>"] key by (simp add: update_conv')
    then have "nf_inv (push (Update n) ?s)"
      using q(2,3) keys p(1) by (intro push_inv) auto
    moreover have "screen_inv (push (Update n) ?s) scr"
    proof (rule push_screen)
      show "thinned (nf_queue s) (nf_queue ?s)" by simp
      show "dom (screen_after (nf_queue s @ [Update n]) scr) \<subseteq> fst ` set (nf_pending ?s)"
        using assms(2) dom by (auto simp: screen_inv_def split: if_splits)
    qed
    ultimately show ?thesis by (simp add: h)
  qed
qed

lemma hide_previews_keeps:
  "nf_inv s \<Longrightarrow> screen_inv s scr \<Longrightarrow> nf_inv (foldl (\<lambda>s k. hide_preview k s) s ks) \<and>
   screen_inv (foldl (\<lambda>s k. hide_preview k s) s ks) scr"
  by (induction ks arbitrary: s) (simp_all add: hide_preview_keeps)

text \<open>A \<open>sync\<close> only notes which chats had unread messages, then dismisses.\<close>

lemma saw_unread_keeps:
  assumes "nf_inv s" "screen_inv s scr" "map_of (nf_pending s) k = Some p"
  shows "nf_inv (s\<lparr>nf_pending := AList.update k (p\<lparr>pn_saw_unread := True\<rparr>) (nf_pending s)\<rparr>) \<and>
    screen_inv (s\<lparr>nf_pending := AList.update k (p\<lparr>pn_saw_unread := True\<rparr>) (nf_pending s)\<rparr>) scr"
proof -
  let ?pend = "AList.update k (p\<lparr>pn_saw_unread := True\<rparr>) (nf_pending s)"
  have "fst ` set ?pend = fst ` set (nf_pending s)"
    using assms(3) by (auto simp: dom_update dest: map_of_SomeD intro: rev_image_eqI)
  moreover have "queue_ok ?pend (nf_queue s)"
    using assms(1,3) by (rule_tac queue_ok_pending [of "nf_pending s"]) (auto simp: nf_inv_def update_conv')
  ultimately show ?thesis
    using assms by (auto simp: nf_inv_def screen_inv_def hm.ok_insert update_conv')
qed

lemma sync_key_keeps:
  assumes "nf_inv s" "screen_inv s scr"
  shows "nf_inv (snd (sync_key v h c k (gone, s))) \<and> screen_inv (snd (sync_key v h c k (gone, s))) scr \<and>
    map_option pn_shown (map_of (nf_pending (snd (sync_key v h c k (gone, s)))) j) =
      map_option pn_shown (map_of (nf_pending s) j)"
proof -
  let ?up = "\<lambda>p. s\<lparr>nf_pending := AList.update k (p\<lparr>pn_saw_unread := True\<rparr>) (nf_pending s)\<rparr>"
  have "snd (sync_key v h c k (gone, s)) = s \<or>
      (\<exists>p. map_of (nf_pending s) k = Some p \<and> snd (sync_key v h c k (gone, s)) = ?up p)"
    by (simp add: sync_key_def Let_def split: chat_now.split option.split)
  then show ?thesis
  proof (elim disjE exE conjE)
    fix p assume p: "map_of (nf_pending s) k = Some p" and e: "snd (sync_key v h c k (gone, s)) = ?up p"
    have "map_option pn_shown (map_of (nf_pending (?up p)) j) = map_option pn_shown (map_of (nf_pending s) j)"
      using p by (simp add: update_conv')
    with saw_unread_keeps [OF assms p] e show ?thesis by simp
  qed (simp add: assms)
qed

lemma sync_keys_keep:
  "nf_inv (snd x) \<Longrightarrow> screen_inv (snd x) scr \<Longrightarrow>
   nf_inv (snd (foldl (\<lambda>x k. sync_key v h c k x) x ks)) \<and> screen_inv (snd (foldl (\<lambda>x k. sync_key v h c k x) x ks)) scr \<and>
   map_option pn_shown (map_of (nf_pending (snd (foldl (\<lambda>x k. sync_key v h c k x) x ks))) j) =
     map_option pn_shown (map_of (nf_pending (snd x)) j)"
proof (induction ks arbitrary: x)
  case (Cons k ks)
  obtain gone s where x: "x = (gone, s)" by fastforce
  with Cons.prems have k: "nf_inv s" "screen_inv s scr" by simp_all
  from Cons.IH [of "sync_key v h c k x"] sync_key_keeps [OF k, of v h c k gone] show ?case by (simp add: x)
qed simp

section \<open>Runs\<close>

text \<open>The operations the core calls, in any order; \<open>NTake\<close> is the frontend that takes the queue and
  does what it says.\<close>

datatype notify_op =
    NMessage chat_message "conversation option" notify_context
  | NFocus bool
  | NDismiss notify_key
  | NClearAll
  | NHidePreviews
  | NDismissMuted protocol_id string
  | NSync "(protocol_id \<times> string \<times> message_topic option) option" "protocol_id \<Rightarrow> bool" "notify_key \<Rightarrow> chat_now"
  | NClose
  | NTake

fun notify_step :: "notify_op \<Rightarrow> notifications \<times> screen \<Rightarrow> notifications \<times> screen" where
  "notify_step (NMessage m chat ctx) (s, scr) = (snd (on_message m chat ctx s), scr)"
| "notify_step (NFocus f) (s, scr) = (set_focus f s, scr)"
| "notify_step (NDismiss k) (s, scr) = (dismiss k s, scr)"
| "notify_step NClearAll (s, scr) = (clear_all s, scr)"
| "notify_step NHidePreviews (s, scr) = (hide_previews s, scr)"
| "notify_step (NDismissMuted p c) (s, scr) = (dismiss_muted p c s, scr)"
| "notify_step (NSync v h c) (s, scr) = (sync v h c s, scr)"
| "notify_step NClose (s, scr) = (close_notifications s, scr)"
| "notify_step NTake (s, scr) = (case take_commands s of (q, s) \<Rightarrow> (s, screen_after q scr))"

definition notify_run :: "notify_op list \<Rightarrow> notifications \<times> screen \<Rightarrow> notifications \<times> screen" where
  "notify_run ops x = foldl (\<lambda>x oper. notify_step oper x) x ops"

lemma notify_run_simps [simp]:
  "notify_run [] x = x" "notify_run (oper # ops) x = notify_run ops (notify_step oper x)"
  "notify_run (ops @ ops') x = notify_run ops' (notify_run ops x)"
  by (simp_all add: notify_run_def)

lemma sync_keeps:
  assumes "nf_inv s" "screen_inv s scr"
  shows "nf_inv (sync v h c s) \<and> screen_inv (sync v h c s) scr"
proof -
  obtain gone s' where f: "foldl (\<lambda>x k. sync_key v h c k x) ([], s) (pending_keys s) = (gone, s')" by fastforce
  from sync_keys_keep [of "([], s)" scr v h c "pending_keys s"] assms f
  have "nf_inv s'" "screen_inv s' scr" by simp_all
  from dismiss_all_keeps [OF this, of gone] f show ?thesis by (simp add: sync_def)
qed

lemma take_keeps: "nf_inv s \<Longrightarrow> screen_inv s scr \<Longrightarrow> nf_inv (s\<lparr>nf_queue := []\<rparr>) \<and>
    screen_inv (s\<lparr>nf_queue := []\<rparr>) (screen_after (nf_queue s) scr)"
  by (simp add: nf_inv_def screen_inv_def queue_ok_def)

lemma notify_step_keeps:
  assumes "nf_inv s" "screen_inv s scr" "notify_step oper (s, scr) = (s', scr')"
  shows "nf_inv s' \<and> screen_inv s' scr'"
proof (cases oper)
  case NClose
  with assms clear_all_keeps [OF assms(1,2)] show ?thesis
    by (auto simp: close_notifications_def nf_inv_def screen_inv_def)
next
  case (NFocus f)
  with assms(3) have "s' = s\<lparr>nf_window_focused := f\<rparr>" "scr' = scr" by (simp_all add: set_focus_def)
  with assms(1,2) show ?thesis by (simp add: nf_inv_def screen_inv_def)
qed (use assms on_message_keeps [OF assms(1,2)] dismiss_keeps [OF assms(1,2)] clear_all_keeps [OF assms(1,2)]
      hide_previews_keeps [OF assms(1,2)] dismiss_all_keeps [OF assms(1,2)] sync_keeps [OF assms(1,2)]
      take_keeps [OF assms(1,2)]
    in \<open>auto simp: hide_previews_def dismiss_muted_def take_commands_def\<close>)

lemma notify_run_keeps:
  "nf_inv (fst x) \<Longrightarrow> screen_inv (fst x) (snd x) \<Longrightarrow>
   nf_inv (fst (notify_run ops x)) \<and> screen_inv (fst (notify_run ops x)) (snd (notify_run ops x))"
proof (induction ops arbitrary: x)
  case (Cons oper ops)
  then show ?case
    using notify_step_keeps [of "fst x" "snd x" oper "fst (notify_step oper x)" "snd (notify_step oper x)"] by simp
qed simp

lemma notify_new: "nf_inv notifications_new" "screen_inv notifications_new Map.empty"
  by (simp_all add: nf_inv_def screen_inv_def notifications_new_def queue_ok_def hm_ok_def)

lemma notify_run_inv:
  "nf_inv (fst (notify_run ops (notifications_new, Map.empty)))"
  "screen_inv (fst (notify_run ops (notifications_new, Map.empty))) (snd (notify_run ops (notifications_new, Map.empty)))"
  using notify_run_keeps [of "(notifications_new, Map.empty)"] notify_new by simp_all

lemma notify_step_closed:
  assumes "nf_closing s" "nf_pending s = []" "notify_step oper (s, scr) = (s', scr')"
  shows "nf_closing s' \<and> nf_pending s' = []"
proof -
  have d: "foldl (\<lambda>s k. dismiss k s) s ks = s" for ks
    using assms(2) by (induction ks) (simp_all add: dismiss_def)
  have k: "pending_keys s = []" using assms(2) by (simp add: pending_keys_def)
  show ?thesis
    using assms d k
    by (cases oper)
      (auto simp: on_message_def set_focus_def dismiss_def clear_all_def hide_previews_def dismiss_muted_def sync_def
        close_notifications_def take_commands_def)
qed

lemma notify_run_closed:
  "nf_closing (fst x) \<Longrightarrow> nf_pending (fst x) = [] \<Longrightarrow>
   nf_closing (fst (notify_run ops x)) \<and> nf_pending (fst (notify_run ops x)) = []"
proof (induction ops arbitrary: x)
  case (Cons oper ops)
  then show ?case
    using notify_step_closed [of "fst x" oper "snd x" "fst (notify_step oper x)" "snd (notify_step oper x)"] by simp
qed simp

section \<open>A frontend that keeps up\<close>

text \<open>While the queue stays below its limit nothing is dropped, and the screen, once the queue is
  done, shows exactly the pending notifications.\<close>

definition screen_exact :: "notifications \<Rightarrow> screen \<Rightarrow> bool" where
  "screen_exact s scr \<longleftrightarrow> (\<forall>k. screen_after (nf_queue s) scr k = map_option pn_shown (map_of (nf_pending s) k))"

lemma trim_id: "length q \<le> QUEUE_LIMIT \<Longrightarrow> trim_queue q = q"
  by (subst trim_queue.simps) simp

lemma show_on_other: "command_key c \<noteq> k \<Longrightarrow> show_on c scr k = scr k"
  by (cases c) auto

lemma show_on_same: "scr k = scr' k \<Longrightarrow> show_on c scr k = show_on c scr' k"
  by (cases c) (auto simp: eq_commute [of "scr k"])

lemma screen_after_same: "scr k = scr' k \<Longrightarrow> screen_after q scr k = screen_after q scr' k"
proof (induction q arbitrary: scr scr')
  case (Cons c q)
  have "show_on c scr k = show_on c scr' k" using Cons.prems by (rule show_on_same)
  then have "screen_after q (show_on c scr) k = screen_after q (show_on c scr') k" by (rule Cons.IH)
  then show ?case by simp
qed simp

lemma filter_room: "length q < n \<Longrightarrow> length (filter P q @ [c]) \<le> n"
  using le_less_trans [OF length_filter_le] by (simp add: Suc_le_eq)

lemma screen_after_filter:
  assumes "\<And>c. c \<in> set q \<Longrightarrow> \<not> P c \<Longrightarrow> command_key c \<noteq> k"
  shows "screen_after (filter P q) scr k = screen_after q scr k"
  using assms
proof (induction q arbitrary: scr)
  case (Cons c q)
  have "screen_after q (show_on c scr) k = screen_after q scr k" if "command_key c \<noteq> k"
    using show_on_other [OF that] by (rule screen_after_same)
  with Cons show ?case by auto
qed simp

lemma dismiss_exact:
  assumes "nf_inv s" "screen_exact s scr" "map_of (nf_pending s) k \<noteq> None \<Longrightarrow> length (nf_queue s) < QUEUE_LIMIT"
  shows "screen_exact (dismiss k s) scr"
proof (cases "map_of (nf_pending s) k = None")
  case True
  with assms show ?thesis by (simp add: dismiss_def)
next
  case False
  let ?q = "filter (\<lambda>c. \<not> content_of k c) (nf_queue s)"
  have len: "length (?q @ [Dismiss k]) \<le> QUEUE_LIMIT"
    using assms(3) [OF False] by (rule filter_room)
  have "screen_after ?q scr j = screen_after (nf_queue s) scr j" if "j \<noteq> k" for j
    using that by (intro screen_after_filter) (auto simp: content_of_def)
  then show ?thesis
    using assms(2) False trim_id [OF len] by (simp add: screen_exact_def dismiss_def push_def delete_conv')
qed

lemma dismiss_room:
  assumes "nf_inv s" "length (nf_queue s) + length (nf_pending s) \<le> QUEUE_LIMIT"
  shows "length (nf_queue (dismiss k s)) + length (nf_pending (dismiss k s)) \<le> QUEUE_LIMIT"
proof (cases "map_of (nf_pending s) k = None")
  case True
  with assms show ?thesis by (simp add: dismiss_def)
next
  case False
  let ?q = "filter (\<lambda>c. \<not> content_of k c) (nf_queue s)"
  have "k \<in> fst ` set (nf_pending s)" using False by (simp add: map_of_eq_None_iff)
  then have "length (AList.delete k (nf_pending s)) < length (nf_pending s)"
    by (auto simp: AList.delete_eq intro!: length_filter_less)
  moreover have "length ?q \<le> length (nf_queue s)" by (rule length_filter_le)
  moreover have "length (?q @ [Dismiss k]) \<le> QUEUE_LIMIT"
    using calculation(1) assms(2) by (intro filter_room) simp
  moreover from calculation(3) have "trim_queue (?q @ [Dismiss k]) = ?q @ [Dismiss k]" by (rule trim_id)
  ultimately have "Suc (length ?q + length (AList.delete k (nf_pending s))) \<le> QUEUE_LIMIT"
    "trim_queue (?q @ [Dismiss k]) = ?q @ [Dismiss k]"
    using assms(2) by linarith+
  then show ?thesis using False by (auto simp: dismiss_def push_def)
qed

lemma dismiss_all_exact:
  assumes "nf_inv s" "screen_inv s scr" "screen_exact s scr" "length (nf_queue s) + length (nf_pending s) \<le> QUEUE_LIMIT"
  shows "screen_exact (foldl (\<lambda>s k. dismiss k s) s ks) scr"
  using assms
proof (induction ks arbitrary: s)
  case (Cons k ks)
  have "length (nf_queue s) < QUEUE_LIMIT" if "map_of (nf_pending s) k \<noteq> None"
    using that Cons.prems(4) by (cases "nf_pending s") auto
  from Cons.IH [of "dismiss k s"] dismiss_exact [OF Cons.prems(1,3) this] dismiss_room [OF Cons.prems(1,4)]
    dismiss_keeps [OF Cons.prems(1,2)]
  show ?case by simp
qed simp

lemma on_message_exact:
  assumes "screen_exact s scr" "length (nf_queue s) < QUEUE_LIMIT"
  shows "screen_exact (snd (on_message m chat ctx s)) scr"
proof (cases "nf_closing s \<or> decide m chat ctx \<noteq> None \<or> chat = None")
  case True
  with assms show ?thesis by (auto simp: on_message_def split: option.split)
next
  case False
  then obtain c where c: "chat = Some c" by blast
  define n where "n = notification_for m c ctx s"
  let ?q = "filter (\<lambda>c. \<not> content_of (nt_key n) c) (nf_queue s)"
  have len: "length (?q @ [Show n]) \<le> QUEUE_LIMIT"
    using assms(2) by (rule filter_room)
  have "screen_after ?q scr j = screen_after (nf_queue s) scr j" if "j \<noteq> nt_key n" for j
    using that by (intro screen_after_filter) (auto simp: content_of_def)
  moreover have "snd (on_message m chat ctx s) = show_notification n
      (s\<lparr>nf_pending := AList.update (nt_key n) \<lparr>pn_shown = n, pn_saw_unread = False\<rparr> (nf_pending s)\<rparr>)"
    using False c by (simp add: on_message_def n_def Let_def)
  ultimately show ?thesis
    using assms(1) trim_id [OF len] by (simp add: screen_exact_def show_notification_def push_def update_conv')
qed

lemma screen_after_no_content:
  "\<forall>c \<in> set q. is_content c \<longrightarrow> command_key c \<noteq> k \<Longrightarrow> screen_after q scr k \<noteq> None \<Longrightarrow>
   screen_after q scr' k = scr' k"
proof (induction q arbitrary: scr scr')
  case (Cons c q)
  show ?case
  proof (cases "c = Dismiss k")
    case True
    with Cons show ?thesis by (metis list.set_intros(2) screen_after_same screen_after_simps(2) fun_upd_same show_on.simps(3))
  next
    case False
    with Cons.prems(1) have "command_key c \<noteq> k" by (cases c) auto
    with Cons show ?thesis by (metis list.set_intros(2) screen_after_simps(2) show_on_other)
  qed
qed simp

lemma replace_first_exact:
  assumes "distinct (map command_key (filter is_content q))" "list_ex (queued_show k) q" "nt_key n = k"
    and "screen_after q scr k \<noteq> None"
  shows "screen_after (replace_first (queued_show k) (Show n) q) scr' k = Some n"
  using assms
proof (induction q arbitrary: scr scr')
  case (Cons c q)
  show ?case
  proof (cases "queued_show k c")
    case True
    from queued_show_content [OF True] Cons.prems(1)
    have "\<forall>c \<in> set q. is_content c \<longrightarrow> command_key c \<noteq> k" by (auto simp: image_iff)
    from screen_after_no_content [OF this, of "show_on c scr" "show_on (Show n) scr'"] Cons.prems(3,4) True
    show ?thesis by simp
  next
    case False
    with Cons.prems have "screen_after (replace_first (queued_show k) (Show n) q) (show_on c scr') k = Some n"
      by (intro Cons.IH [of "show_on c scr"]) (auto split: if_splits)
    with False show ?thesis by simp
  qed
qed simp

lemma replace_first_other:
  "nt_key n = k \<Longrightarrow> j \<noteq> k \<Longrightarrow>
   screen_after (replace_first (queued_show k) (Show n) q) scr j = screen_after q scr j"
proof (induction q arbitrary: scr)
  case (Cons c q)
  have "screen_after q (show_on (Show n) scr) j = screen_after q (show_on c scr) j" if "queued_show k c"
    using queued_show_content [OF that] Cons.prems show_on_other [of c j scr]
    by (intro screen_after_same) auto
  with Cons show ?case by simp
qed simp

lemma updates_keep: "(\<And>c. c \<in> set q \<Longrightarrow> \<not> P c \<Longrightarrow> \<exists>n. c = Update n) \<Longrightarrow> scr k = None \<longleftrightarrow> scr' k = None \<Longrightarrow>
   screen_after (filter P q) scr k = None \<longleftrightarrow> screen_after q scr' k = None"
proof (induction q arbitrary: scr scr')
  case (Cons c q)
  have s: "show_on c scr k = None \<longleftrightarrow> show_on c scr' k = None" using Cons.prems(2) by (cases c) auto
  have u: "scr k = None \<longleftrightarrow> show_on c scr' k = None" if "\<not> P c"
    using Cons.prems(1) [of c] that Cons.prems(2) by (auto split: if_splits)
  from Cons.prems(1) have p: "\<And>c. c \<in> set q \<Longrightarrow> \<not> P c \<Longrightarrow> \<exists>n. c = Update n" by simp
  show ?case
  proof (cases "P c")
    case True
    with Cons.IH [of "show_on c scr" "show_on c scr'", OF p s] show ?thesis by simp
  next
    case False
    with Cons.IH [of scr "show_on c scr'", OF p u] show ?thesis by simp
  qed
qed simp

lemma hide_preview_exact:
  assumes "nf_inv s" "screen_exact s scr" "length (nf_queue s) < QUEUE_LIMIT"
  shows "screen_exact (hide_preview k s) scr"
proof (cases "case map_of (nf_pending s) k of None \<Rightarrow> True | Some p \<Rightarrow> hidden (pn_shown p)")
  case True
  with assms show ?thesis by (auto simp: hide_preview_def split: option.splits)
next
  case False
  then obtain p where p: "map_of (nf_pending s) k = Some p" "\<not> hidden (pn_shown p)" by (auto split: option.splits)
  define n where "n = (pn_shown p)\<lparr>nt_preview := HIDDEN_PREVIEW, nt_sender := None\<rparr>"
  from p(1) assms(1) have key: "nt_key n = k" by (auto simp: n_def nf_inv_def)
  from p(1) assms(2) have on: "screen_after (nf_queue s) scr k \<noteq> None" by (simp add: screen_exact_def)
  show ?thesis
  proof (cases "list_ex (queued_show k) (nf_queue s)")
    case True
    have "distinct (map command_key (filter is_content (nf_queue s)))"
      using assms(1) by (simp add: nf_inv_def queue_ok_def)
    from replace_first_exact [OF this True key on, of scr] replace_first_other [OF key, of _ "nf_queue s" scr] p True assms(2)
    show ?thesis by (auto simp: screen_exact_def hide_preview_def n_def Let_def update_conv')
  next
    case False
    let ?q = "filter (\<lambda>c. \<not> queued_update k c) (nf_queue s)"
    have u: "\<exists>n. c = Update n \<and> nt_key n = k" if "queued_update k c" for c
      using that by (cases c) (simp_all add: queued_update_def)
    have "screen_after ?q scr j = screen_after (nf_queue s) scr j" if "j \<noteq> k" for j
      using that u by (intro screen_after_filter) force
    moreover have "screen_after ?q scr k \<noteq> None"
      using updates_keep [of "nf_queue s" "\<lambda>c. \<not> queued_update k c" scr k scr] u on by blast
    moreover have "trim_queue (?q @ [Update n]) = ?q @ [Update n]"
      using assms(3) by (intro trim_id filter_room)
    moreover have "hide_preview k s = push (Update n)
        (s\<lparr>nf_pending := AList.update k (p\<lparr>pn_shown := n\<rparr>) (nf_pending s), nf_queue := ?q\<rparr>)"
      using p False by (simp add: hide_preview_def n_def Let_def)
    ultimately show ?thesis
      using assms(2) key by (auto simp: screen_exact_def push_def update_conv')
  qed
qed

lemma hide_preview_queue: "length (nf_queue (hide_preview k s)) \<le> Suc (length (nf_queue s))"
proof -
  have t: "thinned q q' \<Longrightarrow> length q' \<le> length q" for q q' by (induction rule: thinned.induct) auto
  have "length (trim_queue (filter (\<lambda>c. \<not> queued_update k c) (nf_queue s) @ [c])) \<le> Suc (length (nf_queue s))" for c
    using t [OF thinned_trim] length_filter_le [of "\<lambda>c. \<not> queued_update k c" "nf_queue s"]
    by (metis (no_types, lifting) Suc_le_mono le_trans length_append_singleton)
  then show ?thesis by (simp add: hide_preview_def push_def Let_def split: option.split)
qed

lemma hide_all_exact:
  assumes "nf_inv s" "screen_inv s scr" "screen_exact s scr" "length (nf_queue s) + length ks \<le> QUEUE_LIMIT"
  shows "screen_exact (foldl (\<lambda>s k. hide_preview k s) s ks) scr"
  using assms
proof (induction ks arbitrary: s)
  case (Cons k ks)
  then have "length (nf_queue s) < QUEUE_LIMIT" by simp
  from Cons.IH [of "hide_preview k s"] hide_preview_exact [OF Cons.prems(1,3) this, of k] hide_preview_queue [of k s]
    hide_preview_keeps [OF Cons.prems(1,2), of k] Cons.prems(4)
  show ?case by simp
qed simp

lemma sync_keys_same:
  "nf_queue (snd (foldl (\<lambda>x k. sync_key v h c k x) x ks)) = nf_queue (snd x) \<and>
   length (nf_pending (snd (foldl (\<lambda>x k. sync_key v h c k x) x ks))) = length (nf_pending (snd x))"
proof (induction ks arbitrary: x)
  case (Cons k ks)
  have "nf_queue (snd (sync_key v h c k x)) = nf_queue (snd x)"
    by (simp add: sync_key_def Let_def split: chat_now.split option.split prod.split)
  moreover have "length (AList.update k y m) = length m" if "map_of m k = Some p"
    for y p and m :: "(notify_key \<times> pending_notification) list"
    using that by (induction m) (auto split: if_splits)
  then have "length (nf_pending (snd (sync_key v h c k x))) = length (nf_pending (snd x))"
    by (simp add: sync_key_def Let_def split: chat_now.split option.split prod.split)
  ultimately show ?case using Cons.IH by simp
qed simp

lemma sync_exact:
  assumes "nf_inv s" "screen_inv s scr" "screen_exact s scr" "length (nf_queue s) + length (nf_pending s) \<le> QUEUE_LIMIT"
  shows "screen_exact (sync v h c s) scr"
proof -
  obtain gone s' where f: "foldl (\<lambda>x k. sync_key v h c k x) ([], s) (pending_keys s) = (gone, s')" by fastforce
  from sync_keys_keep [of "([], s)" scr v h c "pending_keys s"] assms f
  have i: "nf_inv s'" "screen_inv s' scr"
    and m: "\<And>j. map_option pn_shown (map_of (nf_pending s') j) = map_option pn_shown (map_of (nf_pending s) j)"
    by simp_all
  from sync_keys_same [of v h c "([], s)" "pending_keys s"] f assms(4)
  have q: "nf_queue s' = nf_queue s" and len: "length (nf_queue s') + length (nf_pending s') \<le> QUEUE_LIMIT" by simp_all
  have "screen_exact s' scr" using assms(3) by (simp add: screen_exact_def q m)
  from dismiss_all_exact [OF i this len, of gone] f show ?thesis by (simp add: sync_def)
qed

fun keeps_up :: "notify_op list \<Rightarrow> notifications \<times> screen \<Rightarrow> bool" where
  "keeps_up [] x \<longleftrightarrow> True"
| "keeps_up (oper # ops) x \<longleftrightarrow>
     length (nf_queue (fst x)) + length (nf_pending (fst x)) < QUEUE_LIMIT \<and> keeps_up ops (notify_step oper x)"

lemma keeps_up_append [simp]: "keeps_up (ops @ ops') x \<longleftrightarrow> keeps_up ops x \<and> keeps_up ops' (notify_run ops x)"
  by (induction ops arbitrary: x) auto

lemma notify_step_exact:
  assumes "nf_inv s" "screen_inv s scr" "screen_exact s scr" "length (nf_queue s) + length (nf_pending s) < QUEUE_LIMIT"
    and "notify_step oper (s, scr) = (s', scr')"
  shows "screen_exact s' scr'"
proof -
  from assms(4) have q: "length (nf_queue s) < QUEUE_LIMIT" "length (nf_queue s) + length (nf_pending s) \<le> QUEUE_LIMIT"
    by simp_all
  have keys: "length (nf_queue s) + length (pending_keys s) \<le> QUEUE_LIMIT" using q(2) by (simp add: pending_keys_def)
  show ?thesis
  proof (cases oper)
    case (NFocus f)
    with assms(3,5) show ?thesis by (auto simp: set_focus_def screen_exact_def)
  next
    case NClose
    with assms(5) dismiss_all_exact [OF assms(1-3) q(2), of "pending_keys s"] show ?thesis
      by (auto simp: close_notifications_def clear_all_def screen_exact_def)
  next
    case NTake
    with assms(3,5) show ?thesis by (auto simp: take_commands_def screen_exact_def)
  qed (use assms(5) on_message_exact [OF assms(3) q(1)] dismiss_exact [OF assms(1,3) q(1)]
        dismiss_all_exact [OF assms(1-3) q(2)] hide_all_exact [OF assms(1-3) keys] sync_exact [OF assms(1-3) q(2)]
      in \<open>auto simp: clear_all_def hide_previews_def dismiss_muted_def\<close>)
qed

lemma notify_run_exact:
  "nf_inv (fst x) \<Longrightarrow> screen_inv (fst x) (snd x) \<Longrightarrow> screen_exact (fst x) (snd x) \<Longrightarrow> keeps_up ops x \<Longrightarrow>
   screen_exact (fst (notify_run ops x)) (snd (notify_run ops x))"
proof (induction ops arbitrary: x)
  case (Cons oper ops)
  obtain s scr where x: "x = (s, scr)" by fastforce
  obtain s' scr' where y: "notify_step oper (s, scr) = (s', scr')" by fastforce
  from Cons.prems x have i: "nf_inv s" "screen_inv s scr" by simp_all
  from notify_step_keeps [OF i y] notify_step_exact [OF i _ _ y] Cons x y show ?case by simp
qed simp

lemma notify_new_exact: "screen_exact notifications_new Map.empty"
  by (simp add: screen_exact_def notifications_new_def)

subsection \<open>Hidden previews\<close>

definition all_hidden :: "notifications \<Rightarrow> bool" where
  "all_hidden s \<longleftrightarrow> (\<forall>k p. map_of (nf_pending s) k = Some p \<longrightarrow> hidden (pn_shown p))"

fun no_preview :: "notify_op \<Rightarrow> bool" where
  "no_preview (NMessage _ _ ctx) \<longleftrightarrow> \<not> nc_preview ctx"
| "no_preview _ \<longleftrightarrow> True"

lemma hide_preview_map:
  "map_of (nf_pending (hide_preview k s)) j =
     (if j = k then map_option (\<lambda>p. p\<lparr>pn_shown := (pn_shown p)\<lparr>nt_preview := HIDDEN_PREVIEW, nt_sender := None\<rparr>\<rparr>)
        (map_of (nf_pending s) k)
      else map_of (nf_pending s) j)"
  by (auto simp: hide_preview_def hidden_def Let_def update_conv' split: option.splits)

lemma hide_all_map:
  "map_of (nf_pending (foldl (\<lambda>s k. hide_preview k s) s ks)) j = Some p \<Longrightarrow> j \<in> set ks \<Longrightarrow> hidden (pn_shown p)"
proof (induction ks arbitrary: s rule: rev_induct)
  case (snoc k ks)
  then show ?case by (auto simp: hide_preview_map hidden_def split: if_splits)
qed simp

lemma hide_all_dom: "dom (map_of (nf_pending (foldl (\<lambda>s k. hide_preview k s) s ks))) = dom (map_of (nf_pending s))"
proof (induction ks arbitrary: s)
  case (Cons k ks)
  have "dom (map_of (nf_pending (hide_preview k s))) = dom (map_of (nf_pending s))"
    by (auto simp: dom_def hide_preview_map)
  with Cons show ?case by simp
qed simp

lemma hide_previews_hidden: "all_hidden (hide_previews s)"
  unfolding all_hidden_def
proof (intro allI impI)
  fix k p
  assume p: "map_of (nf_pending (hide_previews s)) k = Some p"
  then have "k \<in> dom (map_of (nf_pending s))" using hide_all_dom unfolding hide_previews_def by blast
  then have "k \<in> set (pending_keys s)" by (auto simp: pending_keys_def dom_map_of_conv_image_fst)
  with p show "hidden (pn_shown p)" unfolding hide_previews_def by (rule hide_all_map)
qed

lemma dismiss_all_hidden: "all_hidden s \<Longrightarrow> all_hidden (foldl (\<lambda>s k. dismiss k s) s ks)"
proof (induction ks arbitrary: s)
  case (Cons k ks)
  then have "all_hidden (dismiss k s)" by (auto simp: all_hidden_def dismiss_pending delete_conv' split: if_splits)
  with Cons.IH show ?case by simp
qed simp

lemma step_hidden:
  assumes "nf_inv s" "screen_inv s scr" "all_hidden s" "no_preview oper" "notify_step oper (s, scr) = (s', scr')"
  shows "all_hidden s'"
proof (cases oper)
  case (NMessage m chat ctx)
  with assms have "\<not> nc_preview ctx" by simp
  then show ?thesis
    using assms(3,5) NMessage
    by (auto simp: on_message_def all_hidden_def show_notification_def Let_def update_conv' notification_for_def hidden_def
        split: option.splits if_splits)
next
  case (NSync v h c)
  obtain gone t where f: "foldl (\<lambda>x k. sync_key v h c k x) ([], s) (pending_keys s) = (gone, t)" by fastforce
  have "map_option pn_shown (map_of (nf_pending t) j) = map_option pn_shown (map_of (nf_pending s) j)" for j
    using sync_keys_keep [of "([], s)" scr v h c "pending_keys s"] assms(1,2) f by simp
  with assms(3) have "all_hidden t" unfolding all_hidden_def by (metis (no_types, lifting) map_option_eq_Some)
  with dismiss_all_hidden [OF this, of gone] f assms(5) NSync show ?thesis by (simp add: sync_def)
next
  case NClose
  with assms(3,5) dismiss_all_hidden [OF assms(3), of "pending_keys s"] show ?thesis
    by (auto simp: close_notifications_def clear_all_def all_hidden_def)
next
  case NHidePreviews
  with assms(5) hide_previews_hidden show ?thesis by auto
next
  case (NDismiss k)
  with assms(5) dismiss_all_hidden [OF assms(3), of "[k]"] show ?thesis by auto
qed (use assms(3,5) dismiss_all_hidden [OF assms(3)]
      in \<open>auto simp: all_hidden_def set_focus_def clear_all_def dismiss_muted_def take_commands_def\<close>)

lemma run_hidden:
  "nf_inv (fst x) \<Longrightarrow> screen_inv (fst x) (snd x) \<Longrightarrow> all_hidden (fst x) \<Longrightarrow> list_all no_preview ops \<Longrightarrow>
   all_hidden (fst (notify_run ops x))"
proof (induction ops arbitrary: x)
  case (Cons oper ops)
  obtain s scr where x: "x = (s, scr)" by fastforce
  obtain s' scr' where y: "notify_step oper (s, scr) = (s', scr')" by fastforce
  from Cons.prems x have i: "nf_inv s" "screen_inv s scr" "all_hidden s" "no_preview oper" by simp_all
  from notify_step_keeps [OF i(1,2) y] step_hidden [OF i y] Cons x y show ?case by simp
qed simp

section \<open>Properties\<close>

text \<open>Inputs for the witnesses and the counterexamples below: a live message of a chat.\<close>

definition some_chat :: "string \<Rightarrow> conversation" where
  "some_chat i =
     \<lparr>cv_protocol = primary Telegram, cv_id = i, cv_title = ''Ada'', cv_participant = ''Ada'', cv_preview = [],
      cv_unread = 1, cv_order = 1, cv_last_at = 0, cv_is_group = True, cv_writable = True, cv_placeholder = False,
      cv_muted = False, cv_has_topics = False, cv_avatar = default_avatar\<rparr>"

definition some_message :: "string \<Rightarrow> chat_message" where
  "some_message i =
     \<lparr>cm_protocol = primary Telegram, cm_conversation_id = i, cm_id = ''m'', cm_sender = ''Bob'', cm_body = ''hi'',
      cm_outbound = False, cm_delivery = Sent, cm_sent_at = 0, cm_arrival = Live, cm_topic = None, cm_links = [],
      cm_photo = None, cm_audio = None, cm_video = None, cm_file = None, cm_reactions = [], cm_reply_to = None,
      cm_edited = False\<rparr>"

definition some_context :: "bool \<Rightarrow> notify_context" where
  "some_context preview =
     \<lparr>nc_enabled = True, nc_preview = preview, nc_window_focused = False, nc_viewed = None, nc_viewed_topic = None,
      nc_has_session = True, nc_muted_here = False, nc_topic_muted = False, nc_topic_name = None, nc_now = 0\<rparr>"

definition live :: "bool \<Rightarrow> string \<Rightarrow> notify_op" where
  "live preview i = NMessage (some_message i) (Some (some_chat i)) (some_context preview)"

definition some_key :: "string \<Rightarrow> notify_key" where
  "some_key i = \<lparr>nk_protocol = primary Telegram, nk_conversation_id = i, nk_topic = None\<rparr>"

definition some_notification :: "bool \<Rightarrow> string \<Rightarrow> notification" where
  "some_notification preview i =
     \<lparr>nt_key = some_key i, nt_title = ''Ada'', nt_sender = (if preview then Some ''Bob'' else None),
      nt_preview = (if preview then ''hi'' else HIDDEN_PREVIEW), nt_count = 1\<rparr>"

lemma live_step:
  assumes "\<not> nf_closing s" "map_of (nf_pending s) (some_key i) = None"
  shows "notify_step (live preview i) (s, scr) =
    (push (Show (some_notification preview i))
      (s\<lparr>nf_pending := AList.update (some_key i)
             \<lparr>pn_shown = some_notification preview i, pn_saw_unread = False\<rparr> (nf_pending s),
         nf_queue := filter (\<lambda>c. \<not> content_of (some_key i) c) (nf_queue s)\<rparr>), scr)"
proof -
  have "decide (some_message i) (Some (some_chat i)) (some_context preview) = None"
    by (simp add: decide_def some_message_def some_chat_def some_context_def chat_mute_of_def)
  moreover have "notification_for (some_message i) (some_chat i) (some_context preview) s = some_notification preview i"
    using assms(2)
    by (simp add: notification_for_def some_message_def some_chat_def some_context_def some_key_def
        some_notification_def notification_text_def PREVIEW_CHARS_def)
  ultimately show ?thesis
    using assms(1) by (simp add: live_def on_message_def show_notification_def some_notification_def Let_def)
qed

text \<open>Whatever the order of messages, focus changes, dismissals, mutes, syncs and takes, and whatever
  the queue had to drop, the frontend that does the queued commands shows a notification only for a
  chat that is pending in the core; so a notification that the core dismissed leaves the screen.\<close>

theorem screen_within_pending:
  "case notify_run ops (notifications_new, Map.empty) of (s, scr) \<Rightarrow>
     dom (screen_after (nf_queue s) scr) \<subseteq> dom (map_of (nf_pending s))"
  using notify_run_inv(2) [of ops] by (simp add: screen_inv_def case_prod_unfold dom_map_of_conv_image_fst)

text \<open>After the app starts to close, every notification leaves the screen and none comes back: whatever
  ran before and whatever comes after the close, nothing is pending and the queued commands leave the
  screen empty.\<close>

theorem closed_screen_empty:
  "case notify_run (ops @ NClose # later) (notifications_new, Map.empty) of (s, scr) \<Rightarrow>
     nf_pending s = [] \<and> screen_after (nf_queue s) scr = Map.empty"
proof -
  let ?x = "notify_run ops (notifications_new, Map.empty)"
  obtain s scr where x: "?x = (s, scr)" by fastforce
  have "nf_inv s" "screen_inv s scr" using notify_run_inv [of ops] x by simp_all
  from clear_all_keeps [OF this] have "nf_pending (close_notifications s) = []"
    by (simp add: close_notifications_def)
  then have "nf_pending (fst (notify_run (ops @ NClose # later) (notifications_new, Map.empty))) = []"
    using notify_run_closed [of "(close_notifications s, scr)" later] x by (simp add: close_notifications_def)
  with notify_run_inv(2) [of "ops @ NClose # later"] show ?thesis
    by (auto simp: screen_inv_def case_prod_unfold)
qed

text \<open>The queue holds at most 64 commands with text, at most one for each pending chat, and each of
  them has the text of the pending notification; it is longer than 64 only when it holds nothing but
  dismissals.\<close>

theorem queue_text_bounded:
  "case notify_run ops (notifications_new, Map.empty) of (s, scr) \<Rightarrow>
     length (filter is_content (nf_queue s)) \<le> min QUEUE_LIMIT (length (nf_pending s)) \<and>
     (length (nf_queue s) \<le> QUEUE_LIMIT \<or> filter is_content (nf_queue s) = []) \<and>
     set (filter is_content (nf_queue s)) \<subseteq>
       (\<Union>(_, p) \<in> set (nf_pending s). {Show (pn_shown p), Update (pn_shown p)})"
proof -
  obtain s scr where x: "notify_run ops (notifications_new, Map.empty) = (s, scr)" by fastforce
  have inv: "nf_inv s" using notify_run_inv(1) [of ops] x by simp
  let ?c = "filter is_content (nf_queue s)"
  have q: "queue_ok (nf_pending s) (nf_queue s)" using inv by (simp add: nf_inv_def)
  have "set (map command_key ?c) \<subseteq> fst ` set (nf_pending s)"
    using q by (force simp: queue_ok_def dest: map_of_SomeD)
  then have "card (set (map command_key ?c)) \<le> length (nf_pending s)"
    by (metis card_length card_mono finite_set le_trans length_map set_map)
  then have a: "length ?c \<le> length (nf_pending s)"
    using q distinct_card [of "map command_key ?c"] by (simp add: queue_ok_def)
  have b: "length (nf_queue s) \<le> QUEUE_LIMIT \<or> ?c = []"
    using inv by (auto simp: nf_inv_def filter_empty_conv list_ex_iff)
  then have "length ?c \<le> QUEUE_LIMIT" using le_trans [OF length_filter_le] by auto
  moreover have "set ?c \<subseteq> (\<Union>(_, p) \<in> set (nf_pending s). {Show (pn_shown p), Update (pn_shown p)})"
    using q by (force simp: queue_ok_def dest: map_of_SomeD)
  ultimately show ?thesis using a b x by simp
qed


text \<open>Turning previews off hides what is already there: when the frontend keeps up and every later
  message comes with previews off, no notification on the screen has the text or the sender of a
  message, whatever else happens.\<close>

theorem previews_stay_hidden:
  assumes "keeps_up (ops @ NHidePreviews # later) (notifications_new, Map.empty)" "list_all no_preview later"
    and "notify_run (ops @ NHidePreviews # later) (notifications_new, Map.empty) = (s, scr)"
    and "screen_after (nf_queue s) scr k = Some n"
  shows "hidden n"
proof -
  obtain t tscr where x: "notify_run ops (notifications_new, Map.empty) = (t, tscr)" by fastforce
  have i: "nf_inv t" "screen_inv t tscr" using notify_run_inv [of ops] x by simp_all
  have e: "notify_run (ops @ NHidePreviews # later) (notifications_new, Map.empty) = notify_run later (hide_previews t, tscr)"
    by (simp add: x)
  have "all_hidden s"
    using run_hidden [of "(hide_previews t, tscr)" later] notify_step_keeps [OF i, of NHidePreviews]
      hide_previews_hidden [of t] assms(2,3) unfolding e by simp
  moreover have "screen_exact s scr"
    using notify_run_exact [of "(notifications_new, Map.empty)" "ops @ NHidePreviews # later"] notify_new
      notify_new_exact assms(1,3) by simp
  ultimately show ?thesis using assms(4) by (auto simp: screen_exact_def all_hidden_def)
qed

lemma notifications_new_simps [simp]:
  "nf_pending notifications_new = []" "nf_queue notifications_new = []" "nf_closing notifications_new = False"
  by (simp_all add: notifications_new_def)

lemma some_keys [simp]: "nt_key (some_notification preview i) = some_key i" "some_key i = some_key j \<longleftrightarrow> i = j"
  by (auto simp: some_notification_def some_key_def)

lemma first_live:
  "notify_step (live preview i) (notifications_new, Map.empty) =
     (notifications_new\<lparr>nf_pending := [(some_key i, \<lparr>pn_shown = some_notification preview i, pn_saw_unread = False\<rparr>)],
        nf_queue := [Show (some_notification preview i)]\<rparr>, Map.empty)"
  by (simp add: live_step push_def trim_id QUEUE_LIMIT_def)


theorem previews_stay_hidden_witness:
  "hidden ((some_notification True ''a'')\<lparr>nt_preview := HIDDEN_PREVIEW, nt_sender := None\<rparr>)"
proof (rule previews_stay_hidden)
  let ?n = "(some_notification True ''a'')\<lparr>nt_preview := HIDDEN_PREVIEW, nt_sender := None\<rparr>"
  let ?s = "notifications_new\<lparr>nf_pending := [(some_key ''a'', \<lparr>pn_shown = ?n, pn_saw_unread = False\<rparr>)], nf_queue := [Show ?n]\<rparr>"
  have "hide_previews (fst (notify_step (live True ''a'') (notifications_new, Map.empty))) = ?s"
    by (simp add: first_live hide_previews_def pending_keys_def hide_preview_def hidden_def Let_def queued_show_def
        some_notification_def)
  then have step: "notify_run [live True ''a'', NHidePreviews] (notifications_new, Map.empty) = (?s, Map.empty)"
    by (simp add: first_live)
  show "keeps_up ([live True ''a''] @ NHidePreviews # []) (notifications_new, Map.empty)"
    by (simp add: first_live QUEUE_LIMIT_def)
  show "list_all no_preview []" by simp
  show "notify_run ([live True ''a''] @ NHidePreviews # []) (notifications_new, Map.empty) = (?s, Map.empty)"
    using step by simp
  show "screen_after (nf_queue ?s) Map.empty (some_key ''a'') = Some ?n" by simp
qed

section \<open>When the frontend does not keep up\<close>

text \<open>One message and the dismissal of its notification leave one more \<open>Dismiss\<close> in the queue each time,
  since a \<open>Dismiss\<close> is kept even when one for the same chat waits already: the queue has no bound of
  its own.\<close>

lemma delete_update: "map_of m k = None \<Longrightarrow> AList.delete k (AList.update k p m) = m"
  by (induction m) (auto simp: AList.delete_eq split: if_splits)

lemma dismisses_left:
  assumes "nt_key x = k"
  shows "filter (\<lambda>c. \<not> content_of k c) (trim_queue (replicate n (Dismiss j) @ [Show x])) = replicate n (Dismiss j)"
proof -
  let ?q = "replicate n (Dismiss j) @ [Show x]"
  have "filter (\<lambda>c. \<not> content_of k c) (trim_queue ?q) = filter (\<lambda>c. \<not> is_content c) (trim_queue ?q)"
    using thinned_set [OF thinned_trim [of ?q]] assms by (intro filter_cong refl) (auto simp: content_of_def)
  then show ?thesis using thinned_dismisses [OF thinned_trim [of ?q]] by simp
qed

lemma trim_dismisses: "trim_queue (replicate n (Dismiss j) @ [Dismiss j]) = replicate (Suc n) (Dismiss j)"
  by (subst trim_queue.simps) (auto simp: list_ex_iff replicate_append_same)

lemma message_dismiss_step:
  assumes "\<not> nf_closing s" "map_of (nf_pending s) (some_key i) = None" "nf_queue s = replicate n (Dismiss (some_key i))"
  shows "notify_run [live preview i, NDismiss (some_key i)] (s, scr) =
    (s\<lparr>nf_queue := replicate (Suc n) (Dismiss (some_key i))\<rparr>, scr)"
proof -
  have f: "filter (\<lambda>c. \<not> content_of k c) (replicate n (Dismiss j)) = replicate n (Dismiss j)" for k j
    by (simp add: content_of_def)
  show ?thesis
    using assms
    by (simp add: live_step push_def dismiss_def update_conv' delete_update dismisses_left f trim_dismisses)
qed

lemma message_dismiss_run:
  "\<not> nf_closing s \<Longrightarrow> map_of (nf_pending s) (some_key i) = None \<Longrightarrow> nf_queue s = replicate m (Dismiss (some_key i)) \<Longrightarrow>
   notify_run (concat (replicate n [live preview i, NDismiss (some_key i)])) (s, scr) =
     (s\<lparr>nf_queue := replicate (m + n) (Dismiss (some_key i))\<rparr>, scr)"
proof (induction n arbitrary: s m)
  case (Suc n)
  let ?s = "s\<lparr>nf_queue := replicate (Suc m) (Dismiss (some_key i))\<rparr>"
  have "notify_run (concat (replicate n [live preview i, NDismiss (some_key i)])) (?s, scr) =
      (?s\<lparr>nf_queue := replicate (Suc m + n) (Dismiss (some_key i))\<rparr>, scr)"
    by (rule Suc.IH) (use Suc.prems in simp_all)
  moreover have "concat (replicate (Suc n) [live preview i, NDismiss (some_key i)]) =
      [live preview i, NDismiss (some_key i)] @ concat (replicate n [live preview i, NDismiss (some_key i)])" by simp
  ultimately show ?case
    using message_dismiss_step [OF Suc.prems, of preview scr] by (simp only: notify_run_simps) simp
qed simp

lemma queue_grows:
  "length (nf_queue (fst (notify_run (concat (replicate n [live preview i, NDismiss (some_key i)]))
     (notifications_new, Map.empty)))) = n"
  using message_dismiss_run [of notifications_new i 0 n preview Map.empty] by simp

text \<open>And a full queue drops the \<open>Update\<close> that hides a text: with 64 dismissals waiting, a shown
  notification keeps the text of its message on the screen after the previews are turned off, though
  the core takes it for hidden and sends nothing more for it.\<close>

lemma preview_left_on_screen:
  "case notify_run ([live True ''b'', NTake] @
       concat (replicate 64 [live True ''a'', NDismiss (some_key ''a'')]) @ [NHidePreviews, NTake, NHidePreviews, NTake])
       (notifications_new, Map.empty) of (s, scr) \<Rightarrow>
     all_hidden s \<and> scr (some_key ''b'') = Some (some_notification True ''b'') \<and> \<not> hidden (some_notification True ''b'')"
proof -
  let ?n = "some_notification True ''b''"
  let ?h = "?n\<lparr>nt_preview := HIDDEN_PREVIEW, nt_sender := None\<rparr>"
  let ?D = "replicate 64 (Dismiss (some_key ''a''))"
  define s where "s = notifications_new\<lparr>nf_pending := [(some_key ''b'', \<lparr>pn_shown = ?n, pn_saw_unread = False\<rparr>)], nf_queue := []\<rparr>"
  define t where "t = s\<lparr>nf_pending := [(some_key ''b'', \<lparr>pn_shown = ?h, pn_saw_unread = False\<rparr>)]\<rparr>"
  have one: "notify_run [live True ''b'', NTake] (notifications_new, Map.empty) = (s, [some_key ''b'' \<mapsto> ?n])"
    by (simp add: first_live take_commands_def s_def)
  have two: "notify_run (concat (replicate 64 [live True ''a'', NDismiss (some_key ''a'')])) (s, [some_key ''b'' \<mapsto> ?n]) =
      (s\<lparr>nf_queue := ?D\<rparr>, [some_key ''b'' \<mapsto> ?n])"
    using message_dismiss_run [of s "''a''" 0 64 True "[some_key ''b'' \<mapsto> ?n]"] by (simp add: s_def)
  have nh: "\<not> hidden ?n" "hidden ?h" by (simp_all add: hidden_def some_notification_def)
  have dr: "trim_queue (?D @ [Update ?h]) = ?D"
  proof -
    have rf: "remove_first is_content (replicate m (Dismiss k) @ [Update x]) = replicate m (Dismiss k)" for m k x
      by (induction m) simp_all
    show ?thesis
      by (subst trim_queue.simps) (simp only: rf, simp add: QUEUE_LIMIT_def trim_id)
  qed
  have hp: "hide_previews (s\<lparr>nf_queue := ?D\<rparr>) = t\<lparr>nf_queue := ?D\<rparr>"
  proof -
    have "filter (\<lambda>c. \<not> queued_update k c) ?D = ?D" "\<not> list_ex (queued_show k) ?D" for k
      by (simp_all add: list_ex_iff queued_update_def queued_show_def)
    then show ?thesis
      using nh dr
      by (simp add: hide_previews_def pending_keys_def hide_preview_def Let_def push_def s_def t_def
         )
  qed
  have same: "hide_previews (t\<lparr>nf_queue := []\<rparr>) = t\<lparr>nf_queue := []\<rparr>"
    using nh by (simp add: hide_previews_def pending_keys_def hide_preview_def t_def)
  have scr: "screen_after (replicate m (Dismiss (some_key ''a''))) [some_key ''b'' \<mapsto> ?n] = [some_key ''b'' \<mapsto> ?n]" for m
  proof -
    have "[some_key ''b'' \<mapsto> ?n](some_key ''a'' := None) = [some_key ''b'' \<mapsto> ?n]" by (rule ext) simp
    then show ?thesis by (induction m) simp_all
  qed
  have three: "notify_run [NHidePreviews, NTake, NHidePreviews, NTake] (s\<lparr>nf_queue := ?D\<rparr>, [some_key ''b'' \<mapsto> ?n]) =
      (t\<lparr>nf_queue := []\<rparr>, [some_key ''b'' \<mapsto> ?n])"
    by (simp add: hp same take_commands_def scr)
  have "all_hidden (t\<lparr>nf_queue := []\<rparr>)" using nh by (simp add: all_hidden_def t_def)
  then show ?thesis using one two three nh by (simp only: notify_run_simps(3)) simp
qed

end
