(* ===== verification/Settings.thy ===== *)
theory Settings
  imports Mutes
begin

text \<open>
  The settings (\<open>crates/thinwire-core/src/settings.rs\<close>, \<open>theme.rs\<close>): the fields, their changes, the
  text of \<open>settings.toml\<close> and the readers of that text. A reader gets what \<open>fs::read_to_string\<close>
  gave: \<open>None\<close> for a file that is missing, unreadable or not UTF-8. A path is a string.
\<close>

section \<open>Theme\<close>

datatype theme_mode = ThemeSystem | ThemeLight | ThemeDark

fun theme_as_str :: "theme_mode \<Rightarrow> string" where
  "theme_as_str ThemeSystem = ''system''"
| "theme_as_str ThemeLight = ''light''"
| "theme_as_str ThemeDark = ''dark''"

definition theme_parse :: "string \<Rightarrow> theme_mode option" where
  "theme_parse raw =
     (let val = map ascii_lower (trim_matches QUOTE (trim raw))
      in if val = ''system'' then Some ThemeSystem
         else if val = ''light'' then Some ThemeLight
         else if val = ''dark'' then Some ThemeDark
         else None)"

section \<open>Keys and texts\<close>

definition ACCOUNTS_KEY :: string where
  "ACCOUNTS_KEY = ''accounts''"

definition RAIL_COLLAPSED_KEY :: string where
  "RAIL_COLLAPSED_KEY = ''rail_collapsed''"

definition WHATSAPP_HELPER_KEY :: string where
  "WHATSAPP_HELPER_KEY = ''whatsapp_helper''"

definition SIGNAL_HELPER_KEY :: string where
  "SIGNAL_HELPER_KEY = ''signal_helper''"

definition SIGNAL_NOTICE_VERSION_KEY :: string where
  "SIGNAL_NOTICE_VERSION_KEY = ''signal_notice_version''"

definition WHATSAPP_GATE_VERSION_KEY :: string where
  "WHATSAPP_GATE_VERSION_KEY = ''whatsapp_gate_version''"

text \<open>\<open>str::replace\<close> of one character, and the two replacements of \<open>escape_toml\<close>.\<close>

definition replace_char :: "char \<Rightarrow> string \<Rightarrow> string \<Rightarrow> string" where
  "replace_char d by_text s = concat (map (\<lambda>c. if c = d then by_text else [c]) s)"

definition escape_toml :: "string \<Rightarrow> string" where
  "escape_toml val = replace_char QUOTE [BACKSLASH, QUOTE] (replace_char BACKSLASH [BACKSLASH, BACKSLASH] val)"

fun unescape_toml :: "string \<Rightarrow> string" where
  "unescape_toml [] = []"
| "unescape_toml (c # cs) =
     (if c = BACKSLASH then (case cs of [] \<Rightarrow> [] | d # ds \<Rightarrow> d # unescape_toml ds)
      else c # unescape_toml cs)"

text \<open>\<open>str::parse::<u64>\<close>.\<close>

definition parse_u64 :: "string \<Rightarrow> u64 option" where
  "parse_u64 s =
     (let body = (case s of c # r \<Rightarrow> if c = CHR ''+'' then r else s | [] \<Rightarrow> [])
      in if body = [] then None
         else case parse_digits 0 body of
                Some n \<Rightarrow> if n < 2 ^ 64 then Some n else None
              | None \<Rightarrow> None)"

section \<open>Readers\<close>

fun find_map :: "('a \<Rightarrow> 'b option) \<Rightarrow> 'a list \<Rightarrow> 'b option" where
  "find_map f [] = None"
| "find_map f (x # xs) = (case f x of Some y \<Rightarrow> Some y | None \<Rightarrow> find_map f xs)"

text \<open>\<open>line.trim().split_once('=')\<close> with the key trimmed.\<close>

definition key_value :: "string \<Rightarrow> (string \<times> string) option" where
  "key_value line = map_option (\<lambda>(key, val). (trim key, val)) (split_once (CHR ''='') (trim line))"

definition read_u64 :: "string option \<Rightarrow> string \<Rightarrow> u64 option" where
  "read_u64 file wanted =
     Option.bind file (\<lambda>contents.
       find_map (\<lambda>line.
         case key_value line of
           None \<Rightarrow> None
         | Some (key, val) \<Rightarrow> if key \<noteq> wanted then None else parse_u64 (trim val)) (str_lines contents))"

definition add_account_name :: "protocol_id list \<Rightarrow> string \<Rightarrow> protocol_id list" where
  "add_account_name accounts name =
     (case from_key (trim name) of
        None \<Rightarrow> accounts
      | Some a \<Rightarrow> if 0 < pid_slot a \<and> a \<notin> set accounts then accounts @ [a] else accounts)"

definition read_accounts :: "string option \<Rightarrow> protocol_id list" where
  "read_accounts file =
     (case file of
        None \<Rightarrow> []
      | Some contents \<Rightarrow>
          (case find_map (\<lambda>line.
              case key_value line of
                None \<Rightarrow> None
              | Some (key, val) \<Rightarrow> if key = ACCOUNTS_KEY then Some (trim_matches QUOTE (trim val)) else None)
             (str_lines contents) of
             None \<Rightarrow> []
           | Some val \<Rightarrow> foldl add_account_name [] (str_split (CHR '','') val)))"

definition read_bool :: "string option \<Rightarrow> string \<Rightarrow> bool option" where
  "read_bool file wanted =
     Option.bind file (\<lambda>contents.
       find_map (\<lambda>line.
         case key_value line of
           None \<Rightarrow> None
         | Some (key, val) \<Rightarrow>
             if key \<noteq> wanted then None
             else if trim val = ''true'' then Some True
             else if trim val = ''false'' then Some False
             else None) (str_lines contents))"

definition path_text :: "string \<Rightarrow> string option" where
  "path_text val =
     (let val = trim val;
          text =
            (case Option.bind (strip_prefix_char (CHR 39) val) (strip_suffix_char (CHR 39)) of
               Some literal \<Rightarrow> Some literal
             | None \<Rightarrow> map_option unescape_toml (Option.bind (strip_prefix_char QUOTE val) (strip_suffix_char QUOTE)))
      in case text of None \<Rightarrow> None | Some t \<Rightarrow> if t = [] then None else Some t)"

definition read_path :: "string option \<Rightarrow> string \<Rightarrow> string option" where
  "read_path file wanted =
     Option.bind file (\<lambda>contents.
       find_map (\<lambda>line.
         case key_value line of
           None \<Rightarrow> None
         | Some (key, val) \<Rightarrow> if key \<noteq> wanted then None else path_text val) (str_lines contents))"

fun theme_of_lines :: "string list \<Rightarrow> theme_mode option" where
  "theme_of_lines [] = None"
| "theme_of_lines (line # ls) =
     (let line = trim line
      in if line = [] \<or> hd line = CHR ''#'' then theme_of_lines ls
         else case split_once (CHR ''='') line of
           None \<Rightarrow> None
         | Some (key, val) \<Rightarrow> if trim key = ''theme'' then theme_parse val else theme_of_lines ls)"

definition read_theme :: "string option \<Rightarrow> theme_mode option" where
  "read_theme file = Option.bind file (\<lambda>contents. theme_of_lines (str_lines contents))"

section \<open>The settings\<close>

record settings =
  se_theme :: theme_mode
  se_notifications :: bool
  se_notification_preview :: bool
  se_rail_collapsed :: bool
  se_path :: string
  se_persist_pending :: bool
  se_persist_epoch :: u64
  se_latest_persist :: u64
  se_in_memory :: bool
  se_mutes :: chat_mutes
  se_whatsapp_helper :: "string option"
  se_signal_helper :: "string option"
  se_signal_notice_version :: u64
  se_whatsapp_gate_version :: u64
  se_extra_accounts :: "protocol_id list"

definition settings_load_from :: "string \<Rightarrow> string option \<Rightarrow> settings" where
  "settings_load_from path file =
     \<lparr>se_theme = (case read_theme file of Some t \<Rightarrow> t | None \<Rightarrow> ThemeSystem),
      se_notifications = (case read_bool file ''notifications'' of Some b \<Rightarrow> b | None \<Rightarrow> True),
      se_notification_preview = (case read_bool file ''notification_preview'' of Some b \<Rightarrow> b | None \<Rightarrow> True),
      se_rail_collapsed = (case read_bool file RAIL_COLLAPSED_KEY of Some b \<Rightarrow> b | None \<Rightarrow> False),
      se_path = path, se_persist_pending = False, se_persist_epoch = 0, se_latest_persist = 0, se_in_memory = False,
      se_mutes = mutes_in_memory,
      se_whatsapp_helper = read_path file WHATSAPP_HELPER_KEY, se_signal_helper = read_path file SIGNAL_HELPER_KEY,
      se_signal_notice_version = (case read_u64 file SIGNAL_NOTICE_VERSION_KEY of Some n \<Rightarrow> n | None \<Rightarrow> 0),
      se_whatsapp_gate_version = (case read_u64 file WHATSAPP_GATE_VERSION_KEY of Some n \<Rightarrow> n | None \<Rightarrow> 0),
      se_extra_accounts = read_accounts file\<rparr>"

definition settings_in_memory :: settings where
  "settings_in_memory =
     \<lparr>se_theme = ThemeSystem, se_notifications = True, se_notification_preview = True, se_rail_collapsed = False,
      se_path = [], se_persist_pending = False, se_persist_epoch = 0, se_latest_persist = 0, se_in_memory = True,
      se_mutes = mutes_in_memory, se_whatsapp_helper = None, se_signal_helper = None,
      se_signal_notice_version = 0, se_whatsapp_gate_version = 0, se_extra_accounts = []\<rparr>"

definition with_chat_mutes :: "chat_mutes \<Rightarrow> settings \<Rightarrow> settings" where
  "with_chat_mutes m s = s\<lparr>se_mutes := m\<rparr>"

definition set_signal_notice_version :: "u64 \<Rightarrow> settings \<Rightarrow> settings" where
  "set_signal_notice_version version s =
     (if se_signal_notice_version s \<noteq> version
      then s\<lparr>se_signal_notice_version := version, se_persist_pending := True\<rparr> else s)"

definition set_whatsapp_gate_version :: "u64 \<Rightarrow> settings \<Rightarrow> settings" where
  "set_whatsapp_gate_version version s =
     (if se_whatsapp_gate_version s \<noteq> version
      then s\<lparr>se_whatsapp_gate_version := version, se_persist_pending := True\<rparr> else s)"

definition add_extra_account :: "protocol_id \<Rightarrow> settings \<Rightarrow> settings" where
  "add_extra_account a s =
     (if pid_slot a = 0 \<or> a \<in> set (se_extra_accounts s) then s
      else s\<lparr>se_extra_accounts := se_extra_accounts s @ [a], se_persist_pending := True\<rparr>)"

definition remove_extra_account :: "protocol_id \<Rightarrow> settings \<Rightarrow> settings" where
  "remove_extra_account a s =
     (let accounts = filter (\<lambda>known. known \<noteq> a) (se_extra_accounts s);
          changed = length accounts \<noteq> length (se_extra_accounts s)
      in s\<lparr>se_extra_accounts := accounts, se_persist_pending := se_persist_pending s \<or> changed\<rparr>)"

definition set_theme :: "theme_mode \<Rightarrow> settings \<Rightarrow> settings" where
  "set_theme theme s =
     (if se_theme s = theme \<and> \<not> se_persist_pending s then s
      else s\<lparr>se_theme := theme, se_persist_pending := True\<rparr>)"

definition set_notifications :: "bool \<Rightarrow> settings \<Rightarrow> settings" where
  "set_notifications on s =
     (if se_notifications s \<noteq> on then s\<lparr>se_notifications := on, se_persist_pending := True\<rparr> else s)"

definition set_notification_preview :: "bool \<Rightarrow> settings \<Rightarrow> settings" where
  "set_notification_preview on s =
     (if se_notification_preview s \<noteq> on then s\<lparr>se_notification_preview := on, se_persist_pending := True\<rparr> else s)"

definition set_rail_collapsed :: "bool \<Rightarrow> settings \<Rightarrow> settings" where
  "set_rail_collapsed collapsed s =
     (if se_rail_collapsed s \<noteq> collapsed then s\<lparr>se_rail_collapsed := collapsed, se_persist_pending := True\<rparr> else s)"

definition set_chat_muted :: "protocol_id \<Rightarrow> string \<Rightarrow> bool \<Rightarrow> settings \<Rightarrow> bool \<times> settings" where
  "set_chat_muted protocol conversation_id muted s =
     (let (changed, m) = mutes_set protocol conversation_id muted (se_mutes s)
      in (changed, s\<lparr>se_mutes := m\<rparr>))"

definition forget_chat_mutes :: "protocol_id \<Rightarrow> settings \<Rightarrow> settings" where
  "forget_chat_mutes protocol s = s\<lparr>se_mutes := mutes_forget protocol (se_mutes s)\<rparr>"

definition take_mutes_job :: "settings \<Rightarrow> persist_job option \<times> settings" where
  "take_mutes_job s = (let (job, m) = mutes_take_persist_job (se_mutes s) in (job, s\<lparr>se_mutes := m\<rparr>))"

fun show_bool :: "bool \<Rightarrow> string" where
  "show_bool True = ''true''"
| "show_bool False = ''false''"

definition SETTINGS_HEADER :: string where
  "SETTINGS_HEADER = ''# thinwire settings. Missing file means System theme, notifications on.''"

definition quoted :: "string \<Rightarrow> string" where
  "quoted text = [QUOTE] @ text @ [QUOTE]"

definition path_line :: "string \<Rightarrow> string option \<Rightarrow> string" where
  "path_line key path =
     (case path of
        None \<Rightarrow> []
      | Some p \<Rightarrow> key @ '' = '' @ quoted (escape_toml p) @ [NL])"

definition render_settings :: "settings \<Rightarrow> string" where
  "render_settings s =
     SETTINGS_HEADER @ [NL] @
     ''theme = '' @ theme_as_str (se_theme s) @ [NL] @
     ''notifications = '' @ show_bool (se_notifications s) @ [NL] @
     ''notification_preview = '' @ show_bool (se_notification_preview s) @ [NL] @
     (if se_rail_collapsed s then RAIL_COLLAPSED_KEY @ '' = true'' @ [NL] else []) @
     (if se_signal_notice_version s \<noteq> 0
      then SIGNAL_NOTICE_VERSION_KEY @ '' = '' @ show_nat (se_signal_notice_version s) @ [NL] else []) @
     (if se_whatsapp_gate_version s \<noteq> 0
      then WHATSAPP_GATE_VERSION_KEY @ '' = '' @ show_nat (se_whatsapp_gate_version s) @ [NL] else []) @
     (if se_extra_accounts s \<noteq> []
      then ACCOUNTS_KEY @ '' = '' @ quoted (join (CHR '','') (map pid_key (se_extra_accounts s))) @ [NL] else []) @
     path_line WHATSAPP_HELPER_KEY (se_whatsapp_helper s) @ path_line SIGNAL_HELPER_KEY (se_signal_helper s)"

definition settings_take_persist_job :: "settings \<Rightarrow> persist_job option \<times> settings" where
  "settings_take_persist_job s =
     (if \<not> se_persist_pending s \<or> se_in_memory s then (None, s\<lparr>se_persist_pending := False\<rparr>)
      else
        let s = s\<lparr>se_persist_pending := False, se_persist_epoch := se_persist_epoch s + 1,
                  se_latest_persist := se_persist_epoch s + 1\<rparr>
        in (Some \<lparr>pj_path = se_path s, pj_contents = render_settings s, pj_epoch = se_persist_epoch s,
                  pj_private = False\<rparr>, s))"

section \<open>Reading the text back\<close>

definition key_line :: "string \<times> string \<Rightarrow> string" where
  "key_line e = fst e @ '' = '' @ snd e"

definition settings_entries :: "settings \<Rightarrow> (string \<times> string) list" where
  "settings_entries s =
     [(''theme'', theme_as_str (se_theme s)), (''notifications'', show_bool (se_notifications s)),
      (''notification_preview'', show_bool (se_notification_preview s))] @
     (if se_rail_collapsed s then [(RAIL_COLLAPSED_KEY, ''true'')] else []) @
     (if se_signal_notice_version s \<noteq> 0 then [(SIGNAL_NOTICE_VERSION_KEY, show_nat (se_signal_notice_version s))] else []) @
     (if se_whatsapp_gate_version s \<noteq> 0 then [(WHATSAPP_GATE_VERSION_KEY, show_nat (se_whatsapp_gate_version s))] else []) @
     (if se_extra_accounts s \<noteq> [] then [(ACCOUNTS_KEY, quoted (join (CHR '','') (map pid_key (se_extra_accounts s))))] else []) @
     (case se_whatsapp_helper s of None \<Rightarrow> [] | Some p \<Rightarrow> [(WHATSAPP_HELPER_KEY, quoted (escape_toml p))]) @
     (case se_signal_helper s of None \<Rightarrow> [] | Some p \<Rightarrow> [(SIGNAL_HELPER_KEY, quoted (escape_toml p))])"

lemma render_settings_lines:
  "render_settings s = concat (map (\<lambda>l. l @ [NL]) (SETTINGS_HEADER # map key_line (settings_entries s)))"
  by (simp add: render_settings_def settings_entries_def key_line_def path_line_def split: option.split)

definition settings_ok :: "settings \<Rightarrow> bool" where
  "settings_ok s \<longleftrightarrow>
     distinct (se_extra_accounts s) \<and> (\<forall>a \<in> set (se_extra_accounts s). pid_wf a \<and> 0 < pid_slot a) \<and>
     se_signal_notice_version s < 2 ^ 64 \<and> se_whatsapp_gate_version s < 2 ^ 64 \<and>
     (\<forall>p. se_whatsapp_helper s = Some p \<or> se_signal_helper s = Some p \<longrightarrow> p \<noteq> [] \<and> NL \<notin> set p)"

text \<open>A value as the settings write it: no line feed, and neither end is white space.\<close>

definition plain_value :: "string \<Rightarrow> bool" where
  "plain_value val \<longleftrightarrow> NL \<notin> set val \<and> val \<noteq> [] \<and> is_solid (hd val) \<and> is_solid (last val)"

definition plain_key :: "string \<Rightarrow> bool" where
  "plain_key key \<longleftrightarrow> key \<noteq> [] \<and> list_all (\<lambda>c. is_solid c \<and> c \<noteq> CHR ''='' \<and> c \<noteq> CHR ''#'') key"

lemma plain_keys [simp]:
  "plain_key ''theme''" "plain_key ''notifications''" "plain_key ''notification_preview''" "plain_key RAIL_COLLAPSED_KEY"
  "plain_key SIGNAL_NOTICE_VERSION_KEY" "plain_key WHATSAPP_GATE_VERSION_KEY" "plain_key ACCOUNTS_KEY"
  "plain_key WHATSAPP_HELPER_KEY" "plain_key SIGNAL_HELPER_KEY"
  by (simp_all add: plain_key_def is_solid_def RAIL_COLLAPSED_KEY_def SIGNAL_NOTICE_VERSION_KEY_def
      WHATSAPP_GATE_VERSION_KEY_def ACCOUNTS_KEY_def WHATSAPP_HELPER_KEY_def SIGNAL_HELPER_KEY_def)

lemma solid_list_ends: "list_all is_solid s \<Longrightarrow> s \<noteq> [] \<Longrightarrow> is_solid (hd s) \<and> is_solid (last s)"
  by (simp add: list_all_iff)

lemma plain_key_line:
  assumes "plain_key key" "plain_value val"
  shows "key_value (key_line (key, val)) = Some (key, CHR '' '' # val)" "trim (CHR '' '' # val) = val"
    "trim (key_line (key, val)) = key_line (key, val)" "strip_cr (key_line (key, val)) = key_line (key, val)"
    "NL \<notin> set (key_line (key, val))" "key_line (key, val) \<noteq> []" "hd (key_line (key, val)) \<noteq> CHR ''#''"
    "split_once (CHR ''='') (key_line (key, val)) = Some (key @ '' '', CHR '' '' # val)" "trim (key @ '' '') = key"
proof -
  have k: "key \<noteq> []" "is_solid (hd key)" "is_solid (last key)" "hd key \<noteq> CHR ''#''" "CHR ''='' \<notin> set key"
    "\<forall>c \<in> set key. is_solid c"
    using assms(1) by (auto simp: plain_key_def list_all_iff)
  have v: "val \<noteq> []" "is_solid (hd val)" "is_solid (last val)" "NL \<notin> set val"
    using assms(2) by (simp_all add: plain_value_def)
  show t: "trim (key_line (key, val)) = key_line (key, val)"
    using k v by (intro trim_solid) (simp_all add: key_line_def)
  show s: "split_once (CHR ''='') (key_line (key, val)) = Some (key @ '' '', CHR '' '' # val)"
    using split_once_append [of "CHR ''=''" "key @ '' ''" "CHR '' '' # val"] k(5) by (simp add: key_line_def)
  show tk: "trim (key @ '' '') = key" using k by (intro trim_solid)
  show "key_value (key_line (key, val)) = Some (key, CHR '' '' # val)" by (simp add: key_value_def t s tk)
  show "trim (CHR '' '' # val) = val"
    using trim_space [OF v(1) solid_not_cont [OF v(2)]] trim_solid(1) [OF v(1-3)] by simp
  have "last (key_line (key, val)) = last val" using v(1) by (simp add: key_line_def)
  then show "strip_cr (key_line (key, val)) = key_line (key, val)" using v(3) by (auto simp: strip_cr_def is_solid_def)
  show "NL \<notin> set (key_line (key, val))" using k(6) v(4) by (auto simp: key_line_def is_solid_def NL_def)
  show "key_line (key, val) \<noteq> []" "hd (key_line (key, val)) \<noteq> CHR ''#''" using k by (simp_all add: key_line_def)
qed

definition plain_entries :: "(string \<times> string) list \<Rightarrow> bool" where
  "plain_entries es \<longleftrightarrow> list_all (\<lambda>(k, v). plain_key k \<and> plain_value v) es"

lemma find_map_entries:
  "plain_entries es \<Longrightarrow>
   find_map (\<lambda>line. case key_value line of None \<Rightarrow> None | Some (key, val) \<Rightarrow> f key val) (map key_line es) =
   find_map (\<lambda>(key, val). f key (CHR '' '' # val)) es"
  by (induction es) (auto simp: plain_entries_def plain_key_line split: option.split)

lemma header_line: "key_value SETTINGS_HEADER = None" "strip_cr SETTINGS_HEADER = SETTINGS_HEADER"
  "NL \<notin> set SETTINGS_HEADER" "trim SETTINGS_HEADER = SETTINGS_HEADER" "SETTINGS_HEADER \<noteq> []" "hd SETTINGS_HEADER = CHR ''#''"
proof -
  show t: "trim SETTINGS_HEADER = SETTINGS_HEADER"
    by (rule trim_solid) (simp_all add: SETTINGS_HEADER_def is_solid_def)
  have "split_once (CHR ''='') SETTINGS_HEADER = None"
    by (simp add: split_once_None SETTINGS_HEADER_def)
  then show "key_value SETTINGS_HEADER = None" by (simp add: key_value_def t)
qed (simp_all add: strip_cr_def SETTINGS_HEADER_def CR_def NL_def)

lemma str_lines_settings:
  assumes "plain_entries (settings_entries s)"
  shows "str_lines (render_settings s) = SETTINGS_HEADER # map key_line (settings_entries s)"
proof -
  have p: "plain_key k \<and> plain_value v" if "(k, v) \<in> set (settings_entries s)" for k v
    using assms that by (auto simp: plain_entries_def list_all_iff)
  have "NL \<notin> set l" if "l \<in> set (SETTINGS_HEADER # map key_line (settings_entries s))" for l
    using that p plain_key_line(5) header_line(3) by auto
  then have "str_lines (render_settings s) = map strip_cr (SETTINGS_HEADER # map key_line (settings_entries s))"
    unfolding render_settings_lines by (rule str_lines_concat)
  then show ?thesis using p plain_key_line(4) header_line(2) by auto
qed

subsection \<open>Values\<close>

lemma escape_toml_simps [simp]:
  "escape_toml [] = []"
  "escape_toml (c # s) = (if c = QUOTE \<or> c = BACKSLASH then [BACKSLASH, c] else [c]) @ escape_toml s"
  by (auto simp: escape_toml_def replace_char_def)

lemma unescape_escape: "unescape_toml (escape_toml p) = p"
  by (induction p) auto

lemma set_unescape: "set (unescape_toml s) \<subseteq> set s"
  by (induction s rule: unescape_toml.induct) (auto split: list.splits)

lemma escape_no_break: "NL \<notin> set p \<Longrightarrow> NL \<notin> set (escape_toml p)"
  by (induction p) auto

lemma solid_quote: "is_solid QUOTE"
  by (simp add: is_solid_def)

lemma plain_quoted: "NL \<notin> set p \<Longrightarrow> plain_value (quoted p)"
  by (simp add: plain_value_def quoted_def solid_quote)

lemma path_text_quoted:
  assumes "p \<noteq> []"
  shows "path_text (CHR '' '' # quoted (escape_toml p)) = Some p"
proof -
  have "trim (CHR '' '' # quoted (escape_toml p)) = quoted (escape_toml p)"
    using trim_space [of "quoted (escape_toml p)"] trim_solid(1) [of "quoted (escape_toml p)"] solid_quote solid_not_cont
    by (simp add: quoted_def)
  then show ?thesis
    using assms
    by (simp add: path_text_def quoted_def strip_prefix_char_def strip_suffix_char_def unescape_escape QUOTE_def)
qed

lemma parse_u64_show: "n < 2 ^ 64 \<Longrightarrow> parse_u64 (show_nat n) = Some n"
proof -
  assume n: "n < 2 ^ 64"
  have "hd (show_nat n) \<noteq> CHR ''+''"
    using show_nat_digits [of "hd (show_nat n)" n] show_nat_nonempty [of n] by (auto simp: is_digit_def)
  then have "(case show_nat n of c # r \<Rightarrow> if c = CHR ''+'' then r else show_nat n | [] \<Rightarrow> []) = show_nat n"
    by (cases "show_nat n") auto
  with n show ?thesis by (simp add: parse_u64_def parse_digits_show_nat show_nat_nonempty)
qed

lemma plain_show_nat: "plain_value (show_nat n)"
  using show_nat_solid [of _ n] show_nat_nonempty [of n] show_nat_solid [of NL n]
  by (auto simp: plain_value_def is_solid_def)

lemma plain_words [simp]: "plain_value (show_bool b)" "plain_value (theme_as_str t)" "plain_value ''true''"
  by (cases b; cases t; simp add: plain_value_def is_solid_def NL_def)+

lemma accounts_text:
  assumes "\<forall>a \<in> set as. pid_wf a \<and> 0 < pid_slot a" "as \<noteq> []"
  shows "QUOTE \<notin> set (join (CHR '','') (map pid_key as))" "join (CHR '','') (map pid_key as) \<noteq> []"
    "NL \<notin> set (join (CHR '','') (map pid_key as))"
    "str_split (CHR '','') (join (CHR '','') (map pid_key as)) = map pid_key as"
proof -
  have c: "c \<notin> set (pid_key a)" if "c = QUOTE \<or> c = NL \<or> c = CHR '',''" for a c
  proof -
    have "c \<notin> set (kind_key (pid_kind a))" using that by (cases "pid_kind a") (auto simp: QUOTE_def NL_def)
    moreover have "c \<notin> set (show_nat (pid_slot a))"
      using show_nat_digits [of c "pid_slot a"] that by (auto simp: is_digit_def)
    ultimately show ?thesis using that by (auto simp: pid_key_def QUOTE_def NL_def)
  qed
  show "QUOTE \<notin> set (join (CHR '','') (map pid_key as))" "NL \<notin> set (join (CHR '','') (map pid_key as))"
    using set_join [of "CHR '',''" "map pid_key as"] c by (auto simp: QUOTE_def NL_def)
  show "join (CHR '','') (map pid_key as) \<noteq> []"
    using assms(2) pid_key_solid(2) by (cases as; cases "tl as") auto
  show "str_split (CHR '','') (join (CHR '','') (map pid_key as)) = map pid_key as"
    using assms(2) c by (intro str_split_join) auto
qed

lemma add_names:
  "distinct (bs @ as) \<Longrightarrow> \<forall>a \<in> set as. pid_wf a \<and> 0 < pid_slot a \<Longrightarrow> foldl add_account_name bs (map pid_key as) = bs @ as"
proof (induction as arbitrary: bs)
  case (Cons a as)
  have "trim (pid_key a) = pid_key a"
    using pid_key_solid(1) [OF list.set_sel(1)] pid_key_solid(1) [OF last_in_set] pid_key_solid(2)
    by (intro trim_solid(1)) blast+
  with Cons.prems have "add_account_name bs (pid_key a) = bs @ [a]"
    by (simp add: add_account_name_def pid_key_roundtrip)
  with Cons.IH [of "bs @ [a]"] Cons.prems show ?case by simp
qed simp

lemma plain_entries_simps [simp]:
  "plain_entries []" "plain_entries (e # es) \<longleftrightarrow> plain_key (fst e) \<and> plain_value (snd e) \<and> plain_entries es"
  "plain_entries (es @ es') \<longleftrightarrow> plain_entries es \<and> plain_entries es'"
  by (auto simp: plain_entries_def)

lemma plain_settings_entries:
  assumes "settings_ok s"
  shows "plain_entries (settings_entries s)"
proof -
  have w: "plain_entries (case se_whatsapp_helper s of None \<Rightarrow> [] | Some p \<Rightarrow> [(WHATSAPP_HELPER_KEY, quoted (escape_toml p))])"
    using assms escape_no_break by (auto simp: settings_ok_def plain_quoted split: option.split)
  have g: "plain_entries (case se_signal_helper s of None \<Rightarrow> [] | Some p \<Rightarrow> [(SIGNAL_HELPER_KEY, quoted (escape_toml p))])"
    using assms escape_no_break by (auto simp: settings_ok_def plain_quoted split: option.split)
  have a: "plain_entries (if se_extra_accounts s \<noteq> []
      then [(ACCOUNTS_KEY, quoted (join (CHR '','') (map pid_key (se_extra_accounts s))))] else [])"
    using assms accounts_text(3) by (auto simp: settings_ok_def plain_quoted)
  show ?thesis unfolding settings_entries_def using w g a by (simp add: plain_show_nat)
qed

lemma keys_differ [simp]:
  "ACCOUNTS_KEY = ''accounts''" "RAIL_COLLAPSED_KEY = ''rail_collapsed''" "WHATSAPP_HELPER_KEY = ''whatsapp_helper''"
  "SIGNAL_HELPER_KEY = ''signal_helper''" "SIGNAL_NOTICE_VERSION_KEY = ''signal_notice_version''"
  "WHATSAPP_GATE_VERSION_KEY = ''whatsapp_gate_version''"
  by (simp_all add: ACCOUNTS_KEY_def RAIL_COLLAPSED_KEY_def WHATSAPP_HELPER_KEY_def SIGNAL_HELPER_KEY_def
      SIGNAL_NOTICE_VERSION_KEY_def WHATSAPP_GATE_VERSION_KEY_def)

lemma find_map_append: "find_map f (xs @ ys) = (case find_map f xs of Some y \<Rightarrow> Some y | None \<Rightarrow> find_map f ys)"
  by (induction xs) (auto split: option.split)

lemma readers_settings:
  assumes "settings_ok s"
  shows "Option.bind (Some (render_settings s)) (\<lambda>contents.
      find_map (\<lambda>line. case key_value line of None \<Rightarrow> None | Some (key, val) \<Rightarrow> f key val) (str_lines contents)) =
    find_map (\<lambda>(key, val). f key (CHR '' '' # val)) (settings_entries s)"
  using find_map_entries [OF plain_settings_entries [OF assms]]
  by (simp add: str_lines_settings [OF plain_settings_entries [OF assms]] header_line)

lemma spaced:
  "plain_value v \<Longrightarrow> trim (CHR '' '' # v) = v"
  using plain_key_line(2) [of "''theme''" v] by simp

lemma find_map_option:
  "find_map f (case x of None \<Rightarrow> [] | Some y \<Rightarrow> [g y]) = (case x of None \<Rightarrow> None | Some y \<Rightarrow> f (g y))"
  "find_map f (if b then [e] else []) = (if b then f e else None)"
  by (auto split: option.split)

lemma bool_value:
  "(if trim (CHR '' '' # show_bool b) = ''true'' then Some True
    else if trim (CHR '' '' # show_bool b) = ''false'' then Some False else None) = Some b"
  "trim (CHR '' '' # ''true'') = ''true''"
  unfolding spaced [OF plain_words(1)] spaced [OF plain_words(3)] by (cases b) simp_all

lemma read_bools:
  assumes "settings_ok s"
  shows "read_bool (Some (render_settings s)) ''notifications'' = Some (se_notifications s)"
    "read_bool (Some (render_settings s)) ''notification_preview'' = Some (se_notification_preview s)"
    "read_bool (Some (render_settings s)) RAIL_COLLAPSED_KEY = (if se_rail_collapsed s then Some True else None)"
  unfolding read_bool_def readers_settings [OF assms] settings_entries_def find_map_append find_map_option
  by (simp_all add: bool_value split: option.split)

lemma read_versions:
  assumes "settings_ok s"
  shows "read_u64 (Some (render_settings s)) SIGNAL_NOTICE_VERSION_KEY =
      (if se_signal_notice_version s \<noteq> 0 then Some (se_signal_notice_version s) else None)"
    "read_u64 (Some (render_settings s)) WHATSAPP_GATE_VERSION_KEY =
      (if se_whatsapp_gate_version s \<noteq> 0 then Some (se_whatsapp_gate_version s) else None)"
  unfolding read_u64_def readers_settings [OF assms] settings_entries_def find_map_append find_map_option
  using assms by (simp_all add: settings_ok_def spaced plain_show_nat parse_u64_show split: option.split)

lemma read_paths:
  assumes "settings_ok s"
  shows "read_path (Some (render_settings s)) WHATSAPP_HELPER_KEY = se_whatsapp_helper s"
    "read_path (Some (render_settings s)) SIGNAL_HELPER_KEY = se_signal_helper s"
  unfolding read_path_def readers_settings [OF assms] settings_entries_def find_map_append find_map_option
  using assms by (simp_all add: settings_ok_def path_text_quoted split: option.split)

lemma read_accounts_settings:
  assumes "settings_ok s"
  shows "read_accounts (Some (render_settings s)) = se_extra_accounts s"
proof -
  let ?as = "se_extra_accounts s"
  have as: "\<forall>a \<in> set ?as. pid_wf a \<and> 0 < pid_slot a" "distinct ?as" using assms by (simp_all add: settings_ok_def)
  have "find_map (\<lambda>line. case key_value line of None \<Rightarrow> None
        | Some (key, val) \<Rightarrow> if key = ACCOUNTS_KEY then Some (trim_matches QUOTE (trim val)) else None)
      (str_lines (render_settings s)) =
    (if ?as \<noteq> [] then Some (trim_matches QUOTE (trim (CHR '' '' # quoted (join (CHR '','') (map pid_key ?as))))) else None)"
    using readers_settings [OF assms, of "\<lambda>key val. if key = ACCOUNTS_KEY then Some (trim_matches QUOTE (trim val)) else None"]
    unfolding settings_entries_def find_map_append find_map_option by (simp split: option.split)
  moreover have "trim_matches QUOTE (trim (CHR '' '' # quoted (join (CHR '','') (map pid_key ?as)))) =
      join (CHR '','') (map pid_key ?as)" if "?as \<noteq> []"
    using accounts_text [OF as(1) that] spaced [OF plain_quoted] trim_matches_quoted by (simp add: quoted_def)
  ultimately show ?thesis
    using as accounts_text(4) [OF as(1)] add_names [of "[]" ?as] by (auto simp: read_accounts_def)
qed

lemma read_theme_settings:
  assumes "settings_ok s"
  shows "read_theme (Some (render_settings s)) = Some (se_theme s)"
proof -
  have "theme_parse (CHR '' '' # theme_as_str t) = Some t" for t
    unfolding theme_parse_def spaced [OF plain_words(2)]
    by (cases t) (simp_all add: trim_matches_none QUOTE_def ascii_lower_def)
  then show ?thesis
    using plain_key_line [of "''theme''" "theme_as_str (se_theme s)"]
    by (simp add: read_theme_def str_lines_settings [OF plain_settings_entries [OF assms]] header_line Let_def
        settings_entries_def)
qed

text \<open>What is written to \<open>settings.toml\<close> is read back: any character in a path but a line feed.\<close>

lemma load_rendered:
  assumes "settings_ok s"
  shows "settings_load_from path (Some (render_settings s)) =
    s\<lparr>se_path := path, se_persist_pending := False, se_persist_epoch := 0, se_latest_persist := 0,
      se_in_memory := False, se_mutes := mutes_in_memory\<rparr>"
  using read_bools [OF assms] read_versions [OF assms] read_paths [OF assms]
  by (simp add: settings_load_from_def read_accounts_settings [OF assms] read_theme_settings [OF assms])

section \<open>The invariant of the settings\<close>

lemma set_strip_cr: "set (strip_cr s) \<subseteq> set s"
  by (auto simp: strip_cr_def dest: in_set_butlastD)

lemma str_lines_no_break: "l \<in> set (str_lines s) \<Longrightarrow> NL \<notin> set l"
proof (induction s rule: str_lines.induct)
  case (1 s)
  show ?case
  proof (cases "s = [] \<or> split_once NL s = None")
    case True
    then have "str_lines s = (if s = [] then [] else [s])" by (subst str_lines.simps) auto
    with 1(2) True show ?thesis by (auto simp: split_once_None split: if_splits)
  next
    case False
    then obtain a b where s: "s \<noteq> []" "split_once NL s = Some (a, b)" by auto
    then have "str_lines s = strip_cr a # str_lines b" by (subst str_lines.simps) simp
    moreover have "NL \<notin> set (strip_cr a)" using split_once_Some [OF s(2)] set_strip_cr [of a] by blast
    moreover have "NL \<notin> set l" if "l \<in> set (str_lines b)" using 1(1) [OF s refl that] .
    ultimately show ?thesis using 1(2) by auto
  qed
qed

lemma find_map_Some: "find_map f xs = Some y \<Longrightarrow> \<exists>x \<in> set xs. f x = Some y"
  by (induction xs) (auto split: option.splits)

lemma key_value_chars: "key_value line = Some (k, v) \<Longrightarrow> set v \<subseteq> set line"
  using set_trim [of line] by (auto simp: key_value_def dest!: split_once_Some)

lemma path_text_chars: "path_text v = Some p \<Longrightarrow> p \<noteq> [] \<and> set p \<subseteq> set v"
  using set_trim [of v] set_unescape
  by (fastforce simp: path_text_def Let_def strip_prefix_char_def strip_suffix_char_def
      split: option.splits if_splits list.splits Option.bind_splits dest: in_set_butlastD)

lemma read_path_plain: "read_path file wanted = Some p \<Longrightarrow> p \<noteq> [] \<and> NL \<notin> set p"
  by (fastforce simp: read_path_def bind_eq_Some_conv split: option.splits prod.splits if_splits
      dest!: find_map_Some path_text_chars key_value_chars str_lines_no_break)

lemma parse_u64_bound: "parse_u64 s = Some n \<Longrightarrow> n < 2 ^ 64"
  unfolding parse_u64_def Let_def by (auto split: if_splits option.splits simp del: parse_digits.simps)

lemma read_u64_bound: "read_u64 file wanted = Some n \<Longrightarrow> n < 2 ^ 64"
proof -
  assume "read_u64 file wanted = Some n"
  then obtain contents where "find_map (\<lambda>line. case key_value line of None \<Rightarrow> None
      | Some (key, val) \<Rightarrow> if key \<noteq> wanted then None else parse_u64 (trim val)) (str_lines contents) = Some n"
    unfolding read_u64_def by (cases "file") auto
  from find_map_Some [OF this] obtain val where "parse_u64 (trim val) = Some n"
    by (auto split: option.splits prod.splits if_splits)
  then show ?thesis by (rule parse_u64_bound)
qed

lemma add_account_name_ok:
  "distinct bs \<and> (\<forall>a \<in> set bs. pid_wf a \<and> 0 < pid_slot a) \<Longrightarrow>
   distinct (foldl add_account_name bs names) \<and> (\<forall>a \<in> set (foldl add_account_name bs names). pid_wf a \<and> 0 < pid_slot a)"
proof (induction names arbitrary: bs)
  case (Cons name names)
  have "distinct (add_account_name bs name) \<and> (\<forall>a \<in> set (add_account_name bs name). pid_wf a \<and> 0 < pid_slot a)"
  proof (cases "from_key (trim name)")
    case None
    with Cons.prems show ?thesis by (simp add: add_account_name_def)
  next
    case (Some p)
    with Cons.prems from_key_wf [OF Some] show ?thesis by (simp add: add_account_name_def)
  qed
  from Cons.IH [OF this] show ?case by simp
qed simp

lemma read_accounts_ok: "distinct (read_accounts file) \<and> (\<forall>a \<in> set (read_accounts file). pid_wf a \<and> 0 < pid_slot a)"
  using add_account_name_ok [of "[]"] by (simp add: read_accounts_def split: option.split)

lemma load_ok: "settings_ok (settings_load_from path file)"
  using read_accounts_ok [of "file"] read_path_plain [of "file"] read_u64_bound [of "file"]
  by (auto simp: settings_ok_def settings_load_from_def split: option.split)

text \<open>What the app does with the settings between two writes; the muted chats have their own file.\<close>

datatype settings_op =
    SetTheme theme_mode
  | SetNotifications bool
  | SetPreview bool
  | SetRail bool
  | SetSignalNotice u64
  | SetWhatsAppGate u64
  | AddAccount protocol_id
  | RemoveAccount protocol_id
  | SetChatMuted protocol_id string bool
  | ForgetMutes protocol_id
  | TakeMutes

fun settings_apply :: "settings_op \<Rightarrow> settings \<Rightarrow> settings" where
  "settings_apply (SetTheme t) s = set_theme t s"
| "settings_apply (SetNotifications b) s = set_notifications b s"
| "settings_apply (SetPreview b) s = set_notification_preview b s"
| "settings_apply (SetRail b) s = set_rail_collapsed b s"
| "settings_apply (SetSignalNotice n) s = set_signal_notice_version n s"
| "settings_apply (SetWhatsAppGate n) s = set_whatsapp_gate_version n s"
| "settings_apply (AddAccount a) s = add_extra_account a s"
| "settings_apply (RemoveAccount a) s = remove_extra_account a s"
| "settings_apply (SetChatMuted p i m) s = snd (set_chat_muted p i m s)"
| "settings_apply (ForgetMutes p) s = forget_chat_mutes p s"
| "settings_apply TakeMutes s = snd (take_mutes_job s)"

fun op_ok :: "settings_op \<Rightarrow> bool" where
  "op_ok (SetSignalNotice n) \<longleftrightarrow> n < 2 ^ 64"
| "op_ok (SetWhatsAppGate n) \<longleftrightarrow> n < 2 ^ 64"
| "op_ok (AddAccount a) \<longleftrightarrow> pid_wf a"
| "op_ok _ \<longleftrightarrow> True"

lemmas settings_ops = set_theme_def set_notifications_def set_notification_preview_def set_rail_collapsed_def
  set_signal_notice_version_def set_whatsapp_gate_version_def add_extra_account_def remove_extra_account_def
  set_chat_muted_def forget_chat_mutes_def take_mutes_job_def

lemma settings_apply_ok: "settings_ok s \<Longrightarrow> op_ok oper \<Longrightarrow> settings_ok (settings_apply oper s)"
  by (cases oper) (auto simp: settings_ops settings_ok_def Let_def split: prod.split)

inductive settings_change :: "settings \<Rightarrow> settings \<Rightarrow> bool" where
  "op_ok oper \<Longrightarrow> settings_change s (settings_apply oper s)"

lemma render_same:
  "se_theme s' = se_theme s \<Longrightarrow> se_notifications s' = se_notifications s \<Longrightarrow>
   se_notification_preview s' = se_notification_preview s \<Longrightarrow> se_rail_collapsed s' = se_rail_collapsed s \<Longrightarrow>
   se_whatsapp_helper s' = se_whatsapp_helper s \<Longrightarrow> se_signal_helper s' = se_signal_helper s \<Longrightarrow>
   se_signal_notice_version s' = se_signal_notice_version s \<Longrightarrow> se_whatsapp_gate_version s' = se_whatsapp_gate_version s \<Longrightarrow>
   se_extra_accounts s' = se_extra_accounts s \<Longrightarrow> render_settings s' = render_settings s"
  by (simp add: render_settings_def)

lemma render_update [simp]:
  "render_settings (s\<lparr>se_persist_pending := b\<rparr>) = render_settings s"
  "render_settings (s\<lparr>se_persist_epoch := n\<rparr>) = render_settings s"
  "render_settings (s\<lparr>se_latest_persist := n\<rparr>) = render_settings s"
  by (rule render_same; simp)+

lemma filter_same: "length (filter P xs) = length xs \<Longrightarrow> filter P xs = xs"
  by (metis filter_True length_filter_less less_irrefl)

lemma settings_apply_fields:
  "se_persist_epoch (settings_apply oper s) = se_persist_epoch s" "se_in_memory (settings_apply oper s) = se_in_memory s"
  by (cases oper; simp add: settings_ops Let_def case_prod_unfold)+

lemma settings_apply_wants:
  "se_persist_pending (settings_apply oper s) \<or> render_settings (settings_apply oper s) = render_settings s \<and> \<not> se_persist_pending s"
  by (cases oper) (auto simp: settings_ops Let_def filter_same intro!: render_same split: prod.split)

interpretation settings_file: write_queue settings_take_persist_job render_settings se_persist_pending se_persist_epoch
  "\<lambda>s. \<not> se_in_memory s" settings_change
proof unfold_locales
  fix s s'
  assume "settings_change s s'"
  then obtain oper where s': "s' = settings_apply oper s" by (auto elim: settings_change.cases)
  show "se_persist_epoch s' = se_persist_epoch s" "(\<not> se_in_memory s') = (\<not> se_in_memory s)"
    by (simp_all add: s' settings_apply_fields)
  show "se_persist_pending s' \<or> render_settings s' = render_settings s \<and> \<not> se_persist_pending s"
    unfolding s' by (rule settings_apply_wants)
next
  fix s s' job
  assume "settings_take_persist_job s = (Some job, s')"
  then show "pj_contents job = render_settings s \<and> pj_epoch job = se_persist_epoch s + 1 \<and>
      se_persist_epoch s' = se_persist_epoch s + 1 \<and> \<not> se_persist_pending s' \<and>
      render_settings s' = render_settings s \<and> \<not> se_in_memory s \<and> \<not> se_in_memory s'"
    by (cases "\<not> se_persist_pending s \<or> se_in_memory s") (auto simp: settings_take_persist_job_def Let_def)
next
  fix s s'
  assume "settings_take_persist_job s = (None, s')"
  then show "\<not> (se_persist_pending s \<and> \<not> se_in_memory s) \<and> se_persist_epoch s' = se_persist_epoch s \<and>
      render_settings s' = render_settings s \<and> (\<not> se_in_memory s') = (\<not> se_in_memory s)"
    by (cases "\<not> se_persist_pending s \<or> se_in_memory s") (auto simp: settings_take_persist_job_def Let_def)
qed

lemma settings_ok_update [simp]:
  "settings_ok (s\<lparr>se_persist_pending := b\<rparr>) = settings_ok s" "settings_ok (s\<lparr>se_persist_epoch := n\<rparr>) = settings_ok s"
  "settings_ok (s\<lparr>se_latest_persist := n\<rparr>) = settings_ok s"
  by (cases s; simp only: settings_ok_def settings.simps)+

lemma settings_take_ok: "settings_take_persist_job s = (job, s') \<Longrightarrow> settings_ok s' = settings_ok s"
proof -
  assume "settings_take_persist_job s = (job, s')"
  then have "s' = snd (settings_take_persist_job s)" by simp
  then show ?thesis by (simp add: settings_take_persist_job_def Let_def)
qed

lemma settings_run_ok: "settings_file.file_run s0 disk s w \<Longrightarrow> settings_ok s0 \<Longrightarrow> settings_ok s"
proof (induction rule: settings_file.file_run.induct)
  case (changes s w s')
  then show ?case by (auto elim: settings_change.cases intro: settings_apply_ok)
qed (simp_all add: settings_take_ok)

section \<open>Properties\<close>


text \<open>C37: Whatever the file of the settings holds, the settings loaded from it are well-formed: the extra
  accounts are distinct valid accounts after account 0, the versions fit in 64 bits, and a helper path
  is one line and not empty.\<close>

theorem settings_well_formed:
  "settings_ok (settings_load_from path file)"
  by (rule load_ok)


end
