(* ===== verification/Secrets.thy ===== *)
theory Secrets
  imports Texts
begin

text \<open>
  The secret store (\<open>crates/thinwire-core/src/secrets.rs\<close>) with the keys of
  \<open>crates/thinwire-protocol/src/secrets.rs\<close> and \<open>slack/secrets.rs\<close>: values live in memory, a worker
  reads the OS keychain once (attach) and workers write it back (flush). Every operation of the store
  runs under one lock, so it is one function of the store; a thread is a list of points between these
  operations, and the threads interleave in any order. The keychain is a map from entry names to
  texts; which of its calls fail is an input. A poisoned lock does not occur. A hook is a number, and
  running it is returning the number.
\<close>

section \<open>Keys\<close>

datatype secret_key = KeyApiId | KeyApiHash | KeyPhone | KeyCode | KeyPassword | KeySession | KeyDbEncryption

definition PERSISTENT :: "secret_key list" where
  "PERSISTENT = [KeyApiId, KeyApiHash, KeySession, KeyDbEncryption]"

definition EPHEMERAL :: "secret_key list" where
  "EPHEMERAL = [KeyPhone, KeyCode, KeyPassword]"

fun key_account :: "secret_key \<Rightarrow> string" where
  "key_account KeyApiId = ''telegram.api_id''"
| "key_account KeyApiHash = ''telegram.api_hash''"
| "key_account KeySession = ''telegram.session''"
| "key_account KeyDbEncryption = ''telegram.db_key''"
| "key_account KeyPhone = ''telegram.phone''"
| "key_account KeyCode = ''telegram.code''"
| "key_account KeyPassword = ''telegram.password''"

datatype slack_secret_key =
  SlackClientId | SlackClientSecret | SlackAppToken | SlackBotToken | SlackTeamId | SlackAppId
| SlackOAuthCode | SlackOAuthState

definition SLACK_PERSISTENT :: "slack_secret_key list" where
  "SLACK_PERSISTENT = [SlackClientId, SlackClientSecret, SlackAppToken, SlackBotToken, SlackTeamId, SlackAppId]"

fun slack_key_account :: "slack_secret_key \<Rightarrow> string" where
  "slack_key_account SlackClientId = ''slack.client_id''"
| "slack_key_account SlackClientSecret = ''slack.client_secret''"
| "slack_key_account SlackAppToken = ''slack.app_token''"
| "slack_key_account SlackBotToken = ''slack.bot_token''"
| "slack_key_account SlackTeamId = ''slack.team_id''"
| "slack_key_account SlackAppId = ''slack.app_id''"
| "slack_key_account SlackOAuthCode = ''slack.oauth_code''"
| "slack_key_account SlackOAuthState = ''slack.oauth_state''"

definition slack_persist_to_os :: "slack_secret_key \<Rightarrow> bool" where
  "slack_persist_to_os k \<longleftrightarrow>
     k \<in> {SlackClientId, SlackClientSecret, SlackAppToken, SlackBotToken, SlackTeamId, SlackAppId}"

definition DISCORD_SECRET_BOT_TOKEN :: string where
  "DISCORD_SECRET_BOT_TOKEN = ''discord.bot_token''"

text \<open>The keychain name of a value of account \<open>scope\<close>.\<close>

definition scoped_name :: "nat \<Rightarrow> string \<Rightarrow> bool \<Rightarrow> string" where
  "scoped_name scope name shared =
     (if scope = 0 \<or> shared then name else name @ ''#'' @ show_nat scope)"

definition os_entry :: "nat \<Rightarrow> secret_key \<Rightarrow> string" where
  "os_entry scope key = scoped_name scope (key_account key) (key \<in> {KeyApiId, KeyApiHash})"

definition discord_os_entry :: "nat \<Rightarrow> string" where
  "discord_os_entry scope = scoped_name scope DISCORD_SECRET_BOT_TOKEN False"

definition slack_os_entry :: "nat \<Rightarrow> slack_secret_key \<Rightarrow> string" where
  "slack_os_entry scope key =
     scoped_name scope (slack_key_account key) (key \<in> {SlackClientId, SlackClientSecret, SlackAppToken})"

section \<open>The store\<close>

datatype os_backend = SecretService | KernelKeyring | NativeStore

definition survives_restart :: "os_backend \<Rightarrow> bool" where
  "survives_restart b \<longleftrightarrow> b \<noteq> KernelKeyring"

datatype persistence = LoadingStore | Saved | UntilRestart | ThisSession

datatype attach_phase = Detached | Attaching | PhReady | MemoryOnly | ReadFailed

datatype hydrate = HydrateWaiting "nat option" | HydrateSettled bool

record secret_store =
  ss_scope :: nat
  ss_values :: "(secret_key \<times> string) list"
  ss_dirty :: "secret_key set"
  ss_discord_token :: "string option"
  ss_discord_dirty :: bool
  ss_slack :: "(slack_secret_key \<times> string) list"
  ss_slack_dirty :: "slack_secret_key list"
  ss_flush_pending :: bool
  ss_flush_in_flight :: bool
  ss_phase :: attach_phase
  ss_os_backend :: "os_backend option"
  ss_discord_hydrate :: hydrate
  ss_slack_hydrate :: hydrate
  ss_reports_saved :: bool
  ss_no_os :: bool

definition scoped_blank :: "attach_phase \<Rightarrow> nat \<Rightarrow> secret_store" where
  "scoped_blank phase scope =
     (let waiting = (if phase = MemoryOnly then HydrateSettled False else HydrateWaiting None)
      in \<lparr>ss_scope = scope, ss_values = [], ss_dirty = {}, ss_discord_token = None, ss_discord_dirty = False,
          ss_slack = [], ss_slack_dirty = [], ss_flush_pending = False, ss_flush_in_flight = False,
          ss_phase = phase, ss_os_backend = None, ss_discord_hydrate = waiting, ss_slack_hydrate = waiting,
          ss_reports_saved = False, ss_no_os = False\<rparr>)"

definition demo_saved :: secret_store where
  "demo_saved = (scoped_blank MemoryOnly 0)\<lparr>ss_reports_saved := True, ss_no_os := True\<rparr>"

definition demo_read_failed :: secret_store where
  "demo_read_failed = (scoped_blank ReadFailed 0)\<lparr>ss_no_os := True\<rparr>"

definition attach_settled :: "secret_store \<Rightarrow> bool" where
  "attach_settled s \<longleftrightarrow> ss_phase s \<in> {PhReady, MemoryOnly}"

definition read_failed :: "secret_store \<Rightarrow> bool" where
  "read_failed s \<longleftrightarrow> ss_phase s = ReadFailed"

definition persistence :: "secret_store \<Rightarrow> persistence" where
  "persistence s =
     (if ss_reports_saved s then Saved
      else case ss_phase s of
          MemoryOnly \<Rightarrow> ThisSession
        | PhReady \<Rightarrow>
            (case ss_os_backend s of
               Some b \<Rightarrow> if \<not> survives_restart b then UntilRestart else Saved
             | None \<Rightarrow> Saved)
        | _ \<Rightarrow> LoadingStore)"

definition persists :: "secret_store \<Rightarrow> bool" where
  "persists s \<longleftrightarrow> persistence s \<noteq> ThisSession"

definition tdlib_folder_name :: "secret_store \<Rightarrow> string" where
  "tdlib_folder_name s =
     (let base = (if ss_os_backend s = Some KernelKeyring then ''tdlib-keyutils'' else ''tdlib'')
      in if ss_scope s = 0 then base else base @ ''-'' @ show_nat (ss_scope s))"

section \<open>Reads and writes of the frontend\<close>

text \<open>A value is trimmed; an empty one is no value.\<close>

definition put_trimmed :: "'k \<Rightarrow> string \<Rightarrow> ('k \<times> string) list \<Rightarrow> ('k \<times> string) list" where
  "put_trimmed key v m = (if trim v = [] then hm_remove key m else hm_insert key (trim v) m)"

definition trimmed :: "string \<Rightarrow> string option" where
  "trimmed v = (if trim v = [] then None else Some (trim v))"

definition secret_get :: "secret_key \<Rightarrow> secret_store \<Rightarrow> string option" where
  "secret_get key s = hm_get (ss_values s) key"

definition secret_set :: "secret_key \<Rightarrow> string \<Rightarrow> secret_store \<Rightarrow> secret_store" where
  "secret_set key v s =
     s\<lparr>ss_values := put_trimmed key v (ss_values s), ss_dirty := insert key (ss_dirty s)\<rparr>"

definition set_discord_bot_token :: "string \<Rightarrow> secret_store \<Rightarrow> secret_store" where
  "set_discord_bot_token v s = s\<lparr>ss_discord_token := trimmed v, ss_discord_dirty := True\<rparr>"

definition slack_get :: "slack_secret_key \<Rightarrow> secret_store \<Rightarrow> string option" where
  "slack_get key s = hm_get (ss_slack s) key"

definition slack_set :: "slack_secret_key \<Rightarrow> string \<Rightarrow> secret_store \<Rightarrow> secret_store" where
  "slack_set key v s =
     s\<lparr>ss_slack := put_trimmed key v (ss_slack s),
       ss_slack_dirty := (if slack_persist_to_os key then List.insert key (ss_slack_dirty s) else ss_slack_dirty s)\<rparr>"

text \<open>A hook that waits for a hydrated token: whether it runs now, and the store.\<close>

definition on_discord_token_hydrated :: "nat \<Rightarrow> secret_store \<Rightarrow> bool \<times> secret_store" where
  "on_discord_token_hydrated hook s =
     (case ss_discord_hydrate s of
        HydrateWaiting _ \<Rightarrow> (False, s\<lparr>ss_discord_hydrate := HydrateWaiting (Some hook)\<rparr>)
      | HydrateSettled tell \<Rightarrow> (tell \<and> ss_discord_token s \<noteq> None, s))"

definition on_slack_token_hydrated :: "nat \<Rightarrow> secret_store \<Rightarrow> bool \<times> secret_store" where
  "on_slack_token_hydrated hook s =
     (case ss_slack_hydrate s of
        HydrateWaiting _ \<Rightarrow> (False, s\<lparr>ss_slack_hydrate := HydrateWaiting (Some hook)\<rparr>)
      | HydrateSettled tell \<Rightarrow> (tell \<and> slack_get SlackBotToken s \<noteq> None, s))"

section \<open>Telegram credentials\<close>

text \<open>\<open>thinwire-protocol/src/telegram/credentials.rs\<close>: the override of the keychain, then the pair
  of the publisher that the build has.\<close>

datatype telegram_api_origin = KeychainOverride | PublisherInject

record telegram_api_source =
  ts_publisher_id :: "string option"
  ts_publisher_hash :: "string option"

definition has_publisher :: "telegram_api_source \<Rightarrow> bool" where
  "has_publisher source \<longleftrightarrow> ts_publisher_id source \<noteq> None \<and> ts_publisher_hash source \<noteq> None"

definition publisher_pair :: "telegram_api_source \<Rightarrow> (string \<times> string) option" where
  "publisher_pair source =
     (case (ts_publisher_id source, ts_publisher_hash source) of
        (Some i, Some h) \<Rightarrow> Some (i, h) | _ \<Rightarrow> None)"

definition resolve_telegram_api ::
    "secret_store \<Rightarrow> telegram_api_source \<Rightarrow> (string \<times> string \<times> telegram_api_origin) option" where
  "resolve_telegram_api vault source =
     (let publisher = map_option (\<lambda>(i, h). (i, h, PublisherInject)) (publisher_pair source)
      in case (secret_get KeyApiId vault, secret_get KeyApiHash vault) of
           (Some i, Some h) \<Rightarrow> if i \<noteq> [] \<and> h \<noteq> [] then Some (i, h, KeychainOverride) else publisher
         | _ \<Rightarrow> publisher)"

definition telegram_api_available :: "secret_store \<Rightarrow> telegram_api_source \<Rightarrow> bool" where
  "telegram_api_available vault source \<longleftrightarrow> resolve_telegram_api vault source \<noteq> None"

section \<open>Attach\<close>

definition leave_read_failed :: "secret_store \<Rightarrow> secret_store" where
  "leave_read_failed s =
     (if ss_phase s = ReadFailed \<and> \<not> ss_no_os s then s\<lparr>ss_phase := Attaching\<rparr> else s)"

text \<open>The start of \<open>attach_os_keychain\<close>: whether it goes on.\<close>

definition begin_attach :: "secret_store \<Rightarrow> bool \<times> secret_store" where
  "begin_attach s =
     (if ss_no_os s \<or> ss_phase s \<in> {PhReady, MemoryOnly} then (False, s)
      else (True, s\<lparr>ss_phase := Attaching\<rparr>))"

definition finish_read_failed :: "secret_store \<Rightarrow> secret_store" where
  "finish_read_failed s = s\<lparr>ss_phase := ReadFailed\<rparr>"

definition finish_memory_only :: "secret_store \<Rightarrow> secret_store" where
  "finish_memory_only s = s\<lparr>ss_phase := MemoryOnly, ss_flush_pending := False, ss_flush_in_flight := False\<rparr>"

text \<open>The values of the keychain; a key that the frontend wrote keeps its value.\<close>

definition merge_os :: "secret_key set \<Rightarrow> (secret_key \<times> string) list \<Rightarrow> (secret_key \<times> string) list \<Rightarrow> (secret_key \<times> string) list" where
  "merge_os dirty os_values m =
     foldl (\<lambda>m (key, v). if key \<in> dirty then m else put_trimmed key v m) m os_values"

definition finish_ready :: "(secret_key \<times> string) list \<Rightarrow> os_backend option \<Rightarrow> secret_store \<Rightarrow> bool \<times> secret_store" where
  "finish_ready os_values backend s =
     (let should_flush = (ss_flush_pending s \<or> ss_dirty s \<noteq> {} \<or> ss_discord_dirty s \<or> ss_slack_dirty s \<noteq> [])
      in (should_flush,
          s\<lparr>ss_os_backend := (if backend \<noteq> None then backend else ss_os_backend s),
            ss_values := merge_os (ss_dirty s) os_values (ss_values s),
            ss_phase := PhReady, ss_flush_pending := False, ss_dirty := {},
            ss_flush_in_flight := (should_flush \<or> ss_flush_in_flight s)\<rparr>))"

text \<open>\<open>None\<close> is a read that failed.\<close>

definition settle_after_probe :: "os_backend \<Rightarrow> (secret_key \<times> string) list option \<Rightarrow> secret_store \<Rightarrow> bool \<times> secret_store" where
  "settle_after_probe backend telegram s =
     (case telegram of
        None \<Rightarrow> (False, finish_read_failed s)
      | Some os_values \<Rightarrow> finish_ready os_values (Some backend) s)"

definition store_hydrated_discord_token :: "string option option \<Rightarrow> secret_store \<Rightarrow> secret_store" where
  "store_hydrated_discord_token found s =
     (if ss_discord_dirty s then s
      else case found of
          Some (Some raw) \<Rightarrow> s\<lparr>ss_discord_token := trimmed raw\<rparr>
        | _ \<Rightarrow> s)"

definition store_hydrated_slack :: "(slack_secret_key \<times> string) list option \<Rightarrow> secret_store \<Rightarrow> secret_store" where
  "store_hydrated_slack found s =
     (case found of
        None \<Rightarrow> s
      | Some pairs \<Rightarrow>
          s\<lparr>ss_slack := foldl (\<lambda>m (key, raw). if key \<in> set (ss_slack_dirty s) then m else put_trimmed key raw m)
                          (ss_slack s) pairs\<rparr>)"

definition signal_discord_hydrated :: "secret_store \<Rightarrow> nat option \<times> secret_store" where
  "signal_discord_hydrated s =
     (case ss_discord_hydrate s of
        HydrateSettled _ \<Rightarrow> (None, s)
      | HydrateWaiting hook \<Rightarrow>
          let present = (ss_discord_token s \<noteq> None)
          in (if present then hook else None, s\<lparr>ss_discord_hydrate := HydrateSettled present\<rparr>))"

definition signal_slack_hydrated :: "secret_store \<Rightarrow> nat option \<times> secret_store" where
  "signal_slack_hydrated s =
     (case ss_slack_hydrate s of
        HydrateSettled _ \<Rightarrow> (None, s)
      | HydrateWaiting hook \<Rightarrow>
          let present = (slack_get SlackBotToken s \<noteq> None)
          in (if present then hook else None, s\<lparr>ss_slack_hydrate := HydrateSettled present\<rparr>))"

section \<open>Flush\<close>

datatype flush_action = FlushSpawn | FlushDefer | FlushIgnore

definition request_flush :: "secret_store \<Rightarrow> flush_action \<times> secret_store" where
  "request_flush s =
     (case ss_phase s of
        PhReady \<Rightarrow>
          if ss_flush_in_flight s then (FlushDefer, s\<lparr>ss_flush_pending := True\<rparr>)
          else (FlushSpawn, s\<lparr>ss_flush_in_flight := True\<rparr>)
      | MemoryOnly \<Rightarrow> (FlushIgnore, s)
      | _ \<Rightarrow> (FlushDefer, s\<lparr>ss_flush_pending := True\<rparr>))"

type_synonym flush_snapshot = "(secret_key \<times> string option) list"

definition take_flush_snapshot :: "secret_store \<Rightarrow> flush_snapshot option \<times> secret_store" where
  "take_flush_snapshot s =
     (if ss_phase s \<noteq> PhReady then (None, s\<lparr>ss_flush_in_flight := False, ss_flush_pending := False\<rparr>)
      else (Some (map (\<lambda>key. (key, secret_get key s)) PERSISTENT), s\<lparr>ss_flush_pending := False\<rparr>))"

definition finish_flush_cycle :: "secret_store \<Rightarrow> bool \<times> secret_store" where
  "finish_flush_cycle s =
     (if ss_phase s = PhReady \<and> ss_flush_pending s then (True, s\<lparr>ss_flush_pending := False\<rparr>)
      else (False, s\<lparr>ss_flush_in_flight := False\<rparr>))"

text \<open>The snapshots of the Discord token and of the Slack keys, taken under the lock.\<close>

definition take_discord_snapshot :: "secret_store \<Rightarrow> string option option \<times> secret_store" where
  "take_discord_snapshot s =
     (if ss_phase s \<noteq> PhReady \<or> \<not> ss_discord_dirty s then (None, s)
      else (Some (ss_discord_token s), s\<lparr>ss_discord_dirty := False\<rparr>))"

definition discord_write_failed :: "secret_store \<Rightarrow> secret_store" where
  "discord_write_failed s = s\<lparr>ss_discord_dirty := True\<rparr>"

definition take_slack_snapshot :: "secret_store \<Rightarrow> (slack_secret_key \<times> string option) list option \<times> secret_store" where
  "take_slack_snapshot s =
     (if ss_phase s \<noteq> PhReady \<or> ss_slack_dirty s = [] then (None, s)
      else (Some (map (\<lambda>key. (key, slack_get key s)) (ss_slack_dirty s)), s\<lparr>ss_slack_dirty := []\<rparr>))"

definition requeue_slack :: "slack_secret_key list \<Rightarrow> slack_secret_key list \<Rightarrow> slack_secret_key list" where
  "requeue_slack dirty keys = foldl (\<lambda>d key. List.insert key d) dirty keys"

definition slack_write_failed :: "(slack_secret_key \<times> string option) list \<Rightarrow> secret_store \<Rightarrow> secret_store" where
  "slack_write_failed unwritten s =
     s\<lparr>ss_slack_dirty := requeue_slack (ss_slack_dirty s) (map fst unwritten)\<rparr>"

section \<open>Names of the entries\<close>

lemma scoped_base:
  "CHR ''#'' \<notin> set name \<Longrightarrow> takeWhile (\<lambda>c. c \<noteq> CHR ''#'') (scoped_name scope name shared) = name"
proof -
  assume "CHR ''#'' \<notin> set name"
  then have "takeWhile (\<lambda>c. c \<noteq> CHR ''#'') (name @ ys) = name @ takeWhile (\<lambda>c. c \<noteq> CHR ''#'') ys" for ys
    by (intro takeWhile_append2) auto
  from this [of "[]"] this [of "''#'' @ show_nat scope"] show ?thesis by (simp add: scoped_name_def)
qed

lemma scoped_name_eq:
  assumes "CHR ''#'' \<notin> set x" "CHR ''#'' \<notin> set y" "scoped_name a x s = scoped_name b y t"
  shows "x = y \<and> (a = b \<or> (a = 0 \<or> s) \<and> (b = 0 \<or> t))"
proof -
  have xy: "x = y" using arg_cong [OF assms(3), of "takeWhile (\<lambda>c. c \<noteq> CHR ''#'')"] by (simp add: scoped_base assms(1,2))
  moreover have "a = b" if "show_nat a = show_nat b"
    using arg_cong [OF that, of "parse_digits 0"] by (simp add: parse_digits_show_nat)
  ultimately show ?thesis using assms(3) by (auto simp: scoped_name_def split: if_splits)
qed

lemma account_no_hash:
  "CHR ''#'' \<notin> set (key_account key)" "CHR ''#'' \<notin> set (slack_key_account k)" "CHR ''#'' \<notin> set DISCORD_SECRET_BOT_TOKEN"
proof -
  show "CHR ''#'' \<notin> set (key_account key)" by (cases key) simp_all
  show "CHR ''#'' \<notin> set (slack_key_account k)" by (cases k) simp_all
qed (simp add: DISCORD_SECRET_BOT_TOKEN_def)

lemma key_account_inj: "key_account k = key_account k' \<longleftrightarrow> k = k'"
  by (cases k; cases k'; simp)

lemma slack_key_account_inj: "slack_key_account k = slack_key_account k' \<longleftrightarrow> k = k'"
  by (cases k; cases k'; simp)

lemma accounts_differ:
  "key_account key \<noteq> slack_key_account k" "key_account key \<noteq> DISCORD_SECRET_BOT_TOKEN"
  "slack_key_account k \<noteq> DISCORD_SECRET_BOT_TOKEN"
proof -
  show "key_account key \<noteq> slack_key_account k" by (cases key; cases k) simp_all
  show "key_account key \<noteq> DISCORD_SECRET_BOT_TOKEN"
    by (cases key) (simp_all add: DISCORD_SECRET_BOT_TOKEN_def)
  show "slack_key_account k \<noteq> DISCORD_SECRET_BOT_TOKEN"
    by (cases k) (simp_all add: DISCORD_SECRET_BOT_TOKEN_def)
qed

lemma entries_differ:
  "os_entry a key = os_entry b key' \<Longrightarrow> key = key' \<and> (a = b \<or> key \<in> {KeyApiId, KeyApiHash} \<or> a = 0 \<and> b = 0)"
  "os_entry a key \<noteq> slack_os_entry b k" "os_entry a key \<noteq> discord_os_entry b"
  "slack_os_entry a k \<noteq> discord_os_entry b" "discord_os_entry a = discord_os_entry b \<longleftrightarrow> a = b"
  "slack_os_entry a k = slack_os_entry b k' \<Longrightarrow>
     k = k' \<and> (a = b \<or> k \<in> {SlackClientId, SlackClientSecret, SlackAppToken})"
  unfolding os_entry_def slack_os_entry_def discord_os_entry_def
  by (auto dest!: scoped_name_eq [rotated 2] simp: account_no_hash accounts_differ key_account_inj slack_key_account_inj
      simp del: key_account.simps slack_key_account.simps)

section \<open>Threads\<close>

text \<open>A flush between its locked operations and its calls of the keychain.\<close>

datatype flush_point =
  FlushTake
| FlushWrite flush_snapshot
| FlushDiscord
| FlushDiscordWrite "string option"
| FlushSlack
| FlushSlackWrite "(slack_secret_key \<times> string option) list"
| FlushEnd

type_synonym keychain = "(string \<times> string) list"

definition os_write :: "string \<Rightarrow> string option \<Rightarrow> keychain \<Rightarrow> keychain" where
  "os_write name v chain = (case v of Some x \<Rightarrow> hm_insert name x chain | None \<Rightarrow> hm_remove name chain)"

text \<open>One step of \<open>flush_loop\<close> with \<open>write_keychain\<close>; \<open>ok\<close> says whether a call of the keychain
  succeeds. No point is left when the flush is done.\<close>

fun flush_step :: "bool \<Rightarrow> flush_point \<Rightarrow> secret_store \<Rightarrow> keychain \<Rightarrow> flush_point option \<times> secret_store \<times> keychain" where
  "flush_step ok FlushTake s chain =
     (case take_flush_snapshot s of
        (None, s) \<Rightarrow> (None, s, chain)
      | (Some snapshot, s) \<Rightarrow> (Some (FlushWrite snapshot), s, chain))"
| "flush_step ok (FlushWrite []) s chain = (Some FlushDiscord, s, chain)"
| "flush_step ok (FlushWrite ((key, v) # rest)) s chain =
     (if ok then (Some (FlushWrite rest), s, os_write (os_entry (ss_scope s) key) v chain)
      else (Some FlushEnd, s, chain))"
| "flush_step ok FlushDiscord s chain =
     (case take_discord_snapshot s of
        (None, s) \<Rightarrow> (Some FlushSlack, s, chain)
      | (Some v, s) \<Rightarrow> (Some (FlushDiscordWrite v), s, chain))"
| "flush_step ok (FlushDiscordWrite v) s chain =
     (if ok then (Some FlushSlack, s, os_write (discord_os_entry (ss_scope s)) v chain)
      else (Some FlushEnd, discord_write_failed s, chain))"
| "flush_step ok FlushSlack s chain =
     (case take_slack_snapshot s of
        (None, s) \<Rightarrow> (Some FlushEnd, s, chain)
      | (Some snapshot, s) \<Rightarrow> (Some (FlushSlackWrite snapshot), s, chain))"
| "flush_step ok (FlushSlackWrite []) s chain = (Some FlushEnd, s, chain)"
| "flush_step ok (FlushSlackWrite ((key, v) # rest)) s chain =
     (if ok then (Some (FlushSlackWrite rest), s, os_write (slack_os_entry (ss_scope s) key) v chain)
      else (Some FlushEnd, slack_write_failed ((key, v) # rest) s, chain))"
| "flush_step ok FlushEnd s chain =
     (case finish_flush_cycle s of
        (True, s) \<Rightarrow> (Some FlushTake, s, chain)
      | (False, s) \<Rightarrow> (None, s, chain))"

text \<open>What the first look at the keychain finds: no store (or memory asked for), a store that cannot be
  read, or a backend with the reads of the three groups that succeed.\<close>

datatype probe = ProbeAbsent | ProbeFailed | ProbeOk os_backend bool bool bool

datatype thread_point =
  AttachBegin
| AttachProbe
| AttachSettle os_backend "(secret_key \<times> string) list option" "string option option"
    "(slack_secret_key \<times> string) list option"
| AttachDiscord "string option option" "(slack_secret_key \<times> string) list option" bool
| AttachSlack "(slack_secret_key \<times> string) list option" bool
| AttachFlush flush_point
| AttachTellDiscord
| AttachTellSlack
| FlushThread flush_point

definition read_os_snapshot :: "nat \<Rightarrow> keychain \<Rightarrow> (secret_key \<times> string) list" where
  "read_os_snapshot scope chain =
     List.map_filter (\<lambda>key. map_option (\<lambda>v. (key, v)) (hm_get chain (os_entry scope key))) PERSISTENT"

definition read_slack_os :: "nat \<Rightarrow> keychain \<Rightarrow> (slack_secret_key \<times> string) list" where
  "read_slack_os scope chain =
     List.map_filter (\<lambda>key. map_option (\<lambda>v. (key, v)) (hm_get chain (slack_os_entry scope key))) SLACK_PERSISTENT"

text \<open>One step of a thread: \<open>attach_os_keychain\<close> with \<open>store_probed_secrets\<close>, or a flush. The last
  component is the hook that runs.\<close>

fun thread_step ::
    "bool \<Rightarrow> probe \<Rightarrow> thread_point \<Rightarrow> secret_store \<Rightarrow> keychain \<Rightarrow>
     thread_point option \<times> secret_store \<times> keychain \<times> nat option" where
  "thread_step ok p AttachBegin s chain =
     (case begin_attach s of
        (False, s) \<Rightarrow> (None, s, chain, None)
      | (True, s) \<Rightarrow> (Some AttachProbe, s, chain, None))"
| "thread_step ok p AttachProbe s chain =
     (case p of
        ProbeAbsent \<Rightarrow> (Some AttachTellDiscord, finish_memory_only s, chain, None)
      | ProbeFailed \<Rightarrow> (None, finish_read_failed s, chain, None)
      | ProbeOk backend telegram discord slack \<Rightarrow>
          (Some (AttachSettle backend
             (if telegram then Some (read_os_snapshot (ss_scope s) chain) else None)
             (if discord then Some (hm_get chain (discord_os_entry (ss_scope s))) else None)
             (if slack then Some (read_slack_os (ss_scope s) chain) else None)), s, chain, None))"
| "thread_step ok p (AttachSettle backend telegram discord slack) s chain =
     (if slack = None then (None, finish_read_failed s, chain, None)
      else let (flush, s) = settle_after_probe backend telegram s
           in (Some (AttachDiscord discord slack flush), s, chain, None))"
| "thread_step ok p (AttachDiscord discord slack flush) s chain =
     (Some (AttachSlack slack flush), store_hydrated_discord_token discord s, chain, None)"
| "thread_step ok p (AttachSlack slack flush) s chain =
     (Some (if flush then AttachFlush FlushTake else AttachTellDiscord), store_hydrated_slack slack s, chain, None)"
| "thread_step ok p (AttachFlush point) s chain =
     (let (next_point, s, chain) = flush_step ok point s chain
      in (Some (case next_point of Some q \<Rightarrow> AttachFlush q | None \<Rightarrow> AttachTellDiscord), s, chain, None))"
| "thread_step ok p AttachTellDiscord s chain =
     (let (hook, s) = signal_discord_hydrated s in (Some AttachTellSlack, s, chain, hook))"
| "thread_step ok p AttachTellSlack s chain =
     (let (hook, s) = signal_slack_hydrated s in (None, s, chain, hook))"
| "thread_step ok p (FlushThread point) s chain =
     (let (next_point, s, chain) = flush_step ok point s chain
      in (map_option FlushThread next_point, s, chain, None))"

record store_world =
  kw_store :: secret_store
  kw_chain :: keychain
  kw_threads :: "thread_point list"
  kw_hooks :: "nat list"

datatype store_step =
  UiSet secret_key string
| UiDiscord string
| UiSlack slack_secret_key string
| UiDiscordHook nat
| UiSlackHook nat
| UiFlush
| UiRetry
| RunThread nat bool probe

definition run_thread :: "nat \<Rightarrow> bool \<Rightarrow> probe \<Rightarrow> store_world \<Rightarrow> store_world" where
  "run_thread i ok p w =
     (if i < length (kw_threads w)
      then let (next_point, s, chain, hook) = thread_step ok p (kw_threads w ! i) (kw_store w) (kw_chain w)
           in w\<lparr>kw_store := s, kw_chain := chain,
                kw_threads := (case next_point of
                    Some q \<Rightarrow> (kw_threads w)[i := q]
                  | None \<Rightarrow> take i (kw_threads w) @ drop (Suc i) (kw_threads w)),
                kw_hooks := kw_hooks w @ (case hook of Some h \<Rightarrow> [h] | None \<Rightarrow> [])\<rparr>
      else w)"

text \<open>The shell offers Try again only after a read that failed, so \<open>spawn_os_retry\<close> runs only then.\<close>

fun keychain_step :: "store_step \<Rightarrow> store_world \<Rightarrow> store_world" where
  "keychain_step (UiSet key v) w = w\<lparr>kw_store := secret_set key v (kw_store w)\<rparr>"
| "keychain_step (UiDiscord v) w = w\<lparr>kw_store := set_discord_bot_token v (kw_store w)\<rparr>"
| "keychain_step (UiSlack key v) w = w\<lparr>kw_store := slack_set key v (kw_store w)\<rparr>"
| "keychain_step (UiDiscordHook h) w =
     (let (now, s) = on_discord_token_hydrated h (kw_store w)
      in w\<lparr>kw_store := s, kw_hooks := kw_hooks w @ (if now then [h] else [])\<rparr>)"
| "keychain_step (UiSlackHook h) w =
     (let (now, s) = on_slack_token_hydrated h (kw_store w)
      in w\<lparr>kw_store := s, kw_hooks := kw_hooks w @ (if now then [h] else [])\<rparr>)"
| "keychain_step UiFlush w =
     (case request_flush (kw_store w) of
        (FlushSpawn, s) \<Rightarrow> w\<lparr>kw_store := s, kw_threads := kw_threads w @ [FlushThread FlushTake]\<rparr>
      | (_, s) \<Rightarrow> w\<lparr>kw_store := s\<rparr>)"
| "keychain_step UiRetry w =
     (if ss_phase (kw_store w) = ReadFailed
      then w\<lparr>kw_store := leave_read_failed (kw_store w), kw_threads := kw_threads w @ [AttachBegin]\<rparr> else w)"
| "keychain_step (RunThread i ok p) w = run_thread i ok p w"

text \<open>\<open>for_ui\<close> and \<open>for_account\<close>: a memory store, or a store whose attach starts.\<close>

definition store_new :: "nat \<Rightarrow> bool \<Rightarrow> keychain \<Rightarrow> store_world" where
  "store_new scope memory_requested chain =
     \<lparr>kw_store = scoped_blank (if memory_requested then MemoryOnly else Detached) scope, kw_chain = chain,
      kw_threads = (if memory_requested then [] else [AttachBegin]), kw_hooks = []\<rparr>"

inductive store_reach :: "store_world \<Rightarrow> bool" where
  start: "store_reach (store_new scope memory_requested chain)"
| step: "store_reach w \<Longrightarrow> store_reach (keychain_step op w)"

section \<open>At most one attach and one flush\<close>

text \<open>The flush that a thread runs or is about to run.\<close>

fun flushing :: "thread_point \<Rightarrow> flush_point option" where
  "flushing (AttachDiscord _ _ flush) = (if flush then Some FlushTake else None)"
| "flushing (AttachSlack _ flush) = (if flush then Some FlushTake else None)"
| "flushing (AttachFlush point) = Some point"
| "flushing (FlushThread point) = Some point"
| "flushing _ = None"

fun attaching :: "thread_point \<Rightarrow> bool" where
  "attaching AttachBegin = True"
| "attaching AttachProbe = True"
| "attaching (AttachSettle _ _ _ _) = True"
| "attaching _ = False"

abbreviation flushes :: "thread_point list \<Rightarrow> flush_point list" where
  "flushes ts \<equiv> List.map_filter flushing ts"

fun point_ok :: "flush_point \<Rightarrow> bool" where
  "point_ok (FlushWrite snapshot) = (distinct (map fst snapshot) \<and> fst ` set snapshot \<subseteq> set PERSISTENT)"
| "point_ok (FlushSlackWrite snapshot) = (fst ` set snapshot \<subseteq> set SLACK_PERSISTENT)"
| "point_ok _ = True"

definition store_ok :: "secret_store \<Rightarrow> bool" where
  "store_ok s \<longleftrightarrow> \<not> ss_no_os s \<and> set (ss_slack_dirty s) \<subseteq> set SLACK_PERSISTENT \<and>
     (ss_flush_in_flight s \<longrightarrow> ss_phase s = PhReady) \<and>
     (ss_phase s = PhReady \<and> ss_flush_pending s \<longrightarrow> ss_flush_in_flight s)"

definition threads_ok :: "thread_point list \<Rightarrow> secret_store \<Rightarrow> bool" where
  "threads_ok ts s \<longleftrightarrow>
     length (flushes ts) = (if ss_flush_in_flight s then 1 else 0) \<and> list_all point_ok (flushes ts) \<and>
     length (filter attaching ts) \<le> 1 \<and>
     (filter attaching ts \<noteq> [] \<longrightarrow> ss_phase s \<in> {Detached, Attaching})"

definition keychain_ok :: "store_world \<Rightarrow> bool" where
  "keychain_ok w \<longleftrightarrow> store_ok (kw_store w) \<and> threads_ok (kw_threads w) (kw_store w)"

lemma map_filter_append [simp]: "List.map_filter f (xs @ ys) = List.map_filter f xs @ List.map_filter f ys"
  by (simp add: List.map_filter_def)

lemma slack_persist_iff: "slack_persist_to_os key \<longleftrightarrow> key \<in> set SLACK_PERSISTENT"
  by (cases key) (simp_all add: slack_persist_to_os_def SLACK_PERSISTENT_def)

lemma set_requeue_slack: "set (requeue_slack dirty keys) = set dirty \<union> set keys"
  by (induction keys arbitrary: dirty) (auto simp: requeue_slack_def)

lemma run_threadE:
  obtains "run_thread i ok p w = w"
  | xs t ys next_point s chain hook where "kw_threads w = xs @ t # ys"
      "thread_step ok p t (kw_store w) (kw_chain w) = (next_point, s, chain, hook)"
      "run_thread i ok p w = w\<lparr>kw_store := s, kw_chain := chain,
         kw_threads := xs @ (case next_point of Some q \<Rightarrow> [q] | None \<Rightarrow> []) @ ys,
         kw_hooks := kw_hooks w @ (case hook of Some h \<Rightarrow> [h] | None \<Rightarrow> [])\<rparr>"
proof (cases "i < length (kw_threads w)")
  case True
  obtain next_point s chain hook where e:
    "thread_step ok p (kw_threads w ! i) (kw_store w) (kw_chain w) = (next_point, s, chain, hook)"
    by (metis prod_cases4)
  show ?thesis
    by (rule that(2) [OF id_take_nth_drop [OF True] e])
      (simp add: run_thread_def True e upd_conv_take_nth_drop split: option.split)
qed (simp add: run_thread_def that(1))

lemmas store_ops_defs =
  secret_set_def set_discord_bot_token_def slack_set_def begin_attach_def finish_read_failed_def
  finish_memory_only_def finish_ready_def settle_after_probe_def store_hydrated_discord_token_def
  store_hydrated_slack_def signal_discord_hydrated_def signal_slack_hydrated_def request_flush_def
  take_flush_snapshot_def finish_flush_cycle_def take_discord_snapshot_def discord_write_failed_def
  take_slack_snapshot_def slack_write_failed_def leave_read_failed_def on_discord_token_hydrated_def
  on_slack_token_hydrated_def

lemma distinct_persistent: "distinct PERSISTENT"
  by (simp add: PERSISTENT_def)

text \<open>A flush keeps its store; it goes on from point to point, and its end frees the flag.\<close>

lemma flush_step_ok:
  assumes "store_ok s" "ss_flush_in_flight s" "point_ok point" "flush_step ok point s chain = (next_point, s', chain')"
  shows "store_ok s' \<and> ss_phase s' = ss_phase s \<and> ss_flush_in_flight s' = (next_point \<noteq> None) \<and>
    (\<forall>q. next_point = Some q \<longrightarrow> point_ok q) \<and> ss_values s' = ss_values s \<and> ss_dirty s' = ss_dirty s \<and>
    ss_scope s' = ss_scope s"
  using assms
  by (cases "(ok, point, s, chain)" rule: flush_step.cases)
    (auto simp: store_ops_defs store_ok_def set_requeue_slack image_subset_iff comp_def distinct_persistent
      dest: subsetD split: if_splits)

lemma threads_ok_swap:
  "flushing q = flushing t \<Longrightarrow> attaching q = attaching t \<Longrightarrow> ss_flush_in_flight s' = ss_flush_in_flight s \<Longrightarrow>
     ss_phase s' = ss_phase s \<Longrightarrow> threads_ok (xs @ q # ys) s' = threads_ok (xs @ t # ys) s"
  by (simp add: threads_ok_def List.map_filter_def)

lemma threads_ok_end:
  "flushing t = None \<Longrightarrow> ss_flush_in_flight s' = ss_flush_in_flight s \<Longrightarrow> ss_phase s' = ss_phase s \<Longrightarrow>
     threads_ok (xs @ t # ys) s \<Longrightarrow> threads_ok (xs @ ys) s'"
  by (auto simp: threads_ok_def List.map_filter_def split: if_splits)

lemma hydrate_fields:
  "ss_phase (store_hydrated_discord_token di s) = ss_phase s"
  "ss_flush_in_flight (store_hydrated_discord_token di s) = ss_flush_in_flight s"
  "store_ok (store_hydrated_discord_token di s) = store_ok s"
  "ss_phase (store_hydrated_slack sl s) = ss_phase s"
  "ss_flush_in_flight (store_hydrated_slack sl s) = ss_flush_in_flight s"
  "store_ok (store_hydrated_slack sl s) = store_ok s"
  "ss_phase (snd (signal_discord_hydrated s)) = ss_phase s"
  "ss_flush_in_flight (snd (signal_discord_hydrated s)) = ss_flush_in_flight s"
  "store_ok (snd (signal_discord_hydrated s)) = store_ok s"
  "ss_phase (snd (signal_slack_hydrated s)) = ss_phase s"
  "ss_flush_in_flight (snd (signal_slack_hydrated s)) = ss_flush_in_flight s"
  "store_ok (snd (signal_slack_hydrated s)) = store_ok s"
  by (simp_all add: store_ops_defs store_ok_def Let_def split: option.split hydrate.split)

lemma thread_step_ok:
  assumes ok: "store_ok s" and ts: "threads_ok (xs @ t # ys) s"
    and step: "thread_step ok p t s chain = (next_point, s', chain', hook)"
  shows "store_ok s' \<and> threads_ok (xs @ (case next_point of Some q \<Rightarrow> [q] | None \<Rightarrow> []) @ ys) s'"
proof -
  have flush: ?thesis if t: "flushing t = Some point" and
      e: "flush_step ok point s chain = (q, s', chain')" and
      n: "flushes (case next_point of Some q \<Rightarrow> [q] | None \<Rightarrow> []) = (case q of Some q \<Rightarrow> [q] | None \<Rightarrow> [])"
      "filter attaching (case next_point of Some q \<Rightarrow> [q] | None \<Rightarrow> []) = []" "\<not> attaching t" for point q
  proof -
    have "length (flushes xs) + length (flushes ys) + 1 = (if ss_flush_in_flight s then 1 else 0)"
      "point_ok point" using ts t by (simp_all add: threads_ok_def List.map_filter_def)
    moreover from this have "ss_flush_in_flight s" "flushes xs = []" "flushes ys = []" by (auto split: if_splits)
    moreover note flush_step_ok [OF ok this(1) \<open>point_ok point\<close> e]
    ultimately show ?thesis using ts n by (auto simp: threads_ok_def split: option.splits)
  qed
  show ?thesis
  proof (cases t)
    case (AttachFlush point)
    obtain q s1 chain1 where e: "flush_step ok point s chain = (q, s1, chain1)" by (rule prod_cases3)
    with AttachFlush step have "flush_step ok point s chain = (q, s', chain')"
      "next_point = Some (case q of Some q \<Rightarrow> AttachFlush q | None \<Rightarrow> AttachTellDiscord)" by simp_all
    then show ?thesis using flush [of point q] AttachFlush by (simp add: List.map_filter_def split: option.split)
  next
    case (FlushThread point)
    obtain q s1 chain1 where e: "flush_step ok point s chain = (q, s1, chain1)" by (rule prod_cases3)
    with FlushThread step have "flush_step ok point s chain = (q, s', chain')"
      "next_point = map_option FlushThread q" by simp_all
    then show ?thesis using flush [of point q] FlushThread by (simp add: List.map_filter_def split: option.split)
  next
    case AttachBegin
    then show ?thesis using ok ts step
      by (auto simp: store_ops_defs store_ok_def threads_ok_def List.map_filter_def split: if_splits)
  next
    case AttachProbe
    then show ?thesis using ok ts step
      by (auto simp: store_ops_defs store_ok_def threads_ok_def List.map_filter_def split: probe.splits if_splits)
  next
    case (AttachSettle b te di sl)
    then show ?thesis using ok ts step
      by (auto simp: store_ops_defs store_ok_def threads_ok_def List.map_filter_def Let_def split: option.splits if_splits)
  next
    case (AttachDiscord di sl fl)
    with ok ts step threads_ok_swap [of "AttachSlack sl fl" t s' s xs ys] show ?thesis
      by (auto simp: hydrate_fields)
  next
    case (AttachSlack sl fl)
    with ok ts step threads_ok_swap [of "if fl then AttachFlush FlushTake else AttachTellDiscord" t s' s xs ys]
    show ?thesis by (auto simp: hydrate_fields)
  next
    case AttachTellDiscord
    with ok ts step threads_ok_swap [of AttachTellSlack t s' s xs ys] show ?thesis
      by (auto simp: hydrate_fields split_beta Let_def)
  next
    case AttachTellSlack
    with ok ts step threads_ok_end [of t s' s xs ys] show ?thesis by (auto simp: hydrate_fields split_beta Let_def)
  qed
qed

lemma keychain_step_ok: "keychain_ok w \<Longrightarrow> keychain_ok (keychain_step op w)"
proof (cases op)
  case (RunThread i ok p)
  assume w: "keychain_ok w"
  show ?thesis
  proof (cases rule: run_threadE [of i ok p w])
    case 1
    with w RunThread show ?thesis by simp
  next
    case (2 xs t ys next_point s chain hook)
    with w RunThread thread_step_ok [of "kw_store w" xs t ys ok p "kw_chain w" next_point s chain hook]
    show ?thesis by (simp add: keychain_ok_def)
  qed
next
  case UiFlush
  moreover assume "keychain_ok w"
  ultimately show ?thesis
    by (auto simp: keychain_ok_def store_ok_def threads_ok_def store_ops_defs List.map_filter_def split: attach_phase.splits)
next
  case UiRetry
  moreover assume "keychain_ok w"
  ultimately show ?thesis
    by (auto simp: keychain_ok_def store_ok_def threads_ok_def store_ops_defs List.map_filter_def)
qed (auto simp: keychain_ok_def store_ok_def threads_ok_def store_ops_defs slack_persist_iff Let_def split: hydrate.splits)

lemma store_new_ok: "keychain_ok (store_new scope memory_requested chain)"
  by (simp add: store_new_def keychain_ok_def store_ok_def threads_ok_def scoped_blank_def List.map_filter_def Let_def)

lemma store_reach_ok: "store_reach w \<Longrightarrow> keychain_ok w"
  by (induction rule: store_reach.induct) (blast intro: store_new_ok keychain_step_ok)+

section \<open>The frontend wins\<close>

definition store_run :: "store_step list \<Rightarrow> store_world \<Rightarrow> store_world" where
  "store_run ops w = fold keychain_step ops w"

lemma store_run_simps [simp]:
  "store_run [] w = w" "store_run (op # ops) w = store_run ops (keychain_step op w)"
  "store_run (ops @ ops') w = store_run ops' (store_run ops w)"
  by (simp_all add: store_run_def)

lemma put_trimmed_get: "hm_get (put_trimmed key v m) k = (if k = key then trimmed v else hm_get m k)"
  by (auto simp: put_trimmed_def trimmed_def update_conv' delete_conv')

lemma merge_os_dirty: "key \<in> dirty \<Longrightarrow> hm_get (merge_os dirty os_values m) key = hm_get m key"
  unfolding merge_os_def
  by (induction os_values arbitrary: m) (auto simp: put_trimmed_get)

text \<open>A value of the frontend that no attach can replace.\<close>

definition kept :: "secret_key \<Rightarrow> string option \<Rightarrow> secret_store \<Rightarrow> bool" where
  "kept key v s \<longleftrightarrow> secret_get key s = v \<and> (key \<in> ss_dirty s \<or> attach_settled s)"

lemma kept_fields:
  "ss_values s' = ss_values s \<Longrightarrow> ss_dirty s' = ss_dirty s \<Longrightarrow> ss_phase s' = ss_phase s \<Longrightarrow>
     kept key v s' = kept key v s"
  by (simp add: kept_def secret_get_def attach_settled_def)

lemma kept_merge:
  "kept key v s \<Longrightarrow> \<not> attach_settled s \<Longrightarrow> kept key v (snd (finish_ready os_values backend s))"
  by (simp add: kept_def secret_get_def attach_settled_def finish_ready_def Let_def merge_os_dirty)

lemma kept_thread:
  assumes "store_ok s" "threads_ok (xs @ t # ys) s" "kept key v s"
    and step: "thread_step ok p t s chain = (next_point, s', chain', hook)"
  shows "kept key v s'"
proof -
  have flush: ?thesis if t: "flushing t = Some point" and e: "flush_step ok point s chain = (q, s', chain')" for point q
  proof -
    have "length (flushes xs) + length (flushes ys) + 1 = (if ss_flush_in_flight s then 1 else 0)"
      "point_ok point" using assms(2) t by (simp_all add: threads_ok_def List.map_filter_def)
    then have "ss_flush_in_flight s" by (auto split: if_splits)
    with flush_step_ok [OF assms(1) _ \<open>point_ok point\<close> e] kept_fields [of s' s] assms(3) show ?thesis by simp
  qed
  show ?thesis
  proof (cases t)
    case (AttachFlush point)
    obtain q s1 chain1 where e: "flush_step ok point s chain = (q, s1, chain1)" by (rule prod_cases3)
    with AttachFlush step have "flush_step ok point s chain = (q, s', chain')" by simp
    then show ?thesis using flush [of point q] AttachFlush by simp
  next
    case (FlushThread point)
    obtain q s1 chain1 where e: "flush_step ok point s chain = (q, s1, chain1)" by (rule prod_cases3)
    with FlushThread step have "flush_step ok point s chain = (q, s', chain')" by simp
    then show ?thesis using flush [of point q] FlushThread by simp
  next
    case (AttachSettle b te di sl)
    with assms(2) have "\<not> attach_settled s" by (auto simp: threads_ok_def attach_settled_def)
    with AttachSettle step assms(3) kept_merge [of key v s] show ?thesis
      by (auto simp: settle_after_probe_def finish_read_failed_def kept_def secret_get_def attach_settled_def
          split_beta Let_def split: option.splits if_splits)
  next
    case AttachProbe
    with assms(2) step assms(3) show ?thesis
      by (auto simp: threads_ok_def attach_settled_def kept_def secret_get_def store_ops_defs split: probe.splits)
  qed (use step assms(3) in \<open>auto simp: store_ops_defs kept_def secret_get_def attach_settled_def Let_def
      split: hydrate.splits option.splits if_splits\<close>)
qed

lemma kept_step:
  assumes "keychain_ok w" "kept key v (kw_store w)" "\<And>x. op \<noteq> UiSet key x"
  shows "kept key v (kw_store (keychain_step op w))"
proof (cases op)
  case (RunThread i ok p)
  show ?thesis
  proof (cases rule: run_threadE [of i ok p w])
    case (2 xs t ys next_point s chain hook)
    with kept_thread [of "kw_store w" xs t ys key v ok p "kw_chain w" next_point s chain hook] assms(1,2) RunThread
    show ?thesis by (simp add: keychain_ok_def)
  qed (use RunThread assms(2) in simp)
qed (use assms(2,3) in \<open>auto simp: store_ops_defs kept_def secret_get_def attach_settled_def put_trimmed_get Let_def
      split: hydrate.splits attach_phase.splits\<close>)

lemma kept_set: "kept key (trimmed v) (secret_set key v s)"
  by (simp add: kept_def secret_set_def secret_get_def put_trimmed_get)

lemma kept_run:
  "keychain_ok w \<Longrightarrow> kept key v (kw_store w) \<Longrightarrow> \<forall>op \<in> set ops. \<forall>x. op \<noteq> UiSet key x \<Longrightarrow>
     kept key v (kw_store (store_run ops w))"
  by (induction ops arbitrary: w) (simp_all add: kept_step keychain_step_ok)

text \<open>
  C38: what the user wrote last is what is read. Whatever the attach and the flushes do meanwhile, in
  whatever order their steps come and whichever calls of the keychain fail, a Telegram secret reads
  as the trimmed text of its last write.
\<close>

theorem last_write_is_read:
  assumes "store_reach w" "\<forall>op \<in> set ops. \<forall>x. op \<noteq> UiSet key x"
  shows "secret_get key (kw_store (store_run ops (keychain_step (UiSet key v) w))) = trimmed v"
  using kept_run [OF keychain_step_ok [OF store_reach_ok [OF assms(1)], of "UiSet key v"] _ assms(2), of "trimmed v"]
  by (simp add: kept_set) (simp only: kept_def)

text \<open>An attach that finds another text in the keychain while the frontend writes.\<close>

definition attach_ops :: "store_step list" where
  "attach_ops = [RunThread 0 True ProbeAbsent, RunThread 0 True (ProbeOk NativeStore True True True),
     RunThread 0 True ProbeAbsent, RunThread 0 True ProbeAbsent, RunThread 0 True ProbeAbsent]"

lemma last_write_is_read_witness:
  "secret_get KeyApiId (kw_store (store_run attach_ops
     (keychain_step (UiSet KeyApiId '' 7 '') (store_new 1 False [(''telegram.api_id'', ''5'')])))) = Some ''7''"
proof -
  have "\<forall>op \<in> set attach_ops. \<forall>x. op \<noteq> UiSet KeyApiId x" by (simp add: attach_ops_def)
  moreover have "trimmed '' 7 '' = Some ''7''" by code_simp
  ultimately show ?thesis
    using last_write_is_read [OF store_reach.start [of 1 False "[(''telegram.api_id'', ''5'')]"], of attach_ops KeyApiId "'' 7 ''"]
    by (simp only:)
qed

section \<open>A flush that was asked is not lost\<close>

fun will_write :: "secret_key \<Rightarrow> string option \<Rightarrow> flush_point \<Rightarrow> bool" where
  "will_write key v FlushTake = True"
| "will_write key v (FlushWrite snapshot) = ((key, v) \<in> set snapshot)"
| "will_write key v _ = False"

fun has_written :: "secret_key \<Rightarrow> flush_point \<Rightarrow> bool" where
  "has_written key FlushTake = False"
| "has_written key (FlushWrite snapshot) = (key \<notin> fst ` set snapshot)"
| "has_written key _ = True"

definition on_its_way :: "secret_key \<Rightarrow> string option \<Rightarrow> flush_point list \<Rightarrow> nat \<Rightarrow> keychain \<Rightarrow> bool" where
  "on_its_way key v fs scope chain \<longleftrightarrow>
     (case fs of
        [] \<Rightarrow> hm_get chain (os_entry scope key) = v
      | point # _ \<Rightarrow> will_write key v point \<or> has_written key point \<and> hm_get chain (os_entry scope key) = v)"

definition flush_asked :: "secret_key \<Rightarrow> string option \<Rightarrow> flush_point list \<Rightarrow> secret_store \<Rightarrow> keychain \<Rightarrow> bool" where
  "flush_asked key v fs s chain \<longleftrightarrow>
     kept key v s \<and> (\<not> attach_settled s \<longrightarrow> ss_flush_pending s) \<and>
     (ss_phase s = PhReady \<longrightarrow> ss_flush_pending s \<or> on_its_way key v fs (ss_scope s) chain)"

lemma os_write_get: "hm_get (os_write name v chain) other = (if other = name then v else hm_get chain other)"
  by (auto simp: os_write_def update_conv' delete_conv' split: option.split)

lemma asked_flush:
  assumes "store_ok s" "ss_flush_in_flight s" "point_ok point" "key \<in> set PERSISTENT"
    and "flush_asked key v [point] s chain" "flush_step True point s chain = (next_point, s', chain')"
  shows "flush_asked key v (case next_point of Some q \<Rightarrow> [q] | None \<Rightarrow> []) s' chain'"
proof -
  have "kept key v s'"
    using flush_step_ok [OF assms(1-3,6)] kept_fields [of s' s] assms(5) by (simp add: flush_asked_def)
  moreover have r: "ss_phase s = PhReady" using assms(1,2) by (simp add: store_ok_def)
  moreover have get: "secret_get key s = v" using assms(5) by (simp add: flush_asked_def kept_def)
  ultimately show ?thesis
    using assms(1,3-6)
    by (cases "(True, point, s, chain)" rule: flush_step.cases)
      (auto simp: flush_asked_def on_its_way_def store_ops_defs attach_settled_def os_write_get entries_differ
        image_iff dest: entries_differ(1) split: if_splits)
qed

lemma asked_thread:
  assumes ok: "store_ok s" and ts: "threads_ok (xs @ t # ys) s" and key: "key \<in> set PERSISTENT"
    and a: "flush_asked key v (flushes (xs @ t # ys)) s chain"
    and step: "thread_step True p t s chain = (next_point, s', chain', hook)"
  shows "flush_asked key v (flushes (xs @ (case next_point of Some q \<Rightarrow> [q] | None \<Rightarrow> []) @ ys)) s' chain'"
proof -
  have kept': "kept key v s'" using kept_thread [OF ok ts _ step] a by (simp add: flush_asked_def)
  have flush: ?thesis if t: "flushing t = Some point" and e: "flush_step True point s chain = (q, s', chain')" and
      n: "flushes (case next_point of Some q \<Rightarrow> [q] | None \<Rightarrow> []) = (case q of Some q \<Rightarrow> [q] | None \<Rightarrow> [])" for point q
  proof -
    have "length (flushes xs) + length (flushes ys) + 1 = (if ss_flush_in_flight s then 1 else 0)"
      "point_ok point" using ts t by (simp_all add: threads_ok_def List.map_filter_def)
    moreover from this have "ss_flush_in_flight s" "flushes xs = []" "flushes ys = []" by (auto split: if_splits)
    moreover from this t a have "flush_asked key v [point] s chain" by (simp add: List.map_filter_def)
    ultimately show ?thesis using asked_flush [OF ok _ _ key _ e] n by simp
  qed
  have none: "flushes xs = []" "flushes ys = []" "\<not> ss_flush_in_flight s" if "attaching t"
    using ts ok that by (auto simp: threads_ok_def store_ok_def split: if_splits option.splits)
  show ?thesis
  proof (cases t)
    case (AttachFlush point)
    obtain q s1 chain1 where e: "flush_step True point s chain = (q, s1, chain1)" by (rule prod_cases3)
    with AttachFlush step have "flush_step True point s chain = (q, s', chain')"
      "next_point = Some (case q of Some q \<Rightarrow> AttachFlush q | None \<Rightarrow> AttachTellDiscord)" by simp_all
    then show ?thesis using flush [of point q] AttachFlush by (simp add: List.map_filter_def split: option.split)
  next
    case (FlushThread point)
    obtain q s1 chain1 where e: "flush_step True point s chain = (q, s1, chain1)" by (rule prod_cases3)
    with FlushThread step have "flush_step True point s chain = (q, s', chain')"
      "next_point = map_option FlushThread q" by simp_all
    moreover have "flushes (case map_option FlushThread q of Some t \<Rightarrow> [t] | None \<Rightarrow> []) = (case q of Some q \<Rightarrow> [q] | None \<Rightarrow> [])"
      by (cases q) (simp_all add: List.map_filter_def)
    ultimately show ?thesis using flush [of point q] FlushThread by simp
  next
    case (AttachSettle b te di sl)
    have "ss_phase s \<in> {Detached, Attaching}" using ts AttachSettle by (simp add: threads_ok_def)
    then have "ss_flush_pending s" using a by (auto simp: flush_asked_def attach_settled_def)
    with AttachSettle step kept' none show ?thesis
      by (cases te) (auto simp: flush_asked_def on_its_way_def store_ops_defs attach_settled_def List.map_filter_def
        Let_def split: if_splits)
  next
    case AttachProbe
    have "ss_phase s \<in> {Detached, Attaching}" using ts AttachProbe by (simp add: threads_ok_def)
    then have "ss_flush_pending s" using a by (auto simp: flush_asked_def attach_settled_def)
    with AttachProbe step kept' none show ?thesis
      by (cases p) (auto simp: flush_asked_def on_its_way_def store_ops_defs attach_settled_def List.map_filter_def)
  next
    case AttachBegin
    have "ss_phase s \<in> {Detached, Attaching}" using ts AttachBegin by (simp add: threads_ok_def)
    then have "ss_flush_pending s" using a by (auto simp: flush_asked_def attach_settled_def)
    with AttachBegin step kept' show ?thesis
      by (auto simp: flush_asked_def store_ops_defs attach_settled_def split: if_splits)
  qed (use step a kept' in \<open>auto simp: flush_asked_def store_ops_defs attach_settled_def List.map_filter_def Let_def
      split: hydrate.splits option.splits if_splits\<close>)
qed

definition asked_in :: "secret_key \<Rightarrow> string option \<Rightarrow> store_world \<Rightarrow> bool" where
  "asked_in key v w \<longleftrightarrow> flush_asked key v (flushes (kw_threads w)) (kw_store w) (kw_chain w)"

lemma asked_request:
  assumes "keychain_ok w" "kept key v (kw_store w)"
  shows "asked_in key v (keychain_step UiFlush w)"
  using assms
  by (auto simp: asked_in_def flush_asked_def on_its_way_def store_ops_defs kept_def secret_get_def attach_settled_def
      keychain_ok_def threads_ok_def List.map_filter_def split: attach_phase.splits)

lemma asked_step:
  assumes ok: "keychain_ok w" and key: "key \<in> set PERSISTENT" and a: "asked_in key v w"
    and ops: "\<And>x. op \<noteq> UiSet key x" "\<And>i p. op \<noteq> RunThread i False p"
  shows "asked_in key v (keychain_step op w)"
proof (cases op)
  case (RunThread i b p)
  with ops(2) have b: "b = True" by (cases b) auto
  show ?thesis
  proof (cases rule: run_threadE [of i b p w])
    case (2 xs t ys next_point s chain hook)
    with asked_thread [of "kw_store w" xs t ys key v "kw_chain w" p next_point s chain hook] ok key a RunThread b
    show ?thesis by (simp add: keychain_ok_def asked_in_def)
  qed (use RunThread a in simp)
next
  case UiFlush
  have "kept key v (kw_store w)" using a by (simp add: asked_in_def flush_asked_def)
  from asked_request [OF ok this] UiFlush show ?thesis by simp
next
  case UiRetry
  with a show ?thesis
    by (auto simp: asked_in_def flush_asked_def store_ops_defs kept_def secret_get_def attach_settled_def List.map_filter_def)
next
  case (UiSet key' x)
  with ops(1) have "key' \<noteq> key" by auto
  with UiSet a kept_step [OF ok _ ops(1)] show ?thesis
    by (auto simp: asked_in_def flush_asked_def secret_set_def attach_settled_def)
qed (use a kept_step [OF ok _ ops(1), of v] in \<open>auto simp: asked_in_def flush_asked_def store_ops_defs kept_def secret_get_def
      attach_settled_def Let_def split: hydrate.splits\<close>)

lemma asked_run:
  "keychain_ok w \<Longrightarrow> key \<in> set PERSISTENT \<Longrightarrow> asked_in key v w \<Longrightarrow>
     \<forall>op \<in> set ops. (\<forall>x. op \<noteq> UiSet key x) \<and> (\<forall>i p. op \<noteq> RunThread i False p) \<Longrightarrow>
     asked_in key v (store_run ops w)"
  by (induction ops arbitrary: w) (simp_all add: asked_step keychain_step_ok)

lemma store_run_ok: "keychain_ok w \<Longrightarrow> keychain_ok (store_run ops w)"
  by (induction ops arbitrary: w) (simp_all add: keychain_step_ok)

text \<open>
  C39: a flush that was asked is never lost. Once the frontend wrote a secret that is kept across
  restarts and asked for a flush, before, during or after the first read of the keychain, and
  whatever other flushes run, the keychain holds that text when the store is ready and no flush
  runs, if the calls of the keychain since then succeeded and the secret was not written again.
\<close>

theorem asked_flush_reaches_keychain:
  assumes "store_reach w" "key \<in> set PERSISTENT"
    and "\<forall>op \<in> set before. \<forall>x. op \<noteq> UiSet key x"
    and "\<forall>op \<in> set after. (\<forall>x. op \<noteq> UiSet key x) \<and> (\<forall>i p. op \<noteq> RunThread i False p)"
    and "w' = store_run (UiSet key v # before @ UiFlush # after) w"
    and "ss_phase (kw_store w') = PhReady" "\<not> ss_flush_in_flight (kw_store w')"
  shows "hm_get (kw_chain w') (os_entry (ss_scope (kw_store w')) key) = trimmed v"
proof -
  let ?u = "keychain_step (UiSet key v) w"
  let ?b = "store_run before ?u"
  have ok: "keychain_ok ?u" by (rule keychain_step_ok [OF store_reach_ok [OF assms(1)]])
  have "kept key (trimmed v) (kw_store ?u)" by (simp add: kept_set)
  with kept_run [OF ok _ assms(3)] have "kept key (trimmed v) (kw_store ?b)" .
  from asked_request [OF store_run_ok [OF ok] this]
  have "asked_in key (trimmed v) (keychain_step UiFlush ?b)" .
  from asked_run [OF keychain_step_ok [OF store_run_ok [OF ok]] assms(2) this assms(4)]
  have a: "asked_in key (trimmed v) w'" by (simp add: assms(5))
  have "keychain_ok w'" unfolding assms(5) by (rule store_run_ok [OF store_reach_ok [OF assms(1)]])
  with assms(6,7) have "flushes (kw_threads w') = []" "\<not> ss_flush_pending (kw_store w')"
    by (auto simp: keychain_ok_def threads_ok_def store_ok_def)
  with a assms(6) show ?thesis by (simp add: asked_in_def flush_asked_def on_its_way_def)
qed

text \<open>The flush is asked while the keychain is still read.\<close>

definition flush_ops :: "store_step list" where
  "flush_ops = map (\<lambda>i. RunThread 0 True ProbeAbsent) [0..<12]"

definition flushed_world :: store_world where
  "flushed_world = store_run (UiSet KeyApiId '' 7 '' # [] @ UiFlush # (attach_ops @ flush_ops))
     (store_new 1 False [(''telegram.api_id'', ''5'')])"

lemma asked_flush_reaches_keychain_witness:
  "hm_get (kw_chain flushed_world) ''telegram.api_id'' = Some ''7''"
proof -
  have ops: "\<forall>op \<in> set (attach_ops @ flush_ops). (\<forall>x. op \<noteq> UiSet KeyApiId x) \<and> (\<forall>i p. op \<noteq> RunThread i False p)"
    by (simp add: attach_ops_def flush_ops_def)
  have key: "KeyApiId \<in> set PERSISTENT" by (simp add: PERSISTENT_def)
  have "ss_phase (kw_store flushed_world) = PhReady" "\<not> ss_flush_in_flight (kw_store flushed_world)"
    "os_entry (ss_scope (kw_store flushed_world)) KeyApiId = ''telegram.api_id''" "trimmed '' 7 '' = Some ''7''"
    by code_simp+
  with asked_flush_reaches_keychain [OF store_reach.start key _ ops flushed_world_def] show ?thesis by simp
qed

section \<open>Whose entries a store writes\<close>

definition own_entries :: "nat \<Rightarrow> string set" where
  "own_entries scope = os_entry scope ` set PERSISTENT \<union> {discord_os_entry scope} \<union>
     slack_os_entry scope ` set SLACK_PERSISTENT"

lemma flush_entries:
  assumes "store_ok s" "point_ok point" "flush_step ok point s chain = (next_point, s', chain')" "name \<notin> own_entries (ss_scope s)"
  shows "hm_get chain' name = hm_get chain name"
  using assms
  by (cases "(ok, point, s, chain)" rule: flush_step.cases)
    (auto simp: own_entries_def os_write_get split: if_splits prod.splits option.splits bool.splits)

lemma thread_entries:
  assumes "store_ok s" "threads_ok (xs @ t # ys) s" "name \<notin> own_entries (ss_scope s)"
    and step: "thread_step ok p t s chain = (next_point, s', chain', hook)"
  shows "hm_get chain' name = hm_get chain name"
proof -
  have flush: ?thesis if t: "flushing t = Some point" and e: "flush_step ok point s chain = (q, s', chain')" for point q
  proof -
    have "point_ok point" using assms(2) t by (simp add: threads_ok_def List.map_filter_def)
    from flush_entries [OF assms(1) this e assms(3)] show ?thesis .
  qed
  show ?thesis
  proof (cases t)
    case (AttachFlush point)
    obtain q s1 chain1 where e: "flush_step ok point s chain = (q, s1, chain1)" by (rule prod_cases3)
    with AttachFlush step have "flush_step ok point s chain = (q, s', chain')" by simp
    then show ?thesis using flush [of point q] AttachFlush by simp
  next
    case (FlushThread point)
    obtain q s1 chain1 where e: "flush_step ok point s chain = (q, s1, chain1)" by (rule prod_cases3)
    with FlushThread step have "flush_step ok point s chain = (q, s', chain')" by simp
    then show ?thesis using flush [of point q] FlushThread by simp
  qed (use step in \<open>auto simp: split_beta Let_def split: bool.splits probe.splits if_splits prod.splits\<close>)
qed

lemma world_entries:
  assumes "store_reach w" "name \<notin> own_entries (ss_scope (kw_store w))"
  shows "hm_get (kw_chain (keychain_step op w)) name = hm_get (kw_chain w) name"
proof (cases op)
  case (RunThread i ok p)
  show ?thesis
  proof (cases rule: run_threadE [of i ok p w])
    case (2 xs t ys next_point s chain hook)
    with thread_entries [of "kw_store w" xs t ys name ok p "kw_chain w" next_point s chain hook]
      store_reach_ok [OF assms(1)] assms(2) RunThread
    show ?thesis by (simp add: keychain_ok_def)
  qed (use RunThread in simp)
qed (auto simp: split_beta Let_def split: flush_action.split prod.split)

text \<open>the secrets of accounts stay apart, and what the user types at a login never reaches the
  keychain. A store writes and deletes entries of its own account only; two accounts share the
  entries that name the app and no other; no phone number, login code or password has an entry that
  any store writes.
\<close>

theorem secrets_stay_apart:
  assumes "store_reach w" "hm_get (kw_chain (keychain_step op w)) name \<noteq> hm_get (kw_chain w) name"
  shows "name \<in> own_entries (ss_scope (kw_store w)) \<and>
    (\<forall>other. other \<noteq> ss_scope (kw_store w) \<longrightarrow> name \<in> own_entries other \<longrightarrow>
       name \<in> key_account ` {KeyApiId, KeyApiHash} \<union>
         slack_key_account ` {SlackClientId, SlackClientSecret, SlackAppToken}) \<and>
    (\<forall>key \<in> set EPHEMERAL. \<forall>scope. name \<noteq> os_entry scope key)"
proof -
  let ?scope = "ss_scope (kw_store w)"
  have own: "name \<in> own_entries ?scope" using world_entries [OF assms(1)] assms(2) by blast
  have "name \<in> key_account ` {KeyApiId, KeyApiHash} \<union> slack_key_account ` {SlackClientId, SlackClientSecret, SlackAppToken}"
    if "other \<noteq> ?scope" "name \<in> own_entries other" for other
    using own that entries_differ(2-4) entries_differ(2-4) [symmetric]
    by (auto simp: own_entries_def entries_differ(5) os_entry_def [of _ KeyApiId] os_entry_def [of _ KeyApiHash]
        slack_os_entry_def [of _ SlackClientId] slack_os_entry_def [of _ SlackClientSecret]
        slack_os_entry_def [of _ SlackAppToken] scoped_name_def dest!: entries_differ(1,6))
  moreover have "name \<noteq> os_entry scope key" if "key \<in> set EPHEMERAL" for key scope
    using own that entries_differ(2,3)
    by (auto simp: own_entries_def EPHEMERAL_def PERSISTENT_def dest!: entries_differ(1))
  ultimately show ?thesis using own by blast
qed

lemma secrets_stay_apart_witness:
  "''telegram.api_id'' \<in> own_entries 2"
proof -
  let ?w = "store_run (UiSet KeyApiId '' 7 '' # UiFlush # attach_ops @ [RunThread 0 True ProbeAbsent])
     (store_new 2 False [(''telegram.api_id'', ''5'')])"
  have run: "store_reach w \<Longrightarrow> store_reach (store_run ops w)" for ops w
    by (induction ops arbitrary: w) (simp_all add: store_reach.step)
  have "hm_get (kw_chain (keychain_step (RunThread 0 True ProbeAbsent) ?w)) ''telegram.api_id'' \<noteq>
      hm_get (kw_chain ?w) ''telegram.api_id''" "ss_scope (kw_store ?w) = 2"
    by code_simp+
  with secrets_stay_apart [OF run [OF store_reach.start]] show ?thesis by metis
qed

section \<open>Two ways to lose a token\<close>

text \<open>
  The header of the file says that a late read of the keychain cannot overwrite what the frontend
  wrote. For the Telegram secrets this is \<open>last_write_is_read\<close>, as the store turns ready and takes
  their values under one lock. The Discord token follows under a lock of its own: a flush that runs in
  between clears the mark of the new token, and the attach then puts the old one back into memory,
  while the keychain holds the new one.
\<close>

lemma discord_token_overwritten:
  "let w = store_run (take 3 attach_ops @ [UiDiscord ''new'', UiFlush] @ replicate 8 (RunThread 1 True ProbeAbsent) @
       [RunThread 0 True ProbeAbsent]) (store_new 1 False [(''discord.bot_token#1'', ''old'')])
   in ss_discord_token (kw_store w) = Some ''old'' \<and> hm_get (kw_chain w) ''discord.bot_token#1'' = Some ''new''"
  by code_simp

text \<open>
  When the reads of Telegram and Discord fail and that of Slack does not, the attach counts as failed
  and Try again is offered, but the wait of the Discord reconnect is over: the read that then succeeds
  finds the token, and the reconnect never runs.
\<close>

lemma discord_reconnect_lost:
  "let w = store_run ([UiDiscordHook 9, RunThread 0 True ProbeAbsent, RunThread 0 True (ProbeOk NativeStore False False True)] @
       replicate 5 (RunThread 0 True ProbeAbsent) @ [UiRetry] @ attach_ops @ replicate 2 (RunThread 0 True ProbeAbsent))
       (store_new 1 False [(''discord.bot_token#1'', ''t'')])
   in ss_discord_token (kw_store w) = Some ''t'' \<and> attach_settled (kw_store w) \<and> kw_threads w = [] \<and> kw_hooks w = []"
  by code_simp

end
