(* ===== verification/Shell.thy ===== *)
theory Shell
  imports Commands Sends Retained Secrets
begin

text \<open>
  The state of the shell (\<open>Snapshot\<close> of \<open>crates/thinwire-core/src/state.rs\<close>): its data and its
  plain queries. The record has every field of the struct but the test hook
  \<open>hidden_for_test\<close>; the fields that exist only in a build with \<open>whatsapp-web\<close> or
  \<open>signal-local\<close> stay as they start without the feature. A hash map is an association list, a hash set a set. The cargo features of a build are an argument
  \<open>built\<close>, true for the protocols whose feature is on.
\<close>

section \<open>Helpers on containers\<close>

text \<open>\<open>iter_mut().find(P)\<close> with a change of the element found.\<close>

fun update_first :: "('a \<Rightarrow> bool) \<Rightarrow> ('a \<Rightarrow> 'a) \<Rightarrow> 'a list \<Rightarrow> 'a list" where
  "update_first P f [] = []"
| "update_first P f (x # xs) = (if P x then f x # xs else x # update_first P f xs)"

abbreviation hm_modify :: "'k \<Rightarrow> ('v \<Rightarrow> 'v) \<Rightarrow> ('k \<times> 'v) list \<Rightarrow> ('k \<times> 'v) list" where
  "hm_modify \<equiv> AList.map_entry"

text \<open>\<open>entry(k).or_insert(d)\<close> with a change of the value.\<close>

definition hm_entry :: "'k \<Rightarrow> 'v \<Rightarrow> ('v \<Rightarrow> 'v) \<Rightarrow> ('k \<times> 'v) list \<Rightarrow> ('k \<times> 'v) list" where
  "hm_entry k d f m = hm_insert k (f (case hm_get m k of Some v \<Rightarrow> v | None \<Rightarrow> d)) m"

section \<open>Data\<close>

record user_error =
  ue_happened :: string
  ue_why :: string
  ue_next :: string

datatype retained_read = Readable | Unreadable

record account_row =
  ar_caps :: protocol_capabilities
  ar_status :: adapter_status
  ar_detail :: string
  ar_state :: account_state
  ar_helper :: "helper_state option"
  ar_signal_retained :: "nat option"
  ar_store_access :: "store_access_reason option"
  ar_retained_read :: retained_read

definition row_linked :: "account_row \<Rightarrow> bool" where
  "row_linked row \<longleftrightarrow> ar_state row = Linked"

definition history_unreadable :: "account_row \<Rightarrow> bool" where
  "history_unreadable row \<longleftrightarrow> ar_signal_retained row \<noteq> None \<and> ar_retained_read row = Unreadable"

datatype auth_screen =
  AuthIdle | NeedCredentials | TelegramApi | TelegramConnecting | TelegramPhone | TelegramCode | Telegram2fa

datatype whatsapp_screen = WaHidden | WaRiskGate | WaPair

datatype signal_screen = SigHidden | SigNotice | SigLink

datatype resume = Waiting | ResumeConnecting | Settled

datatype center_view = CenterAuth | Resuming bool | FirstRun | KeychainFailed | CenterThread

record timed_out =
  tm_protocol :: protocol_id
  tm_chat :: string
  tm_request :: u64
  tm_retry :: bool
  tm_topic :: "message_topic option"

record rejected_body =
  rb_compose :: "string option"
  rb_row :: "string option"
  rb_topic :: "message_topic option"

record edit_target =
  et_protocol :: protocol_id
  et_conversation_id :: string
  et_topic :: "message_topic option"
  et_message_id :: string
  et_draft :: string

record reply_target =
  rt_protocol :: protocol_id
  rt_conversation_id :: string
  rt_topic :: "message_topic option"
  rt_message_id :: string

record telegram_hold =
  th_request :: u64
  th_chat :: string
  th_at :: instant
  th_message_id :: "string option"
  th_retry :: bool

record telegram_queued_id =
  tq_request :: u64
  tq_chat :: string
  tq_message_id :: string

datatype telegram_send_end = EndRequest u64 | EndExpired instant | EndAll

record unreadable_run =
  ur_before_id :: "string option"
  ur_skipped :: u32

record open_unreadable =
  ou_before_id :: "string option"
  ou_skipped :: u32

type_synonym thread = "protocol_id \<times> string \<times> message_topic option"

definition thread_key :: "protocol_id \<Rightarrow> string \<Rightarrow> message_topic option \<Rightarrow> thread" where
  "thread_key protocol chat topic = (protocol, chat, topic)"

definition older_key :: "protocol_id \<Rightarrow> string \<Rightarrow> message_topic option \<Rightarrow> thread" where
  "older_key protocol chat topic = thread_key protocol chat topic"

text \<open>The anchor, when it was asked, and how many times it brought nothing.\<close>

type_synonym older_retry = "string \<times> instant \<times> u32"

section \<open>The snapshot\<close>

record snapshot =
  sn_accounts :: "account_row list"
  sn_conversations :: "(protocol_id \<times> conversation list) list"
  sn_messages :: "(thread \<times> chat_message list) list"
  sn_topics :: "((protocol_id \<times> string) \<times> chat_topic list) list"
  sn_selected_protocol :: protocol_id
  sn_selected_conversation :: "string option"
  sn_selected_topic :: "message_topic option"
  sn_focused_row :: "string option"
  sn_search :: string
  sn_auth :: auth_screen
  sn_status_text :: string
  sn_failure_status :: "string option"
  sn_error :: "user_error option"
  sn_telegram_send_unconfirmed :: "telegram_hold list"
  sn_telegram_unbound_messages :: "telegram_queued_id list"
  sn_outbox_read :: "((protocol_id \<times> string) \<times> i64) list"
  sn_compose :: string
  sn_telegram_authorized :: bool
  sn_resume :: resume
  sn_keychain_failed :: bool
  sn_keychain_retry :: bool
  sn_chat_list_loading :: "protocol_id set"
  sn_history_loading :: "(protocol_id \<times> string) set"
  sn_viewed :: "thread option"
  sn_window_focused :: bool
  sn_timed_out :: "timed_out list"
  sn_timeout_error :: "user_error option"
  sn_open_on_link :: "(protocol_id \<times> string) option"
  sn_sessions :: "protocol_id set"
  sn_extra_visible :: "protocol_id set"
  sn_older_loading :: "thread set"
  sn_list_on_link :: "protocol_id set"
  sn_notices :: "(protocol_id \<times> string) list"
  sn_stopped :: "protocol_id set"
  sn_ended_accounts :: "protocol_id list"
  sn_older_at_start :: "thread set"
  sn_older_retry :: "(thread \<times> older_retry) list"
  sn_older_note :: "thread set"
  sn_unreadable :: "(thread \<times> unreadable_run list) list"
  sn_open_unreadable :: "(thread \<times> open_unreadable) list"
  sn_history_resume :: "(thread \<times> u64) list"
  sn_history_asked :: "(thread \<times> u64) list"
  sn_scroll_to_selected :: bool
  sn_scroll_to_focused :: bool
  sn_seen_visible_ids :: "string list"
  sn_drafts :: "(thread \<times> string) list"
  sn_replying :: "reply_target option"
  sn_editing :: "edit_target option"
  sn_attachments :: "(thread \<times> outgoing_file list) list"
  sn_attachment_note :: "string option"
  sn_rejected_bodies :: "((protocol_id \<times> string) \<times> rejected_body) list"
  sn_focus_compose :: bool
  sn_sends :: send_tracker
  sn_pending :: "adapter_command list"
  sn_photo_downloads :: "(protocol_id \<times> i32) set"
  sn_file_downloads :: "(protocol_id \<times> i32) set"
  sn_telegram_login_account :: protocol_id
  sn_whatsapp_link_account :: protocol_id
  sn_signal_link_account :: protocol_id
  sn_selected_signal_retained :: "nat option"
  sn_retained_publish :: "nat set option"
  sn_notice_review :: "protocol_id option"
  sn_telegram_api_id :: string
  sn_telegram_api_hash :: string
  sn_telegram_phone :: string
  sn_telegram_code :: string
  sn_telegram_2fa :: string
  sn_ready_status :: "string option"
  sn_auth_busy :: bool
  sn_auth_notice :: "string option"
  sn_auth_rejection :: "telegram_auth_error option"
  sn_code_via :: "telegram_code_via option"
  sn_keychain_wait_started :: "instant option"
  sn_store_key_retry_due :: bool
  sn_app_keychain_ready :: bool
  sn_next_pairing_generation :: u64
  sn_pairing_generation :: "(protocol_id \<times> u64) list"
  sn_data_reset :: "string option"
  sn_api_source :: telegram_api_source
  sn_keychain_flush :: bool
  sn_helper_errors :: "(protocol_id \<times> user_error) list"
  sn_whatsapp_screen :: whatsapp_screen
  sn_whatsapp_phone :: string
  sn_whatsapp_phone_note :: "string option"
  sn_whatsapp_qr :: "string option"
  sn_whatsapp_pair_code :: "string option"
  sn_whatsapp_qr_exhausted :: bool
  sn_whatsapp_started :: bool
  sn_whatsapp_risk_acknowledged :: bool
  sn_signal_screen :: signal_screen
  sn_signal_qr :: "string option"
  sn_signal_started :: bool
  sn_signal_inbox_open :: bool
  sn_signal_notice_acknowledged :: bool
  sn_signal_notice_forget :: bool
  sn_signal_removed :: bool
  sn_signal_checking :: bool

definition snapshot_new :: "telegram_api_source \<Rightarrow> protocol_capabilities list \<Rightarrow> snapshot" where
  "snapshot_new source catalog = \<lparr>
     sn_accounts = map (\<lambda>caps. \<lparr>ar_caps = caps, ar_status = Stubbed, ar_detail = cap_detail caps,
       ar_state = Unlinked, ar_helper = None, ar_signal_retained = None, ar_store_access = None,
       ar_retained_read = Readable\<rparr>) catalog,
     sn_conversations = [], sn_messages = [], sn_topics = [], sn_selected_protocol = primary Telegram,
     sn_selected_conversation = None, sn_selected_topic = None, sn_focused_row = None, sn_search = [],
     sn_auth = AuthIdle, sn_status_text = ''Sign in with Telegram to get started.'',
     sn_failure_status = None, sn_error = None, sn_telegram_send_unconfirmed = [],
     sn_telegram_unbound_messages = [], sn_outbox_read = [], sn_compose = [],
     sn_telegram_authorized = False, sn_resume = Waiting, sn_keychain_failed = False,
     sn_keychain_retry = False, sn_chat_list_loading = {}, sn_history_loading = {}, sn_viewed = None,
     sn_window_focused = True, sn_timed_out = [], sn_timeout_error = None, sn_open_on_link = None,
     sn_sessions = {}, sn_extra_visible = {}, sn_older_loading = {}, sn_list_on_link = {}, sn_notices = [],
     sn_stopped = {}, sn_ended_accounts = [], sn_older_at_start = {}, sn_older_retry = [],
     sn_older_note = {}, sn_unreadable = [], sn_open_unreadable = [], sn_history_resume = [],
     sn_history_asked = [], sn_scroll_to_selected = False, sn_scroll_to_focused = False,
     sn_seen_visible_ids = [], sn_drafts = [], sn_replying = None, sn_editing = None, sn_attachments = [],
     sn_attachment_note = None, sn_rejected_bodies = [], sn_focus_compose = False,
     sn_sends = tracker_default, sn_pending = [], sn_photo_downloads = {}, sn_file_downloads = {},
     sn_telegram_login_account = primary Telegram, sn_whatsapp_link_account = primary WhatsApp,
     sn_signal_link_account = primary Signal, sn_selected_signal_retained = None, sn_retained_publish = None,
     sn_notice_review = None, sn_telegram_api_id = [], sn_telegram_api_hash = [], sn_telegram_phone = [],
     sn_telegram_code = [], sn_telegram_2fa = [], sn_ready_status = None, sn_auth_busy = False,
     sn_auth_notice = None, sn_auth_rejection = None, sn_code_via = None, sn_keychain_wait_started = None,
     sn_store_key_retry_due = False, sn_app_keychain_ready = False, sn_next_pairing_generation = 1,
     sn_pairing_generation = [], sn_data_reset = None, sn_api_source = source, sn_keychain_flush = False,
     sn_helper_errors = [], sn_whatsapp_screen = WaHidden, sn_whatsapp_phone = [],
     sn_whatsapp_phone_note = None, sn_whatsapp_qr = None, sn_whatsapp_pair_code = None,
     sn_whatsapp_qr_exhausted = False, sn_whatsapp_started = False, sn_whatsapp_risk_acknowledged = False,
     sn_signal_screen = SigHidden, sn_signal_qr = None, sn_signal_started = False,
     sn_signal_inbox_open = False, sn_signal_notice_acknowledged = False, sn_signal_notice_forget = False,
     sn_signal_removed = False, sn_signal_checking = False\<rparr>"

definition demo_source :: telegram_api_source where
  "demo_source = \<lparr>ts_publisher_id = None, ts_publisher_hash = None\<rparr>"

section \<open>Queries\<close>

definition protocol_linked :: "protocol_id \<Rightarrow> snapshot \<Rightarrow> bool" where
  "protocol_linked protocol s \<longleftrightarrow>
     list_ex (\<lambda>row. cap_id (ar_caps row) = protocol \<and> row_linked row) (sn_accounts s)"

definition has_session :: "protocol_id \<Rightarrow> snapshot \<Rightarrow> bool" where
  "has_session protocol s \<longleftrightarrow> protocol_linked protocol s \<or> protocol \<in> sn_sessions s"

definition protocol_chrome_enabled :: "(protocol_kind \<Rightarrow> bool) \<Rightarrow> protocol_id \<Rightarrow> bool" where
  "protocol_chrome_enabled built protocol \<longleftrightarrow> pid_kind protocol = Telegram \<or> built (pid_kind protocol)"

definition account_surface_visible :: "(protocol_kind \<Rightarrow> bool) \<Rightarrow> protocol_id \<Rightarrow> snapshot \<Rightarrow> bool" where
  "account_surface_visible built protocol s \<longleftrightarrow>
     protocol \<in> sn_extra_visible s \<or> protocol_chrome_enabled built protocol"

definition any_linked :: "(protocol_kind \<Rightarrow> bool) \<Rightarrow> snapshot \<Rightarrow> bool" where
  "any_linked built s \<longleftrightarrow>
     list_ex (\<lambda>row. has_session (cap_id (ar_caps row)) s \<and>
       account_surface_visible built (cap_id (ar_caps row)) s) (sn_accounts s)"

text \<open>\<open>tdlib\<close>: the build has TDLib.\<close>

definition center_view :: "(protocol_kind \<Rightarrow> bool) \<Rightarrow> bool \<Rightarrow> snapshot \<Rightarrow> center_view" where
  "center_view built tdlib s =
     (if sn_auth s \<noteq> AuthIdle then CenterAuth
      else if any_linked built s \<or> sn_selected_signal_retained s \<noteq> None then CenterThread
      else if sn_keychain_failed s \<and> \<not> sn_keychain_retry s then KeychainFailed
      else case sn_resume s of
          Waiting \<Rightarrow> if tdlib then Resuming False else FirstRun
        | ResumeConnecting \<Rightarrow> Resuming True
        | Settled \<Rightarrow> FirstRun)"

definition conversation_rows :: "protocol_id \<Rightarrow> snapshot \<Rightarrow> conversation list" where
  "conversation_rows protocol s = (case hm_get (sn_conversations s) protocol of Some rows \<Rightarrow> rows | None \<Rightarrow> [])"

definition find_conversation :: "protocol_id \<Rightarrow> string \<Rightarrow> snapshot \<Rightarrow> conversation option" where
  "find_conversation protocol i s = find (\<lambda>row. cv_id row = i) (conversation_rows protocol s)"

definition selected_conversation_row :: "snapshot \<Rightarrow> conversation option" where
  "selected_conversation_row s =
     (case sn_selected_conversation s of
        None \<Rightarrow> None
      | Some i \<Rightarrow> find_conversation (sn_selected_protocol s) i s)"

definition chat_title :: "protocol_id \<Rightarrow> string \<Rightarrow> snapshot \<Rightarrow> string" where
  "chat_title protocol chat s =
     (case find_conversation protocol chat s of Some row \<Rightarrow> cv_title row | None \<Rightarrow> chat)"

definition topic_row :: "protocol_id \<Rightarrow> string \<Rightarrow> message_topic \<Rightarrow> snapshot \<Rightarrow> chat_topic option" where
  "topic_row protocol conversation_id topic s =
     (case hm_get (sn_topics s) (protocol, conversation_id) of
        None \<Rightarrow> None
      | Some rows \<Rightarrow> find (\<lambda>row. tp_topic row = topic) rows)"

definition selected_topic_row :: "snapshot \<Rightarrow> chat_topic option" where
  "selected_topic_row s =
     (case (sn_selected_conversation s, sn_selected_topic s) of
        (Some i, Some topic) \<Rightarrow> topic_row (sn_selected_protocol s) i topic s
      | _ \<Rightarrow> None)"

definition is_selected_chat :: "protocol_id \<Rightarrow> string \<Rightarrow> snapshot \<Rightarrow> bool" where
  "is_selected_chat protocol chat s \<longleftrightarrow>
     sn_selected_protocol s = protocol \<and> sn_selected_conversation s = Some chat"

definition is_selected_thread :: "protocol_id \<Rightarrow> string \<Rightarrow> message_topic option \<Rightarrow> snapshot \<Rightarrow> bool" where
  "is_selected_thread protocol chat topic s \<longleftrightarrow>
     is_selected_chat protocol chat s \<and> sn_selected_topic s = topic"

definition thread_rows :: "thread \<Rightarrow> snapshot \<Rightarrow> chat_message list" where
  "thread_rows key s = (case hm_get (sn_messages s) key of Some rows \<Rightarrow> rows | None \<Rightarrow> [])"

definition selected_messages :: "snapshot \<Rightarrow> chat_message list" where
  "selected_messages s =
     (case sn_selected_conversation s of
        None \<Rightarrow> []
      | Some i \<Rightarrow> thread_rows (thread_key (sn_selected_protocol s) i (sn_selected_topic s)) s)"

definition linked_with :: "protocol_id \<Rightarrow> (protocol_capabilities \<Rightarrow> bool) \<Rightarrow> snapshot \<Rightarrow> bool" where
  "linked_with protocol can s \<longleftrightarrow>
     list_ex (\<lambda>row. cap_id (ar_caps row) = protocol \<and> row_linked row \<and> can (ar_caps row)) (sn_accounts s)"

definition sends_media :: "protocol_id \<Rightarrow> snapshot \<Rightarrow> bool" where
  "sends_media protocol s = linked_with protocol cap_sends_media s"

definition no_actions :: message_actions where
  "no_actions = \<lparr>act_reply = False, act_react = False, act_delete_for_me = False,
     act_delete_for_everyone = False, act_one_reaction = False, act_edit = False\<rparr>"

definition shell_actions :: "protocol_id \<Rightarrow> snapshot \<Rightarrow> message_actions" where
  "shell_actions protocol s =
     (case find (\<lambda>row. cap_id (ar_caps row) = protocol \<and> row_linked row) (sn_accounts s) of
        Some row \<Rightarrow> cap_actions (ar_caps row)
      | None \<Rightarrow> no_actions)"

definition compose_attachments :: "snapshot \<Rightarrow> outgoing_file list" where
  "compose_attachments s =
     (case sn_selected_conversation s of
        None \<Rightarrow> []
      | Some chat \<Rightarrow>
          (case hm_get (sn_attachments s) (sn_selected_protocol s, chat, sn_selected_topic s) of
             Some tray \<Rightarrow> tray
           | None \<Rightarrow> []))"

section \<open>Commands and errors\<close>

fun flow_account :: "adapter_command \<Rightarrow> snapshot \<Rightarrow> protocol_id option" where
  "flow_account (CmdTelegramAuth _ _) s = Some (sn_telegram_login_account s)"
| "flow_account CmdWhatsAppAcknowledgeRisk s = Some (sn_whatsapp_link_account s)"
| "flow_account (CmdWhatsAppBeginLink _) s = Some (sn_whatsapp_link_account s)"
| "flow_account CmdWhatsAppCancelLink s = Some (sn_whatsapp_link_account s)"
| "flow_account CmdSignalAcknowledgeNotice s = Some (sn_signal_link_account s)"
| "flow_account (CmdSignalBeginLink _) s = Some (sn_signal_link_account s)"
| "flow_account CmdSignalCancelLink s = Some (sn_signal_link_account s)"
| "flow_account _ s = None"

definition push_command :: "adapter_command \<Rightarrow> snapshot \<Rightarrow> snapshot" where
  "push_command c s =
     s\<lparr>sn_pending := sn_pending s @
         [case flow_account c s of Some a \<Rightarrow> cmd_for_account c a | None \<Rightarrow> c]\<rparr>"

definition take_shell_commands :: "snapshot \<Rightarrow> adapter_command list \<times> snapshot" where
  "take_shell_commands s = (sn_pending s, s\<lparr>sn_pending := []\<rparr>)"

definition set_error :: "string \<Rightarrow> string \<Rightarrow> string \<Rightarrow> snapshot \<Rightarrow> snapshot" where
  "set_error happened why next_step s =
     s\<lparr>sn_error := Some \<lparr>ue_happened = happened, ue_why = why, ue_next = next_step\<rparr>\<rparr>"

section \<open>Facts about the containers\<close>

lemma map_update_first: "(\<And>x. g (f x) = g x) \<Longrightarrow> map g (update_first P f xs) = map g xs"
  by (induction xs) auto

lemma set_update_first: "set (update_first P f xs) \<subseteq> set xs \<union> f ` set xs"
  by (induction xs) auto

lemma update_first_mem: "y \<in> set (update_first P f xs) \<Longrightarrow> y \<in> set xs \<or> (\<exists>x \<in> set xs. P x \<and> y = f x)"
  by (induction xs) (auto split: if_splits)

lemma find_update_first:
  "(\<And>x. P (f x) = P x) \<Longrightarrow> find P (update_first P f xs) = map_option f (find P xs)"
  by (induction xs) auto

lemma find_update_first_other:
  "(\<And>x. P x \<Longrightarrow> \<not> Q x \<and> \<not> Q (f x)) \<Longrightarrow> find Q (update_first P f xs) = find Q xs"
  by (induction xs) auto

lemma update_first_none: "\<not> list_ex P xs \<Longrightarrow> update_first P f xs = xs"
  by (induction xs) auto

lemma hm_get_modify [simp]:
  "hm_get (hm_modify k f m) k' = (if k' = k then map_option f (hm_get m k) else hm_get m k')"
  by (auto simp: map_of_map_entry split: option.splits)

lemma hm_get_insert [simp]: "hm_get (hm_insert k v m) k' = (if k' = k then Some v else hm_get m k')"
  by (simp add: update_conv')

lemma hm_get_remove [simp]: "hm_get (hm_remove k m) k' = (if k' = k then None else hm_get m k')"
  by (simp add: delete_conv')

lemma hm_get_entry [simp]:
  "hm_get (hm_entry k d f m) k' =
     (if k' = k then Some (f (case hm_get m k of Some v \<Rightarrow> v | None \<Rightarrow> d)) else hm_get m k')"
  by (simp add: hm_entry_def)

lemma hm_get_filter_keys: "hm_get (filter (\<lambda>(k, _). P k) m) k = (if P k then hm_get m k else None)"
  by (induction m) (auto split: prod.splits)

lemma hm_ok_modify [simp]: "hm_ok (hm_modify k f m) = hm_ok m"
  by (induction m) (auto simp: hm_ok_def dom_map_entry)

lemma hm_ok_entry [simp]: "hm_ok m \<Longrightarrow> hm_ok (hm_entry k d f m)"
  by (simp add: hm_entry_def hm.ok_insert)

lemma flow_account_field: "snd (set_protocol a c) \<Longrightarrow> flow_account c s = None"
  by (cases c) simp_all

lemma selected_threadD:
  "is_selected_thread p c t s \<Longrightarrow>
     sn_selected_protocol s = p \<and> sn_selected_conversation s = Some c \<and> sn_selected_topic s = t"
  by (simp add: is_selected_thread_def is_selected_chat_def)

lemma push_command_plain:
  "flow_account c s = None \<Longrightarrow> push_command c s = s\<lparr>sn_pending := sn_pending s @ [c]\<rparr>"
  by (simp add: push_command_def)

end
