(* ===== verification/Shell_Messages.thy ===== *)
theory Shell_Messages
  imports Shell
begin

text \<open>
  The messages of the shell (\<open>crates/thinwire-core/src/state.rs\<close>): the lists per thread, what each
  message event does to them, the read cursor of the outgoing messages, and the Telegram sends that
  wait for their own end, which the messages release. Whatever the events, a thread stays sorted,
  names a message once, and shows no outgoing message as only sent below the read cursor.
\<close>

section \<open>Ids\<close>

definition in_i64 :: "int \<Rightarrow> bool" where
  "in_i64 n \<longleftrightarrow> - (2 ^ 63) \<le> n \<and> n < 2 ^ 63"

text \<open>\<open>str::parse::<i64>\<close>.\<close>

definition parse_i64 :: "string \<Rightarrow> i64 option" where
  "parse_i64 s =
     (let (negative, body) =
        (case s of [] \<Rightarrow> (False, [])
         | c # r \<Rightarrow> if c = CHR ''-'' then (True, r) else if c = CHR ''+'' then (False, r) else (False, s))
      in if body = [] then None
         else case parse_digits 0 body of
             None \<Rightarrow> None
           | Some n \<Rightarrow> let v = (if negative then - int n else int n) in if in_i64 v then Some v else None)"

definition message_number :: "string \<Rightarrow> i64 option" where
  "message_number i =
     (case rsplit_once (CHR '':'') i of
        None \<Rightarrow> None
      | Some (_, number) \<Rightarrow>
          if number = [] \<or> starts_with ''+'' number then None else parse_i64 number)"

definition message_rank :: "string \<Rightarrow> i64" where
  "message_rank i =
     (let part = (case rsplit_once (CHR '':'') i of Some (_, part) \<Rightarrow> part | None \<Rightarrow> i)
      in case parse_i64 part of Some n \<Rightarrow> n | None \<Rightarrow> 0)"

definition sort_messages :: "chat_message list \<Rightarrow> chat_message list" where
  "sort_messages rows = sort_key (\<lambda>row. (cm_sent_at row, message_rank (cm_id row))) rows"

section \<open>Where a message is\<close>

definition message_bucket :: "protocol_id \<Rightarrow> string \<Rightarrow> string \<Rightarrow> snapshot \<Rightarrow> thread option" where
  "message_bucket protocol conversation_id message_id s =
     map_option fst
       (find (\<lambda>((p, c, _), rows). p = protocol \<and> c = conversation_id \<and>
                list_ex (\<lambda>row. cm_id row = message_id) rows) (sn_messages s))"

definition find_message :: "protocol_id \<Rightarrow> string \<Rightarrow> string \<Rightarrow> snapshot \<Rightarrow> chat_message option" where
  "find_message protocol conversation_id message_id s =
     (case message_bucket protocol conversation_id message_id s of
        None \<Rightarrow> None
      | Some key \<Rightarrow> find (\<lambda>row. cm_id row = message_id) (thread_rows key s))"

definition delivery_of :: "protocol_id \<Rightarrow> string \<Rightarrow> string \<Rightarrow> snapshot \<Rightarrow> delivery option" where
  "delivery_of protocol conversation_id message_id s =
     map_option cm_delivery (find_message protocol conversation_id message_id s)"

definition message_body :: "protocol_id \<Rightarrow> string \<Rightarrow> string \<Rightarrow> snapshot \<Rightarrow> string option" where
  "message_body protocol chat message_id s =
     map_option (\<lambda>row. trim (cm_body row)) (find_message protocol chat message_id s)"

definition message_is_loaded :: "protocol_id \<Rightarrow> string \<Rightarrow> message_topic option \<Rightarrow> string \<Rightarrow> snapshot \<Rightarrow> bool" where
  "message_is_loaded protocol chat topic i s \<longleftrightarrow>
     list_ex (\<lambda>row. cm_id row = i) (thread_rows (thread_key protocol chat topic) s)"

definition oldest_message_id :: "protocol_id \<Rightarrow> string \<Rightarrow> message_topic option \<Rightarrow> snapshot \<Rightarrow> string option" where
  "oldest_message_id protocol chat topic s =
     (case thread_rows (thread_key protocol chat topic) s of [] \<Rightarrow> None | row # _ \<Rightarrow> Some (cm_id row))"

text \<open>\<open>message_mut\<close> with a change of the message found.\<close>

definition change_message ::
    "protocol_id \<Rightarrow> string \<Rightarrow> string \<Rightarrow> (chat_message \<Rightarrow> chat_message) \<Rightarrow> snapshot \<Rightarrow> snapshot" where
  "change_message protocol conversation_id message_id f s =
     (case message_bucket protocol conversation_id message_id s of
        None \<Rightarrow> s
      | Some key \<Rightarrow>
          s\<lparr>sn_messages := hm_modify key (update_first (\<lambda>row. cm_id row = message_id) f) (sn_messages s)\<rparr>)"

section \<open>Telegram sends that wait for their end\<close>

definition end_telegram_send :: "protocol_id \<Rightarrow> telegram_send_end \<Rightarrow> snapshot \<Rightarrow> snapshot" where
  "end_telegram_send protocol how s =
     (if \<not> pid_is protocol Telegram then s
      else case how of
          EndRequest request \<Rightarrow>
            s\<lparr>sn_telegram_send_unconfirmed :=
                filter (\<lambda>hold. th_request hold \<noteq> request) (sn_telegram_send_unconfirmed s)\<rparr>
        | EndExpired now \<Rightarrow>
            s\<lparr>sn_telegram_send_unconfirmed :=
                filter (\<lambda>hold. now - th_at hold < SEND_TIMEOUT) (sn_telegram_send_unconfirmed s)\<rparr>
        | EndAll \<Rightarrow> s\<lparr>sn_telegram_send_unconfirmed := [], sn_telegram_unbound_messages := []\<rparr>)"

definition release_telegram_for_message :: "string \<Rightarrow> snapshot \<Rightarrow> snapshot" where
  "release_telegram_for_message message_id s =
     (case find (\<lambda>hold. th_message_id hold = Some message_id) (sn_telegram_send_unconfirmed s) of
        None \<Rightarrow> s
      | Some hold \<Rightarrow> end_telegram_send (primary Telegram) (EndRequest (th_request hold)) s)"

definition hold_telegram_send_line ::
    "protocol_id \<Rightarrow> string \<Rightarrow> u64 \<Rightarrow> bool \<Rightarrow> instant \<Rightarrow> snapshot \<Rightarrow> snapshot" where
  "hold_telegram_send_line protocol chat request retry now s =
     (if \<not> pid_is protocol Telegram then s
      else
        let mine = (\<lambda>row. tq_request row = request \<and> tq_chat row = chat);
            found = find mine (sn_telegram_unbound_messages s);
            rest = (case found of None \<Rightarrow> sn_telegram_unbound_messages s
                    | Some _ \<Rightarrow> takeWhile (\<lambda>row. \<not> mine row) (sn_telegram_unbound_messages s) @
                        tl (dropWhile (\<lambda>row. \<not> mine row) (sn_telegram_unbound_messages s)))
        in s\<lparr>sn_telegram_unbound_messages := rest,
             sn_telegram_send_unconfirmed := sn_telegram_send_unconfirmed s @
               [\<lparr>th_request = request, th_chat = chat, th_at = now,
                 th_message_id = map_option tq_message_id found, th_retry = retry\<rparr>]\<rparr>)"

definition rebind_telegram_message :: "string \<Rightarrow> string \<Rightarrow> snapshot \<Rightarrow> bool \<times> snapshot" where
  "rebind_telegram_message old_id new_id s =
     (if list_ex (\<lambda>hold. th_message_id hold = Some old_id) (sn_telegram_send_unconfirmed s)
      then (True, s\<lparr>sn_telegram_send_unconfirmed :=
              update_first (\<lambda>hold. th_message_id hold = Some old_id)
                (\<lambda>hold. hold\<lparr>th_message_id := Some new_id\<rparr>) (sn_telegram_send_unconfirmed s)\<rparr>)
      else if list_ex (\<lambda>row. tq_message_id row = old_id) (sn_telegram_unbound_messages s)
      then (True, s\<lparr>sn_telegram_unbound_messages :=
              update_first (\<lambda>row. tq_message_id row = old_id)
                (\<lambda>row. row\<lparr>tq_message_id := new_id\<rparr>) (sn_telegram_unbound_messages s)\<rparr>)
      else (False, s))"

definition prune_unbound_telegram_messages :: "snapshot \<Rightarrow> snapshot" where
  "prune_unbound_telegram_messages s =
     s\<lparr>sn_telegram_unbound_messages :=
         filter (\<lambda>row. tracks (primary Telegram) (tq_request row) (sn_sends s)) (sn_telegram_unbound_messages s)\<rparr>"

definition note_telegram_pending :: "chat_message \<Rightarrow> snapshot \<Rightarrow> snapshot" where
  "note_telegram_pending message s =
     (let chat = cm_conversation_id message in
      case request_of (cm_protocol message) chat (sn_sends s) of
        Some request \<Rightarrow>
          if list_ex (\<lambda>row. tq_request row = request) (sn_telegram_unbound_messages s)
          then s\<lparr>sn_telegram_unbound_messages :=
                 update_first (\<lambda>row. tq_request row = request)
                   (\<lambda>row. row\<lparr>tq_message_id := cm_id message\<rparr>) (sn_telegram_unbound_messages s)\<rparr>
          else s\<lparr>sn_telegram_unbound_messages := sn_telegram_unbound_messages s @
                 [\<lparr>tq_request = request, tq_chat = chat, tq_message_id = cm_id message\<rparr>]\<rparr>
      | None \<Rightarrow>
          let unbound = (\<lambda>hold. th_chat hold = chat \<and> th_message_id hold = None) in
          if length (filter unbound (sn_telegram_send_unconfirmed s)) = 1
          then s\<lparr>sn_telegram_send_unconfirmed :=
                 update_first unbound (\<lambda>hold. hold\<lparr>th_message_id := Some (cm_id message)\<rparr>)
                   (sn_telegram_send_unconfirmed s)\<rparr>
          else s)"

definition observe_telegram_message :: "chat_message \<Rightarrow> string option \<Rightarrow> snapshot \<Rightarrow> snapshot" where
  "observe_telegram_message message replaced s =
     (if \<not> pid_is (cm_protocol message) Telegram \<or> \<not> cm_outbound message then s
      else if cm_delivery message = Pending
      then (let (rebound, s) =
              (case replaced of None \<Rightarrow> (False, s)
               | Some old_id \<Rightarrow> rebind_telegram_message old_id (cm_id message) s)
            in if rebound then s else note_telegram_pending message s)
      else (let s = (case replaced of None \<Rightarrow> s | Some old_id \<Rightarrow> release_telegram_for_message old_id s)
            in release_telegram_for_message (cm_id message) s))"

section \<open>Deliveries\<close>

definition note_delivery :: "delivery option \<Rightarrow> chat_message \<Rightarrow> snapshot \<Rightarrow> snapshot" where
  "note_delivery before message s =
     (if \<not> cm_outbound message \<or> cm_delivery message \<noteq> Failed \<or> before \<noteq> Some Pending then s
      else
        let s = release_telegram_for_message (cm_id message) s;
            s = (if is_selected_thread (cm_protocol message) (cm_conversation_id message) (cm_topic message) s
                 then (if trim (sn_compose s) = [] then s\<lparr>sn_compose := cm_body message\<rparr> else s)
                 else s\<lparr>sn_drafts := hm_entry
                        (cm_protocol message, cm_conversation_id message, cm_topic message)
                        (cm_body message) (\<lambda>draft. draft) (sn_drafts s)\<rparr>)
        in set_error ''Message not sent.''
             (kind_display_name (pid_kind (cm_protocol message)) @ '' did not accept the message.'')
             ''Press Retry on the message, or edit the text and send it again.'' s)"

definition mark_delivery :: "delivery \<Rightarrow> i64 option \<Rightarrow> chat_message \<Rightarrow> chat_message" where
  "mark_delivery d last_read row =
     row\<lparr>cm_delivery :=
       (case (cm_outbound row, last_read, message_number (cm_id row)) of
          (True, Some cursor, Some n) \<Rightarrow> with_outbox_read d n cursor
        | _ \<Rightarrow> d)\<rparr>"

definition set_delivery :: "protocol_id \<Rightarrow> string \<Rightarrow> string \<Rightarrow> delivery \<Rightarrow> snapshot \<Rightarrow> snapshot" where
  "set_delivery protocol conversation_id message_id d s =
     (let before = delivery_of protocol conversation_id message_id s;
          mark = mark_delivery d (hm_get (sn_outbox_read s) (protocol, conversation_id))
      in case find_message protocol conversation_id message_id s of
           None \<Rightarrow> s
         | Some row \<Rightarrow>
             note_delivery before (mark row) (change_message protocol conversation_id message_id mark s))"

definition apply_outbox_cursor :: "snapshot \<Rightarrow> chat_message \<Rightarrow> chat_message" where
  "apply_outbox_cursor s message =
     (case (cm_outbound message, hm_get (sn_outbox_read s) (cm_protocol message, cm_conversation_id message),
            message_number (cm_id message)) of
        (True, Some cursor, Some n) \<Rightarrow>
          message\<lparr>cm_delivery := with_outbox_read (cm_delivery message) n cursor\<rparr>
      | _ \<Rightarrow> message)"

definition read_up_to :: "i64 \<Rightarrow> chat_message \<Rightarrow> chat_message" where
  "read_up_to cursor row =
     (case (cm_outbound row, message_number (cm_id row)) of
        (True, Some n) \<Rightarrow> row\<lparr>cm_delivery := with_outbox_read (cm_delivery row) n cursor\<rparr>
      | _ \<Rightarrow> row)"

definition note_outbox_read :: "protocol_id \<Rightarrow> string \<Rightarrow> i64 \<Rightarrow> snapshot \<Rightarrow> snapshot" where
  "note_outbox_read protocol conversation_id last_read s =
     (let cursors = hm_entry (protocol, conversation_id) 0 (\<lambda>stored. max stored last_read) (sn_outbox_read s);
          cursor = the (hm_get cursors (protocol, conversation_id));
          here = (\<lambda>(p, c, _). p = protocol \<and> c = conversation_id);
          read = concat (map (\<lambda>(key, rows).
            if here key
            then map cm_id (filter (\<lambda>row. cm_delivery (read_up_to cursor row) \<noteq> cm_delivery row \<and>
              cm_delivery (read_up_to cursor row) = Read) rows)
            else []) (sn_messages s));
          s = s\<lparr>sn_outbox_read := cursors,
                sn_messages := map (\<lambda>(key, rows). (key, if here key then map (read_up_to cursor) rows else rows))
                  (sn_messages s)\<rparr>
      in if pid_is protocol Telegram then foldl (\<lambda>s i. release_telegram_for_message i s) s read else s)"

section \<open>Media of a message\<close>

definition video_mark_failed :: "message_video \<Rightarrow> message_video" where
  "video_mark_failed v = v\<lparr>mv_failed := True\<rparr>"

definition file_mark_failed :: "message_file \<Rightarrow> message_file" where
  "file_mark_failed f = f\<lparr>mf_failed := True\<rparr>"

text \<open>A refresh with no path keeps the path and the failure of the same file.\<close>

definition keep_voice_file :: "message_audio option \<Rightarrow> message_audio option \<Rightarrow> message_audio option" where
  "keep_voice_file incoming stored =
     (case (incoming, stored) of
        (Some i, Some old) \<Rightarrow>
          Some (if ma_file_id i \<noteq> ma_file_id old \<or> ma_file i \<noteq> None then i
            else let i = (case ma_file old of Some path \<Rightarrow> audio_set_file path i | None \<Rightarrow> i)
              in if ma_failed old then audio_mark_failed i else audio_clear_failed i)
      | _ \<Rightarrow> incoming)"

definition keep_video_file :: "message_video option \<Rightarrow> message_video option \<Rightarrow> message_video option" where
  "keep_video_file incoming stored =
     (case (incoming, stored) of
        (Some i, Some old) \<Rightarrow>
          Some (if mv_file_id i \<noteq> mv_file_id old \<or> mv_file i \<noteq> None then i
            else let i = (case mv_file old of Some path \<Rightarrow> video_set_file path i | None \<Rightarrow> i)
              in if mv_failed old then video_mark_failed i else i)
      | _ \<Rightarrow> incoming)"

definition keep_document :: "message_file option \<Rightarrow> message_file option \<Rightarrow> message_file option" where
  "keep_document incoming stored =
     (case (incoming, stored) of
        (Some i, Some old) \<Rightarrow>
          Some (if mf_file_id i \<noteq> mf_file_id old \<or> mf_file i \<noteq> None then i
            else let i = (case mf_file old of Some path \<Rightarrow> file_set_file path i | None \<Rightarrow> i)
              in if mf_failed old then file_mark_failed i else i)
      | _ \<Rightarrow> incoming)"

definition keep_media :: "chat_message \<Rightarrow> chat_message \<Rightarrow> chat_message" where
  "keep_media stored message =
     message\<lparr>cm_audio := keep_voice_file (cm_audio message) (cm_audio stored),
             cm_video := keep_video_file (cm_video message) (cm_video stored),
             cm_file := keep_document (cm_file message) (cm_file stored)\<rparr>"

section \<open>Changes of the lists\<close>

definition put_message :: "chat_message \<Rightarrow> chat_message list \<Rightarrow> chat_message list" where
  "put_message message rows =
     sort_messages
       (if list_ex (\<lambda>row. cm_id row = cm_id message) rows
        then update_first (\<lambda>row. cm_id row = cm_id message) (\<lambda>stored. keep_media stored message) rows
        else rows @ [message])"

definition message_thread :: "chat_message \<Rightarrow> thread" where
  "message_thread message = thread_key (cm_protocol message) (cm_conversation_id message) (cm_topic message)"

definition upsert_message :: "chat_message \<Rightarrow> snapshot \<Rightarrow> snapshot" where
  "upsert_message message s =
     (let message = apply_outbox_cursor s message
      in s\<lparr>sn_messages := hm_entry (message_thread message) [] (put_message message) (sn_messages s)\<rparr>)"

definition remove_message :: "protocol_id \<Rightarrow> string \<Rightarrow> string \<Rightarrow> snapshot \<Rightarrow> snapshot" where
  "remove_message protocol conversation_id message_id s =
     (case message_bucket protocol conversation_id message_id s of
        None \<Rightarrow> s
      | Some key \<Rightarrow>
          s\<lparr>sn_messages := hm_modify key (filter (\<lambda>row. cm_id row \<noteq> message_id)) (sn_messages s)\<rparr>)"

definition remove_messages :: "protocol_id \<Rightarrow> string \<Rightarrow> string list \<Rightarrow> snapshot \<Rightarrow> snapshot" where
  "remove_messages protocol conversation_id message_ids s =
     s\<lparr>sn_messages := map (\<lambda>((p, c, t), rows).
         ((p, c, t), if p = protocol \<and> c = conversation_id
                     then filter (\<lambda>row. cm_id row \<notin> set message_ids) rows else rows)) (sn_messages s)\<rparr>"

definition mark_edited :: "protocol_id \<Rightarrow> string \<Rightarrow> string \<Rightarrow> snapshot \<Rightarrow> snapshot" where
  "mark_edited protocol conversation_id message_id =
     change_message protocol conversation_id message_id (\<lambda>row. row\<lparr>cm_edited := True\<rparr>)"

definition patch_message_body :: "protocol_id \<Rightarrow> string \<Rightarrow> string \<Rightarrow> string \<Rightarrow> snapshot \<Rightarrow> snapshot" where
  "patch_message_body protocol conversation_id message_id body =
     change_message protocol conversation_id message_id (\<lambda>row. row\<lparr>cm_body := body\<rparr>)"

definition patch_message_media ::
    "protocol_id \<Rightarrow> string \<Rightarrow> string \<Rightarrow> string \<Rightarrow> message_link list \<Rightarrow> message_photo option \<Rightarrow>
     message_audio option \<Rightarrow> message_video option \<Rightarrow> message_file option \<Rightarrow> snapshot \<Rightarrow> snapshot" where
  "patch_message_media protocol conversation_id message_id body links photo audio video f =
     change_message protocol conversation_id message_id (\<lambda>row.
       keep_media row (row\<lparr>cm_body := body, cm_links := links, cm_photo := photo, cm_audio := audio,
                           cm_video := video, cm_file := f\<rparr>))"

definition patch_message_links :: "protocol_id \<Rightarrow> string \<Rightarrow> string \<Rightarrow> message_link list \<Rightarrow> snapshot \<Rightarrow> snapshot" where
  "patch_message_links protocol conversation_id message_id links =
     change_message protocol conversation_id message_id (\<lambda>row. row\<lparr>cm_links := links\<rparr>)"

definition set_reactions :: "protocol_id \<Rightarrow> string \<Rightarrow> string \<Rightarrow> reaction list \<Rightarrow> snapshot \<Rightarrow> snapshot" where
  "set_reactions protocol conversation_id message_id reactions =
     change_message protocol conversation_id message_id (\<lambda>row. row\<lparr>cm_reactions := reactions\<rparr>)"

section \<open>Downloads that end\<close>

definition change_all :: "protocol_id \<Rightarrow> (chat_message \<Rightarrow> chat_message) \<Rightarrow> snapshot \<Rightarrow> snapshot" where
  "change_all protocol f s =
     s\<lparr>sn_messages := map (\<lambda>(key, rows).
         (key, map (\<lambda>row. if cm_protocol row = protocol then f row else row) rows)) (sn_messages s)\<rparr>"

definition on_voice :: "i32 \<Rightarrow> (message_audio \<Rightarrow> message_audio) \<Rightarrow> chat_message \<Rightarrow> chat_message" where
  "on_voice file_id f row =
     row\<lparr>cm_audio := map_option (\<lambda>a. if ma_file_id a = file_id then f a else a) (cm_audio row)\<rparr>"

definition on_video :: "i32 \<Rightarrow> (message_video \<Rightarrow> message_video) \<Rightarrow> chat_message \<Rightarrow> chat_message" where
  "on_video file_id f row =
     row\<lparr>cm_video := map_option (\<lambda>v. if mv_file_id v = file_id then f v else v) (cm_video row)\<rparr>"

definition on_file :: "i32 \<Rightarrow> (message_file \<Rightarrow> message_file) \<Rightarrow> chat_message \<Rightarrow> chat_message" where
  "on_file file_id f row =
     row\<lparr>cm_file := map_option (\<lambda>d. if mf_file_id d = file_id then f d else d) (cm_file row)\<rparr>"

definition voice_ready :: "protocol_id \<Rightarrow> i32 \<Rightarrow> audio_path \<Rightarrow> snapshot \<Rightarrow> snapshot" where
  "voice_ready protocol file_id path = change_all protocol (on_voice file_id (audio_set_file path))"

definition voice_failed :: "protocol_id \<Rightarrow> i32 \<Rightarrow> snapshot \<Rightarrow> snapshot" where
  "voice_failed protocol file_id = change_all protocol (on_voice file_id audio_mark_failed)"

definition video_ready :: "protocol_id \<Rightarrow> i32 \<Rightarrow> audio_path \<Rightarrow> snapshot \<Rightarrow> snapshot" where
  "video_ready protocol file_id path = change_all protocol (on_video file_id (video_set_file path))"

definition video_failed :: "protocol_id \<Rightarrow> i32 \<Rightarrow> snapshot \<Rightarrow> snapshot" where
  "video_failed protocol file_id = change_all protocol (on_video file_id video_mark_failed)"

definition file_ready :: "protocol_id \<Rightarrow> i32 \<Rightarrow> audio_path \<Rightarrow> snapshot \<Rightarrow> snapshot" where
  "file_ready protocol file_id path s =
     change_all protocol (on_file file_id (file_set_file path))
       (s\<lparr>sn_file_downloads := sn_file_downloads s - {(protocol, file_id)}\<rparr>)"

definition file_failed :: "protocol_id \<Rightarrow> i32 \<Rightarrow> snapshot \<Rightarrow> snapshot" where
  "file_failed protocol file_id s =
     change_all protocol (on_file file_id file_mark_failed)
       (s\<lparr>sn_file_downloads := sn_file_downloads s - {(protocol, file_id)}\<rparr>)"

section \<open>Topics\<close>

definition topic_is_viewed :: "protocol_id \<Rightarrow> string \<Rightarrow> message_topic \<Rightarrow> snapshot \<Rightarrow> bool" where
  "topic_is_viewed protocol i topic s \<longleftrightarrow> sn_viewed s = Some (protocol, i, Some topic)"

definition count_live :: "i64 \<Rightarrow> chat_topic \<Rightarrow> chat_topic" where
  "count_live sent_at row =
     row\<lparr>tp_unread := sat_add32 (tp_unread row) 1,
         tp_last_at := (if tp_last_at row < sent_at then sent_at else tp_last_at row)\<rparr>"

definition note_live_topic :: "chat_message \<Rightarrow> snapshot \<Rightarrow> snapshot" where
  "note_live_topic message s =
     (if cm_arrival message \<noteq> Live \<or> cm_outbound message then s
      else case cm_topic message of
          None \<Rightarrow> s
        | Some topic \<Rightarrow>
            if sn_window_focused s \<and> topic_is_viewed (cm_protocol message) (cm_conversation_id message) topic s
            then s
            else s\<lparr>sn_topics := hm_modify (cm_protocol message, cm_conversation_id message)
                    (update_first (\<lambda>row. tp_topic row = topic) (count_live (cm_sent_at message))) (sn_topics s)\<rparr>)"

definition upsert_topic :: "chat_topic \<Rightarrow> snapshot \<Rightarrow> snapshot" where
  "upsert_topic topic s =
     (let topic = (if sn_window_focused s \<and>
                      topic_is_viewed (tp_protocol topic) (tp_conversation_id topic) (tp_topic topic) s
                   then topic\<lparr>tp_unread := 0\<rparr> else topic)
      in s\<lparr>sn_topics := hm_entry (tp_protocol topic, tp_conversation_id topic) []
            (\<lambda>rows. if list_ex (\<lambda>row. tp_topic row = tp_topic topic) rows
               then update_first (\<lambda>row. tp_topic row = tp_topic topic) (\<lambda>_. topic) rows
               else rows @ [topic]) (sn_topics s)\<rparr>)"

section \<open>Events about messages\<close>

definition message_received :: "chat_message \<Rightarrow> snapshot \<Rightarrow> snapshot" where
  "message_received message s =
     (let before = delivery_of (cm_protocol message) (cm_conversation_id message) (cm_id message) s
      in upsert_message message
           (note_live_topic message
             (observe_telegram_message message None
               (note_delivery before message s))))"

definition message_replaced :: "protocol_id \<Rightarrow> string \<Rightarrow> string \<Rightarrow> chat_message \<Rightarrow> snapshot \<Rightarrow> snapshot" where
  "message_replaced protocol conversation_id old_id message s =
     (let before = delivery_of protocol conversation_id old_id s;
          s = observe_telegram_message message (Some old_id) (note_delivery before message s)
      in upsert_message message
           (if protocol = cm_protocol message then remove_message protocol conversation_id old_id s else s))"

definition message_delivery :: "protocol_id \<Rightarrow> string \<Rightarrow> string \<Rightarrow> delivery \<Rightarrow> snapshot \<Rightarrow> snapshot" where
  "message_delivery protocol conversation_id message_id d s =
     (let s = set_delivery protocol conversation_id message_id d s
      in if pid_is protocol Telegram \<and> d \<in> {Sent, Read, Failed}
         then release_telegram_for_message message_id s else s)"

text \<open>The branches of \<open>apply_unchecked\<close> for the events about messages and topics.\<close>

fun apply_message_event :: "adapter_event \<Rightarrow> snapshot \<Rightarrow> snapshot option" where
  "apply_message_event (EvTopicUpsert topic) s = Some (upsert_topic topic s)"
| "apply_message_event (EvMessageDelivery p c i d) s = Some (message_delivery p c i d s)"
| "apply_message_event (EvOutboxRead p c cursor) s = Some (note_outbox_read p c cursor s)"
| "apply_message_event (EvMessageReceived message) s = Some (message_received message s)"
| "apply_message_event (EvMessageReplaced p c old_id message) s = Some (message_replaced p c old_id message s)"
| "apply_message_event (EvMessageBody p c i body) s =
     Some (mark_edited p c i (patch_message_body p c i body s))"
| "apply_message_event (EvMessageEdited p c i) s = Some (mark_edited p c i s)"
| "apply_message_event (EvMessageMedia p c i body links photo audio video f) s =
     Some (patch_message_media p c i body links photo audio video f s)"
| "apply_message_event (EvMessageLinks p c i links) s = Some (patch_message_links p c i links s)"
| "apply_message_event (EvVoiceReady p i path) s = Some (voice_ready p i path s)"
| "apply_message_event (EvVoiceFailed p i) s = Some (voice_failed p i s)"
| "apply_message_event (EvVideoReady p i path) s = Some (video_ready p i path s)"
| "apply_message_event (EvVideoFailed p i) s = Some (video_failed p i s)"
| "apply_message_event (EvFileReady p i path) s = Some (file_ready p i path s)"
| "apply_message_event (EvFileFailed p i) s = Some (file_failed p i s)"
| "apply_message_event (EvMessageReactions p c i reactions) s = Some (set_reactions p c i reactions s)"
| "apply_message_event (EvMessagesRemoved p c ids) s = Some (remove_messages p c ids s)"
| "apply_message_event _ s = None"

section \<open>What the events leave alone\<close>

lemma end_telegram_send_fields [simp]:
  "sn_messages (end_telegram_send p how s) = sn_messages s"
  "sn_outbox_read (end_telegram_send p how s) = sn_outbox_read s"
  "sn_drafts (end_telegram_send p how s) = sn_drafts s"
  "sn_compose (end_telegram_send p how s) = sn_compose s"
  "sn_editing (end_telegram_send p how s) = sn_editing s"
  "sn_sends (end_telegram_send p how s) = sn_sends s"
  "sn_pending (end_telegram_send p how s) = sn_pending s"
  "sn_topics (end_telegram_send p how s) = sn_topics s"
  "is_selected_thread q c t (end_telegram_send p how s) = is_selected_thread q c t s"
  by (auto simp: end_telegram_send_def is_selected_thread_def is_selected_chat_def split: telegram_send_end.splits)

lemma release_fields [simp]:
  "sn_messages (release_telegram_for_message i s) = sn_messages s"
  "sn_outbox_read (release_telegram_for_message i s) = sn_outbox_read s"
  "sn_drafts (release_telegram_for_message i s) = sn_drafts s"
  "sn_compose (release_telegram_for_message i s) = sn_compose s"
  "sn_editing (release_telegram_for_message i s) = sn_editing s"
  "sn_sends (release_telegram_for_message i s) = sn_sends s"
  "sn_pending (release_telegram_for_message i s) = sn_pending s"
  "sn_topics (release_telegram_for_message i s) = sn_topics s"
  "is_selected_thread q c t (release_telegram_for_message i s) = is_selected_thread q c t s"
  by (auto simp: release_telegram_for_message_def split: option.splits)

lemma release_all_fields [simp]:
  "sn_messages (foldl (\<lambda>s i. release_telegram_for_message i s) s xs) = sn_messages s"
  "sn_outbox_read (foldl (\<lambda>s i. release_telegram_for_message i s) s xs) = sn_outbox_read s"
  by (induction xs arbitrary: s) auto

lemma observe_fields [simp]:
  "sn_messages (observe_telegram_message m r s) = sn_messages s"
  "sn_outbox_read (observe_telegram_message m r s) = sn_outbox_read s"
  "sn_drafts (observe_telegram_message m r s) = sn_drafts s"
  "sn_compose (observe_telegram_message m r s) = sn_compose s"
  by (auto simp: observe_telegram_message_def note_telegram_pending_def rebind_telegram_message_def Let_def
      split: option.splits)

lemma note_delivery_fields [simp]:
  "sn_messages (note_delivery b m s) = sn_messages s"
  "sn_outbox_read (note_delivery b m s) = sn_outbox_read s"
  "sn_sends (note_delivery b m s) = sn_sends s"
  "sn_pending (note_delivery b m s) = sn_pending s"
  by (auto simp: note_delivery_def set_error_def Let_def)

lemma topic_fields [simp]:
  "sn_messages (note_live_topic m s) = sn_messages s"
  "sn_outbox_read (note_live_topic m s) = sn_outbox_read s"
  "sn_messages (upsert_topic t s) = sn_messages s"
  "sn_outbox_read (upsert_topic t s) = sn_outbox_read s"
  by (auto simp: note_live_topic_def upsert_topic_def Let_def split: option.splits)

section \<open>Well-formed message lists\<close>

definition message_order :: "chat_message \<Rightarrow> i64 \<times> i64" where
  "message_order row = (cm_sent_at row, message_rank (cm_id row))"

text \<open>No outgoing message at or below the read cursor of its chat shows as only sent.\<close>

definition receipt_ok :: "((protocol_id \<times> string) \<times> i64) list \<Rightarrow> chat_message \<Rightarrow> bool" where
  "receipt_ok cursors row \<longleftrightarrow>
     (case (hm_get cursors (cm_protocol row, cm_conversation_id row), message_number (cm_id row)) of
        (Some cursor, Some n) \<Rightarrow> \<not> (cm_outbound row \<and> cm_delivery row = Sent \<and> 0 < cursor \<and> 0 < n \<and> n \<le> cursor)
      | _ \<Rightarrow> True)"

definition thread_ok :: "((protocol_id \<times> string) \<times> i64) list \<Rightarrow> thread \<Rightarrow> chat_message list \<Rightarrow> bool" where
  "thread_ok cursors key rows \<longleftrightarrow>
     sorted (map message_order rows) \<and> distinct (map cm_id rows) \<and>
     (\<forall>row \<in> set rows. message_thread row = key \<and> receipt_ok cursors row)"

definition messages_ok :: "snapshot \<Rightarrow> bool" where
  "messages_ok s \<longleftrightarrow>
     hm_ok (sn_messages s) \<and>
     (\<forall>key rows. hm_get (sn_messages s) key = Some rows \<longrightarrow> thread_ok (sn_outbox_read s) key rows)"

text \<open>What the changes of a message keep: its place, and that it is not unread below the cursor.\<close>

definition same_place :: "(chat_message \<Rightarrow> chat_message) \<Rightarrow> bool" where
  "same_place f \<longleftrightarrow>
     (\<forall>row. cm_id (f row) = cm_id row \<and> cm_sent_at (f row) = cm_sent_at row \<and>
        cm_protocol (f row) = cm_protocol row \<and> cm_conversation_id (f row) = cm_conversation_id row \<and>
        cm_topic (f row) = cm_topic row)"

definition same_delivery :: "(chat_message \<Rightarrow> chat_message) \<Rightarrow> bool" where
  "same_delivery f \<longleftrightarrow> (\<forall>row. cm_outbound (f row) = cm_outbound row \<and> cm_delivery (f row) = cm_delivery row)"

lemma same_place_order [simp]: "same_place f \<Longrightarrow> message_order (f row) = message_order row"
  by (simp add: same_place_def message_order_def)

lemma same_place_thread [simp]: "same_place f \<Longrightarrow> message_thread (f row) = message_thread row"
  by (simp add: same_place_def message_thread_def)

lemma same_place_id [simp]: "same_place f \<Longrightarrow> cm_id (f row) = cm_id row"
  by (simp add: same_place_def)

lemma same_receipt: "same_place f \<Longrightarrow> same_delivery f \<Longrightarrow> receipt_ok cursors (f row) = receipt_ok cursors row"
  by (simp add: receipt_ok_def same_place_def same_delivery_def split: option.split)

lemma thread_ok_map:
  "thread_ok cursors key rows \<Longrightarrow> same_place f \<Longrightarrow> (\<And>row. row \<in> set rows \<Longrightarrow> receipt_ok cursors' (f row)) \<Longrightarrow>
   thread_ok cursors' key (map f rows)"
  by (auto simp: thread_ok_def comp_def)

lemma thread_ok_update_first:
  "thread_ok cursors key rows \<Longrightarrow> same_place f \<Longrightarrow>
   (\<And>row. row \<in> set rows \<Longrightarrow> receipt_ok cursors (f row)) \<Longrightarrow> thread_ok cursors key (update_first P f rows)"
  by (auto simp: thread_ok_def map_update_first dest!: update_first_mem)

lemma thread_ok_filter: "thread_ok cursors key rows \<Longrightarrow> thread_ok cursors key (filter P rows)"
  by (auto simp: thread_ok_def sorted_filter distinct_map_filter)

lemma thread_ok_Nil [simp]: "thread_ok cursors key []"
  by (simp add: thread_ok_def)

lemma messages_okD: "messages_ok s \<Longrightarrow> hm_get (sn_messages s) key = Some rows \<Longrightarrow> thread_ok (sn_outbox_read s) key rows"
  unfolding messages_ok_def by blast

lemma messages_okI:
  "hm_ok (sn_messages s) \<Longrightarrow>
   (\<And>key rows. hm_get (sn_messages s) key = Some rows \<Longrightarrow> thread_ok (sn_outbox_read s) key rows) \<Longrightarrow> messages_ok s"
  unfolding messages_ok_def by blast

lemma messages_ok_hm: "messages_ok s \<Longrightarrow> hm_ok (sn_messages s)"
  unfolding messages_ok_def by blast

lemma messages_ok_fields:
  "messages_ok s \<Longrightarrow> sn_messages s' = sn_messages s \<Longrightarrow> sn_outbox_read s' = sn_outbox_read s \<Longrightarrow> messages_ok s'"
  by (simp add: messages_ok_def)

lemma messages_ok_modify:
  "messages_ok s \<Longrightarrow> (\<And>rows. thread_ok (sn_outbox_read s) key rows \<Longrightarrow> thread_ok (sn_outbox_read s) key (f rows)) \<Longrightarrow>
   messages_ok (s\<lparr>sn_messages := hm_modify key f (sn_messages s)\<rparr>)"
  by (rule messages_okI) (auto dest: messages_okD messages_ok_hm split: if_splits)

lemma hm_get_map_values: "hm_get (map (\<lambda>(key, rows). (key, g key rows)) m) k = map_option (g k) (hm_get m k)"
  by (induction m) auto

lemma hm_ok_map_values: "hm_ok (map (\<lambda>(key, rows). (key, g key rows)) m) = hm_ok m"
  by (simp add: hm_ok_def case_prod_unfold comp_def)

lemma messages_ok_map_values:
  "messages_ok s \<Longrightarrow>
   (\<And>key rows. thread_ok (sn_outbox_read s) key rows \<Longrightarrow> thread_ok cursors key (g key rows)) \<Longrightarrow>
   messages_ok (s\<lparr>sn_outbox_read := cursors,
     sn_messages := map (\<lambda>(key, rows). (key, g key rows)) (sn_messages s)\<rparr>)"
  by (rule messages_okI) (auto simp: hm_get_map_values hm_ok_map_values dest: messages_okD messages_ok_hm)

lemma messages_ok_change:
  "messages_ok s \<Longrightarrow> same_place f \<Longrightarrow>
   (\<And>row. receipt_ok (sn_outbox_read s) row \<Longrightarrow>
      cm_protocol row = p \<Longrightarrow> cm_conversation_id row = c \<Longrightarrow> receipt_ok (sn_outbox_read s) (f row)) \<Longrightarrow>
   messages_ok (change_message p c i f s)"
  unfolding change_message_def
  apply (cases "message_bucket p c i s")
   apply simp
  apply simp
  apply (rule messages_ok_modify, assumption)
  apply (rule thread_ok_update_first, assumption+)
  subgoal for key rows row
    by (auto simp: message_bucket_def thread_ok_def message_thread_def thread_key_def dest!: find_Some_iff [THEN iffD1] nth_mem)
  done

lemma set_sort_messages [simp]: "set (sort_messages rows) = set rows"
  by (simp add: sort_messages_def)

lemma sort_messages_ids: "distinct (map cm_id (sort_messages rows)) = distinct (map cm_id rows)"
  by (simp add: sort_messages_def distinct_map)

lemma sorted_sort_messages: "sorted (map message_order (sort_messages rows))"
  using sorted_sort_key [of message_order rows] by (simp add: sort_messages_def message_order_def [abs_def])

lemma map_update_first_P: "(\<And>x. P x \<Longrightarrow> g (f x) = g x) \<Longrightarrow> map g (update_first P f xs) = map g xs"
  by (induction xs) auto

lemma keep_media_fields [simp]:
  "cm_id (keep_media a m) = cm_id m" "cm_protocol (keep_media a m) = cm_protocol m"
  "cm_conversation_id (keep_media a m) = cm_conversation_id m" "cm_topic (keep_media a m) = cm_topic m"
  "cm_sent_at (keep_media a m) = cm_sent_at m" "cm_outbound (keep_media a m) = cm_outbound m"
  "cm_delivery (keep_media a m) = cm_delivery m"
  by (simp_all add: keep_media_def)

lemma keep_media_ok [simp]:
  "message_thread (keep_media a m) = message_thread m" "receipt_ok cursors (keep_media a m) = receipt_ok cursors m"
  by (simp_all add: message_thread_def receipt_ok_def split: option.split)

lemma put_message_ids:
  assumes "distinct (map cm_id rows)"
  shows "distinct (map cm_id (put_message m rows))"
proof -
  have "map cm_id (update_first (\<lambda>row. cm_id row = cm_id m) (\<lambda>stored. keep_media stored m) rows) = map cm_id rows"
    by (rule map_update_first_P) simp
  then show ?thesis using assms by (auto simp: put_message_def sort_messages_ids list_ex_iff)
qed

lemma put_message_mem:
  "row \<in> set (put_message m rows) \<Longrightarrow> row \<in> set rows \<or> row = m \<or> (\<exists>a. row = keep_media a m)"
  by (auto simp: put_message_def dest!: update_first_mem split: if_splits)

lemma put_message_ok:
  "thread_ok cursors key rows \<Longrightarrow> message_thread m = key \<Longrightarrow> receipt_ok cursors m \<Longrightarrow>
   thread_ok cursors key (put_message m rows)"
  unfolding thread_ok_def
  by (auto simp: put_message_ids dest!: put_message_mem)
    (simp add: put_message_def sorted_sort_messages)

lemma apply_outbox_cursor_fields [simp]:
  "cm_id (apply_outbox_cursor s m) = cm_id m" "cm_protocol (apply_outbox_cursor s m) = cm_protocol m"
  "cm_conversation_id (apply_outbox_cursor s m) = cm_conversation_id m"
  "cm_topic (apply_outbox_cursor s m) = cm_topic m" "cm_outbound (apply_outbox_cursor s m) = cm_outbound m"
  "message_thread (apply_outbox_cursor s m) = message_thread m"
  by (simp_all add: apply_outbox_cursor_def message_thread_def split: bool.split option.split)

lemma apply_outbox_cursor_ok: "receipt_ok (sn_outbox_read s) (apply_outbox_cursor s m)"
  by (auto simp: receipt_ok_def apply_outbox_cursor_def with_outbox_read_def split: bool.splits option.splits)

lemma mark_delivery_place: "same_place (mark_delivery d c)"
  by (simp add: same_place_def mark_delivery_def)

lemma mark_delivery_ok:
  "cm_protocol row = p \<Longrightarrow> cm_conversation_id row = c \<Longrightarrow>
   receipt_ok cursors (mark_delivery d (hm_get cursors (p, c)) row)"
  by (auto simp: receipt_ok_def mark_delivery_def with_outbox_read_def split: bool.splits option.splits)

lemma read_up_to_place: "same_place (read_up_to c)"
  by (simp add: same_place_def read_up_to_def split: bool.split option.split)

lemma read_up_to_ok:
  "cm_protocol row = p \<Longrightarrow> cm_conversation_id row = c \<Longrightarrow> hm_get cursors (p, c) = Some cursor \<Longrightarrow>
   receipt_ok cursors (read_up_to cursor row)"
  by (auto simp: receipt_ok_def read_up_to_def with_outbox_read_def split: bool.splits option.splits)

section \<open>Every event keeps the lists\<close>

lemma upsert_message_ok:
  assumes "messages_ok s"
  shows "messages_ok (upsert_message m s)"
proof (rule messages_okI)
  show "hm_ok (sn_messages (upsert_message m s))"
    using messages_ok_hm [OF assms] by (simp add: upsert_message_def Let_def)
next
  fix key rows
  assume "hm_get (sn_messages (upsert_message m s)) key = Some rows"
  then show "thread_ok (sn_outbox_read (upsert_message m s)) key rows"
    using messages_okD [OF assms, of key]
    by (auto simp: upsert_message_def Let_def put_message_ok apply_outbox_cursor_ok split: if_splits option.splits)
qed

lemma remove_message_ok: "messages_ok s \<Longrightarrow> messages_ok (remove_message p c i s)"
  by (auto simp: remove_message_def thread_ok_filter intro!: messages_ok_modify split: option.split)

lemma remove_messages_ok:
  assumes "messages_ok s"
  shows "messages_ok (remove_messages p c ids s)"
proof -
  have "remove_messages p c ids s =
      s\<lparr>sn_outbox_read := sn_outbox_read s,
        sn_messages := map (\<lambda>(key, rows). (key,
          if fst key = p \<and> fst (snd key) = c then filter (\<lambda>row. cm_id row \<notin> set ids) rows else rows)) (sn_messages s)\<rparr>"
    by (simp add: remove_messages_def case_prod_unfold)
  then show ?thesis
    using messages_ok_map_values [OF assms, of "sn_outbox_read s"
        "\<lambda>key rows. if fst key = p \<and> fst (snd key) = c then filter (\<lambda>row. cm_id row \<notin> set ids) rows else rows"]
    by (simp add: thread_ok_filter)
qed

lemma set_delivery_ok: "messages_ok s \<Longrightarrow> messages_ok (set_delivery p c i d s)"
  unfolding set_delivery_def Let_def
  by (auto intro: messages_ok_fields messages_ok_change [OF _ mark_delivery_place mark_delivery_ok]
      split: option.split)

lemma change_message_ok: "messages_ok s \<Longrightarrow> same_place f \<Longrightarrow> same_delivery f \<Longrightarrow> messages_ok (change_message p c i f s)"
  by (rule messages_ok_change) (simp_all add: same_receipt)

lemma change_all_ok:
  assumes "messages_ok s" "same_place f" "same_delivery f"
  shows "messages_ok (change_all p f s)"
proof -
  have place: "same_place (\<lambda>row. if cm_protocol row = p then f row else row)"
    using assms(2) by (simp add: same_place_def)
  have "messages_ok (s\<lparr>sn_outbox_read := sn_outbox_read s, sn_messages :=
      map (\<lambda>(key, rows). (key, map (\<lambda>row. if cm_protocol row = p then f row else row) rows)) (sn_messages s)\<rparr>)"
    using assms(1)
  proof (rule messages_ok_map_values)
    fix key rows
    assume ok: "thread_ok (sn_outbox_read s) key rows"
    then show "thread_ok (sn_outbox_read s) key (map (\<lambda>row. if cm_protocol row = p then f row else row) rows)"
      by (rule thread_ok_map [OF _ place]) (use ok in \<open>auto simp: thread_ok_def same_receipt assms\<close>)
  qed
  then show ?thesis by (simp add: change_all_def)
qed

lemma downloads_ok [simp]: "messages_ok (s\<lparr>sn_file_downloads := x\<rparr>) = messages_ok s"
  by (simp add: messages_ok_def)

lemma release_ok [simp]: "messages_ok (release_telegram_for_message i s) = messages_ok s"
  by (simp add: messages_ok_def)

lemma release_all_ok [simp]: "messages_ok (foldl (\<lambda>s i. release_telegram_for_message i s) s xs) = messages_ok s"
  by (induction xs arbitrary: s) auto

lemma note_outbox_read_ok:
  assumes "messages_ok s"
  shows "messages_ok (note_outbox_read p c last_read s)"
proof -
  define cursors where "cursors = hm_entry (p, c) 0 (\<lambda>stored. max stored last_read) (sn_outbox_read s)"
  define cursor where "cursor = the (hm_get cursors (p, c))"
  have at: "hm_get cursors (p, c) = Some cursor"
    by (simp add: cursor_def cursors_def)
  have off: "q \<noteq> p \<or> d \<noteq> c \<Longrightarrow> hm_get cursors (q, d) = hm_get (sn_outbox_read s) (q, d)" for q d
    by (auto simp: cursors_def)
  let ?g = "\<lambda>key rows. if (\<lambda>(q, d, _). q = p \<and> d = c) key then map (read_up_to cursor) rows else rows"
  have "messages_ok (s\<lparr>sn_outbox_read := cursors,
      sn_messages := map (\<lambda>(key, rows). (key, ?g key rows)) (sn_messages s)\<rparr>)"
    using assms
  proof (rule messages_ok_map_values)
    fix key rows
    assume ok: "thread_ok (sn_outbox_read s) key rows"
    obtain q d t where key: "key = (q, d, t)" by (cases key)
    have place: "cm_protocol row = q \<and> cm_conversation_id row = d" if "row \<in> set rows" for row
      using ok that by (auto simp: thread_ok_def key message_thread_def thread_key_def)
    show "thread_ok cursors key (?g key rows)"
    proof (cases "q = p \<and> d = c")
      case True
      then show ?thesis
        using thread_ok_map [OF ok read_up_to_place, of cursors cursor] place at
        by (simp add: key read_up_to_ok)
    next
      case False
      then have "receipt_ok cursors row = receipt_ok (sn_outbox_read s) row" if "row \<in> set rows" for row
        using off place [OF that] by (auto simp: receipt_ok_def)
      then show ?thesis using ok False by (auto simp: thread_ok_def key)
    qed
  qed
  then show ?thesis
    unfolding note_outbox_read_def Let_def cursors_def [symmetric] cursor_def [symmetric] by simp
qed

lemma changes_keep:
  "same_place (\<lambda>row. row\<lparr>cm_edited := True\<rparr>)" "same_delivery (\<lambda>row. row\<lparr>cm_edited := True\<rparr>)"
  "same_place (\<lambda>row. row\<lparr>cm_body := body\<rparr>)" "same_delivery (\<lambda>row. row\<lparr>cm_body := body\<rparr>)"
  "same_place (\<lambda>row. row\<lparr>cm_links := links\<rparr>)" "same_delivery (\<lambda>row. row\<lparr>cm_links := links\<rparr>)"
  "same_place (\<lambda>row. row\<lparr>cm_reactions := rs\<rparr>)" "same_delivery (\<lambda>row. row\<lparr>cm_reactions := rs\<rparr>)"
  "same_place (\<lambda>row. keep_media row (row\<lparr>cm_body := body, cm_links := links, cm_photo := photo, cm_audio := audio,
                           cm_video := video, cm_file := f\<rparr>))"
  "same_delivery (\<lambda>row. keep_media row (row\<lparr>cm_body := body, cm_links := links, cm_photo := photo, cm_audio := audio,
                           cm_video := video, cm_file := f\<rparr>))"
  "same_place (on_voice i g)" "same_delivery (on_voice i g)"
  "same_place (on_video i h)" "same_delivery (on_video i h)"
  "same_place (on_file i k)" "same_delivery (on_file i k)"
  by (simp_all add: same_place_def same_delivery_def on_voice_def on_video_def on_file_def)

lemma message_received_ok: "messages_ok s \<Longrightarrow> messages_ok (message_received m s)"
  by (auto simp: message_received_def Let_def intro!: upsert_message_ok intro: messages_ok_fields)

lemma message_replaced_ok: "messages_ok s \<Longrightarrow> messages_ok (message_replaced p c i m s)"
  by (auto simp: message_replaced_def Let_def intro!: upsert_message_ok remove_message_ok intro: messages_ok_fields)

lemma message_delivery_ok: "messages_ok s \<Longrightarrow> messages_ok (message_delivery p c i d s)"
  by (auto simp: message_delivery_def Let_def set_delivery_ok)

lemma upsert_topic_ok: "messages_ok s \<Longrightarrow> messages_ok (upsert_topic t s)"
  by (auto intro: messages_ok_fields)

lemmas message_ops_ok = upsert_topic_ok message_delivery_ok note_outbox_read_ok message_received_ok
  message_replaced_ok remove_messages_ok

lemmas message_patches =
  mark_edited_def patch_message_body_def patch_message_media_def patch_message_links_def set_reactions_def
  voice_ready_def voice_failed_def video_ready_def video_failed_def file_ready_def file_failed_def

section \<open>The threads as maps from ids to messages\<close>

definition shown_message :: "thread \<Rightarrow> string \<Rightarrow> snapshot \<Rightarrow> chat_message option" where
  "shown_message key i s = find (\<lambda>row. cm_id row = i) (thread_rows key s)"

lemma find_id_iff:
  "distinct (map cm_id rows) \<Longrightarrow> find (\<lambda>row. cm_id row = i) rows = Some row \<longleftrightarrow> row \<in> set rows \<and> cm_id row = i"
  by (induction rows) (auto simp: image_iff)

lemma find_id_none: "find (\<lambda>row. cm_id row = i) rows = None \<longleftrightarrow> i \<notin> cm_id ` set rows"
  by (auto simp: find_None_iff)

lemma find_id_same:
  assumes "distinct (map cm_id xs)" "distinct (map cm_id ys)"
    and "\<And>row. cm_id row = i \<Longrightarrow> row \<in> set xs \<longleftrightarrow> row \<in> set ys"
  shows "find (\<lambda>row. cm_id row = i) xs = find (\<lambda>row. cm_id row = i) ys"
proof (cases "find (\<lambda>row. cm_id row = i) ys")
  case None
  then have "i \<notin> cm_id ` set xs" using assms(3) by (auto simp: find_id_none)
  then show ?thesis using None by (simp add: find_id_none [symmetric])
next
  case (Some row)
  then have "find (\<lambda>row. cm_id row = i) xs = Some row" using assms by (simp add: find_id_iff)
  then show ?thesis using Some by simp
qed

lemma find_sort_messages:
  "distinct (map cm_id rows) \<Longrightarrow>
   find (\<lambda>row. cm_id row = i) (sort_messages rows) = find (\<lambda>row. cm_id row = i) rows"
  by (rule find_id_same) (simp_all add: sort_messages_ids)

lemma find_append_new:
  "find P (xs @ [x]) = (case find P xs of Some y \<Rightarrow> Some y | None \<Rightarrow> if P x then Some x else None)"
  by (induction xs) auto

lemma find_update_first_same:
  "(\<And>x. P x \<Longrightarrow> P (f x)) \<Longrightarrow> find P (update_first P f xs) = map_option f (find P xs)"
  by (induction xs) auto

lemma find_put_message:
  assumes "distinct (map cm_id rows)"
  shows "find (\<lambda>row. cm_id row = i) (put_message m rows) =
     (if i = cm_id m
      then Some (case find (\<lambda>row. cm_id row = i) rows of Some stored \<Rightarrow> keep_media stored m | None \<Rightarrow> m)
      else find (\<lambda>row. cm_id row = i) rows)"
proof -
  let ?P = "\<lambda>row. cm_id row = cm_id m" and ?f = "\<lambda>stored. keep_media stored m"
  have ids: "map cm_id (update_first ?P ?f rows) = map cm_id rows"
    by (rule map_update_first_P) simp
  have other: "i \<noteq> cm_id m \<Longrightarrow> find (\<lambda>row. cm_id row = i) (update_first ?P ?f rows) = find (\<lambda>row. cm_id row = i) rows"
    by (rule find_update_first_other) auto
  have same: "find ?P (update_first ?P ?f rows) = map_option ?f (find ?P rows)"
    by (rule find_update_first_same) simp
  show ?thesis
  proof (cases "list_ex ?P rows")
    case True
    then have "find ?P rows \<noteq> None" by (auto simp: find_None_iff list_ex_iff)
    moreover have "find (\<lambda>row. cm_id row = i) (put_message m rows) =
        find (\<lambda>row. cm_id row = i) (update_first ?P ?f rows)"
      using True assms by (simp add: put_message_def find_sort_messages ids)
    ultimately show ?thesis using same other by (cases "i = cm_id m") (auto split: option.split)
  next
    case False
    then have none: "find ?P rows = None" by (auto simp: find_None_iff list_ex_iff)
    then have new: "cm_id m \<notin> cm_id ` set rows" by (simp add: find_id_none)
    have "find (\<lambda>row. cm_id row = i) (put_message m rows) = find (\<lambda>row. cm_id row = i) (rows @ [m])"
      using False assms new find_sort_messages [of "rows @ [m]" i] by (simp add: put_message_def)
    then show ?thesis using none by (auto simp: find_append_new split: option.split)
  qed
qed

lemma rows_distinct: "messages_ok s \<Longrightarrow> distinct (map cm_id (thread_rows key s))"
  by (auto simp: thread_rows_def thread_ok_def dest: messages_okD split: option.split)

lemma thread_rows_fields: "sn_messages s' = sn_messages s \<Longrightarrow> thread_rows key s' = thread_rows key s"
  by (simp add: thread_rows_def)

lemma shown_upsert:
  assumes "messages_ok s"
  shows "shown_message key i (upsert_message m s) =
     (if key = message_thread m \<and> i = cm_id m
      then Some (case shown_message key i s of
          Some stored \<Rightarrow> keep_media stored (apply_outbox_cursor s m)
        | None \<Rightarrow> apply_outbox_cursor s m)
      else shown_message key i s)"
proof -
  have "thread_rows key (upsert_message m s) =
      (if key = message_thread m then put_message (apply_outbox_cursor s m) (thread_rows key s) else thread_rows key s)"
    by (simp add: thread_rows_def upsert_message_def Let_def)
  then show ?thesis
    using find_put_message [OF rows_distinct [OF assms]] by (simp add: shown_message_def)
qed

lemma shown_removed:
  "shown_message (p, c, t) i (remove_messages q d ids s) =
     (if p = q \<and> c = d \<and> i \<in> set ids then None else shown_message (p, c, t) i s)"
proof -
  have rows: "thread_rows (p, c, t) (remove_messages q d ids s) =
      (if p = q \<and> c = d then filter (\<lambda>row. cm_id row \<notin> set ids) (thread_rows (p, c, t) s) else thread_rows (p, c, t) s)"
    using hm_get_map_values [of "\<lambda>(p, c, t) rows. if p = q \<and> c = d then filter (\<lambda>row. cm_id row \<notin> set ids) rows else rows"
        "sn_messages s" "(p, c, t)"]
    by (simp add: thread_rows_def remove_messages_def case_prod_unfold split: option.split)
  have "i \<notin> A \<Longrightarrow> find (\<lambda>row. cm_id row = i) (filter (\<lambda>row. cm_id row \<notin> A) xs) = find (\<lambda>row. cm_id row = i) xs"
    and "i \<in> A \<Longrightarrow> find (\<lambda>row. cm_id row = i) (filter (\<lambda>row. cm_id row \<notin> A) xs) = None" for A and xs :: "chat_message list"
    by (induction xs) auto
  then show ?thesis by (simp add: shown_message_def rows)
qed

section \<open>Properties\<close>

lemma read_cursor_forward:
  assumes "apply_message_event ev s = Some s'" "hm_get (sn_outbox_read s) k = Some cursor"
  shows "\<exists>cursor'. hm_get (sn_outbox_read s') k = Some cursor' \<and> cursor \<le> cursor'"
proof (cases "sn_outbox_read s' = sn_outbox_read s")
  case False
  then obtain p c n where "ev = EvOutboxRead p c n"
    using assms(1) by (cases ev) (auto simp: message_patches change_message_def change_all_def
        message_delivery_def message_received_def message_replaced_def set_delivery_def upsert_message_def
        remove_message_def remove_messages_def Let_def split: option.splits if_splits)
  then show ?thesis
    using assms by (auto simp: note_outbox_read_def Let_def split: if_splits)
qed (use assms in auto)

text \<open>whatever event about messages or topics the shell applies, each thread keeps its messages
  sorted by time and number with each id once, every message is in the list of its own thread, and no
  outgoing message at or below the read cursor of its chat shows as only sent; and the read cursor of
  a chat never goes back.
\<close>

theorem message_lists_stay_ok:
  assumes "messages_ok s" "apply_message_event ev s = Some s'"
  shows "messages_ok s' \<and>
    (\<forall>k cursor. hm_get (sn_outbox_read s) k = Some cursor \<longrightarrow>
       (\<exists>cursor'. hm_get (sn_outbox_read s') k = Some cursor' \<and> cursor \<le> cursor'))"
proof
  show "messages_ok s'"
    using assms
    by (cases ev) (auto simp: message_ops_ok message_patches change_message_ok change_all_ok changes_keep)
qed (use read_cursor_forward [OF assms(2)] in blast)

text \<open>
  C18: a message that arrives is the one its thread shows under its id, with the read cursor applied
  and the files that the older version of it had downloaded; a message that is removed shows in no
  topic of its chat; every other id of every thread shows what it showed.
\<close>

theorem threads_are_maps:
  assumes "messages_ok s"
  shows "shown_message key i (message_received m s) =
      (if key = message_thread m \<and> i = cm_id m
       then Some (case shown_message key i s of
           Some stored \<Rightarrow> keep_media stored (apply_outbox_cursor s m)
         | None \<Rightarrow> apply_outbox_cursor s m)
       else shown_message key i s) \<and>
    shown_message (p, c, t) i (remove_messages q d ids s) =
      (if p = q \<and> c = d \<and> i \<in> set ids then None else shown_message (p, c, t) i s)"
proof
  let ?s = "note_live_topic m (observe_telegram_message m None
    (note_delivery (delivery_of (cm_protocol m) (cm_conversation_id m) (cm_id m) s) m s))"
  have ok: "messages_ok ?s" using assms by (rule messages_ok_fields) simp_all
  have "shown_message k j ?s = shown_message k j s" "apply_outbox_cursor ?s m = apply_outbox_cursor s m" for k j
    by (simp_all add: shown_message_def thread_rows_def apply_outbox_cursor_def)
  then show "shown_message key i (message_received m s) =
      (if key = message_thread m \<and> i = cm_id m
       then Some (case shown_message key i s of
           Some stored \<Rightarrow> keep_media stored (apply_outbox_cursor s m)
         | None \<Rightarrow> apply_outbox_cursor s m)
       else shown_message key i s)"
    unfolding message_received_def Let_def shown_upsert [OF ok] by (simp split: option.split)
qed (rule shown_removed)

section \<open>Witnesses\<close>

definition demo_message :: "string \<Rightarrow> i64 \<Rightarrow> bool \<Rightarrow> delivery \<Rightarrow> chat_message" where
  "demo_message i sent_at outbound d =
     \<lparr>cm_protocol = primary Telegram, cm_conversation_id = ''7'', cm_id = i, cm_sender = ''me'',
      cm_body = ''hello'', cm_outbound = outbound, cm_delivery = d, cm_sent_at = sent_at, cm_arrival = Live,
      cm_topic = None, cm_links = [], cm_photo = None, cm_audio = None, cm_video = None, cm_file = None,
      cm_reactions = [], cm_reply_to = None, cm_edited = False\<rparr>"

definition demo_thread :: snapshot where
  "demo_thread = upsert_message (demo_message ''telegram:7:3'' 20 True Sent)
     (upsert_message (demo_message ''telegram:7:9'' 10 True Sent) (snapshot_new demo_source []))"

lemma demo_thread_ok: "messages_ok demo_thread"
proof -
  have "messages_ok (snapshot_new demo_source [])" by (simp add: messages_ok_def snapshot_new_def hm_ok_def)
  then show ?thesis unfolding demo_thread_def by (intro upsert_message_ok)
qed

theorem message_lists_stay_ok_witness:
  "\<exists>s. apply_message_event (EvOutboxRead (primary Telegram) ''7'' 5) demo_thread = Some s \<and> messages_ok s \<and>
     map cm_delivery (thread_rows (primary Telegram, ''7'', None) s) = [Sent, Read]"
proof -
  let ?ev = "EvOutboxRead (primary Telegram) ''7'' 5"
  have "\<exists>s. apply_message_event ?ev demo_thread = Some s" by simp
  then obtain s where s: "apply_message_event ?ev demo_thread = Some s" ..
  have "map_option (\<lambda>s. map cm_delivery (thread_rows (primary Telegram, ''7'', None) s))
      (apply_message_event ?ev demo_thread) = Some [Sent, Read]"
    by code_simp
  then show ?thesis using s message_lists_stay_ok [OF demo_thread_ok s] by auto
qed

theorem threads_are_maps_witness:
  "shown_message (primary Telegram, ''7'', None) ''telegram:7:3''
      (message_received (demo_message ''telegram:7:3'' 20 True Failed) demo_thread) =
    Some (demo_message ''telegram:7:3'' 20 True Failed) \<and>
   shown_message (primary Telegram, ''7'', None) ''telegram:7:9''
      (remove_messages (primary Telegram) ''7'' [''telegram:7:9''] demo_thread) = None"
proof -
  have "message_thread (demo_message ''telegram:7:3'' 20 True Failed) = (primary Telegram, ''7'', None)"
    "cm_id (demo_message ''telegram:7:3'' 20 True Failed) = ''telegram:7:3''"
    "shown_message (primary Telegram, ''7'', None) ''telegram:7:3'' demo_thread =
       Some (demo_message ''telegram:7:3'' 20 True Sent)"
    "keep_media (demo_message ''telegram:7:3'' 20 True Sent)
       (apply_outbox_cursor demo_thread (demo_message ''telegram:7:3'' 20 True Failed)) =
     demo_message ''telegram:7:3'' 20 True Failed"
    by code_simp+
  then show ?thesis
    using threads_are_maps [OF demo_thread_ok, of "(primary Telegram, ''7'', None)" "''telegram:7:3''"
        "demo_message ''telegram:7:3'' 20 True Failed"]
      threads_are_maps [OF demo_thread_ok, of _ "''telegram:7:9''" _ "primary Telegram" "''7''" None
        "primary Telegram" "''7''" "[''telegram:7:9'']"]
    by simp
qed

end
