(* ===== verification/Shell_Compose.thy ===== *)
theory Shell_Compose
  imports Shell_Messages Texts
begin

text \<open>
  The compose field (\<open>crates/thinwire-core/src/state.rs\<close>): drafts, attached files, replies, edits,
  and the choice of the open chat. The text of a thread is in the compose field while the thread is
  open and in its draft otherwise; moving between threads keeps every text where it was typed. A path
  is a Unix path, and two paths are equal when their texts are.
\<close>

section \<open>Drafts and attached files\<close>

definition set_draft :: "protocol_id \<Rightarrow> string \<Rightarrow> message_topic option \<Rightarrow> string \<Rightarrow> snapshot \<Rightarrow> snapshot" where
  "set_draft protocol chat topic text s =
     (if is_selected_thread protocol chat topic s then s\<lparr>sn_compose := text\<rparr>
      else if text = [] then s\<lparr>sn_drafts := hm_remove (protocol, chat, topic) (sn_drafts s)\<rparr>
      else s\<lparr>sn_drafts := hm_insert (protocol, chat, topic) text (sn_drafts s)\<rparr>)"

definition MAX_ATTACHMENTS :: nat where
  "MAX_ATTACHMENTS = 30"

definition ATTACH_ONLY_MEDIA :: string where
  "ATTACH_ONLY_MEDIA = ''Only photos and videos can be attached.''"

definition ATTACH_TOO_MANY :: string where
  "ATTACH_TOO_MANY = ''30 files at most in one send.''"

definition ATTACH_NOT_HERE :: string where
  "ATTACH_NOT_HERE = ''This account cannot send photos or videos.''"

text \<open>\<open>Path::file_name\<close> and \<open>Path::extension\<close>.\<close>

definition path_file_name :: "string \<Rightarrow> string option" where
  "path_file_name path =
     (case rev (filter (\<lambda>part. part \<noteq> [] \<and> part \<noteq> ''.'') (str_split (CHR ''/'') path)) of
        [] \<Rightarrow> None
      | part # _ \<Rightarrow> if part = ''..'' then None else Some part)"

definition path_extension :: "string \<Rightarrow> string option" where
  "path_extension path =
     (case Option.bind (path_file_name path) (rsplit_once (CHR ''.'')) of
        None \<Rightarrow> None
      | Some (stem, ext) \<Rightarrow> if stem = [] then None else Some ext)"

definition kind_of_path :: "string \<Rightarrow> media_kind option" where
  "kind_of_path path =
     (case path_extension path of
        None \<Rightarrow> None
      | Some ext \<Rightarrow>
          let ext = map ascii_lower ext in
          if ext \<in> {''jpg'', ''jpeg'', ''png'', ''webp'', ''gif'', ''heic'', ''heif'', ''bmp''} then Some MediaPhoto
          else if ext \<in> {''mp4'', ''m4v'', ''mov'', ''webm'', ''mkv'', ''avi'', ''3gp''} then Some MediaVideo
          else None)"

definition outgoing_file_new :: "string \<Rightarrow> outgoing_file option" where
  "outgoing_file_new path = map_option (\<lambda>kind. \<lparr>of_path = path, of_kind = kind\<rparr>) (kind_of_path path)"

fun attach_all :: "string list \<Rightarrow> outgoing_file list \<Rightarrow> string option \<Rightarrow> outgoing_file list \<times> string option" where
  "attach_all [] tray note_line = (tray, note_line)"
| "attach_all (path # paths) tray note_line =
     (case outgoing_file_new path of
        None \<Rightarrow> attach_all paths tray (Some ATTACH_ONLY_MEDIA)
      | Some f \<Rightarrow>
          if f \<in> set tray then attach_all paths tray note_line
          else if MAX_ATTACHMENTS \<le> length tray then (tray, Some ATTACH_TOO_MANY)
          else attach_all paths (tray @ [f]) note_line)"

definition add_attachments ::
    "protocol_id \<Rightarrow> string \<Rightarrow> message_topic option \<Rightarrow> string list \<Rightarrow> snapshot \<Rightarrow> snapshot" where
  "add_attachments protocol chat topic paths s =
     (if paths = [] then s
      else if \<not> sends_media protocol s then s\<lparr>sn_attachment_note := Some ATTACH_NOT_HERE\<rparr>
      else
        let key = (protocol, chat, topic);
            tray = (case hm_get (sn_attachments s) key of Some tray \<Rightarrow> tray | None \<Rightarrow> []);
            (tray, note_line) = attach_all paths tray None
        in s\<lparr>sn_attachments := hm_insert key tray (sn_attachments s), sn_attachment_note := note_line\<rparr>)"

definition set_tray :: "thread \<Rightarrow> outgoing_file list \<Rightarrow> snapshot \<Rightarrow> snapshot" where
  "set_tray key tray s =
     s\<lparr>sn_attachments :=
         (if tray = [] then hm_remove key (sn_attachments s) else hm_insert key tray (sn_attachments s))\<rparr>"

definition remove_attachment ::
    "protocol_id \<Rightarrow> string \<Rightarrow> message_topic option \<Rightarrow> nat \<Rightarrow> snapshot \<Rightarrow> snapshot" where
  "remove_attachment protocol chat topic index s =
     (let key = (protocol, chat, topic);
          s = (case hm_get (sn_attachments s) key of
                 Some tray \<Rightarrow>
                   if index < length tray then set_tray key (take index tray @ drop (Suc index) tray) s else s
               | None \<Rightarrow> s)
      in s\<lparr>sn_attachment_note := None\<rparr>)"

definition clear_sent_files ::
    "protocol_id \<Rightarrow> string \<Rightarrow> message_topic option \<Rightarrow> outgoing_file list \<Rightarrow> snapshot \<Rightarrow> snapshot" where
  "clear_sent_files protocol chat topic files s =
     (if files = [] then s
      else case hm_get (sn_attachments s) (protocol, chat, topic) of
          None \<Rightarrow> s
        | Some tray \<Rightarrow> set_tray (protocol, chat, topic) (filter (\<lambda>f. f \<notin> set files) tray) s)"

definition clear_sent_text ::
    "protocol_id \<Rightarrow> string \<Rightarrow> message_topic option \<Rightarrow> string \<Rightarrow> snapshot \<Rightarrow> snapshot" where
  "clear_sent_text protocol chat topic body s =
     (let s = (if is_selected_thread protocol chat topic s \<and> trim (sn_compose s) = body
               then s\<lparr>sn_compose := []\<rparr> else s);
          key = (protocol, chat, topic)
      in case hm_get (sn_drafts s) key of
           Some draft \<Rightarrow> if trim draft = body then s\<lparr>sn_drafts := hm_remove key (sn_drafts s)\<rparr> else s
         | None \<Rightarrow> s)"

section \<open>Replies and edits\<close>

definition open_message :: "protocol_id \<Rightarrow> string \<Rightarrow> message_topic option \<Rightarrow> string \<Rightarrow> snapshot \<Rightarrow> chat_message option" where
  "open_message protocol chat topic message_id s =
     (if is_selected_thread protocol chat topic s
      then find (\<lambda>row. cm_id row = message_id) (selected_messages s) else None)"

definition reply_target_message :: "snapshot \<Rightarrow> chat_message option" where
  "reply_target_message s =
     (case sn_replying s of
        None \<Rightarrow> None
      | Some target \<Rightarrow>
          open_message (rt_protocol target) (rt_conversation_id target) (rt_topic target) (rt_message_id target) s)"

definition edit_target_message :: "snapshot \<Rightarrow> chat_message option" where
  "edit_target_message s =
     (case sn_editing s of
        None \<Rightarrow> None
      | Some target \<Rightarrow>
          open_message (et_protocol target) (et_conversation_id target) (et_topic target) (et_message_id target) s)"

definition can_edit :: "chat_message \<Rightarrow> bool" where
  "can_edit message \<longleftrightarrow>
     cm_outbound message \<and> trim (cm_body message) \<noteq> [] \<and> cm_delivery message \<in> {Sent, Read} \<and>
     cm_photo message = None \<and> cm_audio message = None \<and> cm_video message = None \<and> cm_file message = None"

definition cancel_edit :: "snapshot \<Rightarrow> snapshot" where
  "cancel_edit s =
     (case sn_editing s of
        None \<Rightarrow> s
      | Some target \<Rightarrow> s\<lparr>sn_editing := None, sn_compose := et_draft target\<rparr>)"

definition begin_reply :: "protocol_id \<Rightarrow> string \<Rightarrow> string \<Rightarrow> snapshot \<Rightarrow> snapshot" where
  "begin_reply protocol conversation_id message_id s =
     (if \<not> act_reply (shell_actions protocol s) \<or>
         \<not> is_selected_thread protocol conversation_id (sn_selected_topic s) s \<or>
         \<not> list_ex (\<lambda>row. cm_id row = message_id) (selected_messages s) then s
      else (cancel_edit s)\<lparr>sn_replying := Some
        \<lparr>rt_protocol = protocol, rt_conversation_id = conversation_id, rt_topic = sn_selected_topic s,
         rt_message_id = message_id\<rparr>\<rparr>)"

definition cancel_reply :: "snapshot \<Rightarrow> snapshot" where
  "cancel_reply s = s\<lparr>sn_replying := None\<rparr>"

definition take_reply :: "snapshot \<Rightarrow> string option \<times> snapshot" where
  "take_reply s =
     (case map_option cm_id (reply_target_message s) of
        None \<Rightarrow> (None, s)
      | Some i \<Rightarrow> (Some i, s\<lparr>sn_replying := None\<rparr>))"

definition begin_edit :: "protocol_id \<Rightarrow> string \<Rightarrow> string \<Rightarrow> snapshot \<Rightarrow> snapshot" where
  "begin_edit protocol conversation_id message_id s =
     (if \<not> act_edit (shell_actions protocol s) \<or>
         \<not> is_selected_thread protocol conversation_id (sn_selected_topic s) s then s
      else case find (\<lambda>row. cm_id row = message_id) (selected_messages s) of
          None \<Rightarrow> s
        | Some row \<Rightarrow>
            if \<not> can_edit row then s
            else
              let draft = (case sn_editing s of Some old \<Rightarrow> et_draft old | None \<Rightarrow> sn_compose s)
              in s\<lparr>sn_replying := None,
                   sn_editing := Some
                     \<lparr>et_protocol = protocol, et_conversation_id = conversation_id,
                      et_topic = sn_selected_topic s, et_message_id = message_id, et_draft = draft\<rparr>,
                   sn_compose := cm_body row,
                   sn_focus_compose := True\<rparr>)"

definition save_edit :: "snapshot \<Rightarrow> snapshot" where
  "save_edit s =
     (let body = trim (sn_compose s) in
      case edit_target_message s of
        None \<Rightarrow> cancel_edit s
      | Some message \<Rightarrow>
          if body = [] then s
          else
            let unchanged = (trim (cm_body message) = body);
                command = CmdEditMessage (cm_protocol message) (cm_conversation_id message) (cm_id message) body;
                s = cancel_edit s
            in if unchanged then s else push_command command (s\<lparr>sn_error := None\<rparr>))"

definition delete_message :: "protocol_id \<Rightarrow> string \<Rightarrow> string \<Rightarrow> bool \<Rightarrow> snapshot \<Rightarrow> snapshot" where
  "delete_message protocol conversation_id message_id for_everyone s =
     (let actions = shell_actions protocol s in
      case find (\<lambda>row. cm_protocol row = protocol \<and> cm_conversation_id row = conversation_id \<and>
                  cm_id row = message_id) (selected_messages s) of
        None \<Rightarrow> s
      | Some message \<Rightarrow>
          if \<not> (if for_everyone then act_delete_for_everyone actions \<and> cm_outbound message
                else act_delete_for_me actions) then s
          else
            let s = (case sn_replying s of
                 Some target \<Rightarrow> if rt_message_id target = message_id then s\<lparr>sn_replying := None\<rparr> else s
               | None \<Rightarrow> s)
            in push_command (CmdDeleteMessage protocol conversation_id message_id for_everyone) s)"

definition MAX_EMOJI_BYTES :: nat where
  "MAX_EMOJI_BYTES = 32"

definition react :: "protocol_id \<Rightarrow> string \<Rightarrow> string \<Rightarrow> string \<Rightarrow> bool \<Rightarrow> snapshot \<Rightarrow> snapshot" where
  "react protocol conversation_id message_id emoji add s =
     (let actions = shell_actions protocol s in
      if \<not> act_react actions \<or> emoji = [] \<or> MAX_EMOJI_BYTES < length emoji then s
      else if \<not> is_selected_thread protocol conversation_id (sn_selected_topic s) s then s
      else if find_message protocol conversation_id message_id s = None then s
      else push_command (CmdReact protocol conversation_id message_id emoji add)
        (change_message protocol conversation_id message_id
          (\<lambda>row. row\<lparr>cm_reactions := toggle (cm_reactions row) emoji add (act_one_reaction actions)\<rparr>) s))"

section \<open>The open chat\<close>

text \<open>The text leaves the compose field for the draft of its thread, and comes back from it.\<close>

definition park_draft :: "snapshot \<Rightarrow> snapshot" where
  "park_draft s =
     (case sn_selected_conversation s of
        Some old \<Rightarrow>
          if sn_compose s \<noteq> []
          then s\<lparr>sn_compose := [],
                 sn_drafts := hm_insert (sn_selected_protocol s, old, sn_selected_topic s) (sn_compose s) (sn_drafts s)\<rparr>
          else s
      | None \<Rightarrow> s\<lparr>sn_compose := []\<rparr>)"

definition take_draft :: "string option \<Rightarrow> message_topic option \<Rightarrow> snapshot \<Rightarrow> snapshot" where
  "take_draft i topic s =
     (case i of
        Some new \<Rightarrow>
          s\<lparr>sn_compose := (case hm_get (sn_drafts s) (sn_selected_protocol s, new, topic) of
                Some text \<Rightarrow> text | None \<Rightarrow> []),
            sn_drafts := hm_remove (sn_selected_protocol s, new, topic) (sn_drafts s)\<rparr>
      | None \<Rightarrow> s)"

definition set_selection :: "string option \<Rightarrow> message_topic option \<Rightarrow> snapshot \<Rightarrow> snapshot" where
  "set_selection i topic s =
     (if sn_selected_conversation s = i \<and> sn_selected_topic s = topic then s
      else (take_draft i topic ((park_draft (cancel_edit s))\<lparr>sn_selected_topic := topic\<rparr>))
             \<lparr>sn_selected_conversation := i\<rparr>)"

definition set_selected_conversation :: "string option \<Rightarrow> snapshot \<Rightarrow> snapshot" where
  "set_selected_conversation i = set_selection i None"

definition opens_already :: "protocol_id \<Rightarrow> string \<Rightarrow> message_topic option \<Rightarrow> adapter_command \<Rightarrow> bool" where
  "opens_already protocol i topic command \<longleftrightarrow>
     command = (case topic of Some t \<Rightarrow> CmdOpenTopic protocol i t | None \<Rightarrow> CmdOpenChat protocol i)"

definition queue_open_chat :: "snapshot \<Rightarrow> snapshot" where
  "queue_open_chat s =
     (let protocol = sn_selected_protocol s in
      case sn_selected_conversation s of
        None \<Rightarrow> s
      | Some i \<Rightarrow>
          if signal_retained_slot i \<noteq> None then s
          else if \<not> protocol_linked protocol s then s\<lparr>sn_open_on_link := Some (protocol, i)\<rparr>
          else
            let s = s\<lparr>sn_open_on_link := None\<rparr>;
                topic = sn_selected_topic s
            in if \<not> list_ex (\<lambda>row. cv_id row = i \<and> \<not> cv_placeholder row) (conversation_rows protocol s) then s
               else if list_ex (opens_already protocol i topic) (sn_pending s) then s
               else push_command
                 (case topic of Some t \<Rightarrow> CmdOpenTopic protocol i t | None \<Rightarrow> CmdOpenChat protocol i)
                 (s\<lparr>sn_history_loading := insert (protocol, i) (sn_history_loading s)\<rparr>))"

definition ensure_conversation_selection :: "snapshot \<Rightarrow> snapshot" where
  "ensure_conversation_selection s =
     (if sn_selected_conversation s \<noteq> None then s
      else
        let protocol = sn_selected_protocol s;
            retained = sn_selected_signal_retained s
        in case find (\<lambda>row. \<not> cv_placeholder row \<and>
                  (\<not> pid_is protocol Signal \<or> signal_retained_slot (cv_id row) = retained))
                (conversation_rows protocol s) of
             None \<Rightarrow> s
           | Some row \<Rightarrow> queue_open_chat (set_selected_conversation (Some (cv_id row)) s))"

definition select_protocol :: "(protocol_kind \<Rightarrow> bool) \<Rightarrow> protocol_id \<Rightarrow> snapshot \<Rightarrow> snapshot" where
  "select_protocol built protocol s =
     (if \<not> account_surface_visible built protocol s then s
      else ensure_conversation_selection
        ((set_selected_conversation None s)
           \<lparr>sn_selected_protocol := protocol, sn_selected_signal_retained := None, sn_focused_row := None\<rparr>))"

definition select_retained_signal :: "(protocol_kind \<Rightarrow> bool) \<Rightarrow> nat \<Rightarrow> snapshot \<Rightarrow> snapshot" where
  "select_retained_signal built slot s =
     (let known = list_ex (\<lambda>row. pid_is (cap_id (ar_caps row)) Signal \<and> ar_signal_retained row = Some slot)
                    (sn_accounts s)
      in if \<not> known \<or> \<not> account_surface_visible built (primary Signal) s then s
         else ensure_conversation_selection
           ((set_selected_conversation None s)
              \<lparr>sn_selected_protocol := primary Signal, sn_selected_signal_retained := Some slot,
               sn_focused_row := None\<rparr>))"

definition select_conversation :: "string \<Rightarrow> snapshot \<Rightarrow> snapshot" where
  "select_conversation i s =
     (let s = s\<lparr>sn_focused_row := Some i\<rparr>;
          has_topics = (case find_conversation (sn_selected_protocol s) i s of
                          Some row \<Rightarrow> cv_has_topics row | None \<Rightarrow> False);
          s = set_selection (Some i) None s
      in queue_open_chat (s\<lparr>sn_focus_compose := \<not> has_topics, sn_scroll_to_selected := True\<rparr>))"

definition select_topic :: "string \<Rightarrow> message_topic \<Rightarrow> snapshot \<Rightarrow> bool \<times> snapshot" where
  "select_topic conversation_id topic s =
     (case topic_row (sn_selected_protocol s) conversation_id topic s of
        None \<Rightarrow> (False, s)
      | Some row \<Rightarrow>
          if tp_hidden row then (False, s)
          else
            let s = (if sn_selected_conversation s = Some conversation_id then s
                     else s\<lparr>sn_focused_row := Some conversation_id, sn_scroll_to_selected := True\<rparr>);
                s = set_selection (Some conversation_id) (Some topic) s
            in (True, queue_open_chat (s\<lparr>sn_focus_compose := \<not> tp_closed row\<rparr>)))"

definition close_open_topic :: "snapshot \<Rightarrow> snapshot" where
  "close_open_topic s =
     (if sn_selected_topic s = None then s
      else (set_selection (sn_selected_conversation s) None s)\<lparr>sn_focus_compose := False\<rparr>)"

section \<open>The text of a thread\<close>

text \<open>
  What the user typed in a thread and did not send: the compose field (while an edit runs, the text
  that it put aside) for the open thread, the draft for another one.
\<close>

definition compose_text :: "snapshot \<Rightarrow> string" where
  "compose_text s = (case sn_editing s of Some target \<Rightarrow> et_draft target | None \<Rightarrow> sn_compose s)"

definition thread_text :: "thread \<Rightarrow> snapshot \<Rightarrow> string" where
  "thread_text key s =
     (if is_selected_thread (fst key) (fst (snd key)) (snd (snd key)) s then compose_text s
      else case hm_get (sn_drafts s) key of Some draft \<Rightarrow> draft | None \<Rightarrow> [])"

definition open_thread :: "snapshot \<Rightarrow> thread option" where
  "open_thread s =
     map_option (\<lambda>i. (sn_selected_protocol s, i, sn_selected_topic s)) (sn_selected_conversation s)"

text \<open>The open thread has no draft beside the compose field.\<close>

definition drafts_ok :: "snapshot \<Rightarrow> bool" where
  "drafts_ok s \<longleftrightarrow> (case open_thread s of Some key \<Rightarrow> hm_get (sn_drafts s) key = None | None \<Rightarrow> True)"

lemma thread_text_open:
  "thread_text key s =
     (if open_thread s = Some key then compose_text s
      else case hm_get (sn_drafts s) key of Some draft \<Rightarrow> draft | None \<Rightarrow> [])"
  by (cases key) (auto simp: thread_text_def is_selected_thread_def is_selected_chat_def open_thread_def)

lemma cancel_edit_fields [simp]:
  "sn_editing (cancel_edit s) = None" "sn_compose (cancel_edit s) = compose_text s"
  "sn_drafts (cancel_edit s) = sn_drafts s" "sn_selected_protocol (cancel_edit s) = sn_selected_protocol s"
  "sn_selected_conversation (cancel_edit s) = sn_selected_conversation s"
  "sn_selected_topic (cancel_edit s) = sn_selected_topic s" "sn_messages (cancel_edit s) = sn_messages s"
  "sn_pending (cancel_edit s) = sn_pending s" "sn_sends (cancel_edit s) = sn_sends s"
  "compose_text (cancel_edit s) = compose_text s" "open_thread (cancel_edit s) = open_thread s"
  by (auto simp: cancel_edit_def compose_text_def open_thread_def split: option.split)

lemma thread_text_cong:
  "open_thread s' = open_thread s \<Longrightarrow> compose_text s' = compose_text s \<Longrightarrow> sn_drafts s' = sn_drafts s \<Longrightarrow>
   thread_text key s' = thread_text key s"
  by (simp add: thread_text_open)

lemma drafts_ok_cong:
  "open_thread s' = open_thread s \<Longrightarrow> sn_drafts s' = sn_drafts s \<Longrightarrow> drafts_ok s' = drafts_ok s"
  by (simp add: drafts_ok_def split: option.split)

lemma compose_text_cong:
  "sn_compose s' = sn_compose s \<Longrightarrow> sn_editing s' = sn_editing s \<Longrightarrow> compose_text s' = compose_text s"
  by (simp add: compose_text_def split: option.split)

lemma open_thread_update [simp]:
  "open_thread (s\<lparr>sn_focused_row := a\<rparr>) = open_thread s" "open_thread (s\<lparr>sn_focus_compose := b\<rparr>) = open_thread s"
  "open_thread (s\<lparr>sn_scroll_to_selected := b\<rparr>) = open_thread s" "open_thread (s\<lparr>sn_compose := x\<rparr>) = open_thread s"
  "open_thread (s\<lparr>sn_drafts := d\<rparr>) = open_thread s" "open_thread (s\<lparr>sn_error := e\<rparr>) = open_thread s"
  "open_thread (s\<lparr>sn_history_loading := h\<rparr>) = open_thread s" "open_thread (s\<lparr>sn_open_on_link := l\<rparr>) = open_thread s"
  "open_thread (s\<lparr>sn_replying := r\<rparr>) = open_thread s" "open_thread (s\<lparr>sn_editing := t\<rparr>) = open_thread s"
  "open_thread (s\<lparr>sn_sends := k\<rparr>) = open_thread s" "open_thread (s\<lparr>sn_attachments := f\<rparr>) = open_thread s"
  "open_thread (s\<lparr>sn_attachment_note := g\<rparr>) = open_thread s"
  "open_thread (s\<lparr>sn_rejected_bodies := j\<rparr>) = open_thread s"
  by (simp_all add: open_thread_def)

lemma park_draft_fields [simp]:
  "sn_editing (park_draft s) = sn_editing s" "sn_compose (park_draft s) = []"
  "sn_selected_protocol (park_draft s) = sn_selected_protocol s"
  by (auto simp: park_draft_def split: option.split)

lemma take_draft_fields [simp]:
  "sn_editing (take_draft i topic s) = sn_editing s" "sn_selected_topic (take_draft i topic s) = sn_selected_topic s"
  "sn_selected_protocol (take_draft i topic s) = sn_selected_protocol s"
  by (simp_all add: take_draft_def split: option.split)

lemma set_selection_open:
  "open_thread (set_selection i topic s) = map_option (\<lambda>c. (sn_selected_protocol s, c, topic)) i"
  by (auto simp: set_selection_def open_thread_def)

lemma set_selection_same: "sn_selected_conversation s = i \<Longrightarrow> sn_selected_topic s = topic \<Longrightarrow> set_selection i topic s = s"
  by (simp add: set_selection_def)

definition parked :: "snapshot \<Rightarrow> (thread \<times> string) list" where
  "parked s =
     (case open_thread s of
        Some key \<Rightarrow> if compose_text s \<noteq> [] then hm_insert key (compose_text s) (sn_drafts s) else sn_drafts s
      | None \<Rightarrow> sn_drafts s)"

lemma hm_get_parked:
  "hm_get (parked s) key =
     (if open_thread s = Some key \<and> compose_text s \<noteq> [] then Some (compose_text s) else hm_get (sn_drafts s) key)"
  by (auto simp: parked_def split: option.split)

lemma park_draft_drafts: "sn_editing s = None \<Longrightarrow> sn_drafts (park_draft s) = parked s"
  by (simp add: park_draft_def parked_def open_thread_def compose_text_def split: option.split)

lemma parked_cancel [simp]: "parked (cancel_edit s) = parked s"
  by (simp add: parked_def split: option.split)

lemma set_selection_changed:
  assumes "\<not> (sn_selected_conversation s = i \<and> sn_selected_topic s = topic)"
  shows "sn_editing (set_selection i topic s) = None"
    and "sn_drafts (set_selection i topic s) =
      (case i of None \<Rightarrow> parked s | Some c \<Rightarrow> hm_remove (sn_selected_protocol s, c, topic) (parked s))"
    and "sn_compose (set_selection i topic s) =
      (case i of None \<Rightarrow> []
       | Some c \<Rightarrow> (case hm_get (parked s) (sn_selected_protocol s, c, topic) of Some text \<Rightarrow> text | None \<Rightarrow> []))"
  unfolding set_selection_def if_not_P [OF assms]
  by (simp_all add: take_draft_def park_draft_drafts split: option.split)

lemma set_selection_texts:
  assumes "drafts_ok s"
  shows "thread_text key (set_selection i topic s) = thread_text key s"
proof (cases "sn_selected_conversation s = i \<and> sn_selected_topic s = topic")
  case False
  let ?s = "set_selection i topic s"
  note changed = set_selection_changed [OF False]
  have no: "open_thread s = Some key \<Longrightarrow> hm_get (sn_drafts s) key = None"
    using assms by (simp add: drafts_ok_def)
  show ?thesis
  proof (cases "open_thread ?s = Some key")
    case True
    then obtain c where c: "i = Some c" "key = (sn_selected_protocol s, c, topic)"
      by (cases i) (simp_all add: set_selection_open)
    then have "open_thread s \<noteq> Some key" using False by (auto simp: open_thread_def)
    then show ?thesis using True c changed by (simp add: thread_text_open compose_text_def hm_get_parked)
  next
    case out: False
    then have "hm_get (sn_drafts ?s) key = hm_get (parked s) key"
      using changed(2) by (cases i) (simp_all add: set_selection_open)
    then show ?thesis using out no by (auto simp: thread_text_open hm_get_parked)
  qed
qed (simp add: set_selection_same)

lemma set_selection_drafts_ok:
  assumes "drafts_ok s"
  shows "drafts_ok (set_selection i topic s)"
proof (cases "sn_selected_conversation s = i \<and> sn_selected_topic s = topic")
  case False
  then show ?thesis
    using set_selection_changed(2) [OF False] by (cases i) (simp_all add: drafts_ok_def set_selection_open)
qed (use assms in \<open>simp add: set_selection_same\<close>)

lemma set_selection_editing: "sn_editing s = None \<Longrightarrow> sn_editing (set_selection i topic s) = None"
  by (cases "sn_selected_conversation s = i \<and> sn_selected_topic s = topic")
    (auto simp: set_selection_same set_selection_changed)

section \<open>Moves between threads\<close>

text \<open>A state whose texts a move does not touch: what a client of the drafts relies on.\<close>

datatype ('move, 'key) draft_op = Move 'move | Type 'key string

fun draft_step :: "('move \<Rightarrow> 's \<Rightarrow> 's) \<Rightarrow> ('key \<Rightarrow> string \<Rightarrow> 's \<Rightarrow> 's) \<Rightarrow> ('move, 'key) draft_op \<Rightarrow> 's \<Rightarrow> 's" where
  "draft_step move put (Move m) s = move m s"
| "draft_step move put (Type key text) s = put key text s"

fun draft_spec :: "('move, 'key) draft_op list \<Rightarrow> ('key \<Rightarrow> string) \<Rightarrow> 'key \<Rightarrow> string" where
  "draft_spec [] texts = texts"
| "draft_spec (Move _ # ops) texts = draft_spec ops texts"
| "draft_spec (Type key x # ops) texts = draft_spec ops (texts(key := x))"

locale draft_store =
  fixes text_of :: "'key \<Rightarrow> 's \<Rightarrow> string"
    and move :: "'move \<Rightarrow> 's \<Rightarrow> 's"
    and put :: "'key \<Rightarrow> string \<Rightarrow> 's \<Rightarrow> 's"
    and ok :: "'s \<Rightarrow> bool"
  assumes ok_move: "ok s \<Longrightarrow> ok (move m s)"
    and ok_put: "ok s \<Longrightarrow> ok (put key x s)"
    and text_move: "ok s \<Longrightarrow> text_of key (move m s) = text_of key s"
    and text_put: "ok s \<Longrightarrow> text_of key (put key' x s) = (if key = key' then x else text_of key s)"
begin

lemma step_ok: "ok s \<Longrightarrow> ok (draft_step move put op s)"
  by (cases op) (simp_all add: ok_move ok_put)

lemma run_refines:
  "ok s \<Longrightarrow> ok (fold (draft_step move put) ops s) \<and>
   (\<forall>key. text_of key (fold (draft_step move put) ops s) = draft_spec ops (\<lambda>key. text_of key s) key)"
proof (induction ops arbitrary: s)
  case (Cons op ops)
  have texts: "(\<lambda>key. text_of key (move m s)) = (\<lambda>key. text_of key s)"
    "(\<lambda>key. text_of key (put key' x s)) = (\<lambda>key. text_of key s)(key' := x)" for m key' x
    using Cons.prems by (auto simp: text_move text_put)
  show ?case
    using Cons.IH [OF step_ok [OF Cons.prems, of op]] by (cases op) (simp_all add: texts)
qed simp

end

datatype thread_move =
  OpenChat string | OpenTopic string message_topic | CloseTopic
| OpenProtocol protocol_id | OpenRetained nat

fun move_thread :: "(protocol_kind \<Rightarrow> bool) \<Rightarrow> thread_move \<Rightarrow> snapshot \<Rightarrow> snapshot" where
  "move_thread built (OpenChat i) s = select_conversation i s"
| "move_thread built (OpenTopic i topic) s = snd (select_topic i topic s)"
| "move_thread built CloseTopic s = close_open_topic s"
| "move_thread built (OpenProtocol protocol) s = select_protocol built protocol s"
| "move_thread built (OpenRetained slot) s = select_retained_signal built slot s"

definition put_text :: "thread \<Rightarrow> string \<Rightarrow> snapshot \<Rightarrow> snapshot" where
  "put_text key text s = set_draft (fst key) (fst (snd key)) (snd (snd key)) text s"

definition texts_ok :: "snapshot \<Rightarrow> bool" where
  "texts_ok s \<longleftrightarrow> drafts_ok s \<and> sn_editing s = None"

text \<open>Two states with the same texts; every move is a chain of such steps.\<close>

definition same_texts :: "snapshot \<Rightarrow> snapshot \<Rightarrow> bool" where
  "same_texts s s' \<longleftrightarrow> texts_ok s' \<and> (\<forall>key. thread_text key s' = thread_text key s)"

lemma same_texts_refl: "texts_ok s \<Longrightarrow> same_texts s s"
  by (simp add: same_texts_def)

lemma same_texts_trans: "same_texts s s' \<Longrightarrow> same_texts s' s'' \<Longrightarrow> same_texts s s''"
  by (simp add: same_texts_def)

lemma same_texts_fields:
  "same_texts s s' \<Longrightarrow> open_thread s'' = open_thread s' \<Longrightarrow> sn_compose s'' = sn_compose s' \<Longrightarrow>
   sn_drafts s'' = sn_drafts s' \<Longrightarrow> sn_editing s'' = sn_editing s' \<Longrightarrow> same_texts s s''"
  using thread_text_cong [of s'' s'] drafts_ok_cong [of s'' s'] compose_text_cong [of s'' s']
  by (auto simp: same_texts_def texts_ok_def)

lemma same_texts_selection: "same_texts s s' \<Longrightarrow> same_texts s (set_selection i topic s')"
  by (simp add: same_texts_def texts_ok_def set_selection_texts set_selection_drafts_ok set_selection_editing)

lemma push_command_fields [simp]:
  "sn_compose (push_command c s) = sn_compose s" "sn_drafts (push_command c s) = sn_drafts s"
  "sn_editing (push_command c s) = sn_editing s" "sn_messages (push_command c s) = sn_messages s"
  "sn_sends (push_command c s) = sn_sends s" "open_thread (push_command c s) = open_thread s"
  "sn_selected_conversation (push_command c s) = sn_selected_conversation s"
  "sn_selected_topic (push_command c s) = sn_selected_topic s"
  "sn_selected_protocol (push_command c s) = sn_selected_protocol s"
  by (simp_all add: push_command_def open_thread_def)

lemma queue_open_chat_fields [simp]:
  "sn_compose (queue_open_chat s) = sn_compose s" "sn_drafts (queue_open_chat s) = sn_drafts s"
  "sn_editing (queue_open_chat s) = sn_editing s" "open_thread (queue_open_chat s) = open_thread s"
  by (auto simp: queue_open_chat_def Let_def open_thread_def split: option.split)

lemma same_texts_queue: "same_texts s s' \<Longrightarrow> same_texts s (queue_open_chat s')"
  by (erule same_texts_fields) simp_all

lemma same_texts_ensure: "same_texts s s' \<Longrightarrow> same_texts s (ensure_conversation_selection s')"
  using same_texts_queue [OF same_texts_selection]
  by (simp add: ensure_conversation_selection_def set_selected_conversation_def Let_def split: option.split)

lemma set_selection_none: "sn_selected_conversation (set_selection None topic s) = None"
  by (simp add: set_selection_def)

lemma same_texts_leave:
  assumes "same_texts s s'"
  shows "same_texts s ((set_selected_conversation None s')
     \<lparr>sn_selected_protocol := p, sn_selected_signal_retained := r, sn_focused_row := None\<rparr>)"
  unfolding set_selected_conversation_def
  by (rule same_texts_fields [OF same_texts_selection [OF assms, of None None]])
    (simp_all add: open_thread_def set_selection_none)

lemma move_same_texts:
  assumes "texts_ok s"
  shows "same_texts s (move_thread built m s)"
proof -
  have here: "same_texts s (s\<lparr>sn_focused_row := x\<rparr>)" "same_texts s (s\<lparr>sn_focused_row := x, sn_scroll_to_selected := y\<rparr>)"
    for x y
    by (auto intro!: same_texts_fields [OF same_texts_refl [OF assms]])
  show ?thesis
  proof (cases m)
    case (OpenChat i)
    show ?thesis
      unfolding OpenChat move_thread.simps select_conversation_def Let_def
      by (rule same_texts_queue, rule same_texts_fields [OF same_texts_selection [OF here(1)]])
        simp_all
  next
    case (OpenTopic i topic)
    have topic: "same_texts s (queue_open_chat ((set_selection (Some i) (Some topic) s')\<lparr>sn_focus_compose := b\<rparr>))"
      if "same_texts s s'" for s' b
      by (rule same_texts_queue, rule same_texts_fields [OF same_texts_selection [OF that]]) simp_all
    show ?thesis
      using topic [OF here(2)] topic [OF same_texts_refl [OF assms]] same_texts_refl [OF assms]
      by (simp add: OpenTopic select_topic_def Let_def split: option.split)
  next
    case CloseTopic
    show ?thesis
      unfolding CloseTopic move_thread.simps close_open_topic_def
      by (auto intro!: same_texts_refl [OF assms]
          same_texts_fields [OF same_texts_selection [OF same_texts_refl [OF assms]]])
  next
    case (OpenProtocol p)
    show ?thesis
      unfolding OpenProtocol move_thread.simps select_protocol_def
      using assms by (auto intro!: same_texts_ensure same_texts_leave same_texts_refl)
  next
    case (OpenRetained slot)
    show ?thesis
      unfolding OpenRetained move_thread.simps select_retained_signal_def Let_def
      using assms by (auto intro!: same_texts_ensure same_texts_leave same_texts_refl)
  qed
qed

lemma put_text_ok: "texts_ok s \<Longrightarrow> texts_ok (put_text key text s)"
  by (auto simp: texts_ok_def put_text_def set_draft_def drafts_ok_def open_thread_def is_selected_thread_def
      is_selected_chat_def split: option.splits)

lemma put_text_text:
  "texts_ok s \<Longrightarrow> thread_text key (put_text key' text s) = (if key = key' then text else thread_text key s)"
  by (cases key; cases key')
    (auto simp: texts_ok_def put_text_def set_draft_def thread_text_def compose_text_def is_selected_thread_def
      is_selected_chat_def)

interpretation shell_drafts: draft_store thread_text "move_thread built" put_text texts_ok for built
  by unfold_locales (use move_same_texts in \<open>auto simp: same_texts_def put_text_ok put_text_text\<close>)

section \<open>Edits\<close>

lemma open_messageD:
  "open_message p c t i s = Some row \<Longrightarrow>
     is_selected_thread p c t s \<and> row \<in> set (selected_messages s) \<and> cm_id row = i"
  by (auto simp: open_message_def find_Some_iff split: if_splits)

lemma begin_edit_cases:
  assumes "sn_editing s = None" "sn_editing (begin_edit p c i s) = Some target"
  obtains row where "is_selected_thread p c (sn_selected_topic s) s"
    "find (\<lambda>row. cm_id row = i) (selected_messages s) = Some row"
    "begin_edit p c i s = s\<lparr>sn_replying := None, sn_editing := Some
       \<lparr>et_protocol = p, et_conversation_id = c, et_topic = sn_selected_topic s, et_message_id = i,
        et_draft = sn_compose s\<rparr>, sn_compose := cm_body row, sn_focus_compose := True\<rparr>"
proof -
  have g: "act_edit (shell_actions p s)" "is_selected_thread p c (sn_selected_topic s) s"
    using assms by (auto simp: begin_edit_def split: if_splits)
  obtain row where row: "find (\<lambda>row. cm_id row = i) (selected_messages s) = Some row"
    using assms g by (cases "find (\<lambda>row. cm_id row = i) (selected_messages s)") (simp_all add: begin_edit_def)
  have "can_edit row"
    using assms g row by (cases "can_edit row") (simp_all add: begin_edit_def)
  then have "begin_edit p c i s = s\<lparr>sn_replying := None, sn_editing := Some
       \<lparr>et_protocol = p, et_conversation_id = c, et_topic = sn_selected_topic s, et_message_id = i,
        et_draft = sn_compose s\<rparr>, sn_compose := cm_body row, sn_focus_compose := True\<rparr>"
    using assms(1) g row by (simp add: begin_edit_def)
  then show thesis using that g(2) row by blast
qed

lemma selected_place:
  "messages_ok s \<Longrightarrow> row \<in> set (selected_messages s) \<Longrightarrow>
     sn_selected_protocol s = cm_protocol row \<and> sn_selected_conversation s = Some (cm_conversation_id row)"
proof -
  assume ok: "messages_ok s" and mem: "row \<in> set (selected_messages s)"
  obtain i where i: "sn_selected_conversation s = Some i"
    using mem by (cases "sn_selected_conversation s") (simp_all add: selected_messages_def)
  obtain rows where rows: "hm_get (sn_messages s) (sn_selected_protocol s, i, sn_selected_topic s) = Some rows"
    using mem i by (cases "hm_get (sn_messages s) (sn_selected_protocol s, i, sn_selected_topic s)")
      (simp_all add: selected_messages_def thread_rows_def thread_key_def)
  have "message_thread row = (sn_selected_protocol s, i, sn_selected_topic s)"
    using mem i rows messages_okD [OF ok rows]
    by (simp add: selected_messages_def thread_rows_def thread_key_def thread_ok_def)
  then show ?thesis using i by (simp add: message_thread_def thread_key_def)
qed

lemma selected_messages_cong:
  "sn_selected_protocol s' = sn_selected_protocol s \<Longrightarrow> sn_selected_conversation s' = sn_selected_conversation s \<Longrightarrow>
   sn_selected_topic s' = sn_selected_topic s \<Longrightarrow> sn_messages s' = sn_messages s \<Longrightarrow>
   selected_messages s' = selected_messages s \<and> is_selected_thread p c t s' = is_selected_thread p c t s"
  by (simp add: selected_messages_def thread_rows_def is_selected_thread_def is_selected_chat_def split: option.split)

section \<open>Properties\<close>

text \<open>
  C11: however the user types texts and moves between chats, topics, accounts and previous accounts,
  each thread holds exactly the text last typed in it: a move loses no text and puts none in
  another thread.
\<close>

theorem texts_follow_threads:
  assumes "texts_ok s"
  shows "thread_text key (fold (draft_step (move_thread built) put_text) ops s) =
     draft_spec ops (\<lambda>key. thread_text key s) key"
  using shell_drafts.run_refines [OF assms] by blast

text \<open>an edit puts the typed text aside and gives it back. Whatever is typed meanwhile, Escape
  restores the text; Enter with a text restores it too, ends the edit and queues one command with the
  trimmed text for exactly that message, or none when the text did not change.
\<close>

theorem edit_round_trip:
  assumes "messages_ok s" "sn_editing s = None" "sn_editing (begin_edit p c i s) = Some target"
  shows "sn_compose (cancel_edit ((begin_edit p c i s)\<lparr>sn_compose := x\<rparr>)) = sn_compose s \<and>
    (trim x \<noteq> [] \<longrightarrow>
       sn_compose (save_edit ((begin_edit p c i s)\<lparr>sn_compose := x\<rparr>)) = sn_compose s \<and>
       sn_editing (save_edit ((begin_edit p c i s)\<lparr>sn_compose := x\<rparr>)) = None \<and>
       (\<exists>row \<in> set (selected_messages s). cm_id row = i \<and>
          sn_pending (save_edit ((begin_edit p c i s)\<lparr>sn_compose := x\<rparr>)) =
            sn_pending s @ (if trim (cm_body row) = trim x then [] else [CmdEditMessage p c i (trim x)])))"
proof -
  let ?s = "(begin_edit p c i s)\<lparr>sn_compose := x\<rparr>"
  obtain row where sel: "is_selected_thread p c (sn_selected_topic s) s"
    and row: "find (\<lambda>row. cm_id row = i) (selected_messages s) = Some row"
    and s1: "begin_edit p c i s = s\<lparr>sn_replying := None, sn_editing := Some
       \<lparr>et_protocol = p, et_conversation_id = c, et_topic = sn_selected_topic s, et_message_id = i,
        et_draft = sn_compose s\<rparr>, sn_compose := cm_body row, sn_focus_compose := True\<rparr>"
    using begin_edit_cases [OF assms(2,3)] .
  have mem: "row \<in> set (selected_messages s)" "cm_id row = i"
    using row by (auto simp: find_Some_iff)
  then have place: "cm_protocol row = p" "cm_conversation_id row = c"
    using selected_place [OF assms(1)] sel by (auto simp: is_selected_thread_def is_selected_chat_def)
  have draft: "compose_text ?s = sn_compose s" by (simp add: s1 compose_text_def)
  have "selected_messages ?s = selected_messages s \<and> is_selected_thread p c t ?s = is_selected_thread p c t s" for t
    by (rule selected_messages_cong) (simp_all add: s1)
  then have target: "edit_target_message ?s = Some row"
    using sel row by (simp add: edit_target_message_def s1 open_message_def)
  have "sn_pending (save_edit ?s) =
      sn_pending s @ (if trim (cm_body row) = trim x then [] else [CmdEditMessage p c i (trim x)])"
    and "sn_compose (save_edit ?s) = sn_compose s" and "sn_editing (save_edit ?s) = None" if "trim x \<noteq> []"
    using that target draft place mem by (simp_all add: save_edit_def Let_def push_command_plain s1)
  then show ?thesis using draft mem by auto
qed

section \<open>Witnesses\<close>

definition demo_caps :: "protocol_id \<Rightarrow> protocol_capabilities" where
  "demo_caps p = \<lparr>cap_id = p, cap_support = Supported, cap_short_label = [], cap_detail = [],
     cap_official_api = True, cap_automation = False, cap_sends_text = True, cap_pages_history = True,
     cap_sends_media = True, cap_actions = \<lparr>act_reply = True, act_react = True, act_delete_for_me = True,
       act_delete_for_everyone = True, act_one_reaction = True, act_edit = True\<rparr>\<rparr>"

definition demo_chat :: "protocol_id \<Rightarrow> string \<Rightarrow> conversation" where
  "demo_chat p i = \<lparr>cv_protocol = p, cv_id = i, cv_title = ''Ann'', cv_participant = [], cv_preview = [],
     cv_unread = 3, cv_order = 0, cv_last_at = 0, cv_is_group = False, cv_writable = True, cv_placeholder = False,
     cv_muted = False, cv_has_topics = False, cv_avatar = default_avatar\<rparr>"

definition demo_linked :: snapshot where
  "demo_linked =
     (let s = snapshot_new demo_source [demo_caps (primary Telegram)]
      in s\<lparr>sn_accounts := map (\<lambda>row. row\<lparr>ar_state := Linked\<rparr>) (sn_accounts s),
           sn_sessions := {primary Telegram}, sn_telegram_authorized := True,
           sn_conversations := [(primary Telegram, [demo_chat (primary Telegram) ''7'', demo_chat (primary Telegram) ''8''])],
           sn_messages := sn_messages demo_thread,
           sn_selected_conversation := Some ''7''\<rparr>)"

lemma demo_linked_ok: "messages_ok demo_linked" "texts_ok demo_linked"
proof -
  have cursors: "sn_outbox_read demo_linked = []" "sn_outbox_read demo_thread = []"
    by (simp_all add: demo_linked_def Let_def demo_thread_def upsert_message_def snapshot_new_def)
  show "messages_ok demo_linked"
    using demo_thread_ok by (rule messages_ok_fields) (simp_all only: cursors, simp add: demo_linked_def Let_def)
  show "texts_ok demo_linked"
    by (simp add: texts_ok_def drafts_ok_def demo_linked_def Let_def snapshot_new_def open_thread_def)
qed

theorem texts_follow_threads_witness:
  "thread_text (primary Telegram, ''7'', None)
     (fold (draft_step (move_thread (\<lambda>_. False)) put_text)
       [Type (primary Telegram, ''7'', None) ''draft'', Move (OpenChat ''8''),
        Type (primary Telegram, ''8'', None) ''other''] demo_linked) = ''draft''"
  unfolding texts_follow_threads [OF demo_linked_ok(2)] by simp

theorem edit_round_trip_witness:
  "sn_compose (cancel_edit ((begin_edit (primary Telegram) ''7'' ''telegram:7:3'' (demo_linked\<lparr>sn_compose := ''typed''\<rparr>))
     \<lparr>sn_compose := ''changed''\<rparr>)) = ''typed'' \<and> messages_ok (demo_linked\<lparr>sn_compose := ''typed''\<rparr>)"
proof -
  let ?s = "demo_linked\<lparr>sn_compose := ''typed''\<rparr>"
  have ok: "messages_ok ?s" using demo_linked_ok(1) by (rule messages_ok_fields) simp_all
  have none: "sn_editing ?s = None" by (simp add: demo_linked_def Let_def snapshot_new_def)
  have "sn_editing (begin_edit (primary Telegram) ''7'' ''telegram:7:3'' ?s) \<noteq> None" by code_simp
  then obtain target where "sn_editing (begin_edit (primary Telegram) ''7'' ''telegram:7:3'' ?s) = Some target" by auto
  then show ?thesis using edit_round_trip [OF ok none] ok by simp
qed

end
