(* ===== verification/Shell_Sends.thy ===== *)
theory Shell_Sends
  imports Shell_Compose
begin

text \<open>
  The send pipeline of the shell (\<open>crates/thinwire-core/src/state.rs\<close>): Send and Retry, the answer of
  the adapter, the timeout and a late answer, and the texts that the end of a session keeps. The
  text of a send stays in its thread until the adapter accepts it. The clock is an argument.
\<close>

section \<open>Sending\<close>

definition can_send :: "snapshot \<Rightarrow> bool" where
  "can_send s \<longleftrightarrow>
     (let protocol = sn_selected_protocol s;
          sends_text = linked_with protocol cap_sends_text s;
          topic_open = (case selected_topic_row s of Some row \<Rightarrow> \<not> tp_closed row | None \<Rightarrow> True);
          retained = (case sn_selected_conversation s of Some i \<Rightarrow> signal_retained_slot i \<noteq> None | None \<Rightarrow> False);
          has_text = (trim (sn_compose s) \<noteq> []);
          has_files = (compose_attachments s \<noteq> [])
      in if edit_target_message s \<noteq> None then sends_text \<and> \<not> retained \<and> has_text
         else sends_text \<and> \<not> retained \<and> topic_open \<and> (has_text \<or> has_files) \<and>
              (has_files \<longrightarrow> sends_media protocol s) \<and>
              (case selected_conversation_row s of
                 Some row \<Rightarrow> cv_writable row \<and> \<not> in_flight protocol (cv_id row) (sn_sends s)
               | None \<Rightarrow> False))"

definition send_command ::
    "protocol_id \<Rightarrow> string \<Rightarrow> message_topic option \<Rightarrow> outgoing_file list \<Rightarrow> string \<Rightarrow> u64 \<Rightarrow> string option \<Rightarrow> adapter_command" where
  "send_command protocol conversation_id topic files body request reply_to =
     (if files \<noteq> [] then CmdSendMedia protocol conversation_id topic files body request
      else case topic of
          Some t \<Rightarrow> CmdSendTopicText protocol conversation_id t body request reply_to
        | None \<Rightarrow> CmdSendText protocol conversation_id body request reply_to)"

definition start_send :: "string \<Rightarrow> instant \<Rightarrow> snapshot \<Rightarrow> snapshot" where
  "start_send conversation_id now s =
     (let protocol = sn_selected_protocol s;
          body = trim (sn_compose s);
          files = compose_attachments s
      in case begin_send_files protocol conversation_id body (sn_selected_topic s) files now (sn_sends s) of
           (None, _) \<Rightarrow> s
         | (Some request, sends) \<Rightarrow>
             let s = s\<lparr>sn_sends := sends, sn_error := None, sn_attachment_note := None\<rparr>;
                 (reply_to, s) = (if files \<noteq> [] then (None, s) else take_reply s)
             in push_command
                  (send_command protocol conversation_id (sn_selected_topic s) files body request reply_to) s)"

definition send_compose :: "instant \<Rightarrow> snapshot \<Rightarrow> snapshot" where
  "send_compose now s =
     (if sn_editing s \<noteq> None then (if can_send s then save_edit s else s)
      else if \<not> can_send s then s
      else case sn_selected_conversation s of None \<Rightarrow> s | Some i \<Rightarrow> start_send i now s)"

definition compose_enter :: "bool \<Rightarrow> instant \<Rightarrow> snapshot \<Rightarrow> bool \<times> snapshot" where
  "compose_enter shift now s = (if shift then (False, s) else (True, send_compose now s))"

definition retry_send :: "string \<Rightarrow> instant \<Rightarrow> snapshot \<Rightarrow> snapshot" where
  "retry_send message_id now s =
     (case sn_selected_conversation s of
        None \<Rightarrow> s
      | Some conversation_id \<Rightarrow>
          let protocol = sn_selected_protocol s;
              writable = (case selected_conversation_row s of Some row \<Rightarrow> cv_writable row | None \<Rightarrow> False);
              key = thread_key protocol conversation_id (sn_selected_topic s)
          in if \<not> linked_with protocol cap_sends_text s \<or> \<not> writable \<or> signal_retained_slot conversation_id \<noteq> None
             then s
             else case find (\<lambda>row. cm_id row = message_id) (thread_rows key s) of
                 None \<Rightarrow> s
               | Some message \<Rightarrow>
                   if \<not> cm_outbound message \<or> cm_delivery message \<noteq> Failed then s
                   else case begin_retry protocol conversation_id message_id now (sn_sends s) of
                       (None, _) \<Rightarrow> s
                     | (Some request, sends) \<Rightarrow>
                         push_command (CmdResendMessage protocol conversation_id message_id request)
                           (s\<lparr>sn_sends := sends,
                              sn_messages := hm_modify key (update_first (\<lambda>row. cm_id row = message_id)
                                (\<lambda>row. row\<lparr>cm_delivery := Pending\<rparr>)) (sn_messages s),
                              sn_compose := (if sn_compose s = cm_body message then [] else sn_compose s),
                              sn_error := None\<rparr>))"

section \<open>Timeouts shown\<close>

fun comma_join :: "string list \<Rightarrow> string" where
  "comma_join [] = []"
| "comma_join [x] = x"
| "comma_join (x # xs) = x @ '', '' @ comma_join xs"

definition resend_hint ::
    "protocol_id \<Rightarrow> string \<Rightarrow> message_topic option \<Rightarrow> bool \<Rightarrow> snapshot \<Rightarrow> string" where
  "resend_hint protocol chat topic retry s =
     (case (retry, is_selected_thread protocol chat topic s) of
        (False, True) \<Rightarrow> ''The text is still in the compose field. Send it again.''
      | (False, False) \<Rightarrow> ''The text is in the draft of '' @ chat_title protocol chat s @ ''. Send it again.''
      | (True, True) \<Rightarrow> ''Press Retry to send it again.''
      | (True, False) \<Rightarrow> ''Open '' @ chat_title protocol chat s @ '' and press Retry to send it again.'')"

definition timeouts_error :: "snapshot \<Rightarrow> user_error option" where
  "timeouts_error s =
     (case sn_timed_out s of
        [] \<Rightarrow> None
      | [one] \<Rightarrow> Some \<lparr>
          ue_happened = ''Message not sent.'',
          ue_why = kind_display_name (pid_kind (tm_protocol one)) @ '' did not answer in time.'',
          ue_next = resend_hint (tm_protocol one) (tm_chat one) (tm_topic one) (tm_retry one) s\<rparr>
      | many \<Rightarrow> Some \<lparr>
          ue_happened = show_nat (length many) @ '' messages not sent.'',
          ue_why = ''No answer in time for '' @
            comma_join (map (\<lambda>entry. chat_title (tm_protocol entry) (tm_chat entry) s @ '' ('' @
              kind_display_name (pid_kind (tm_protocol entry)) @ '')'') many) @ ''.'',
          ue_next = ''Each text is still in its chat. Send it again, or press Retry.''\<rparr>)"

definition show_timeouts :: "snapshot \<Rightarrow> snapshot" where
  "show_timeouts s = s\<lparr>sn_error := timeouts_error s, sn_timeout_error := timeouts_error s\<rparr>"

definition sync_timeout_hint :: "snapshot \<Rightarrow> snapshot" where
  "sync_timeout_hint s =
     (if sn_error s \<noteq> None \<and> sn_error s = sn_timeout_error s \<and> sn_timed_out s \<noteq> [] then show_timeouts s else s)"

section \<open>Answers\<close>

definition drop_rejected_body :: "protocol_id \<Rightarrow> string \<Rightarrow> snapshot \<Rightarrow> snapshot" where
  "drop_rejected_body protocol chat s =
     s\<lparr>sn_rejected_bodies := hm_remove (protocol, chat) (sn_rejected_bodies s)\<rparr>"

definition with_sends :: "send_tracker \<Rightarrow> snapshot \<Rightarrow> snapshot" where
  "with_sends sends s = s\<lparr>sn_sends := sends\<rparr>"

definition drop_timed_out :: "protocol_id \<Rightarrow> string \<Rightarrow> u64 \<Rightarrow> snapshot \<Rightarrow> snapshot" where
  "drop_timed_out protocol chat request s =
     (let shown = (sn_error s \<noteq> None \<and> sn_error s = sn_timeout_error s);
          s = s\<lparr>sn_timed_out := filter (\<lambda>entry. \<not> (tm_protocol entry = protocol \<and> tm_chat entry = chat \<and>
                 tm_request entry = request)) (sn_timed_out s)\<rparr>
      in if shown then show_timeouts s else s)"

fun take_sent :: "protocol_id \<Rightarrow> string \<Rightarrow> pending \<Rightarrow> snapshot \<Rightarrow> snapshot" where
  "take_sent protocol chat (PSend _ body topic files) s =
     clear_sent_files protocol chat topic files (clear_sent_text protocol chat topic body s)"
| "take_sent protocol chat (PRetry _ message_id) s =
     (let s = set_delivery protocol chat message_id Sent s
      in with_sends (drop_retry_of protocol chat message_id (sn_sends s)) s)"

definition note_late_accept :: "protocol_id \<Rightarrow> string \<Rightarrow> u64 \<Rightarrow> instant \<Rightarrow> snapshot \<Rightarrow> snapshot" where
  "note_late_accept protocol chat request now s =
     (case settle_expired protocol chat request (sn_sends s) of
        (None, sends) \<Rightarrow> with_sends sends s
      | (Some late, sends) \<Rightarrow>
          hold_telegram_send_line protocol chat request (\<not> is_compose late) now
            (drop_timed_out protocol chat request
              (take_sent protocol chat late
                (drop_rejected_body protocol chat (with_sends sends s)))))"

definition note_send_accepted :: "protocol_id \<Rightarrow> string \<Rightarrow> u64 \<Rightarrow> instant \<Rightarrow> snapshot \<Rightarrow> snapshot" where
  "note_send_accepted protocol chat request now s =
     (case settle protocol chat request (sn_sends s) of
        (Some (PSend r body topic files), sends) \<Rightarrow>
          hold_telegram_send_line protocol chat request False now
            (clear_sent_files protocol chat topic files
              (clear_sent_text protocol chat topic body
                (drop_rejected_body protocol chat (with_sends sends s))))
      | (Some (PRetry _ _), sends) \<Rightarrow>
          hold_telegram_send_line protocol chat request True now
            (drop_rejected_body protocol chat (with_sends sends s))
      | (None, sends) \<Rightarrow> note_late_accept protocol chat request now (with_sends sends s))"

definition retry_topic :: "protocol_id \<Rightarrow> string \<Rightarrow> string \<Rightarrow> snapshot \<Rightarrow> message_topic option" where
  "retry_topic protocol chat message_id s =
     (case message_bucket protocol chat message_id s of Some key \<Rightarrow> snd (snd key) | None \<Rightarrow> None)"

definition no_rejected_body :: rejected_body where
  "no_rejected_body = \<lparr>rb_compose = None, rb_row = None, rb_topic = None\<rparr>"

text \<open>The adapter did not accept a send: what the snapshot remembers of it.\<close>

fun note_rejected :: "protocol_id \<Rightarrow> string \<Rightarrow> pending \<Rightarrow> snapshot \<Rightarrow> snapshot" where
  "note_rejected protocol chat (PSend _ body topic _) s =
     (let s = (if body = [] then s
               else s\<lparr>sn_rejected_bodies := hm_entry (protocol, chat) no_rejected_body
                      (\<lambda>rejected. rejected\<lparr>rb_compose := Some body, rb_topic := topic\<rparr>) (sn_rejected_bodies s)\<rparr>)
      in set_error ''Message not sent.''
           (kind_display_name (pid_kind protocol) @ '' did not accept the message.'')
           (resend_hint protocol chat topic False s) s)"
| "note_rejected protocol chat (PRetry _ message_id) s =
     (let s = set_delivery protocol chat message_id Failed s;
          topic = retry_topic protocol chat message_id s;
          s = (case message_body protocol chat message_id s of
                 Some text \<Rightarrow>
                   if text = [] then s
                   else s\<lparr>sn_rejected_bodies := hm_entry (protocol, chat) no_rejected_body
                          (\<lambda>rejected. rejected\<lparr>rb_row := Some text, rb_topic := topic\<rparr>) (sn_rejected_bodies s)\<rparr>
               | None \<Rightarrow> s)
      in set_error ''Message not sent.''
           (kind_display_name (pid_kind protocol) @ '' did not accept the message.'')
           (resend_hint protocol chat topic True s) s)"

definition fail_unaccepted_send :: "protocol_id \<Rightarrow> string \<Rightarrow> u64 \<Rightarrow> snapshot \<Rightarrow> snapshot" where
  "fail_unaccepted_send protocol chat request s =
     (let s = end_telegram_send protocol (EndRequest request) s;
          (settled, sends) = settle protocol chat request (sn_sends s);
          s = (case settled of
                 None \<Rightarrow> with_sends (snd (settle_expired protocol chat request sends)) s
               | Some p \<Rightarrow> note_rejected protocol chat p (with_sends sends s))
      in prune_unbound_telegram_messages s)"

section \<open>Expiry\<close>

fun note_expired :: "protocol_id \<times> string \<times> pending \<Rightarrow> snapshot \<Rightarrow> snapshot" where
  "note_expired (protocol, chat, PSend request _ topic _) s =
     s\<lparr>sn_timed_out := sn_timed_out s @
         [\<lparr>tm_protocol = protocol, tm_chat = chat, tm_request = request, tm_retry = False, tm_topic = topic\<rparr>]\<rparr>"
| "note_expired (protocol, chat, PRetry request message_id) s =
     (let s = set_delivery protocol chat message_id Failed s
      in s\<lparr>sn_timed_out := sn_timed_out s @
           [\<lparr>tm_protocol = protocol, tm_chat = chat, tm_request = request, tm_retry = True,
             tm_topic = retry_topic protocol chat message_id s\<rparr>]\<rparr>)"

definition expire_sends_at :: "instant \<Rightarrow> snapshot \<Rightarrow> bool \<times> snapshot" where
  "expire_sends_at now s =
     (let before = length (sn_telegram_send_unconfirmed s);
          s = end_telegram_send (primary Telegram) (EndExpired now) s;
          telegram_ended = (length (sn_telegram_send_unconfirmed s) \<noteq> before);
          (expired, sends) = expire now (sn_sends s);
          s = with_sends sends s
      in if expired = [] then (telegram_ended, prune_unbound_telegram_messages s)
         else
           let s = (if sn_error s \<noteq> sn_timeout_error s then s\<lparr>sn_timed_out := []\<rparr> else s)
           in (True, prune_unbound_telegram_messages (show_timeouts (fold note_expired expired s))))"

definition prune_late_answers :: "instant \<Rightarrow> snapshot \<Rightarrow> snapshot" where
  "prune_late_answers now s = prune_unbound_telegram_messages (with_sends (prune_expired now (sn_sends s)) s)"

definition shell_send_deadline :: "snapshot \<Rightarrow> instant option" where
  "shell_send_deadline s =
     (let accepted = (case map (\<lambda>hold. th_at hold + SEND_TIMEOUT) (sn_telegram_send_unconfirmed s) of
            [] \<Rightarrow> None | d # ds \<Rightarrow> Some (foldl min d ds))
      in case (next_send_deadline (sn_sends s), accepted) of
           (Some opened, Some held) \<Rightarrow> Some (min opened held)
         | (Some opened, None) \<Rightarrow> Some opened
         | (None, held) \<Rightarrow> held)"

datatype send_stage = NoAnswer | NotConfirmed

definition unfinished_sends :: "snapshot \<Rightarrow> (protocol_id \<times> string \<times> send_stage) list" where
  "unfinished_sends s =
     map (\<lambda>(protocol, chat). (protocol, chat, NoAnswer)) (open_chats (sn_sends s)) @
     map (\<lambda>hold. (primary Telegram, th_chat hold, NotConfirmed)) (sn_telegram_send_unconfirmed s)"

section \<open>What the end of a session keeps\<close>

definition current_text :: "protocol_id \<Rightarrow> string \<Rightarrow> message_topic option \<Rightarrow> snapshot \<Rightarrow> string" where
  "current_text protocol chat topic s =
     (if is_selected_thread protocol chat topic s then trim (sn_compose s)
      else case hm_get (sn_drafts s) (protocol, chat, topic) of Some draft \<Rightarrow> trim draft | None \<Rightarrow> [])"

definition pending_text ::
    "protocol_id \<Rightarrow> snapshot \<Rightarrow> string \<times> pending \<Rightarrow> (string \<times> message_topic option \<times> string) option" where
  "pending_text protocol s entry =
     (case (case snd entry of
              PSend _ body topic _ \<Rightarrow> Some (topic, body)
            | PRetry _ message_id \<Rightarrow>
                map_option (\<lambda>text. (retry_topic protocol (fst entry) message_id s, text))
                  (message_body protocol (fst entry) message_id s)) of
        None \<Rightarrow> None
      | Some (topic, text) \<Rightarrow>
          let current = current_text protocol (fst entry) topic s
          in if text \<noteq> [] \<and> (current = [] \<or> current = text) then Some (fst entry, topic, text) else None)"

definition pending_texts_to_keep :: "protocol_id \<Rightarrow> snapshot \<Rightarrow> (string \<times> message_topic option \<times> string) list" where
  "pending_texts_to_keep protocol s =
     List.map_filter (pending_text protocol s) (expired_of protocol (sn_sends s) @ open_of protocol (sn_sends s))"

definition text_to_keep :: "protocol_id \<Rightarrow> string \<Rightarrow> rejected_body \<Rightarrow> snapshot \<Rightarrow> string option" where
  "text_to_keep protocol chat rejected s =
     (let current = current_text protocol chat (rb_topic rejected) s
      in if rb_compose rejected = Some current then rb_compose rejected
         else case rb_row rejected of
             None \<Rightarrow> None
           | Some row \<Rightarrow>
               if current = [] \<or> (rb_compose rejected = None \<and> current = row) then Some row else None)"

definition texts_to_keep_on_session_end ::
    "protocol_id \<Rightarrow> snapshot \<Rightarrow> (string \<times> message_topic option \<times> string) list" where
  "texts_to_keep_on_session_end protocol s =
     (if pid_is protocol Telegram then []
      else
        List.map_filter (\<lambda>((owner, chat), rejected).
          if owner \<noteq> protocol then None
          else map_option (\<lambda>text. (chat, rb_topic rejected, text)) (text_to_keep protocol chat rejected s))
          (sn_rejected_bodies s) @
        pending_texts_to_keep protocol s)"

section \<open>One command for a send\<close>

lemma send_command_plain: "flow_account (send_command p c t files body r reply) s = None"
  by (simp add: send_command_def split: option.split)

lemma take_reply_fields [simp]:
  "sn_sends (snd (take_reply s)) = sn_sends s" "sn_pending (snd (take_reply s)) = sn_pending s"
  "sn_compose (snd (take_reply s)) = sn_compose s" "sn_drafts (snd (take_reply s)) = sn_drafts s"
  "sn_editing (snd (take_reply s)) = sn_editing s" "sn_attachments (snd (take_reply s)) = sn_attachments s"
  "open_thread (snd (take_reply s)) = open_thread s"
  "sn_selected_protocol (snd (take_reply s)) = sn_selected_protocol s"
  "sn_conversations (snd (take_reply s)) = sn_conversations s"
  "sn_selected_conversation (snd (take_reply s)) = sn_selected_conversation s"
  "sn_selected_topic (snd (take_reply s)) = sn_selected_topic s"
  by (simp_all add: take_reply_def split: option.split)

lemma push_command_more [simp]:
  "sn_attachments (push_command c s) = sn_attachments s" "sn_conversations (push_command c s) = sn_conversations s"
  "sn_accounts (push_command c s) = sn_accounts s"
  by (simp_all add: push_command_def)

lemma can_send_row:
  assumes "can_send s" "sn_editing s = None"
  obtains i row where "sn_selected_conversation s = Some i" "selected_conversation_row s = Some row" "cv_id row = i"
    "\<not> in_flight (sn_selected_protocol s) i (sn_sends s)"
proof -
  obtain row where row: "selected_conversation_row s = Some row"
    "\<not> in_flight (sn_selected_protocol s) (cv_id row) (sn_sends s)"
    using assms by (auto simp: can_send_def Let_def edit_target_message_def split: option.splits)
  then obtain i where i: "sn_selected_conversation s = Some i"
    by (cases "sn_selected_conversation s") (simp_all add: selected_conversation_row_def)
  then have "cv_id row = i"
    using row(1) by (auto simp: selected_conversation_row_def find_conversation_def find_Some_iff)
  then show thesis using that i row by blast
qed

lemma start_send_fields:
  assumes "\<not> in_flight (sn_selected_protocol s) i (sn_sends s)"
  shows "\<exists>reply. sn_pending (start_send i now s) = sn_pending s @
      [send_command (sn_selected_protocol s) i (sn_selected_topic s) (compose_attachments s)
         (trim (sn_compose s)) (st_next (sn_sends s)) reply]"
    and "request_of (sn_selected_protocol s) i (sn_sends (start_send i now s)) = Some (st_next (sn_sends s))"
    and "sn_compose (start_send i now s) = sn_compose s" "sn_drafts (start_send i now s) = sn_drafts s"
    and "sn_editing (start_send i now s) = sn_editing s" "sn_attachments (start_send i now s) = sn_attachments s"
    and "open_thread (start_send i now s) = open_thread s"
    and "sn_selected_conversation (start_send i now s) = sn_selected_conversation s"
    and "sn_selected_protocol (start_send i now s) = sn_selected_protocol s"
    and "sn_conversations (start_send i now s) = sn_conversations s"
  using assms
  by (auto simp: start_send_def Let_def begin_send_files_def begin_pending_def in_flight_def request_of_def
      open_request_def push_command_plain send_command_plain case_prod_unfold open_thread_def split: if_splits)

text \<open>
  C12: with no edit running, Send queues exactly one command when it is possible and nothing
  otherwise. The command has the trimmed text, the attached files, the topic and the next request
  number of the open chat; the text and the files stay where they are, and pressing Send again before
  the answer changes nothing.
\<close>

theorem send_queues_one_command:
  assumes "sn_editing s = None"
  shows "if can_send s
    then \<exists>i reply. sn_selected_conversation s = Some i \<and>
       sn_pending (send_compose now s) = sn_pending s @
         [send_command (sn_selected_protocol s) i (sn_selected_topic s) (compose_attachments s)
            (trim (sn_compose s)) (st_next (sn_sends s)) reply] \<and>
       request_of (sn_selected_protocol s) i (sn_sends (send_compose now s)) = Some (st_next (sn_sends s)) \<and>
       (\<forall>key. thread_text key (send_compose now s) = thread_text key s) \<and>
       sn_attachments (send_compose now s) = sn_attachments s \<and>
       (\<forall>later. send_compose later (send_compose now s) = send_compose now s)
    else send_compose now s = s"
proof (cases "can_send s")
  case True
  obtain i row where i: "sn_selected_conversation s = Some i" and row: "selected_conversation_row s = Some row"
    and id: "cv_id row = i" and free: "\<not> in_flight (sn_selected_protocol s) i (sn_sends s)"
    using can_send_row [OF True assms] .
  note fields = start_send_fields [OF free, of now]
  let ?s = "start_send i now s"
  have s': "send_compose now s = ?s" using True assms i by (simp add: send_compose_def)
  have "selected_conversation_row ?s = Some row"
    using row i fields by (simp add: selected_conversation_row_def find_conversation_def conversation_rows_def)
  moreover have "in_flight (sn_selected_protocol s) i (sn_sends ?s)"
    using fields(2) by (auto simp: request_of_def in_flight_def)
  ultimately have "\<not> can_send ?s"
    using assms fields id by (simp add: can_send_def Let_def edit_target_message_def)
  then have again: "send_compose later ?s = ?s" for later
    using assms fields by (simp add: send_compose_def)
  have texts: "thread_text key ?s = thread_text key s" for key
    by (rule thread_text_cong [OF fields(7) compose_text_cong [OF fields(3,5)] fields(4)])
  obtain reply where reply: "sn_pending ?s = sn_pending s @
      [send_command (sn_selected_protocol s) i (sn_selected_topic s) (compose_attachments s)
         (trim (sn_compose s)) (st_next (sn_sends s)) reply]"
    using fields(1) by blast
  show ?thesis
    unfolding s' if_P [OF True] using i reply fields(2,6) texts again by blast
next
  case False
  then show ?thesis using assms by (simp add: send_compose_def)
qed

section \<open>The texts under the answers\<close>

text \<open>No text that says something changes.\<close>

definition texts_kept :: "snapshot \<Rightarrow> snapshot \<Rightarrow> bool" where
  "texts_kept s s' \<longleftrightarrow> (\<forall>key. trim (thread_text key s) \<noteq> [] \<longrightarrow> thread_text key s' = thread_text key s)"

lemma texts_kept_trans: "texts_kept s s' \<Longrightarrow> texts_kept s' s'' \<Longrightarrow> texts_kept s s''"
  unfolding texts_kept_def by metis

lemma texts_kept_fields:
  assumes "open_thread s' = open_thread s" "sn_compose s' = sn_compose s" "sn_drafts s' = sn_drafts s"
    "sn_editing s' = sn_editing s"
  shows "texts_kept s s'"
  using thread_text_cong [OF assms(1) compose_text_cong [OF assms(2,4)] assms(3)] by (simp add: texts_kept_def)

lemma change_message_fields [simp]:
  "sn_compose (change_message p c i f s) = sn_compose s" "sn_drafts (change_message p c i f s) = sn_drafts s"
  "sn_editing (change_message p c i f s) = sn_editing s" "open_thread (change_message p c i f s) = open_thread s"
  "sn_attachments (change_message p c i f s) = sn_attachments s" "sn_sends (change_message p c i f s) = sn_sends s"
  by (auto simp: change_message_def open_thread_def split: option.split)

lemma end_send_more [simp]:
  "open_thread (end_telegram_send p how s) = open_thread s"
  "sn_attachments (end_telegram_send p how s) = sn_attachments s"
  by (auto simp: end_telegram_send_def open_thread_def split: telegram_send_end.splits)

lemma release_more [simp]:
  "open_thread (release_telegram_for_message i s) = open_thread s"
  "sn_attachments (release_telegram_for_message i s) = sn_attachments s"
  by (auto simp: release_telegram_for_message_def split: option.splits)

lemma set_error_fields [simp]:
  "open_thread (set_error a b c s) = open_thread s" "sn_compose (set_error a b c s) = sn_compose s"
  "sn_drafts (set_error a b c s) = sn_drafts s" "sn_editing (set_error a b c s) = sn_editing s"
  "sn_attachments (set_error a b c s) = sn_attachments s" "sn_sends (set_error a b c s) = sn_sends s"
  by (simp_all add: set_error_def)

lemma with_sends_fields [simp]:
  "open_thread (with_sends x s) = open_thread s" "sn_compose (with_sends x s) = sn_compose s"
  "sn_drafts (with_sends x s) = sn_drafts s" "sn_editing (with_sends x s) = sn_editing s"
  "sn_attachments (with_sends x s) = sn_attachments s" "sn_sends (with_sends x s) = x"
  by (simp_all add: with_sends_def)

lemma prune_unbound_fields [simp]:
  "open_thread (prune_unbound_telegram_messages s) = open_thread s"
  "sn_compose (prune_unbound_telegram_messages s) = sn_compose s"
  "sn_drafts (prune_unbound_telegram_messages s) = sn_drafts s"
  "sn_editing (prune_unbound_telegram_messages s) = sn_editing s"
  "sn_attachments (prune_unbound_telegram_messages s) = sn_attachments s"
  "sn_sends (prune_unbound_telegram_messages s) = sn_sends s"
  by (simp_all add: prune_unbound_telegram_messages_def open_thread_def)

lemma note_delivery_more [simp]: "sn_attachments (note_delivery b m s) = sn_attachments s"
  by (simp add: note_delivery_def Let_def)

lemma selected_is_open: "is_selected_thread p c t s \<longleftrightarrow> open_thread s = Some (p, c, t)"
  by (auto simp: is_selected_thread_def is_selected_chat_def open_thread_def)

lemma note_delivery_texts: "texts_kept s (note_delivery before m s)"
proof -
  let ?key = "(cm_protocol m, cm_conversation_id m, cm_topic m)"
  let ?s = "release_telegram_for_message (cm_id m) s"
  have filled: "texts_kept s (?s\<lparr>sn_compose := body\<rparr>)" if "trim (sn_compose s) = []" for body
    using that by (auto simp: texts_kept_def thread_text_open compose_text_def split: option.split)
  have drafted: "texts_kept s (?s\<lparr>sn_drafts := hm_entry ?key body (\<lambda>draft. draft) (sn_drafts s)\<rparr>)"
    if "open_thread s \<noteq> Some ?key" for body
    using that
    by (auto simp: texts_kept_def thread_text_open compose_text_def trim_def split: option.split)
  have error: "texts_kept s (set_error a b c s')" if "texts_kept s s'" for a b c s'
    using that by (rule texts_kept_trans) (rule texts_kept_fields, simp_all)
  have kept: "texts_kept s ?s" by (rule texts_kept_fields) simp_all
  have refl: "texts_kept s s" by (simp add: texts_kept_def)
  show ?thesis
    using refl error [OF filled] error [OF kept] error [OF drafted]
    by (simp add: note_delivery_def Let_def selected_is_open)
qed

lemma set_delivery_texts: "texts_kept s (set_delivery p c i d s)"
proof -
  have "texts_kept s (change_message p c i f s)" for f
    by (rule texts_kept_fields) simp_all
  then show ?thesis
    using texts_kept_trans [OF _ note_delivery_texts]
    by (simp add: set_delivery_def Let_def texts_kept_def split: option.split)
qed

lemma set_delivery_fields [simp]:
  "sn_attachments (set_delivery p c i d s) = sn_attachments s" "sn_sends (set_delivery p c i d s) = sn_sends s"
  by (simp_all add: set_delivery_def Let_def split: option.split)

lemma note_expired_texts: "texts_kept s (note_expired x s) \<and> sn_attachments (note_expired x s) = sn_attachments s"
proof -
  obtain p c y where x: "x = (p, c, y)" by (cases x)
  show ?thesis
  proof (cases y)
    case (PSend r b t f)
    then show ?thesis by (auto intro!: texts_kept_fields simp: x open_thread_def)
  next
    case (PRetry r i)
    have "texts_kept (set_delivery p c i Failed s) (note_expired x s)"
      by (rule texts_kept_fields) (simp_all add: x PRetry Let_def open_thread_def)
    moreover have "sn_attachments (note_expired x s) = sn_attachments s"
      by (simp add: x PRetry Let_def)
    ultimately show ?thesis
      using texts_kept_trans [OF set_delivery_texts] by blast
  qed
qed

lemma note_expired_all: "texts_kept s (fold note_expired xs s) \<and> sn_attachments (fold note_expired xs s) = sn_attachments s"
proof (induction xs arbitrary: s)
  case Nil
  then show ?case by (simp add: texts_kept_def)
next
  case (Cons x xs)
  then show ?case using note_expired_texts [of s x] texts_kept_trans by force
qed

lemma show_timeouts_texts:
  "texts_kept s (show_timeouts s)" "sn_attachments (show_timeouts s) = sn_attachments s"
  by (rule texts_kept_fields) (simp_all add: show_timeouts_def open_thread_def)

lemma prune_unbound_texts: "texts_kept s (prune_unbound_telegram_messages s)"
  by (rule texts_kept_fields) simp_all

lemma note_rejected_texts:
  "texts_kept s (note_rejected p c x s) \<and> sn_attachments (note_rejected p c x s) = sn_attachments s"
proof (cases x)
  case (PSend r body topic files)
  then show ?thesis by (auto simp: Let_def intro!: texts_kept_fields)
next
  case (PRetry r i)
  have "texts_kept (set_delivery p c i Failed s) (note_rejected p c x s)"
    by (rule texts_kept_fields) (simp_all add: PRetry Let_def split: option.split)
  moreover have "sn_attachments (note_rejected p c x s) = sn_attachments s"
    by (simp add: PRetry Let_def split: option.split)
  ultimately show ?thesis
    using texts_kept_trans [OF set_delivery_texts] by blast
qed

lemma fail_unaccepted_texts:
  "texts_kept s (fail_unaccepted_send p c r s) \<and>
   sn_attachments (fail_unaccepted_send p c r s) = sn_attachments s"
proof -
  let ?s = "end_telegram_send p (EndRequest r) s"
  have "texts_kept s (with_sends x ?s)" for x by (rule texts_kept_fields) simp_all
  then have "texts_kept s (note_rejected p c y (with_sends x ?s))" "texts_kept s (with_sends x ?s)" for x y
    using texts_kept_trans note_rejected_texts by blast+
  then show ?thesis
    using texts_kept_trans [OF _ prune_unbound_texts]
    by (simp add: fail_unaccepted_send_def Let_def case_prod_unfold note_rejected_texts split: option.split)
qed

lemma expire_sends_texts:
  "texts_kept s (snd (expire_sends_at now s)) \<and> sn_attachments (snd (expire_sends_at now s)) = sn_attachments s"
proof -
  let ?s = "with_sends (snd (expire now (sn_sends s))) (end_telegram_send (primary Telegram) (EndExpired now) s)"
  have start: "texts_kept s ?s" "texts_kept s (?s\<lparr>sn_timed_out := []\<rparr>)"
    by (rule texts_kept_fields; simp add: open_thread_def with_sends_def end_telegram_send_def)+
  have pruned: "texts_kept s (prune_unbound_telegram_messages ?s)"
    using start(1) prune_unbound_texts by (rule texts_kept_trans)
  have shown: "texts_kept s (prune_unbound_telegram_messages (show_timeouts (fold note_expired xs s')))"
    if "texts_kept s s'" for xs s'
    using that note_expired_all show_timeouts_texts(1) prune_unbound_texts texts_kept_trans by meson
  show ?thesis
    using pruned shown [OF start(1)] shown [OF start(2)]
    by (simp add: expire_sends_at_def Let_def case_prod_unfold note_expired_all show_timeouts_texts(2))
qed

text \<open>
  C13: a send that the adapter rejects, and one that it does not answer in time, loses nothing: every
  text that the user typed stays in its thread (an empty field may get the text of a failed retry),
  and every attached file stays in its tray.
\<close>

theorem unsent_text_stays:
  "texts_kept s (fail_unaccepted_send p c r s) \<and>
   sn_attachments (fail_unaccepted_send p c r s) = sn_attachments s \<and>
   texts_kept s (snd (expire_sends_at now s)) \<and>
   sn_attachments (snd (expire_sends_at now s)) = sn_attachments s"
  using fail_unaccepted_texts expire_sends_texts by blast

lemma hold_line_fields [simp]:
  "open_thread (hold_telegram_send_line p c r b now s) = open_thread s"
  "sn_compose (hold_telegram_send_line p c r b now s) = sn_compose s"
  "sn_drafts (hold_telegram_send_line p c r b now s) = sn_drafts s"
  "sn_editing (hold_telegram_send_line p c r b now s) = sn_editing s"
  "sn_attachments (hold_telegram_send_line p c r b now s) = sn_attachments s"
  "sn_sends (hold_telegram_send_line p c r b now s) = sn_sends s"
  by (simp_all add: hold_telegram_send_line_def Let_def open_thread_def)

lemma drop_rejected_fields [simp]:
  "open_thread (drop_rejected_body p c s) = open_thread s"
  "sn_compose (drop_rejected_body p c s) = sn_compose s"
  "sn_drafts (drop_rejected_body p c s) = sn_drafts s"
  "sn_editing (drop_rejected_body p c s) = sn_editing s"
  "sn_attachments (drop_rejected_body p c s) = sn_attachments s"
  "sn_sends (drop_rejected_body p c s) = sn_sends s"
  by (simp_all add: drop_rejected_body_def)

lemma clear_files_fields [simp]:
  "open_thread (clear_sent_files p c t fs s) = open_thread s"
  "sn_compose (clear_sent_files p c t fs s) = sn_compose s"
  "sn_drafts (clear_sent_files p c t fs s) = sn_drafts s"
  "sn_editing (clear_sent_files p c t fs s) = sn_editing s"
  "sn_sends (clear_sent_files p c t fs s) = sn_sends s"
  by (simp_all add: clear_sent_files_def set_tray_def split: option.split)

lemma clear_text_fields [simp]:
  "open_thread (clear_sent_text p c t body s) = open_thread s"
  "sn_editing (clear_sent_text p c t body s) = sn_editing s"
  "sn_attachments (clear_sent_text p c t body s) = sn_attachments s"
  "sn_sends (clear_sent_text p c t body s) = sn_sends s"
  by (simp_all add: clear_sent_text_def Let_def split: option.split)

definition tray_of :: "thread \<Rightarrow> snapshot \<Rightarrow> outgoing_file list" where
  "tray_of key s = (case hm_get (sn_attachments s) key of Some tray \<Rightarrow> tray | None \<Rightarrow> [])"

lemma tray_of_clear:
  "tray_of key (clear_sent_files p c t fs s) =
     (if key = (p, c, t) then filter (\<lambda>f. f \<notin> set fs) (tray_of key s) else tray_of key s)"
  by (auto simp: tray_of_def clear_sent_files_def set_tray_def split: option.split)

lemma thread_text_clear:
  assumes "texts_ok s"
  shows "thread_text key (clear_sent_text p c t body s) =
     (if key = (p, c, t) \<and> trim (thread_text key s) = body then [] else thread_text key s)"
  using assms
  by (auto simp: thread_text_open compose_text_def texts_ok_def drafts_ok_def clear_sent_text_def Let_def
      selected_is_open split: option.splits)


section \<open>Two flaws\<close>

text \<open>
  An edit that starts while a send is in flight puts the sent text aside. The answer clears the
  compose field and the draft, and not the text put aside, so the end of the edit shows the sent
  text again as if it were not sent.
\<close>

definition demo_second :: protocol_id where
  "demo_second = ProtocolId Telegram 1"

definition demo_sent :: snapshot where
  "demo_sent = send_compose 0 (demo_linked\<lparr>sn_compose := ''hi''\<rparr>)"

definition demo_edited :: snapshot where
  "demo_edited =
     note_send_accepted (primary Telegram) ''7'' 1 5 (begin_edit (primary Telegram) ''7'' ''telegram:7:3'' demo_sent)"

lemma edit_brings_sent_text_back:
  "sn_pending demo_sent = [CmdSendText (primary Telegram) ''7'' ''hi'' 1 None] \<and>
   tracker_is_empty (sn_sends demo_edited) \<and> sn_compose (cancel_edit demo_edited) = ''hi''"
  by (intro conjI; code_simp)

text \<open>
  The pending id of a message of a second Telegram account is dropped by the next pump, because the
  pruning asks the tracker for the request under account 0: the accept then binds no id, and the
  sent message does not release the hold.
\<close>

definition demo_retried :: snapshot where
  "demo_retried = message_received ((demo_message ''m2'' 1 True Pending)\<lparr>cm_protocol := demo_second\<rparr>)
     ((snapshot_new demo_source [])\<lparr>sn_sends := snd (begin_retry demo_second ''7'' ''m'' 0 tracker_default)\<rparr>)"

definition demo_bound :: "snapshot \<Rightarrow> string option list" where
  "demo_bound s = map th_message_id (sn_telegram_send_unconfirmed (note_send_accepted demo_second ''7'' 1 9 s))"

lemma second_account_loses_pending_id:
  "demo_bound demo_retried = [Some ''m2''] \<and> demo_bound (prune_unbound_telegram_messages demo_retried) = [None]"
  by (rule conjI; code_simp)

section \<open>Witnesses\<close>

theorem send_queues_one_command_witness:
  "sn_editing demo_linked = None \<and> can_send (demo_linked\<lparr>sn_compose := ''hi''\<rparr>) \<and>
   length (sn_pending (send_compose 4 (demo_linked\<lparr>sn_compose := ''hi''\<rparr>))) = 1"
proof -
  let ?s = "demo_linked\<lparr>sn_compose := ''hi''\<rparr>"
  have "sn_editing demo_linked = None" "can_send ?s" "sn_pending ?s = []"
    by (code_simp, code_simp, simp add: demo_linked_def Let_def snapshot_new_def)
  then show ?thesis using send_queues_one_command [of ?s 4] by auto
qed


end
