(* ===== verification/Shell_Older.thy ===== *)
theory Shell_Older
  imports Shell_Sends
begin

text \<open>
  Paging of older messages (\<open>crates/thinwire-core/src/state.rs\<close>): one request per thread, a growing
  wait for an anchor that brings nothing, and the store cursor of a helper that reads past rows it
  cannot show. A page with no rows asks for the next at once; the asked timestamp falls with every
  such page, so the chain ends. A failed page answers with a note.
\<close>

section \<open>Waits and lines\<close>

definition OLDER_RETRY_DELAY :: duration where
  "OLDER_RETRY_DELAY = 2 * 1000"

definition OLDER_RETRY_MAX :: duration where
  "OLDER_RETRY_MAX = 60 * 1000"

definition older_wait :: "u32 \<Rightarrow> duration" where
  "older_wait tries = min (OLDER_RETRY_DELAY * 2 ^ min (unat tries - 1) 16) OLDER_RETRY_MAX"

definition unreadable_messages_line :: "u32 \<Rightarrow> string" where
  "unreadable_messages_line skipped =
     (if skipped = 0 then ''Some messages here could not be read. They were not deleted.''
      else if skipped = 1 then ''1 message here could not be read. It was not deleted.''
      else show_nat (unat skipped) @ '' messages here could not be read. They were not deleted.'')"

definition push_unreadable :: "unreadable_run list \<Rightarrow> string option \<Rightarrow> u32 \<Rightarrow> unreadable_run list" where
  "push_unreadable runs before_id skipped =
     (if skipped = 0 then runs
      else if list_ex (\<lambda>run. ur_before_id run = before_id) runs
      then update_first (\<lambda>run. ur_before_id run = before_id)
             (\<lambda>run. run\<lparr>ur_skipped := sat_add32 (ur_skipped run) skipped\<rparr>) runs
      else runs @ [\<lparr>ur_before_id = before_id, ur_skipped = skipped\<rparr>])"

section \<open>Asking for older messages\<close>

definition pages_older :: "snapshot \<Rightarrow> bool" where
  "pages_older s =
     (let protocol = sn_selected_protocol s;
          pages = list_ex (\<lambda>row. cap_id (ar_caps row) = protocol \<and> cap_pages_history (ar_caps row)) (sn_accounts s)
      in if protocol = primary Signal \<and> sn_selected_signal_retained s \<noteq> None then pages
         else if protocol = primary Telegram then pages \<and> sn_telegram_authorized s
         else pages \<and> protocol_linked protocol s)"

datatype older_state = OlderIdle | OlderLoading | StartOfChat

definition older_state :: "snapshot \<Rightarrow> older_state" where
  "older_state s =
     (case sn_selected_conversation s of
        None \<Rightarrow> OlderIdle
      | Some i \<Rightarrow>
          let key = older_key (sn_selected_protocol s) i (sn_selected_topic s)
          in if \<not> pages_older s then OlderIdle
             else if key \<in> sn_older_loading s then OlderLoading
             else if key \<in> sn_older_at_start s then StartOfChat
             else OlderIdle)"

definition older_anchor_at :: "instant \<Rightarrow> snapshot \<Rightarrow> (string \<times> string) option" where
  "older_anchor_at now s =
     (if \<not> pages_older s then None
      else case sn_selected_conversation s of
          None \<Rightarrow> None
        | Some i \<Rightarrow>
            let protocol = sn_selected_protocol s;
                key = older_key protocol i (sn_selected_topic s)
            in if (protocol, i) \<in> sn_history_loading s \<or> key \<in> sn_older_loading s \<or> key \<in> sn_older_at_start s
               then None
               else case selected_messages s of
                   [] \<Rightarrow> None
                 | oldest # _ \<Rightarrow>
                     (case hm_get (sn_older_retry s) key of
                        Some (anchor, at, tries) \<Rightarrow>
                          if anchor = cm_id oldest \<and> now - at < older_wait tries then None
                          else Some (i, cm_id oldest)
                      | None \<Rightarrow> Some (i, cm_id oldest)))"

definition older_can_ask :: "instant \<Rightarrow> snapshot \<Rightarrow> bool" where
  "older_can_ask now s \<longleftrightarrow> older_anchor_at now s \<noteq> None"

definition take_resume_cursor ::
    "protocol_id \<Rightarrow> string \<Rightarrow> message_topic option \<Rightarrow> snapshot \<Rightarrow> u64 option \<times> snapshot" where
  "take_resume_cursor protocol chat topic s =
     (if topic \<noteq> None then (None, s)
      else
        let key = older_key protocol chat topic
        in case hm_get (sn_history_resume s) key of
             None \<Rightarrow> (None, s)
           | Some cursor \<Rightarrow>
               if (case hm_get (sn_history_asked s) key of Some asked \<Rightarrow> asked \<le> cursor | None \<Rightarrow> False)
               then (None, s\<lparr>sn_history_resume := hm_remove key (sn_history_resume s)\<rparr>)
               else (Some cursor, s\<lparr>sn_history_asked := hm_insert key cursor (sn_history_asked s)\<rparr>))"

definition load_older_at :: "instant \<Rightarrow> snapshot \<Rightarrow> snapshot" where
  "load_older_at now s =
     (case older_anchor_at now s of
        None \<Rightarrow> s
      | Some (i, oldest) \<Rightarrow>
          let protocol = sn_selected_protocol s;
              topic = sn_selected_topic s;
              (store_cursor, s) = take_resume_cursor protocol i topic s;
              s = s\<lparr>sn_older_loading := insert (older_key protocol i topic) (sn_older_loading s)\<rparr>
          in push_command
               (case topic of
                  Some t \<Rightarrow> CmdLoadOlderTopic protocol i t oldest
                | None \<Rightarrow> CmdLoadOlderMessages protocol i oldest store_cursor) s)"

section \<open>Rows that could not be read\<close>

record unreadable_page =
  up_protocol :: protocol_id
  up_chat :: string
  up_topic :: "message_topic option"
  up_request_before :: string
  up_cursor :: history_store_cursor
  up_more :: bool
  up_initial :: bool

definition unreadable_runs :: "snapshot \<Rightarrow> unreadable_run list" where
  "unreadable_runs s =
     (case sn_selected_conversation s of
        None \<Rightarrow> []
      | Some i \<Rightarrow>
          (case hm_get (sn_unreadable s) (older_key (sn_selected_protocol s) i (sn_selected_topic s)) of
             Some runs \<Rightarrow> runs | None \<Rightarrow> []))"

definition unreadable_anchor :: "bool \<Rightarrow> string \<Rightarrow> string option \<Rightarrow> string option" where
  "unreadable_anchor initial request_before oldest =
     (if initial then oldest else if request_before = [] then None else Some request_before)"

definition add_runs :: "thread \<Rightarrow> unreadable_run list \<Rightarrow> snapshot \<Rightarrow> snapshot" where
  "add_runs key runs s = s\<lparr>sn_unreadable := hm_entry key [] (\<lambda>old. old @ runs) (sn_unreadable s)\<rparr>"

definition close_open_run :: "thread \<Rightarrow> snapshot \<Rightarrow> snapshot" where
  "close_open_run key s =
     (case hm_get (sn_open_unreadable s) key of
        None \<Rightarrow> s
      | Some r \<Rightarrow>
          let s = s\<lparr>sn_open_unreadable := hm_remove key (sn_open_unreadable s)\<rparr>
          in if ou_skipped r = 0 then s
             else add_runs key [\<lparr>ur_before_id = ou_before_id r, ur_skipped = ou_skipped r\<rparr>] s)"

definition queue_store_page :: "protocol_id \<Rightarrow> string \<Rightarrow> string \<Rightarrow> u64 \<Rightarrow> snapshot \<Rightarrow> bool \<times> snapshot" where
  "queue_store_page protocol chat request_before before_ms s =
     (let key = older_key protocol chat None
      in if (case hm_get (sn_history_asked s) key of Some asked \<Rightarrow> asked \<le> before_ms | None \<Rightarrow> False)
         then (False, s\<lparr>sn_history_resume := hm_remove key (sn_history_resume s)\<rparr>)
         else (True, s\<lparr>
           sn_history_resume := hm_insert key before_ms (sn_history_resume s),
           sn_history_asked := hm_insert key before_ms (sn_history_asked s),
           sn_older_loading := insert key (sn_older_loading s),
           sn_older_retry := hm_remove key (sn_older_retry s),
           sn_older_at_start := sn_older_at_start s - {key},
           sn_pending := sn_pending s @ [CmdLoadOlderMessages protocol chat
             (if request_before = [] then show_nat before_ms else request_before) (Some before_ms)]\<rparr>))"

text \<open>The loop over the runs of a page: the leading count, the count with no loaded row, the lines.\<close>

fun place_runs ::
    "(string \<Rightarrow> bool) \<Rightarrow> history_skip_run list \<Rightarrow> u32 \<times> u32 \<times> unreadable_run list \<Rightarrow> u32 \<times> u32 \<times> unreadable_run list" where
  "place_runs loaded [] acc = acc"
| "place_runs loaded (run # runs) (leading, edge, placed) =
     place_runs loaded runs
       (if hs_skipped run = 0 then (leading, edge, placed)
        else case hs_after_id run of
            None \<Rightarrow> (sat_add32 leading (hs_skipped run), edge, placed)
          | Some i \<Rightarrow>
              if loaded i then (leading, edge, push_unreadable placed (Some i) (hs_skipped run))
              else (leading, sat_add32 edge (hs_skipped run), placed))"

definition close_page :: "unreadable_page \<Rightarrow> snapshot \<Rightarrow> snapshot" where
  "close_page page s =
     (let key = older_key (up_protocol page) (up_chat page) (up_topic page);
          oldest = oldest_message_id (up_protocol page) (up_chat page) (up_topic page) s;
          anchor = unreadable_anchor (up_initial page) (up_request_before page) oldest;
          waiting = hm_get (sn_open_unreadable s) key;
          before = (case waiting of Some r \<Rightarrow> ou_skipped r | None \<Rightarrow> 0);
          before_id = (case waiting of Some r \<Rightarrow> ou_before_id r | None \<Rightarrow> anchor);
          s = s\<lparr>sn_open_unreadable := hm_remove key (sn_open_unreadable s)\<rparr>
      in if hc_runs (up_cursor page) = []
         then let skipped = sat_add32 before (hc_skipped (up_cursor page))
              in if 0 < skipped then add_runs key [\<lparr>ur_before_id = before_id, ur_skipped = skipped\<rparr>] s else s
         else
           let (leading, edge, placed) =
                 place_runs (\<lambda>i. message_is_loaded (up_protocol page) (up_chat page) (up_topic page) i s)
                   (hc_runs (up_cursor page)) (before, 0, []);
               placed = (if 0 < edge then push_unreadable placed oldest edge else placed);
               placed = (if 0 < leading then push_unreadable placed before_id leading else placed)
           in if placed \<noteq> [] then add_runs key placed s else s)"

definition page_added :: "unreadable_page \<Rightarrow> snapshot \<Rightarrow> bool" where
  "page_added page s \<longleftrightarrow>
     (case oldest_message_id (up_protocol page) (up_chat page) (up_topic page) s of
        None \<Rightarrow> False
      | Some i \<Rightarrow> up_initial page \<or> i \<noteq> up_request_before page)"

definition page_moves :: "unreadable_page \<Rightarrow> snapshot \<Rightarrow> bool" where
  "page_moves page s \<longleftrightarrow>
     (case hm_get (sn_history_asked s) (older_key (up_protocol page) (up_chat page) (up_topic page)) of
        None \<Rightarrow> True
      | Some asked \<Rightarrow> hc_before_ms (up_cursor page) < asked)"

definition page_continues :: "unreadable_page \<Rightarrow> snapshot \<Rightarrow> bool" where
  "page_continues page s \<longleftrightarrow>
     \<not> page_added page s \<and> hc_resume (up_cursor page) \<and> page_moves page s \<and> up_more page \<and> up_topic page = None"

definition open_page :: "unreadable_page \<Rightarrow> snapshot \<Rightarrow> snapshot" where
  "open_page page s =
     (let key = older_key (up_protocol page) (up_chat page) (up_topic page);
          waiting = hm_get (sn_open_unreadable s) key
      in s\<lparr>sn_open_unreadable := hm_insert key
             \<lparr>ou_before_id = (case waiting of
                 Some r \<Rightarrow> ou_before_id r
               | None \<Rightarrow> if up_initial page \<or> up_request_before page = [] then None
                         else Some (up_request_before page)),
              ou_skipped = sat_add32 (case waiting of Some r \<Rightarrow> ou_skipped r | None \<Rightarrow> 0)
                             (hc_skipped (up_cursor page))\<rparr> (sn_open_unreadable s)\<rparr>)"

definition note_unreadable :: "unreadable_page \<Rightarrow> snapshot \<Rightarrow> bool \<times> snapshot" where
  "note_unreadable page s =
     (let key = older_key (up_protocol page) (up_chat page) (up_topic page)
      in if page_continues page s
         then queue_store_page (up_protocol page) (up_chat page) (up_request_before page)
                (hc_before_ms (up_cursor page)) (open_page page s)
         else
           let resume = (hc_resume (up_cursor page) \<and> page_moves page s \<and> up_more page \<and> page_added page s \<and>
                         up_topic page = None);
               s = close_page page s
           in (False, s\<lparr>sn_history_resume :=
                 (if resume then hm_insert key (hc_before_ms (up_cursor page)) (sn_history_resume s)
                  else hm_remove key (sn_history_resume s))\<rparr>))"

section \<open>Answers\<close>

definition older_history_loaded ::
    "protocol_id \<Rightarrow> string \<Rightarrow> string \<Rightarrow> bool \<Rightarrow> string option \<Rightarrow> message_topic option \<Rightarrow>
     history_store_cursor option \<Rightarrow> instant \<Rightarrow> snapshot \<Rightarrow> snapshot" where
  "older_history_loaded protocol conversation_id before_message_id more_left note_line topic store_cursor now s =
     (let key = older_key protocol conversation_id topic;
          s = s\<lparr>sn_older_note := (if note_line \<noteq> None then insert key (sn_older_note s) else sn_older_note s - {key}),
                sn_older_loading := sn_older_loading s - {key}\<rparr>;
          (continued, s) =
            (if note_line \<noteq> None
             then (False, s\<lparr>sn_history_asked := hm_remove key (sn_history_asked s)\<rparr>)
             else case store_cursor of
                 Some cursor \<Rightarrow> note_unreadable
                   \<lparr>up_protocol = protocol, up_chat = conversation_id, up_topic = topic,
                    up_request_before = before_message_id, up_cursor = cursor, up_more = more_left,
                    up_initial = False\<rparr> s
               | None \<Rightarrow>
                   (False, let s = close_open_run key s
                           in s\<lparr>sn_history_resume := hm_remove key (sn_history_resume s)\<rparr>))
      in if continued then s
         else
           let oldest = (case message_bucket protocol conversation_id before_message_id s of
                 None \<Rightarrow> None
               | Some bucket \<Rightarrow>
                   (case thread_rows bucket s of [] \<Rightarrow> None | row # _ \<Rightarrow> Some (cm_id row)))
           in if \<not> more_left
              then s\<lparr>sn_older_retry := hm_remove key (sn_older_retry s),
                     sn_older_at_start := insert key (sn_older_at_start s)\<rparr>
              else if oldest = Some before_message_id
              then let tries = (case hm_get (sn_older_retry s) key of
                         Some (anchor, _, tries) \<Rightarrow> if anchor = before_message_id then tries + 1 else 1
                       | None \<Rightarrow> 1)
                   in s\<lparr>sn_older_retry := hm_insert key (before_message_id, now, tries) (sn_older_retry s)\<rparr>
              else s\<lparr>sn_older_retry := hm_remove key (sn_older_retry s)\<rparr>)"

definition history_loaded :: "protocol_id \<Rightarrow> string \<Rightarrow> history_store_cursor option \<Rightarrow> snapshot \<Rightarrow> snapshot" where
  "history_loaded protocol conversation_id store_cursor s =
     (let key = (protocol, conversation_id);
          s = s\<lparr>sn_open_on_link := (if sn_open_on_link s = Some key then None else sn_open_on_link s),
                sn_history_loading := sn_history_loading s - {key}\<rparr>
      in case store_cursor of
           None \<Rightarrow> s
         | Some cursor \<Rightarrow> snd (note_unreadable
             \<lparr>up_protocol = protocol, up_chat = conversation_id, up_topic = None, up_request_before = [],
              up_cursor = cursor,
              up_more = (hc_resume cursor \<or> oldest_message_id protocol conversation_id None s \<noteq> None),
              up_initial = True\<rparr> s))"

definition stop_spinners :: "protocol_id \<Rightarrow> string option \<Rightarrow> snapshot \<Rightarrow> snapshot" where
  "stop_spinners protocol chat s =
     (case chat of
        Some c \<Rightarrow> s\<lparr>sn_history_loading := sn_history_loading s - {(protocol, c)},
                    sn_older_loading := {key \<in> sn_older_loading s. \<not> (fst key = protocol \<and> fst (snd key) = c)}\<rparr>
      | None \<Rightarrow> s\<lparr>sn_chat_list_loading := sn_chat_list_loading s - {protocol},
                  sn_history_loading := {key \<in> sn_history_loading s. fst key \<noteq> protocol},
                  sn_older_loading := {key \<in> sn_older_loading s. fst key \<noteq> protocol}\<rparr>)"

definition command_failed :: "protocol_id \<Rightarrow> string option \<Rightarrow> string \<Rightarrow> snapshot \<Rightarrow> snapshot" where
  "command_failed protocol chat detail s =
     set_error (kind_display_name (pid_kind protocol) @ '': the last action did not finish.'') detail
       ''Try again. The inbox stays open.'' (stop_spinners protocol chat s)"

definition forget_older :: "(thread \<Rightarrow> bool) \<Rightarrow> snapshot \<Rightarrow> snapshot" where
  "forget_older same s =
     s\<lparr>sn_older_loading := {key \<in> sn_older_loading s. \<not> same key},
       sn_older_at_start := {key \<in> sn_older_at_start s. \<not> same key},
       sn_older_retry := hm_retain (\<lambda>key _. \<not> same key) (sn_older_retry s),
       sn_older_note := {key \<in> sn_older_note s. \<not> same key},
       sn_unreadable := hm_retain (\<lambda>key _. \<not> same key) (sn_unreadable s),
       sn_open_unreadable := hm_retain (\<lambda>key _. \<not> same key) (sn_open_unreadable s),
       sn_history_resume := hm_retain (\<lambda>key _. \<not> same key) (sn_history_resume s),
       sn_history_asked := hm_retain (\<lambda>key _. \<not> same key) (sn_history_asked s)\<rparr>"

definition forget_older_chat :: "protocol_id \<Rightarrow> string \<Rightarrow> snapshot \<Rightarrow> snapshot" where
  "forget_older_chat protocol chat = forget_older (\<lambda>key. fst key = protocol \<and> fst (snd key) = chat)"

definition forget_older_protocol :: "protocol_id \<Rightarrow> snapshot \<Rightarrow> snapshot" where
  "forget_older_protocol protocol = forget_older (\<lambda>key. fst key = protocol)"

section \<open>No unreadable row is lost\<close>

definition runs_total :: "unreadable_run list \<Rightarrow> nat" where
  "runs_total runs = sum_list (map (\<lambda>run. unat (ur_skipped run)) runs)"

definition skips_total :: "history_skip_run list \<Rightarrow> nat" where
  "skips_total runs = sum_list (map (\<lambda>run. unat (hs_skipped run)) runs)"

text \<open>The rows of a thread that could not be read: the lines it shows and the run still open.\<close>

definition unreadable_total :: "thread \<Rightarrow> snapshot \<Rightarrow> nat" where
  "unreadable_total key s =
     (case hm_get (sn_unreadable s) key of Some runs \<Rightarrow> runs_total runs | None \<Rightarrow> 0) +
     (case hm_get (sn_open_unreadable s) key of Some r \<Rightarrow> unat (ou_skipped r) | None \<Rightarrow> 0)"

definition page_key :: "unreadable_page \<Rightarrow> thread" where
  "page_key page = older_key (up_protocol page) (up_chat page) (up_topic page)"

definition page_count :: "unreadable_page \<Rightarrow> snapshot \<Rightarrow> nat" where
  "page_count page s =
     (if page_continues page s \<or> hc_runs (up_cursor page) = [] then unat (hc_skipped (up_cursor page))
      else skips_total (hc_runs (up_cursor page)))"

lemma runs_total_simps [simp]:
  "runs_total [] = 0" "runs_total (r # rs) = unat (ur_skipped r) + runs_total rs"
  "runs_total (rs @ ts) = runs_total rs + runs_total ts"
  by (simp_all add: runs_total_def)

lemma skips_total_simps [simp]:
  "skips_total [] = 0" "skips_total (r # rs) = unat (hs_skipped r) + skips_total rs"
  by (simp_all add: skips_total_def)

lemma unat_sat_add32_small: "unat a + unat b < 2 ^ 32 \<Longrightarrow> unat (sat_add32 a b) = unat a + unat b"
  by (simp add: unat_sat_add32)

lemma runs_total_update:
  "list_ex P runs \<Longrightarrow> runs_total runs + unat k < 2 ^ 32 \<Longrightarrow>
   runs_total (update_first P (\<lambda>run. run\<lparr>ur_skipped := sat_add32 (ur_skipped run) k\<rparr>) runs) =
   runs_total runs + unat k"
  by (induction runs) (auto simp: unat_sat_add32_small)

lemma runs_total_push:
  "runs_total runs + unat k < 2 ^ 32 \<Longrightarrow> runs_total (push_unreadable runs b k) = runs_total runs + unat k"
  by (auto simp: push_unreadable_def runs_total_update)

lemma place_runs_total:
  "place_runs loaded runs (leading, edge, placed) = (l, e, p) \<Longrightarrow>
   unat leading + unat edge + runs_total placed + skips_total runs < 2 ^ 32 \<Longrightarrow>
   unat l + unat e + runs_total p = unat leading + unat edge + runs_total placed + skips_total runs"
proof (induction runs arbitrary: leading edge placed)
  case (Cons run runs)
  show ?case
  proof (cases "hs_skipped run = 0")
    case True
    then show ?thesis using Cons.IH [of leading edge placed] Cons.prems by simp
  next
    case False
    show ?thesis
    proof (cases "hs_after_id run")
      case None
      then show ?thesis
        using False Cons.prems Cons.IH [of "sat_add32 leading (hs_skipped run)" edge placed]
        by (simp add: unat_sat_add32_small)
    next
      case (Some i)
      then show ?thesis
        using False Cons.prems Cons.IH [of leading "sat_add32 edge (hs_skipped run)" placed]
          Cons.IH [of leading edge "push_unreadable placed (Some i) (hs_skipped run)"]
        by (simp add: unat_sat_add32_small runs_total_push split: if_splits)
    qed
  qed
qed simp

lemma unreadable_total_add:
  "unreadable_total key' (add_runs key runs s) =
     unreadable_total key' s + (if key' = key then runs_total runs else 0)"
  by (simp add: unreadable_total_def add_runs_def split: option.split)

definition waiting_count :: "thread \<Rightarrow> snapshot \<Rightarrow> nat" where
  "waiting_count key s = (case hm_get (sn_open_unreadable s) key of Some r \<Rightarrow> unat (ou_skipped r) | None \<Rightarrow> 0)"

lemma unreadable_total_drop:
  "unreadable_total key (s\<lparr>sn_open_unreadable := hm_remove key (sn_open_unreadable s)\<rparr>) + waiting_count key s =
     unreadable_total key s"
  "key' \<noteq> key \<Longrightarrow>
     unreadable_total key' (s\<lparr>sn_open_unreadable := hm_remove key (sn_open_unreadable s)\<rparr>) = unreadable_total key' s"
  by (simp_all add: unreadable_total_def waiting_count_def split: option.split)

lemma waiting_unat:
  "unat (case hm_get (sn_open_unreadable s) key of Some r \<Rightarrow> ou_skipped r | None \<Rightarrow> 0) = waiting_count key s"
  by (simp add: waiting_count_def split: option.split)

lemma zero_less_unat: "(0 < (x :: u32)) = (0 < unat x)"
  by (simp add: word_less_nat_alt)

lemma close_page_total:
  fixes page s
  defines "n \<equiv> (if hc_runs (up_cursor page) = [] then unat (hc_skipped (up_cursor page))
      else skips_total (hc_runs (up_cursor page)))"
  assumes "unreadable_total (page_key page) s + n < 2 ^ 32"
  shows "unreadable_total key (close_page page s) =
     unreadable_total key s + (if key = page_key page then n else 0)"
proof -
  let ?key = "page_key page"
  let ?s = "s\<lparr>sn_open_unreadable := hm_remove ?key (sn_open_unreadable s)\<rparr>"
  let ?before = "case hm_get (sn_open_unreadable s) ?key of Some r \<Rightarrow> ou_skipped r | None \<Rightarrow> 0"
  have parts: "unreadable_total ?key ?s + waiting_count ?key s = unreadable_total ?key s"
    by (rule unreadable_total_drop)
  then have small: "waiting_count ?key s + n < 2 ^ 32" using assms(2) by linarith
  have added: "unreadable_total key (add_runs ?key runs ?s) = unreadable_total key s + (if key = ?key then n else 0)"
    if "runs_total runs = waiting_count ?key s + n" for runs
    using that parts unreadable_total_drop(2) [of key ?key s] by (auto simp: unreadable_total_add)
  have same: "unreadable_total key ?s = unreadable_total key s + (if key = ?key then n else 0)"
    if "waiting_count ?key s + n = 0"
    using that parts unreadable_total_drop(2) [of key ?key s] by auto
  show ?thesis
  proof (cases "hc_runs (up_cursor page) = []")
    case True
    then have "unat (sat_add32 ?before (hc_skipped (up_cursor page))) = waiting_count ?key s + n"
      using small by (simp add: unat_sat_add32_small waiting_unat n_def)
    then show ?thesis
      using True added [of "[\<lparr>ur_before_id = b, ur_skipped = sat_add32 ?before (hc_skipped (up_cursor page))\<rparr>]" for b] same
      by (auto simp: close_page_def Let_def page_key_def zero_less_unat)
  next
    case False
    obtain l e p where placed: "place_runs (\<lambda>i. message_is_loaded (up_protocol page) (up_chat page) (up_topic page) i ?s)
        (hc_runs (up_cursor page)) (?before, 0, []) = (l, e, p)"
      by (metis prod_cases3)
    then have sum: "unat l + unat e + runs_total p = waiting_count ?key s + n"
      using place_runs_total [OF placed] small False by (simp add: waiting_unat n_def)
    have edge: "runs_total (if 0 < e then push_unreadable p b e else p) = runs_total p + unat e" for b
      using sum small by (auto simp: runs_total_push zero_less_unat)
    have lead: "runs_total (if 0 < l then push_unreadable q b l else q) = runs_total q + unat l"
      if "runs_total q = runs_total p + unat e" for q b
      using that sum small by (auto simp: runs_total_push zero_less_unat)
    define all where "all b b' = (let q = (if 0 < e then push_unreadable p b e else p)
      in if 0 < l then push_unreadable q b' l else q)" for b b'
    have total: "runs_total (all b b') = waiting_count ?key s + n" for b b'
      unfolding all_def Let_def lead [OF edge] edge using sum by simp
    then have none: "all b b' = [] \<Longrightarrow> waiting_count ?key s + n = 0" for b b'
      by (metis runs_total_simps(1))
    have "\<exists>b b'. close_page page s = (if all b b' \<noteq> [] then add_runs ?key (all b b') ?s else ?s)"
      using False placed by (auto simp: close_page_def Let_def page_key_def all_def)
    then show ?thesis using added [OF total] same [OF none] by auto
  qed
qed

lemma open_page_total:
  assumes "unreadable_total (page_key page) s + unat (hc_skipped (up_cursor page)) < 2 ^ 32"
  shows "unreadable_total key (open_page page s) =
     unreadable_total key s + (if key = page_key page then unat (hc_skipped (up_cursor page)) else 0)"
  using assms
  by (auto simp: unreadable_total_def open_page_def Let_def page_key_def unat_sat_add32_small split: option.splits)

lemma unreadable_total_fields:
  "sn_unreadable s' = sn_unreadable s \<Longrightarrow> sn_open_unreadable s' = sn_open_unreadable s \<Longrightarrow>
   unreadable_total key s' = unreadable_total key s"
  by (simp add: unreadable_total_def)

lemma queue_store_page_total: "unreadable_total key (snd (queue_store_page p c b ms s)) = unreadable_total key s"
  by (rule unreadable_total_fields) (simp_all add: queue_store_page_def Let_def)

section \<open>A chain of empty pages ends\<close>

text \<open>
  The answers for one thread that each asked for the next page at once, with the state each met. What
  happens in between is free, as long as it leaves the asked timestamp of the thread.
\<close>

fun older_chain :: "thread \<Rightarrow> (unreadable_page \<times> snapshot) list \<Rightarrow> bool" where
  "older_chain key [] = True"
| "older_chain key [(page, s)] \<longleftrightarrow> page_key page = key \<and> fst (note_unreadable page s)"
| "older_chain key ((page, s) # (page', s') # rest) \<longleftrightarrow>
     page_key page = key \<and> fst (note_unreadable page s) \<and>
     hm_get (sn_history_asked s') key = hm_get (sn_history_asked (snd (note_unreadable page s))) key \<and>
     older_chain key ((page', s') # rest)"

lemma note_unreadable_queues:
  assumes "fst (note_unreadable page s)"
  shows "page_continues page s"
    and "hm_get (sn_history_asked (snd (note_unreadable page s))) (page_key page) = Some (hc_before_ms (up_cursor page))"
    and "sn_pending (snd (note_unreadable page s)) = sn_pending s @
      [CmdLoadOlderMessages (up_protocol page) (up_chat page)
        (if up_request_before page = [] then show_nat (hc_before_ms (up_cursor page)) else up_request_before page)
        (Some (hc_before_ms (up_cursor page)))]"
    and "page_key page \<in> sn_older_loading (snd (note_unreadable page s))"
  using assms
  by (auto simp: note_unreadable_def Let_def queue_store_page_def page_continues_def page_key_def open_page_def
      split: if_splits)

lemma older_chain_falls:
  "older_chain key ((page, s) # rest) \<Longrightarrow>
   \<forall>entry \<in> set rest. hc_before_ms (up_cursor (fst entry)) < hc_before_ms (up_cursor page)"
proof (induction rest arbitrary: page s)
  case (Cons entry rest)
  obtain page' s' where entry: "entry = (page', s')" by (cases entry)
  have chain: "older_chain key ((page', s') # rest)" "page_key page = key"
    and asked: "hm_get (sn_history_asked s') key = Some (hc_before_ms (up_cursor page))"
    using Cons.prems note_unreadable_queues(2) [of page s] by (auto simp: entry)
  have "page_key page' = key" "fst (note_unreadable page' s')"
    using chain(1) by (cases rest; auto)+
  then have "hc_before_ms (up_cursor page') < hc_before_ms (up_cursor page)"
    using note_unreadable_queues(1) [of page' s'] asked by (auto simp: page_continues_def page_moves_def page_key_def)
  then show ?case using Cons.IH [OF chain(1)] by (fastforce simp: entry)
qed simp

lemma older_chain_tail: "older_chain key (entry # rest) \<Longrightarrow> older_chain key rest"
  by (cases rest; cases entry) auto

lemma older_chain_sorted:
  "older_chain key chain \<Longrightarrow> sorted_wrt (>) (map (\<lambda>(page, _). hc_before_ms (up_cursor page)) chain)"
proof (induction chain)
  case (Cons entry rest)
  then show ?case
    using older_chain_falls [of key "fst entry" "snd entry" rest] older_chain_tail [of key entry rest]
    by (auto simp: case_prod_unfold)
qed simp

lemma sorted_down_length: "sorted_wrt (>) (x # xs) \<Longrightarrow> length xs \<le> (x :: nat)"
proof (induction xs arbitrary: x)
  case (Cons y ys)
  then have "length ys \<le> y" "y < x" by auto
  then show ?case by simp
qed simp

section \<open>One request at a time\<close>

lemma take_resume_fields [simp]:
  "sn_pending (snd (take_resume_cursor p c t s)) = sn_pending s"
  "sn_older_loading (snd (take_resume_cursor p c t s)) = sn_older_loading s"
  "sn_accounts (snd (take_resume_cursor p c t s)) = sn_accounts s"
  "sn_selected_protocol (snd (take_resume_cursor p c t s)) = sn_selected_protocol s"
  "sn_selected_conversation (snd (take_resume_cursor p c t s)) = sn_selected_conversation s"
  "sn_selected_topic (snd (take_resume_cursor p c t s)) = sn_selected_topic s"
  by (auto simp: take_resume_cursor_def Let_def split: option.splits)

lemma take_resume_moves:
  "fst (take_resume_cursor p c t s) = Some cursor \<Longrightarrow>
   (case hm_get (sn_history_asked s) (p, c, t) of Some asked \<Rightarrow> cursor < asked | None \<Rightarrow> True) \<and>
   hm_get (sn_history_asked (snd (take_resume_cursor p c t s))) (p, c, t) = Some cursor"
  by (auto simp: take_resume_cursor_def Let_def older_key_def thread_key_def split: option.splits if_splits)

lemma older_anchorD:
  assumes "older_anchor_at now s = Some (i, oldest)"
  shows "sn_selected_conversation s = Some i \<and> (\<exists>row rows. selected_messages s = row # rows \<and> cm_id row = oldest) \<and>
     older_key (sn_selected_protocol s) i (sn_selected_topic s) \<notin> sn_older_loading s"
  using assms by (auto simp: older_anchor_at_def Let_def split: if_splits option.splits list.splits prod.splits)

lemma load_older_fields:
  assumes "older_anchor_at now s = Some (i, oldest)"
  shows "sn_pending (load_older_at now s) = sn_pending s @
      [case sn_selected_topic s of
         Some t \<Rightarrow> CmdLoadOlderTopic (sn_selected_protocol s) i t oldest
       | None \<Rightarrow> CmdLoadOlderMessages (sn_selected_protocol s) i oldest
           (fst (take_resume_cursor (sn_selected_protocol s) i (sn_selected_topic s) s))]"
    and "older_key (sn_selected_protocol s) i (sn_selected_topic s) \<in> sn_older_loading (load_older_at now s)"
    and "sn_selected_protocol (load_older_at now s) = sn_selected_protocol s"
    and "sn_selected_conversation (load_older_at now s) = sn_selected_conversation s"
    and "sn_selected_topic (load_older_at now s) = sn_selected_topic s"
  using assms
  by (auto simp: load_older_at_def Let_def case_prod_unfold push_command_def split: option.split)

lemma older_loading_blocks:
  "sn_selected_conversation s = Some i \<Longrightarrow>
   older_key (sn_selected_protocol s) i (sn_selected_topic s) \<in> sn_older_loading s \<Longrightarrow> older_anchor_at now s = None"
  by (auto simp: older_anchor_at_def Let_def)

lemma older_wait_bounds: "OLDER_RETRY_DELAY \<le> older_wait n" "older_wait n \<le> OLDER_RETRY_MAX"
proof -
  have "OLDER_RETRY_DELAY * 1 \<le> OLDER_RETRY_DELAY * 2 ^ min (unat n - 1) 16"
    by (rule mult_left_mono) simp_all
  then show "OLDER_RETRY_DELAY \<le> older_wait n" "older_wait n \<le> OLDER_RETRY_MAX"
    by (auto simp: older_wait_def OLDER_RETRY_DELAY_def OLDER_RETRY_MAX_def)
qed

section \<open>Properties\<close>

text \<open>
  C29: pages of a store that show no row cannot ask for each other forever: in a chain of answers of
  one thread that each queue the next request the timestamps fall strictly, so the chain has at most
  as many answers as the first timestamp has milliseconds, and one more.
\<close>

theorem empty_pages_end:
  assumes "older_chain key ((page, s) # rest)"
  shows "sorted_wrt (>) (map (\<lambda>(page, _). hc_before_ms (up_cursor page)) ((page, s) # rest)) \<and>
    length ((page, s) # rest) \<le> Suc (hc_before_ms (up_cursor page))"
  using older_chain_sorted [OF assms] sorted_down_length [of "hc_before_ms (up_cursor page)" "map (\<lambda>(page, _). hc_before_ms (up_cursor page)) rest"]
  by simp

text \<open>
  C30: no row that a page could not show is lost or counted twice: with a 32-bit count that does not
  overflow, a page adds exactly its count to the lines and the open run of its thread, whether it asks
  for the next page or closes the run, and to no other thread.
\<close>

theorem unreadable_rows_counted:
  assumes "unreadable_total (page_key page) s + page_count page s < 2 ^ 32"
  shows "unreadable_total key (snd (note_unreadable page s)) =
     unreadable_total key s + (if key = page_key page then page_count page s else 0)"
proof (cases "page_continues page s")
  case True
  then show ?thesis
    using assms open_page_total [of page s key]
    by (simp add: note_unreadable_def Let_def page_count_def queue_store_page_total)
next
  case False
  have resumed: "unreadable_total key (snd (note_unreadable page s)) = unreadable_total key (close_page page s)"
    using False by (intro unreadable_total_fields) (simp_all add: note_unreadable_def Let_def)
  show ?thesis
    unfolding resumed using assms close_page_total [of page s key] False by (simp add: page_count_def)
qed


text \<open>A page with nothing older blocks its anchor for the wait, whatever the clock shows before it ends.\<close>

lemma older_retry_blocks:
  assumes "hm_get (sn_older_retry s) (older_key (sn_selected_protocol s) i (sn_selected_topic s)) = Some (cm_id row, at, tries)"
    and "sn_selected_conversation s = Some i" "selected_messages s = row # rows" "now < at + older_wait tries"
  shows "older_anchor_at now s = None"
proof -
  have "now - at < older_wait tries"
    using assms(4) older_wait_bounds(1) [of tries] by (simp add: OLDER_RETRY_DELAY_def)
  then show ?thesis using assms(1-3) by (auto simp: older_anchor_at_def Let_def)
qed

section \<open>Witnesses\<close>

definition demo_page :: "u64 \<Rightarrow> u32 \<Rightarrow> unreadable_page" where
  "demo_page ms skipped = \<lparr>up_protocol = primary Signal, up_chat = ''a'', up_topic = None, up_request_before = ''m'',
     up_cursor = \<lparr>hc_before_ms = ms, hc_skipped = skipped, hc_resume = True, hc_runs = []\<rparr>, up_more = True,
     up_initial = False\<rparr>"

definition demo_chain :: "(unreadable_page \<times> snapshot) list" where
  "demo_chain = [(demo_page 9 2, snapshot_new demo_source []),
     (demo_page 4 3, snd (note_unreadable (demo_page 9 2) (snapshot_new demo_source [])))]"

theorem empty_pages_end_witness: "older_chain (primary Signal, ''a'', None) demo_chain \<and> length demo_chain \<le> 10"
proof -
  have chain: "older_chain (primary Signal, ''a'', None) demo_chain"
    by (simp add: demo_chain_def demo_page_def page_key_def older_key_def thread_key_def note_unreadable_def Let_def
        page_continues_def page_added_def page_moves_def oldest_message_id_def thread_rows_def snapshot_new_def
        queue_store_page_def open_page_def)
  have "demo_chain = (demo_page 9 2, snapshot_new demo_source []) # tl demo_chain" "hc_before_ms (up_cursor (demo_page 9 2)) = 9"
    by (simp_all add: demo_chain_def demo_page_def)
  then show ?thesis using empty_pages_end [of _ "demo_page 9 2" "snapshot_new demo_source []" "tl demo_chain"] chain by simp
qed

theorem unreadable_rows_counted_witness:
  "unreadable_total (primary Signal, ''a'', None) (snd (note_unreadable (demo_page 9 2) (snapshot_new demo_source []))) = 2"
proof -
  have "page_key (demo_page 9 2) = (primary Signal, ''a'', None)"
    by (simp add: page_key_def demo_page_def older_key_def thread_key_def)
  moreover have "unreadable_total (primary Signal, ''a'', None) (snapshot_new demo_source []) = 0"
    by (simp add: unreadable_total_def snapshot_new_def)
  moreover have "page_count (demo_page 9 2) (snapshot_new demo_source []) = 2"
    by (simp add: page_count_def demo_page_def)
  ultimately show ?thesis
    using unreadable_rows_counted [of "demo_page 9 2" "snapshot_new demo_source []" "(primary Signal, ''a'', None)"] by simp
qed

end
