(* ===== verification/Shell_Inbox.thy ===== *)
theory Shell_Inbox
  imports Shell_Older Mutes
begin

text \<open>
  The inbox and what the user looks at (\<open>crates/thinwire-core/src/state.rs\<close>): the rows of the open
  account, the keyboard highlight, the status line, unread counts, and the view that the adapters are
  told. The adapters hear each change of the view once, so replaying their commands gives the view.
\<close>

section \<open>Rows of the inbox\<close>

definition chat_in_open_account :: "string \<Rightarrow> snapshot \<Rightarrow> bool" where
  "chat_in_open_account i s \<longleftrightarrow>
     \<not> pid_is (sn_selected_protocol s) Signal \<or> signal_retained_slot i = sn_selected_signal_retained s"

definition visible_conversations :: "(protocol_kind \<Rightarrow> bool) \<Rightarrow> snapshot \<Rightarrow> conversation list" where
  "visible_conversations built s =
     (let retained_open = (sn_selected_protocol s = primary Signal \<and> sn_selected_signal_retained s \<noteq> None);
          query = map ascii_lower (trim (sn_search s))
      in if \<not> account_surface_visible built (sn_selected_protocol s) s then []
         else if \<not> retained_open \<and> \<not> has_session (sn_selected_protocol s) s then []
         else filter (\<lambda>row. query = [] \<or> contains_str query (map ascii_lower (cv_title row)) \<or>
                        contains_str query (map ascii_lower (cv_participant row)))
                (filter (\<lambda>row. chat_in_open_account (cv_id row) s)
                  (conversation_rows (sn_selected_protocol s) s)))"

definition visible_ids :: "(protocol_kind \<Rightarrow> bool) \<Rightarrow> snapshot \<Rightarrow> string list" where
  "visible_ids built s = map cv_id (visible_conversations built s)"

datatype inbox_state = InboxRows | InboxLoading | InboxEmpty | InboxNoMatch

definition inbox_state :: "(protocol_kind \<Rightarrow> bool) \<Rightarrow> snapshot \<Rightarrow> inbox_state" where
  "inbox_state built s =
     (if visible_conversations built s \<noteq> [] then InboxRows
      else if has_session (sn_selected_protocol s) s \<and> conversation_rows (sn_selected_protocol s) s \<noteq> []
      then InboxNoMatch
      else if sn_selected_protocol s \<in> sn_chat_list_loading s \<and> has_session (sn_selected_protocol s) s
      then InboxLoading
      else InboxEmpty)"

datatype thread_state = NoSelection | ThreadRows | ThreadLoading | ThreadEmpty

definition thread_state :: "snapshot \<Rightarrow> thread_state" where
  "thread_state s =
     (case sn_selected_conversation s of
        None \<Rightarrow> NoSelection
      | Some i \<Rightarrow>
          if selected_messages s \<noteq> [] then ThreadRows
          else if (sn_selected_protocol s, i) \<in> sn_history_loading s then ThreadLoading
          else ThreadEmpty)"

section \<open>The highlight\<close>

datatype focus_follow = FollowQuery | FollowList | FollowMoved | FollowUpsert

definition highlight_index_changed :: "string list \<Rightarrow> snapshot \<Rightarrow> bool" where
  "highlight_index_changed ids s \<longleftrightarrow>
     (case sn_focused_row s of
        None \<Rightarrow> False
      | Some i \<Rightarrow>
          let old_index = position (\<lambda>row. row = i) (sn_seen_visible_ids s);
              new_index = position (\<lambda>row. row = i) ids
          in old_index \<noteq> None \<and> new_index \<noteq> None \<and> old_index \<noteq> new_index)"

fun highlight_needs_scroll :: "focus_follow \<Rightarrow> string list \<Rightarrow> snapshot \<Rightarrow> bool" where
  "highlight_needs_scroll FollowQuery ids s = True"
| "highlight_needs_scroll FollowMoved ids s = True"
| "highlight_needs_scroll FollowList ids s = highlight_index_changed ids s"
| "highlight_needs_scroll FollowUpsert ids s = False"

definition sync_focused_row :: "(protocol_kind \<Rightarrow> bool) \<Rightarrow> focus_follow \<Rightarrow> snapshot \<Rightarrow> snapshot" where
  "sync_focused_row built reason s =
     (let ids = visible_ids built s;
          kept = (case sn_focused_row s of Some i \<Rightarrow> i \<in> set ids | None \<Rightarrow> False);
          s = (if \<not> kept then s\<lparr>sn_focused_row := None\<rparr>
               else if highlight_needs_scroll reason ids s then s\<lparr>sn_scroll_to_focused := True\<rparr>
               else s)
      in s\<lparr>sn_seen_visible_ids := ids\<rparr>)"

definition visible_focused_row :: "(protocol_kind \<Rightarrow> bool) \<Rightarrow> snapshot \<Rightarrow> string option" where
  "visible_focused_row built s =
     (case sn_focused_row s of
        None \<Rightarrow> None
      | Some i \<Rightarrow> if i \<in> set (visible_ids built s) then Some i else None)"

text \<open>The row numbers and the move are 32-bit integers; an inbox of 2^31 rows does not occur.\<close>

definition inbox_move_target :: "(protocol_kind \<Rightarrow> bool) \<Rightarrow> i32 \<Rightarrow> snapshot \<Rightarrow> string option" where
  "inbox_move_target built delta s =
     (let ids = visible_ids built s in
      if delta = 0 \<or> ids = [] then None
      else
        let here = (case sn_focused_row s of Some i \<Rightarrow> Some i | None \<Rightarrow> sn_selected_conversation s);
            current = Option.bind here (\<lambda>i. position (\<lambda>row. row = i) ids);
            next_row = (case current of
                Some index \<Rightarrow> nat (max 0 (min (int (length ids) - 1) (int index + delta)))
              | None \<Rightarrow> if delta < 0 then length ids - 1 else 0)
        in if sn_focused_row s = Some (ids ! next_row) then None else Some (ids ! next_row))"

definition move_inbox_selection :: "(protocol_kind \<Rightarrow> bool) \<Rightarrow> i32 \<Rightarrow> snapshot \<Rightarrow> snapshot" where
  "move_inbox_selection built delta s =
     (case inbox_move_target built delta s of
        None \<Rightarrow> s
      | Some i \<Rightarrow> sync_focused_row built FollowMoved (s\<lparr>sn_focused_row := Some i\<rparr>))"

definition focus_inbox_row :: "(protocol_kind \<Rightarrow> bool) \<Rightarrow> string \<Rightarrow> snapshot \<Rightarrow> snapshot" where
  "focus_inbox_row built i s = (if i \<in> set (visible_ids built s) then s\<lparr>sn_focused_row := Some i\<rparr> else s)"

definition set_search :: "(protocol_kind \<Rightarrow> bool) \<Rightarrow> string \<Rightarrow> snapshot \<Rightarrow> snapshot" where
  "set_search built query s =
     (if sn_search s = query then s else sync_focused_row built FollowQuery (s\<lparr>sn_search := query\<rparr>))"

section \<open>The status line\<close>

definition is_loading :: "snapshot \<Rightarrow> bool" where
  "is_loading s \<longleftrightarrow>
     sn_chat_list_loading s \<noteq> {} \<or> sn_history_loading s \<noteq> {} \<or> sn_older_loading s \<noteq> {} \<or>
     \<not> tracker_is_empty (sn_sends s) \<or> sn_telegram_send_unconfirmed s \<noteq> []"

datatype loading_line = LoadingChats | LoadingMessages | LoadingOlder | Sending

definition loading_line :: "protocol_id \<Rightarrow> snapshot \<Rightarrow> loading_line option" where
  "loading_line protocol s =
     (if protocol \<in> sn_chat_list_loading s then Some LoadingChats
      else if \<exists>key \<in> sn_history_loading s. fst key = protocol then Some LoadingMessages
      else if \<exists>key \<in> sn_older_loading s. fst key = protocol then Some LoadingOlder
      else if compose_in_flight protocol (sn_sends s) \<or>
        (pid_is protocol Telegram \<and> list_ex (\<lambda>hold. \<not> th_retry hold) (sn_telegram_send_unconfirmed s))
      then Some Sending
      else None)"

datatype status_source = LoadOf protocol_id loading_line | FailureLine string | LastLine string

fun first_load :: "protocol_id list \<Rightarrow> snapshot \<Rightarrow> (protocol_id \<times> loading_line) option" where
  "first_load [] s = None"
| "first_load (p # ps) s = (case loading_line p s of Some line \<Rightarrow> Some (p, line) | None \<Rightarrow> first_load ps s)"

text \<open>Which text the strip shows; the load of another protocol is named in it.\<close>

definition status_source :: "(protocol_kind \<Rightarrow> bool) \<Rightarrow> snapshot \<Rightarrow> status_source" where
  "status_source built s =
     (case loading_line (sn_selected_protocol s) s of
        Some line \<Rightarrow> LoadOf (sn_selected_protocol s) line
      | None \<Rightarrow>
          if sn_failure_status s = Some (sn_status_text s) then FailureLine (sn_status_text s)
          else case first_load
              (filter (\<lambda>i. i \<noteq> sn_selected_protocol s \<and> account_surface_visible built i s)
                (map (\<lambda>row. cap_id (ar_caps row)) (sn_accounts s))) s of
              Some (i, line) \<Rightarrow> LoadOf i line
            | None \<Rightarrow> LastLine (sn_status_text s))"

section \<open>Unread counts\<close>

definition sum_unread :: "u32 list \<Rightarrow> u32" where
  "sum_unread counts = foldl sat_add32 0 counts"

definition display_unread :: "chat_mutes \<Rightarrow> conversation \<Rightarrow> snapshot \<Rightarrow> u32" where
  "display_unread mutes row s =
     (if \<not> cv_has_topics row then cv_unread row
      else case hm_get (sn_topics s) (cv_protocol row, cv_id row) of
          None \<Rightarrow> cv_unread row
        | Some topics \<Rightarrow>
            if topics = [] then cv_unread row
            else sum_unread (map tp_unread
              (filter (\<lambda>topic. \<not> mute_is_muted (chat_mute_of (tp_muted topic)
                 (mutes_contains (cv_protocol row) (topic_mute_id (cv_id row) (tp_topic topic)) mutes))) topics)))"

definition account_display_unread :: "protocol_id \<Rightarrow> chat_mutes \<Rightarrow> snapshot \<Rightarrow> u32" where
  "account_display_unread protocol mutes s =
     (if \<not> has_session protocol s then 0
      else sum_unread (map (\<lambda>row. display_unread mutes row s) (conversation_rows protocol s)))"

definition account_display_unread_for :: "account_row \<Rightarrow> chat_mutes \<Rightarrow> snapshot \<Rightarrow> u32" where
  "account_display_unread_for a mutes s =
     (let p = cap_id (ar_caps a) in
      if ar_signal_retained a = None \<and> \<not> has_session p s then 0
      else sum_unread (map (\<lambda>row. display_unread mutes row s)
        (filter (\<lambda>row. \<not> pid_is p Signal \<or> signal_retained_slot (cv_id row) = ar_signal_retained a)
          (conversation_rows p s))))"

definition unread_total :: "chat_mutes \<Rightarrow> snapshot \<Rightarrow> u32" where
  "unread_total mutes s =
     sum_unread (map (\<lambda>row. display_unread mutes row s)
       (filter (\<lambda>row. \<not> mute_is_muted (chat_mute_of (cv_muted row) (mutes_contains (cv_protocol row) (cv_id row) mutes)))
         (concat (map snd (filter (\<lambda>(protocol, _). has_session protocol s) (sn_conversations s))))))"

section \<open>The viewed chat\<close>

definition viewed_chat :: "(protocol_kind \<Rightarrow> bool) \<Rightarrow> bool \<Rightarrow> snapshot \<Rightarrow> thread option" where
  "viewed_chat built tdlib s =
     (if \<not> sn_window_focused s \<or> center_view built tdlib s \<noteq> CenterThread then None
      else
        let protocol = sn_selected_protocol s
        in case sn_selected_conversation s of
             None \<Rightarrow> None
           | Some i \<Rightarrow>
               (case find_conversation protocol i s of
                  None \<Rightarrow> None
                | Some row \<Rightarrow>
                    if \<not> (has_session protocol s \<and> account_surface_visible built protocol s \<and> \<not> cv_placeholder row)
                    then None
                    else if cv_has_topics row
                    then map_option (\<lambda>topic. (protocol, i, Some topic)) (sn_selected_topic s)
                    else Some (protocol, i, None)))"

definition chat_is_viewed :: "protocol_id \<Rightarrow> string \<Rightarrow> snapshot \<Rightarrow> bool" where
  "chat_is_viewed protocol i s \<longleftrightarrow>
     (case sn_viewed s of Some (p, chat, _) \<Rightarrow> p = protocol \<and> chat = i | None \<Rightarrow> False)"

definition clear_viewed_unread :: "snapshot \<Rightarrow> snapshot" where
  "clear_viewed_unread s =
     (if \<not> sn_window_focused s then s
      else case sn_viewed s of
          None \<Rightarrow> s
        | Some (protocol, i, Some topic) \<Rightarrow>
            s\<lparr>sn_topics := hm_modify (protocol, i)
                (update_first (\<lambda>row. tp_topic row = topic) (\<lambda>row. row\<lparr>tp_unread := 0\<rparr>)) (sn_topics s)\<rparr>
        | Some (protocol, i, None) \<Rightarrow>
            if (case find_conversation protocol i s of Some row \<Rightarrow> cv_has_topics row | None \<Rightarrow> False) then s
            else s\<lparr>sn_conversations := hm_modify protocol
                (update_first (\<lambda>row. cv_id row = i) (\<lambda>row. row\<lparr>cv_unread := 0\<rparr>)) (sn_conversations s)\<rparr>)"

definition sync_viewed :: "(protocol_kind \<Rightarrow> bool) \<Rightarrow> bool \<Rightarrow> snapshot \<Rightarrow> snapshot" where
  "sync_viewed built tdlib s =
     (let now_viewed = viewed_chat built tdlib s;
          before = sn_viewed s
      in if now_viewed = before then s
         else
           let s = s\<lparr>sn_viewed := now_viewed\<rparr>;
               left_protocol = (case (before, now_viewed) of
                   (Some (old, _, _), Some (new, _, _)) \<Rightarrow> if old \<noteq> new then Some old else None
                 | (Some (old, _, _), None) \<Rightarrow> Some old
                 | (None, _) \<Rightarrow> None);
               s = (case left_protocol of Some p \<Rightarrow> push_command (CmdViewChat p None) s | None \<Rightarrow> s);
               s = (case now_viewed of
                   Some (p, i, Some topic) \<Rightarrow> push_command (CmdViewTopic p i topic) s
                 | Some (p, i, None) \<Rightarrow> push_command (CmdViewChat p (Some i)) s
                 | None \<Rightarrow> s)
           in clear_viewed_unread s)"

definition set_window_focus :: "bool \<Rightarrow> snapshot \<Rightarrow> snapshot" where
  "set_window_focus focused s =
     (let s = s\<lparr>sn_window_focused := focused\<rparr> in if focused then clear_viewed_unread s else s)"

section \<open>What the adapters know of the view\<close>

type_synonym told_view = "protocol_id \<Rightarrow> (string \<times> message_topic option) option"

fun view_step :: "adapter_command \<Rightarrow> told_view \<Rightarrow> told_view" where
  "view_step (CmdViewChat p i) told = told(p := map_option (\<lambda>i. (i, None)) i)"
| "view_step (CmdViewTopic p i topic) told = told(p := Some (i, Some topic))"
| "view_step _ told = told"

text \<open>The view that the commands leave in each adapter, from a start with no view.\<close>

definition told :: "adapter_command list \<Rightarrow> told_view" where
  "told commands = fold view_step commands (\<lambda>_. None)"

definition view_of :: "thread option \<Rightarrow> told_view" where
  "view_of viewed = (case viewed of None \<Rightarrow> (\<lambda>_. None) | Some (p, i, topic) \<Rightarrow> (\<lambda>_. None)(p := Some (i, topic)))"

definition view_told :: "adapter_command list \<Rightarrow> snapshot \<Rightarrow> bool" where
  "view_told sent s \<longleftrightarrow> told (sent @ sn_pending s) = view_of (sn_viewed s)"

lemma clear_viewed_fields [simp]:
  "sn_pending (clear_viewed_unread s) = sn_pending s" "sn_viewed (clear_viewed_unread s) = sn_viewed s"
  "sn_window_focused (clear_viewed_unread s) = sn_window_focused s"
  "sn_auth (clear_viewed_unread s) = sn_auth s" "sn_accounts (clear_viewed_unread s) = sn_accounts s"
  "sn_sessions (clear_viewed_unread s) = sn_sessions s" "sn_extra_visible (clear_viewed_unread s) = sn_extra_visible s"
  "sn_selected_protocol (clear_viewed_unread s) = sn_selected_protocol s"
  "sn_selected_conversation (clear_viewed_unread s) = sn_selected_conversation s"
  "sn_selected_topic (clear_viewed_unread s) = sn_selected_topic s"
  "sn_selected_signal_retained (clear_viewed_unread s) = sn_selected_signal_retained s"
  "sn_keychain_failed (clear_viewed_unread s) = sn_keychain_failed s"
  "sn_keychain_retry (clear_viewed_unread s) = sn_keychain_retry s"
  "sn_resume (clear_viewed_unread s) = sn_resume s"
  by (auto simp: clear_viewed_unread_def split: option.splits prod.splits)

lemma find_conversation_clear:
  "find_conversation p i (clear_viewed_unread s) =
     map_option (\<lambda>row. if sn_window_focused s \<and> sn_viewed s = Some (p, i, None) \<and> \<not> cv_has_topics row
                       then row\<lparr>cv_unread := 0\<rparr> else row) (find_conversation p i s)"
proof -
  have same: "map_option (\<lambda>row. row) x = x" for x :: "conversation option" by (simp add: option.map_ident)
  have hit: "find (\<lambda>row. cv_id row = k) (update_first (\<lambda>row. cv_id row = k) (\<lambda>row. row\<lparr>cv_unread := 0\<rparr>) rows) =
      map_option (\<lambda>row. row\<lparr>cv_unread := 0\<rparr>) (find (\<lambda>row. cv_id row = k) rows)" for rows :: "conversation list" and k
    by (rule find_update_first) simp
  have miss: "j \<noteq> i \<Longrightarrow> find (\<lambda>row. cv_id row = i) (update_first (\<lambda>row. cv_id row = j) (\<lambda>row. row\<lparr>cv_unread := 0\<rparr>) rows) =
      find (\<lambda>row. cv_id row = i) rows" for rows :: "conversation list" and j
    by (rule find_update_first_other) auto
  consider "\<not> sn_window_focused s \<or> (\<forall>q j. sn_viewed s \<noteq> Some (q, j, None))"
    | q j where "sn_window_focused s" "sn_viewed s = Some (q, j, None)" by blast
  then show ?thesis
  proof cases
    case 1
    then have "sn_conversations (clear_viewed_unread s) = sn_conversations s"
      by (auto simp: clear_viewed_unread_def split: option.splits prod.splits)
    then show ?thesis using 1 by (auto simp: find_conversation_def conversation_rows_def same)
  next
    case (2 q j)
    show ?thesis
    proof (cases "case find_conversation q j s of Some row \<Rightarrow> cv_has_topics row | None \<Rightarrow> False")
      case True
      then have "clear_viewed_unread s = s" using 2 by (simp add: clear_viewed_unread_def)
      then show ?thesis using True 2 by (cases "find_conversation p i s") auto
    next
      case False
      then have "clear_viewed_unread s = s\<lparr>sn_conversations := hm_modify q
                (update_first (\<lambda>row. cv_id row = j) (\<lambda>row. row\<lparr>cv_unread := 0\<rparr>)) (sn_conversations s)\<rparr>"
        using 2 by (simp add: clear_viewed_unread_def)
      then have "find_conversation p i (clear_viewed_unread s) =
          (if p = q \<and> i = j then map_option (\<lambda>row. row\<lparr>cv_unread := 0\<rparr>) (find_conversation p i s)
           else find_conversation p i s)"
        by (auto simp: find_conversation_def conversation_rows_def hit miss split: option.split)
      then show ?thesis using False 2 by (cases "find_conversation p i s") auto
    qed
  qed
qed

lemma viewed_chat_clear: "viewed_chat built tdlib (clear_viewed_unread s) = viewed_chat built tdlib s"
proof -
  have "protocol_linked p (clear_viewed_unread s) = protocol_linked p s" for p
    by (simp add: protocol_linked_def)
  then have session: "has_session p (clear_viewed_unread s) = has_session p s" for p
    by (simp add: has_session_def)
  moreover have visible: "account_surface_visible built p (clear_viewed_unread s) = account_surface_visible built p s" for p
    by (simp add: account_surface_visible_def)
  ultimately have center: "center_view built tdlib (clear_viewed_unread s) = center_view built tdlib s"
    by (simp add: center_view_def any_linked_def)
  show ?thesis
  proof (cases "sn_selected_conversation s")
    case (Some i)
    then show ?thesis
      by (cases "find_conversation (sn_selected_protocol s) i s")
        (simp_all add: viewed_chat_def Let_def session visible center find_conversation_clear)
  qed (simp add: viewed_chat_def Let_def center)
qed

text \<open>The commands of one change of the view.\<close>

definition view_commands :: "thread option \<Rightarrow> thread option \<Rightarrow> adapter_command list" where
  "view_commands before now_viewed =
     (case before of
        Some (old, _, _) \<Rightarrow>
          (case now_viewed of Some (new, _, _) \<Rightarrow> if old \<noteq> new then [CmdViewChat old None] else []
           | None \<Rightarrow> [CmdViewChat old None])
      | None \<Rightarrow> []) @
     (case now_viewed of
        Some (p, i, Some topic) \<Rightarrow> [CmdViewTopic p i topic]
      | Some (p, i, None) \<Rightarrow> [CmdViewChat p (Some i)]
      | None \<Rightarrow> [])"

lemma view_commands_told:
  "fold view_step (view_commands before now_viewed) (view_of before) = view_of now_viewed"
  by (auto simp: view_commands_def view_of_def fun_eq_iff split: option.splits prod.splits)

lemma sync_viewed_changed:
  assumes "viewed_chat built tdlib s \<noteq> sn_viewed s"
  shows "sync_viewed built tdlib s = clear_viewed_unread (s\<lparr>sn_viewed := viewed_chat built tdlib s,
     sn_pending := sn_pending s @ view_commands (sn_viewed s) (viewed_chat built tdlib s)\<rparr>)"
  using assms
  by (auto simp: sync_viewed_def Let_def view_commands_def push_command_plain split: option.split prod.split)

lemma viewed_chat_fields: "viewed_chat built tdlib (s\<lparr>sn_viewed := x, sn_pending := y\<rparr>) = viewed_chat built tdlib s"
proof -
  let ?s = "s\<lparr>sn_viewed := x, sn_pending := y\<rparr>"
  have session: "has_session p ?s = has_session p s" "account_surface_visible built p ?s = account_surface_visible built p s"
    "find_conversation p i ?s = find_conversation p i s" for p i
    by (simp_all add: has_session_def protocol_linked_def account_surface_visible_def find_conversation_def
        conversation_rows_def)
  then have "center_view built tdlib ?s = center_view built tdlib s"
    by (simp add: center_view_def any_linked_def)
  then show ?thesis by (simp add: viewed_chat_def Let_def session split: option.split)
qed

section \<open>Properties\<close>

text \<open>
  C27: the adapters know what the user looks at. After the core synchronises the view, the view
  commands sent so far leave exactly the shown thread in its own adapter and no chat in any other;
  the viewed chat is the shown one; and synchronising again sends nothing.
\<close>

theorem adapters_know_the_view:
  assumes "view_told sent s"
  shows "view_told sent (sync_viewed built tdlib s) \<and>
    sn_viewed (sync_viewed built tdlib s) = viewed_chat built tdlib s \<and>
    sync_viewed built tdlib (sync_viewed built tdlib s) = sync_viewed built tdlib s"
proof (cases "viewed_chat built tdlib s = sn_viewed s")
  case True
  then have "sync_viewed built tdlib s = s" by (simp add: sync_viewed_def)
  then show ?thesis using True assms by simp
next
  case False
  note s' = sync_viewed_changed [OF False]
  have "viewed_chat built tdlib (sync_viewed built tdlib s) = viewed_chat built tdlib s"
    unfolding s' by (simp add: viewed_chat_clear viewed_chat_fields)
  moreover have viewed: "sn_viewed (sync_viewed built tdlib s) = viewed_chat built tdlib s"
    unfolding s' by simp
  ultimately have "sync_viewed built tdlib (sync_viewed built tdlib s) = sync_viewed built tdlib s"
    by (simp add: sync_viewed_def [of built tdlib "sync_viewed built tdlib s"])
  moreover have "view_told sent (sync_viewed built tdlib s)"
    using assms view_commands_told [of "sn_viewed s" "viewed_chat built tdlib s"]
    by (simp add: view_told_def told_def s')
  ultimately show ?thesis using viewed by blast
qed

lemma viewed_chat_read:
  assumes "sn_window_focused s" "sn_viewed s = Some (p, i, None)" "find_conversation p i (clear_viewed_unread s) = Some row"
    "\<not> cv_has_topics row"
  shows "cv_unread row = 0"
proof -
  obtain old where "find_conversation p i s = Some old"
    "row = (if \<not> cv_has_topics old then old\<lparr>cv_unread := 0\<rparr> else old)"
    using assms(1-3) by (cases "find_conversation p i s") (simp_all add: find_conversation_clear)
  then show ?thesis using assms(4) by (simp split: if_splits)
qed

lemma position_Some: "position P xs = Some n \<Longrightarrow> n < length xs \<and> P (xs ! n)"
  by (induction xs arbitrary: n) (auto split: if_splits)

lemma inbox_move_target_visible:
  assumes "inbox_move_target built delta s = Some i"
  shows "i \<in> set (visible_ids built s) \<and> sn_focused_row s \<noteq> Some i"
proof -
  let ?ids = "visible_ids built s"
  have "?ids \<noteq> []" using assms by (auto simp: inbox_move_target_def Let_def split: if_splits)
  then have "0 < length ?ids" by simp
  then have "n < length ?ids \<Longrightarrow> nat (max 0 (min (int (length ?ids) - 1) (int n + delta))) < length ?ids" for n
    by linarith
  then show ?thesis
    using assms \<open>0 < length ?ids\<close>
    by (auto simp: inbox_move_target_def Let_def bind_eq_Some_conv dest!: position_Some split: if_splits option.splits)
qed

section \<open>Witness\<close>

theorem adapters_know_the_view_witness:
  "told (sn_pending (sync_viewed (\<lambda>_. False) True demo_linked)) (primary Telegram) = Some (''7'', None) \<and>
   sn_viewed (sync_viewed (\<lambda>_. False) True demo_linked) = Some (primary Telegram, ''7'', None)"
proof -
  have start: "view_told [] demo_linked"
    by (simp add: view_told_def told_def view_of_def demo_linked_def Let_def snapshot_new_def)
  have "viewed_chat (\<lambda>_. False) True demo_linked = Some (primary Telegram, ''7'', None)"
    by (simp add: viewed_chat_def demo_linked_def Let_def snapshot_new_def center_view_def any_linked_def
        has_session_def account_surface_visible_def protocol_chrome_enabled_def primary_def demo_caps_def
        find_conversation_def conversation_rows_def demo_chat_def)
  then show ?thesis
    using adapters_know_the_view [OF start, of "\<lambda>_. False" True] by (simp add: view_told_def view_of_def)
qed

end
