(* ===== verification/Shell_Pairing.thy ===== *)
theory Shell_Pairing
  imports Shell_Inbox Adapters
begin

text \<open>
  The screens that link WhatsApp and Signal (\<open>state.rs\<close>): the risk gate and the pair screen of
  WhatsApp, the notice and the link screen of Signal. The functions exist in a build with
  \<open>whatsapp-web\<close> and \<open>signal-local\<close>. One pairing of a protocol has one generation, and a code that
  the helper sends carries it. The phone vault is an argument and a result.
\<close>

section \<open>The helper of an account\<close>

definition row_helper_stopped :: "account_row \<Rightarrow> bool" where
  "row_helper_stopped row \<longleftrightarrow> (case ar_helper row of Some (HStopped _) \<Rightarrow> True | _ \<Rightarrow> False)"

definition row_helper_missing :: "account_row \<Rightarrow> bool" where
  "row_helper_missing row \<longleftrightarrow> ar_helper row = Some HMissing"

text \<open>The two labels that end in an ellipsis have its UTF-8 bytes.\<close>

definition ELLIPSIS :: string where
  "ELLIPSIS = [CHR 0xE2, CHR 0x80, CHR 0xA6]"

definition helper_label :: "account_row \<Rightarrow> string option" where
  "helper_label row =
     (case ar_helper row of
        Some HBusy \<Rightarrow> Some (''Helper is busy'' @ ELLIPSIS)
      | Some HRestarting \<Rightarrow> Some (''Helper stopped. Restarting'' @ ELLIPSIS)
      | Some (HStopped _) \<Rightarrow> Some ''Helper stopped.''
      | Some HMissing \<Rightarrow> Some ''Helper missing''
      | _ \<Rightarrow> None)"

definition helper_missing_text :: "account_row \<Rightarrow> string" where
  "helper_missing_text row = kind_display_name (pid_kind (cap_id (ar_caps row))) @ '' helper missing. Reinstall thinwire.''"

definition helper_missing :: "protocol_id \<Rightarrow> snapshot \<Rightarrow> bool" where
  "helper_missing protocol s \<longleftrightarrow>
     list_ex (\<lambda>row. cap_id (ar_caps row) = protocol \<and> row_helper_missing row) (sn_accounts s)"

definition helper_notice :: "protocol_id \<Rightarrow> snapshot \<Rightarrow> (string \<times> user_error option) option" where
  "helper_notice protocol s =
     (case find (\<lambda>row. cap_id (ar_caps row) = protocol) (sn_accounts s) of
        None \<Rightarrow> None
      | Some row \<Rightarrow> map_option (\<lambda>label. (label, hm_get (sn_helper_errors s) protocol)) (helper_label row))"

definition restart_helper :: "protocol_id \<Rightarrow> snapshot \<Rightarrow> snapshot" where
  "restart_helper protocol s =
     (if list_ex (\<lambda>row. cap_id (ar_caps row) = protocol \<and> row_helper_stopped row) (sn_accounts s)
      then push_command (CmdRestartHelper protocol) (s\<lparr>sn_error := None\<rparr>) else s)"

text \<open>\<open>live_account_mut\<close> with a change of the row.\<close>

definition change_live_row :: "protocol_id \<Rightarrow> (account_row \<Rightarrow> account_row) \<Rightarrow> snapshot \<Rightarrow> snapshot" where
  "change_live_row protocol f s =
     s\<lparr>sn_accounts := update_first (\<lambda>row. cap_id (ar_caps row) = protocol \<and> ar_signal_retained row = None) f
                        (sn_accounts s)\<rparr>"

section \<open>Pairings\<close>

definition current_pairing :: "protocol_id \<Rightarrow> u64 \<Rightarrow> snapshot \<Rightarrow> bool" where
  "current_pairing protocol generation s \<longleftrightarrow> hm_get (sn_pairing_generation s) protocol = Some generation"

definition pairing_generation_of :: "protocol_id \<Rightarrow> snapshot \<Rightarrow> u64" where
  "pairing_generation_of protocol s =
     (case hm_get (sn_pairing_generation s) protocol of Some g \<Rightarrow> g | None \<Rightarrow> 0)"

text \<open>The numbers of the pairings that the two screens show (\<open>whatsapp_pairing_generation\<close>,
  \<open>signal_pairing_generation\<close>).\<close>

definition whatsapp_pairing_generation :: "snapshot \<Rightarrow> u64" where
  "whatsapp_pairing_generation s = pairing_generation_of (sn_whatsapp_link_account s) s"

definition signal_pairing_generation :: "snapshot \<Rightarrow> u64" where
  "signal_pairing_generation s = pairing_generation_of (sn_signal_link_account s) s"

text \<open>A new pairing of an account: its number and the next one.\<close>

definition new_pairing :: "protocol_id \<Rightarrow> snapshot \<Rightarrow> snapshot" where
  "new_pairing a s =
     s\<lparr>sn_next_pairing_generation := sn_next_pairing_generation s + 1,
       sn_pairing_generation := hm_insert a (sn_next_pairing_generation s) (sn_pairing_generation s)\<rparr>"

section \<open>WhatsApp\<close>

definition WHATSAPP_PHONE_MAX_CHARS :: nat where
  "WHATSAPP_PHONE_MAX_CHARS = 32"

definition WHATSAPP_PHONE_TOO_LONG :: string where
  "WHATSAPP_PHONE_TOO_LONG =
     ''This phone number is too long. Type the country code and the number, digits only.''"

definition WHATSAPP_PAIRING_REQUESTED :: string where
  "WHATSAPP_PAIRING_REQUESTED = ''WhatsApp pairing requested.''"

definition WHATSAPP_GATE_ACCEPTED :: string where
  "WHATSAPP_GATE_ACCEPTED = ''WhatsApp ban gate accepted. Pairing has not started.''"

definition WHATSAPP_LINKED :: string where
  "WHATSAPP_LINKED = ''WhatsApp is linked.''"

definition whatsapp_pairing_available :: "(protocol_kind \<Rightarrow> bool) \<Rightarrow> snapshot \<Rightarrow> bool" where
  "whatsapp_pairing_available built s \<longleftrightarrow> account_surface_visible built (primary WhatsApp) s"

definition whatsapp_gate_open :: "(protocol_kind \<Rightarrow> bool) \<Rightarrow> snapshot \<Rightarrow> bool" where
  "whatsapp_gate_open built s \<longleftrightarrow> whatsapp_pairing_available built s \<and> sn_whatsapp_screen s \<noteq> WaHidden"

definition end_pairing :: "snapshot \<Rightarrow> snapshot" where
  "end_pairing s =
     s\<lparr>sn_pairing_generation := hm_remove (sn_whatsapp_link_account s) (sn_pairing_generation s),
       sn_whatsapp_qr := None, sn_whatsapp_pair_code := None, sn_whatsapp_qr_exhausted := False\<rparr>"

definition stop_whatsapp_pairing :: "snapshot \<Rightarrow> snapshot" where
  "stop_whatsapp_pairing s =
     (if sn_whatsapp_qr_exhausted s then (end_pairing s)\<lparr>sn_whatsapp_qr_exhausted := True\<rparr>
      else (end_pairing s)\<lparr>sn_whatsapp_started := False\<rparr>)"

definition cancel_running :: "snapshot \<Rightarrow> snapshot" where
  "cancel_running s = (if sn_whatsapp_started s then push_command CmdWhatsAppCancelLink s else s)"

definition open_whatsapp_risk_gate :: "(protocol_kind \<Rightarrow> bool) \<Rightarrow> snapshot \<Rightarrow> snapshot" where
  "open_whatsapp_risk_gate built s =
     (if \<not> whatsapp_pairing_available built s \<or> helper_missing (sn_whatsapp_link_account s) s then s
      else (end_pairing ((cancel_running s)\<lparr>sn_whatsapp_screen := WaRiskGate\<rparr>))
        \<lparr>sn_whatsapp_started := False, sn_whatsapp_risk_acknowledged := False, sn_whatsapp_phone := [],
         sn_whatsapp_phone_note := None\<rparr>)"

definition cancel_whatsapp_link :: "snapshot \<Rightarrow> string option \<times> snapshot" where
  "cancel_whatsapp_link s =
     (let s = (end_pairing (s\<lparr>sn_whatsapp_phone := [], sn_whatsapp_phone_note := None\<rparr>))
            \<lparr>sn_whatsapp_started := False, sn_whatsapp_risk_acknowledged := False,
             sn_whatsapp_screen := WaHidden, sn_status_text := ''WhatsApp pairing cancelled.''\<rparr>
      in (vault_clear, (push_command CmdWhatsAppCancelLink s)\<lparr>sn_whatsapp_link_account := primary WhatsApp\<rparr>))"

definition close_whatsapp_gate :: "snapshot \<Rightarrow> string option \<times> snapshot" where
  "close_whatsapp_gate s =
     (if sn_whatsapp_screen s = WaPair \<or> sn_whatsapp_risk_acknowledged s \<or> sn_whatsapp_started s
      then cancel_whatsapp_link s
      else (vault_clear, s\<lparr>sn_whatsapp_screen := WaHidden, sn_whatsapp_phone := [], sn_whatsapp_phone_note := None\<rparr>))"

definition whatsapp_gate_accepted :: "(protocol_kind \<Rightarrow> bool) \<Rightarrow> snapshot \<Rightarrow> bool" where
  "whatsapp_gate_accepted built s \<longleftrightarrow> built WhatsApp \<and> sn_whatsapp_risk_acknowledged s"

definition restore_whatsapp_gate :: "snapshot \<Rightarrow> snapshot" where
  "restore_whatsapp_gate s =
     (if helper_missing (primary WhatsApp) s then s else push_command CmdWhatsAppAcknowledgeRisk s)"

definition acknowledge_whatsapp_risk :: "snapshot \<Rightarrow> snapshot" where
  "acknowledge_whatsapp_risk s =
     (if sn_whatsapp_screen s \<noteq> WaRiskGate then s
      else push_command CmdWhatsAppAcknowledgeRisk
        (s\<lparr>sn_whatsapp_risk_acknowledged := True, sn_whatsapp_screen := WaPair, sn_error := None,
           sn_status_text := WHATSAPP_GATE_ACCEPTED\<rparr>))"

definition set_whatsapp_phone :: "string \<Rightarrow> snapshot \<Rightarrow> snapshot" where
  "set_whatsapp_phone v s = s\<lparr>sn_whatsapp_phone := v, sn_whatsapp_phone_note := None\<rparr>"

definition start_whatsapp_pairing :: "snapshot \<Rightarrow> snapshot" where
  "start_whatsapp_pairing s =
     push_command (CmdWhatsAppBeginLink (sn_next_pairing_generation s))
       (new_pairing (sn_whatsapp_link_account s)
         (s\<lparr>sn_whatsapp_qr_exhausted := False, sn_whatsapp_qr := None, sn_whatsapp_pair_code := None,
            sn_whatsapp_started := True, sn_error := None, sn_status_text := WHATSAPP_PAIRING_REQUESTED\<rparr>))"

definition begin_whatsapp_link :: "string option \<Rightarrow> snapshot \<Rightarrow> string option \<times> snapshot" where
  "begin_whatsapp_link vault s =
     (if sn_whatsapp_screen s \<noteq> WaPair \<or> \<not> sn_whatsapp_risk_acknowledged s then (vault, s)
      else if sn_whatsapp_started s \<and> \<not> sn_whatsapp_qr_exhausted s then (vault, s)
      else if helper_missing (sn_whatsapp_link_account s) s then (vault, s)
      else if sn_whatsapp_started s then (vault, start_whatsapp_pairing s)
      else if WHATSAPP_PHONE_MAX_CHARS < length (utf8_chars (sn_whatsapp_phone s))
      then (vault, s\<lparr>sn_whatsapp_phone_note := Some WHATSAPP_PHONE_TOO_LONG\<rparr>)
      else (vault_set_phone (sn_whatsapp_phone s),
            start_whatsapp_pairing (s\<lparr>sn_whatsapp_phone_note := None, sn_whatsapp_phone := []\<rparr>)))"

definition open_whatsapp_phone_link :: "string option \<Rightarrow> snapshot \<Rightarrow> string option \<times> snapshot" where
  "open_whatsapp_phone_link vault s =
     (if sn_whatsapp_screen s \<noteq> WaPair \<or> \<not> sn_whatsapp_risk_acknowledged s then (vault, s)
      else if helper_missing (sn_whatsapp_link_account s) s then (vault, s)
      else (vault_clear, (end_pairing (cancel_running s))
             \<lparr>sn_whatsapp_started := False, sn_whatsapp_phone := [], sn_whatsapp_phone_note := None\<rparr>))"

definition finish_whatsapp_link :: "snapshot \<Rightarrow> snapshot" where
  "finish_whatsapp_link s =
     (let s = (if sn_status_text s \<in> {WHATSAPP_PAIRING_REQUESTED, WHATSAPP_GATE_ACCEPTED}
               then s\<lparr>sn_status_text := WHATSAPP_LINKED\<rparr> else s)
      in if sn_whatsapp_screen s \<noteq> WaPair then s
         else (end_pairing (s\<lparr>sn_whatsapp_screen := WaHidden\<rparr>))
           \<lparr>sn_whatsapp_phone := [], sn_status_text := WHATSAPP_LINKED,
            sn_whatsapp_link_account := primary WhatsApp\<rparr>)"

fun note_whatsapp_helper :: "helper_state \<Rightarrow> snapshot \<Rightarrow> snapshot" where
  "note_whatsapp_helper HRestarting s = s\<lparr>sn_whatsapp_qr := None, sn_whatsapp_pair_code := None\<rparr>"
| "note_whatsapp_helper (HStopped _) s = stop_whatsapp_pairing s"
| "note_whatsapp_helper HMissing s = stop_whatsapp_pairing s"
| "note_whatsapp_helper _ s = s"

text \<open>The codes of the helper (\<open>apply_unchecked\<close>), and codes that are used up.\<close>

definition whatsapp_qr_event :: "string \<Rightarrow> u64 \<Rightarrow> snapshot \<Rightarrow> snapshot" where
  "whatsapp_qr_event code generation s =
     (if current_pairing (primary WhatsApp) generation s
      then s\<lparr>sn_whatsapp_qr := Some code, sn_whatsapp_qr_exhausted := False\<rparr> else s)"

definition whatsapp_pair_code_event :: "string \<Rightarrow> u64 \<Rightarrow> snapshot \<Rightarrow> snapshot" where
  "whatsapp_pair_code_event code generation s =
     (if current_pairing (primary WhatsApp) generation s then s\<lparr>sn_whatsapp_pair_code := Some code\<rparr> else s)"

definition whatsapp_codes_used_up :: "snapshot \<Rightarrow> snapshot" where
  "whatsapp_codes_used_up s =
     (if sn_whatsapp_started s then s\<lparr>sn_whatsapp_qr_exhausted := True, sn_whatsapp_qr := None\<rparr> else s)"

section \<open>Signal\<close>

definition signal_linking_available :: "(protocol_kind \<Rightarrow> bool) \<Rightarrow> snapshot \<Rightarrow> bool" where
  "signal_linking_available built s \<longleftrightarrow> account_surface_visible built (primary Signal) s"

definition signal_gate_open :: "(protocol_kind \<Rightarrow> bool) \<Rightarrow> snapshot \<Rightarrow> bool" where
  "signal_gate_open built s \<longleftrightarrow> signal_linking_available built s \<and> sn_signal_screen s \<noteq> SigHidden"

definition end_signal_pairing :: "snapshot \<Rightarrow> snapshot" where
  "end_signal_pairing s =
     s\<lparr>sn_pairing_generation := hm_remove (sn_signal_link_account s) (sn_pairing_generation s), sn_signal_qr := None\<rparr>"

definition take_signal_notice_forget :: "snapshot \<Rightarrow> bool \<times> snapshot" where
  "take_signal_notice_forget s = (sn_signal_notice_forget s, s\<lparr>sn_signal_notice_forget := False\<rparr>)"

definition restore_signal_notice :: "snapshot \<Rightarrow> snapshot" where
  "restore_signal_notice s = push_command CmdSignalAcknowledgeNotice (s\<lparr>sn_signal_notice_acknowledged := True\<rparr>)"

definition keep_saved_signal_notice :: "snapshot \<Rightarrow> snapshot" where
  "keep_saved_signal_notice s = s\<lparr>sn_signal_notice_acknowledged := True\<rparr>"

definition reveal_signal_notice :: "(protocol_kind \<Rightarrow> bool) \<Rightarrow> bool \<Rightarrow> snapshot \<Rightarrow> snapshot" where
  "reveal_signal_notice built forget s =
     (if \<not> signal_linking_available built s \<or> helper_missing (sn_signal_link_account s) s then s
      else if protocol_linked (sn_signal_link_account s) s
      then s\<lparr>sn_signal_screen := SigNotice, sn_signal_qr := None\<rparr>
      else
        let s = (if sn_signal_started s then push_command CmdSignalCancelLink s else s)
        in s\<lparr>sn_signal_screen := SigNotice, sn_signal_qr := None, sn_signal_started := False,
             sn_signal_inbox_open := False, sn_signal_notice_acknowledged := False,
             sn_signal_notice_forget := (forget \<or> sn_signal_notice_forget s)\<rparr>)"

definition open_signal_notice :: "(protocol_kind \<Rightarrow> bool) \<Rightarrow> snapshot \<Rightarrow> snapshot" where
  "open_signal_notice built s =
     (if sn_signal_notice_acknowledged s \<and> sn_signal_screen s = SigHidden
      then if \<not> signal_linking_available built s \<or> helper_missing (sn_signal_link_account s) s then s
           else s\<lparr>sn_signal_qr := None,
                  sn_signal_screen := (if protocol_linked (sn_signal_link_account s) s then SigNotice else SigLink)\<rparr>
      else reveal_signal_notice built True s)"

definition cancel_signal_link :: "snapshot \<Rightarrow> snapshot" where
  "cancel_signal_link s =
     (let s = (end_signal_pairing s)
            \<lparr>sn_signal_started := False, sn_signal_inbox_open := False, sn_signal_notice_acknowledged := False,
             sn_signal_notice_forget := (sn_signal_notice_forget s \<or> pid_slot (sn_signal_link_account s) = 0),
             sn_signal_screen := SigHidden, sn_status_text := ''Signal linking cancelled.''\<rparr>
      in (push_command CmdSignalCancelLink s)\<lparr>sn_signal_link_account := primary Signal\<rparr>)"

definition close_signal_gate :: "snapshot \<Rightarrow> snapshot" where
  "close_signal_gate s =
     (if protocol_linked (sn_signal_link_account s) s then s\<lparr>sn_signal_screen := SigHidden, sn_signal_qr := None\<rparr>
      else if sn_signal_screen s = SigLink \<or> sn_signal_notice_acknowledged s \<or> sn_signal_started s
      then cancel_signal_link s
      else s\<lparr>sn_signal_screen := SigHidden\<rparr>)"

definition acknowledge_signal_notice :: "snapshot \<Rightarrow> snapshot" where
  "acknowledge_signal_notice s =
     (if sn_signal_screen s \<noteq> SigNotice then s
      else if protocol_linked (sn_signal_link_account s) s then s\<lparr>sn_signal_screen := SigHidden, sn_signal_qr := None\<rparr>
      else push_command CmdSignalAcknowledgeNotice
        (s\<lparr>sn_signal_notice_acknowledged := True, sn_signal_screen := SigLink, sn_error := None,
           sn_status_text := ''Signal notice accepted. Linking has not started.''\<rparr>))"

definition begin_signal_link :: "snapshot \<Rightarrow> snapshot" where
  "begin_signal_link s =
     (if sn_signal_screen s \<noteq> SigLink \<or> \<not> sn_signal_notice_acknowledged s then s
      else if sn_signal_started s then s
      else if helper_missing (sn_signal_link_account s) s then s
      else push_command (CmdSignalBeginLink (sn_next_pairing_generation s))
        (new_pairing (sn_signal_link_account s)
          (s\<lparr>sn_signal_started := True, sn_signal_inbox_open := False, sn_error := None,
             sn_status_text := ''Signal linking requested.''\<rparr>)))"

definition relink_removed_signal :: "(protocol_kind \<Rightarrow> bool) \<Rightarrow> snapshot \<Rightarrow> snapshot" where
  "relink_removed_signal built s =
     (let wrong_key = list_ex (\<lambda>row. pid_is (cap_id (ar_caps row)) Signal \<and>
            ar_store_access row = Some WrongKey \<and> \<not> row_linked row) (sn_accounts s)
      in if (\<not> sn_signal_removed s \<and> \<not> wrong_key) \<or> \<not> signal_linking_available built s \<or>
            helper_missing (sn_signal_link_account s) s then s
         else if \<not> sn_signal_notice_acknowledged s then open_signal_notice built s
         else begin_signal_link (s\<lparr>sn_signal_screen := SigLink, sn_signal_started := False, sn_error := None\<rparr>))"

definition finish_signal_link :: "(protocol_kind \<Rightarrow> bool) \<Rightarrow> snapshot \<Rightarrow> snapshot" where
  "finish_signal_link built s =
     (if sn_signal_screen s = SigHidden then s
      else
        let s = (end_signal_pairing (s\<lparr>sn_signal_screen := SigHidden\<rparr>))\<lparr>sn_status_text := ''Signal is linked.''\<rparr>
        in (select_protocol built (sn_signal_link_account s) s)\<lparr>sn_signal_link_account := primary Signal\<rparr>)"

fun note_signal_helper :: "helper_state \<Rightarrow> snapshot \<Rightarrow> snapshot" where
  "note_signal_helper HRestarting s = s\<lparr>sn_signal_qr := None\<rparr>"
| "note_signal_helper (HStopped _) s = (end_signal_pairing s)\<lparr>sn_signal_started := False, sn_signal_inbox_open := False\<rparr>"
| "note_signal_helper HMissing s = (end_signal_pairing s)\<lparr>sn_signal_started := False, sn_signal_inbox_open := False\<rparr>"
| "note_signal_helper _ s = s"

definition signal_qr_event :: "string \<Rightarrow> u64 \<Rightarrow> snapshot \<Rightarrow> snapshot" where
  "signal_qr_event code generation s =
     (if current_pairing (primary Signal) generation s then s\<lparr>sn_signal_qr := Some code\<rparr> else s)"

text \<open>\<open>keep_removed_signal\<close>, \<open>clear_linked_signal_status\<close>; \<open>contains("linked")\<close> in lower case.\<close>

definition keep_removed_signal :: "protocol_id \<Rightarrow> snapshot \<Rightarrow> bool" where
  "keep_removed_signal protocol s \<longleftrightarrow> protocol = primary Signal \<and> sn_signal_removed s"

definition clear_linked_signal_status :: "snapshot \<Rightarrow> snapshot" where
  "clear_linked_signal_status s =
     (if contains_str ''linked'' (map ascii_lower (sn_status_text s)) then s\<lparr>sn_status_text := []\<rparr> else s)"

definition signal_link_checking :: "(protocol_kind \<Rightarrow> bool) \<Rightarrow> snapshot \<Rightarrow> bool" where
  "signal_link_checking built s \<longleftrightarrow> built Signal \<and> sn_signal_checking s"

definition signal_device_removed :: "(protocol_kind \<Rightarrow> bool) \<Rightarrow> snapshot \<Rightarrow> bool" where
  "signal_device_removed built s \<longleftrightarrow> built Signal \<and> sn_signal_removed s"

section \<open>One screen for the accounts of a protocol\<close>

text \<open>The part of \<open>open_login\<close> for WhatsApp and Signal; the account is selected after it.\<close>

definition open_whatsapp_login :: "(protocol_kind \<Rightarrow> bool) \<Rightarrow> protocol_id \<Rightarrow> snapshot \<Rightarrow> snapshot" where
  "open_whatsapp_login built a s =
     (if whatsapp_gate_open built s
      then s\<lparr>sn_status_text := ''Finish or cancel the open WhatsApp link first.''\<rparr>
      else open_whatsapp_risk_gate built (s\<lparr>sn_whatsapp_link_account := a\<rparr>))"

definition open_signal_login :: "(protocol_kind \<Rightarrow> bool) \<Rightarrow> protocol_id \<Rightarrow> snapshot \<Rightarrow> snapshot" where
  "open_signal_login built a s =
     (if signal_gate_open built s
      then s\<lparr>sn_status_text := ''Finish or cancel the open Signal link first.''\<rparr>
      else if pid_slot a = 0 then open_signal_notice built s
      else reveal_signal_notice built False (s\<lparr>sn_signal_link_account := a\<rparr>))"

definition end_whatsapp_login :: "(protocol_kind \<Rightarrow> bool) \<Rightarrow> protocol_id \<Rightarrow> snapshot \<Rightarrow> snapshot" where
  "end_whatsapp_login built a s =
     (if sn_whatsapp_link_account s = a
      then (if whatsapp_gate_open built s then s\<lparr>sn_whatsapp_screen := WaHidden\<rparr> else s)
             \<lparr>sn_whatsapp_link_account := primary WhatsApp\<rparr>
      else s)"

definition end_signal_login :: "(protocol_kind \<Rightarrow> bool) \<Rightarrow> protocol_id \<Rightarrow> snapshot \<Rightarrow> snapshot" where
  "end_signal_login built a s =
     (if sn_signal_link_account s = a
      then (if signal_gate_open built s then s\<lparr>sn_signal_screen := SigHidden\<rparr> else s)
             \<lparr>sn_signal_link_account := primary Signal\<rparr>
      else s)"

section \<open>Runs\<close>

text \<open>What the adapters are told: the pairing that runs for each account, and the numbers of all pairings
  that were begun.\<close>

fun pairing_step :: "adapter_command \<Rightarrow> (protocol_id \<Rightarrow> u64 option) \<Rightarrow> protocol_id \<Rightarrow> u64 option" where
  "pairing_step c run =
     (case route c of
        (a, CmdWhatsAppBeginLink g) \<Rightarrow> run(a := Some g)
      | (a, CmdSignalBeginLink g) \<Rightarrow> run(a := Some g)
      | (a, CmdWhatsAppCancelLink) \<Rightarrow> run(a := None)
      | (a, CmdSignalCancelLink) \<Rightarrow> run(a := None)
      | _ \<Rightarrow> run)"

definition running :: "adapter_command list \<Rightarrow> protocol_id \<Rightarrow> u64 option" where
  "running cs = fold pairing_step cs (\<lambda>_. None)"

definition begun :: "adapter_command list \<Rightarrow> u64 list" where
  "begun cs = List.map_filter (\<lambda>c. case snd (route c) of
      CmdWhatsAppBeginLink g \<Rightarrow> Some g | CmdSignalBeginLink g \<Rightarrow> Some g | _ \<Rightarrow> None) cs"

text \<open>The accounts whose WhatsApp gate was accepted. In \<open>gate_first\<close> the newest command comes first.\<close>

definition accepted :: "adapter_command list \<Rightarrow> protocol_id set" where
  "accepted cs = {a. \<exists>c \<in> set cs. route c = (a, CmdWhatsAppAcknowledgeRisk)}"

fun gate_first :: "adapter_command list \<Rightarrow> bool" where
  "gate_first [] = True"
| "gate_first (c # cs) =
     ((case route c of (a, CmdWhatsAppBeginLink _) \<Rightarrow> a \<in> accepted cs | _ \<Rightarrow> True) \<and> gate_first cs)"

record pair_world =
  pw_state :: snapshot
  pw_vault :: "string option"
  pw_sent :: "adapter_command list"
  pw_whatsapp_codes :: "(string \<times> u64) list"
  pw_pair_codes :: "(string \<times> u64) list"

datatype pair_op =
  WaOpen | WaClose | WaAccept | WaPhone string | WaBegin | WaWithPhone | WaCancel | WaRestore
| WaLogin nat | WaEndLogin nat | WaHelper helper_state | WaLinked | WaUnlinked
| WaCode string u64 | WaPairCode string u64 | WaUsedUp
| SigOpen | SigOutdated | SigClose | SigAccept | SigBegin | SigRelink | SigCancel | SigRestore | SigKeep
| SigLogin nat | SigEndLogin nat | SigHelper helper_state | SigLinked | SigCode string u64
| TakeCommands | ChangeRows "account_row list"

definition on_state :: "(snapshot \<Rightarrow> snapshot) \<Rightarrow> pair_world \<Rightarrow> pair_world" where
  "on_state f w = w\<lparr>pw_state := f (pw_state w)\<rparr>"

definition on_vault :: "string option \<times> snapshot \<Rightarrow> pair_world \<Rightarrow> pair_world" where
  "on_vault r w = w\<lparr>pw_vault := fst r, pw_state := snd r\<rparr>"

text \<open>Rows change with other events, in any way: the screens read the helper, the link and the store of
  a row.\<close>

fun pair_step :: "(protocol_kind \<Rightarrow> bool) \<Rightarrow> pair_op \<Rightarrow> pair_world \<Rightarrow> pair_world" where
  "pair_step built WaOpen w = on_state (open_whatsapp_risk_gate built) w"
| "pair_step built WaClose w = on_vault (close_whatsapp_gate (pw_state w)) w"
| "pair_step built WaAccept w = on_state acknowledge_whatsapp_risk w"
| "pair_step built (WaPhone v) w = on_state (set_whatsapp_phone v) w"
| "pair_step built WaBegin w = on_vault (begin_whatsapp_link (pw_vault w) (pw_state w)) w"
| "pair_step built WaWithPhone w = on_vault (open_whatsapp_phone_link (pw_vault w) (pw_state w)) w"
| "pair_step built WaCancel w = on_vault (cancel_whatsapp_link (pw_state w)) w"
| "pair_step built WaRestore w = on_state restore_whatsapp_gate w"
| "pair_step built (WaLogin n) w =
     on_state (select_protocol built (ProtocolId WhatsApp n) \<circ> open_whatsapp_login built (ProtocolId WhatsApp n)) w"
| "pair_step built (WaEndLogin n) w = on_state (end_whatsapp_login built (ProtocolId WhatsApp n)) w"
| "pair_step built (WaHelper h) w = on_state (note_whatsapp_helper h) w"
| "pair_step built WaLinked w = on_state finish_whatsapp_link w"
| "pair_step built WaUnlinked w = on_state stop_whatsapp_pairing w"
| "pair_step built (WaCode c g) w =
     (on_state (whatsapp_qr_event c g) w)\<lparr>pw_whatsapp_codes := (c, g) # pw_whatsapp_codes w\<rparr>"
| "pair_step built (WaPairCode c g) w =
     (on_state (whatsapp_pair_code_event c g) w)\<lparr>pw_pair_codes := (c, g) # pw_pair_codes w\<rparr>"
| "pair_step built WaUsedUp w = on_state whatsapp_codes_used_up w"
| "pair_step built SigOpen w = on_state (open_signal_notice built) w"
| "pair_step built SigOutdated w = on_state (reveal_signal_notice built False) w"
| "pair_step built SigClose w = on_state close_signal_gate w"
| "pair_step built SigAccept w = on_state acknowledge_signal_notice w"
| "pair_step built SigBegin w = on_state begin_signal_link w"
| "pair_step built SigRelink w = on_state (relink_removed_signal built) w"
| "pair_step built SigCancel w = on_state cancel_signal_link w"
| "pair_step built SigRestore w = on_state restore_signal_notice w"
| "pair_step built SigKeep w = on_state keep_saved_signal_notice w"
| "pair_step built (SigLogin n) w =
     on_state (select_protocol built (ProtocolId Signal n) \<circ> open_signal_login built (ProtocolId Signal n)) w"
| "pair_step built (SigEndLogin n) w = on_state (end_signal_login built (ProtocolId Signal n)) w"
| "pair_step built (SigHelper h) w = on_state (note_signal_helper h) w"
| "pair_step built SigLinked w = on_state (finish_signal_link built) w"
| "pair_step built (SigCode c g) w = on_state (signal_qr_event c g) w"
| "pair_step built TakeCommands w =
     w\<lparr>pw_sent := pw_sent w @ fst (take_shell_commands (pw_state w)), pw_state := snd (take_shell_commands (pw_state w))\<rparr>"
| "pair_step built (ChangeRows rows) w = on_state (\<lambda>s. s\<lparr>sn_accounts := rows\<rparr>) w"

definition pair_start :: "telegram_api_source \<Rightarrow> protocol_capabilities list \<Rightarrow> pair_world" where
  "pair_start source catalog = \<lparr>pw_state = snapshot_new source catalog, pw_vault = None, pw_sent = [],
     pw_whatsapp_codes = [], pw_pair_codes = []\<rparr>"

inductive pair_reach :: "(protocol_kind \<Rightarrow> bool) \<Rightarrow> pair_world \<Rightarrow> bool" for built where
  start: "pair_reach built (pair_start source catalog)"
| step: "pair_reach built w \<Longrightarrow> pair_reach built (pair_step built op w)"

definition told_commands :: "pair_world \<Rightarrow> adapter_command list" where
  "told_commands w = pw_sent w @ sn_pending (pw_state w)"

section \<open>Codes and gates\<close>

lemma running_snoc: "running (cs @ [c]) = pairing_step c (running cs)"
  by (simp add: running_def)

lemma begun_append: "begun (cs @ ds) = begun cs @ begun ds"
  by (simp add: begun_def List.map_filter_def)

lemma accepted_append: "accepted (cs @ ds) = accepted cs \<union> accepted ds"
  by (auto simp: accepted_def)

text \<open>Commands that no pairing reads.\<close>

definition quiet :: "adapter_command \<Rightarrow> bool" where
  "quiet c \<longleftrightarrow> (\<forall>run. pairing_step c run = run) \<and> begun [c] = [] \<and> accepted [c] = {}"

lemma quiet_running: "\<forall>c \<in> set ds. quiet c \<Longrightarrow> running (cs @ ds) = running cs"
proof -
  have "fold pairing_step ds run = run" if "\<forall>c \<in> set ds. quiet c" for run
    using that by (induction ds) (simp_all del: pairing_step.simps add: quiet_def)
  then show "\<forall>c \<in> set ds. quiet c \<Longrightarrow> running (cs @ ds) = running cs" by (simp add: running_def)
qed

lemma quiet_begun: "\<forall>c \<in> set ds. quiet c \<Longrightarrow> begun (cs @ ds) = begun cs"
proof -
  have "begun ds = []" if "\<forall>c \<in> set ds. quiet c"
    using that by (induction ds) (auto simp: quiet_def begun_def List.map_filter_def split: if_splits option.splits)
  then show "\<forall>c \<in> set ds. quiet c \<Longrightarrow> begun (cs @ ds) = begun cs" by (simp add: begun_append)
qed

lemma quiet_opens [simp]: "quiet (CmdOpenChat p i)" "quiet (CmdOpenTopic p i t)"
  by (simp_all add: quiet_def begun_def accepted_def route_def List.map_filter_def)

lemma gate_first_quiet: "\<forall>c \<in> set ds. quiet c \<Longrightarrow> gate_first (ds @ cs) = gate_first cs"
proof (induction ds)
  case (Cons d ds)
  then have "begun [d] = []" by (simp add: quiet_def)
  then have "\<And>a g. route d \<noteq> (a, CmdWhatsAppBeginLink g)" by (auto simp: begun_def List.map_filter_def)
  with Cons show ?case by (auto split: prod.split adapter_command.split)
qed simp

lemma accepted_rev [simp]: "accepted (rev cs) = accepted cs" "accepted (rev ds @ rev cs) = accepted (cs @ ds)"
  by (auto simp: accepted_def)

lemma route_flow:
  "pid_kind a = WhatsApp \<Longrightarrow> c \<in> {CmdWhatsAppAcknowledgeRisk, CmdWhatsAppBeginLink g, CmdWhatsAppCancelLink} \<Longrightarrow>
     route (cmd_for_account c a) = (a, c)"
  "pid_kind a = Signal \<Longrightarrow> c \<in> {CmdSignalAcknowledgeNotice, CmdSignalBeginLink g, CmdSignalCancelLink} \<Longrightarrow>
     route (cmd_for_account c a) = (a, c)"
  by (auto simp: cmd_for_account_def route_def is_primary)

definition whatsapp_screen_ok :: "pair_world \<Rightarrow> bool" where
  "whatsapp_screen_ok w \<longleftrightarrow>
     (let s = pw_state w; h = told_commands w in
      pid_kind (sn_whatsapp_link_account s) = WhatsApp \<and>
      (\<forall>code. sn_whatsapp_qr s = Some code \<longrightarrow> (\<exists>g. (code, g) \<in> set (pw_whatsapp_codes w) \<and>
         hm_get (sn_pairing_generation s) (primary WhatsApp) = Some g)) \<and>
      (\<forall>code. sn_whatsapp_pair_code s = Some code \<longrightarrow> (\<exists>g. (code, g) \<in> set (pw_pair_codes w) \<and>
         hm_get (sn_pairing_generation s) (primary WhatsApp) = Some g)) \<and>
      (sn_whatsapp_screen s = WaPair \<longrightarrow> sn_whatsapp_link_account s \<in> accepted h) \<and> gate_first (rev h))"

definition pairings_ok :: "pair_world \<Rightarrow> bool" where
  "pairings_ok w \<longleftrightarrow>
     (let s = pw_state w; h = told_commands w in
      pid_kind (sn_signal_link_account s) = Signal \<and> pid_kind (sn_whatsapp_link_account s) = WhatsApp \<and>
      (\<forall>a g. pid_kind a = WhatsApp \<longrightarrow> hm_get (sn_pairing_generation s) a = Some g \<longrightarrow> running h a = Some g) \<and>
      (\<forall>g \<in> set (begun h). g < sn_next_pairing_generation s) \<and> distinct (begun h))"

text \<open>Selecting an account keeps the screens and only opens chats.\<close>

definition pairing_part where
  "pairing_part s = (sn_whatsapp_link_account s, sn_signal_link_account s, sn_whatsapp_qr s, sn_whatsapp_pair_code s,
     sn_whatsapp_screen s, sn_signal_qr s, sn_signal_started s, sn_pairing_generation s, sn_next_pairing_generation s)"

definition same_pairing :: "snapshot \<Rightarrow> snapshot \<Rightarrow> bool" where
  "same_pairing s s' \<longleftrightarrow> pairing_part s' = pairing_part s \<and>
     (\<exists>ds. sn_pending s' = sn_pending s @ ds \<and> (\<forall>c \<in> set ds. quiet c))"

lemma same_pairing_trans: "same_pairing s s' \<Longrightarrow> same_pairing s' s'' \<Longrightarrow> same_pairing s s''"
  unfolding same_pairing_def by (metis (no_types, lifting) Un_iff append.assoc set_append)

lemma same_pairing_fields: "pairing_part s' = pairing_part s \<Longrightarrow> sn_pending s' = sn_pending s \<Longrightarrow> same_pairing s s'"
  by (auto simp: same_pairing_def)

lemma same_pairing_refl: "same_pairing s s"
  by (simp add: same_pairing_fields)

lemma same_pairing_push:
  "flow_account c s = None \<Longrightarrow> quiet c \<Longrightarrow> pairing_part s' = pairing_part s \<Longrightarrow> sn_pending s' = sn_pending s \<Longrightarrow>
     flow_account c s' = None \<Longrightarrow> same_pairing s (push_command c s')"
  by (auto simp: same_pairing_def push_command_plain pairing_part_def)

lemma same_pairing_selection: "same_pairing s (set_selection i topic s)"
  by (rule same_pairing_fields)
    (simp_all add: set_selection_def take_draft_def park_draft_def cancel_edit_def pairing_part_def split: option.split)

lemma same_pairing_queue: "same_pairing s (queue_open_chat s)"
  by (auto simp: queue_open_chat_def Let_def pairing_part_def split: option.split
      intro!: same_pairing_push same_pairing_refl intro: same_pairing_fields)

lemma same_pairing_ensure: "same_pairing s (ensure_conversation_selection s)"
  by (auto simp: ensure_conversation_selection_def Let_def set_selected_conversation_def split: option.split
      intro: same_pairing_refl same_pairing_trans [OF same_pairing_selection same_pairing_queue])

lemma same_pairing_select: "same_pairing s (select_protocol built p s)"
  unfolding select_protocol_def set_selected_conversation_def
  by (auto simp: same_pairing_refl pairing_part_def
      intro!: same_pairing_trans [OF same_pairing_trans [OF same_pairing_selection] same_pairing_ensure] same_pairing_fields)

lemma same_pairing_ok:
  assumes "same_pairing (pw_state w) s'"
  shows "pairings_ok (w\<lparr>pw_state := s'\<rparr>) = pairings_ok w" "whatsapp_screen_ok (w\<lparr>pw_state := s'\<rparr>) = whatsapp_screen_ok w"
proof -
  obtain ds where ds: "sn_pending s' = sn_pending (pw_state w) @ ds" "\<forall>c \<in> set ds. quiet c"
    and part: "pairing_part s' = pairing_part (pw_state w)" using assms by (auto simp: same_pairing_def)
  have "accepted ds = {}" using ds(2) by (auto simp: accepted_def quiet_def)
  moreover have "\<forall>c \<in> set (rev ds). quiet c" using ds(2) by simp
  ultimately show "pairings_ok (w\<lparr>pw_state := s'\<rparr>) = pairings_ok w"
    "whatsapp_screen_ok (w\<lparr>pw_state := s'\<rparr>) = whatsapp_screen_ok w"
    using part quiet_running [OF ds(2), of "told_commands w"] quiet_begun [OF ds(2), of "told_commands w"]
      gate_first_quiet [of "rev ds"] ds(1)
    by (simp_all add: pairings_ok_def whatsapp_screen_ok_def told_commands_def pairing_part_def
        Let_def accepted_append)
qed

lemmas whatsapp_op_pairings = on_state_def on_vault_def open_whatsapp_risk_gate_def cancel_running_def close_whatsapp_gate_def
  cancel_whatsapp_link_def acknowledge_whatsapp_risk_def set_whatsapp_phone_def start_whatsapp_pairing_def
  begin_whatsapp_link_def open_whatsapp_phone_link_def finish_whatsapp_link_def stop_whatsapp_pairing_def
  restore_whatsapp_gate_def whatsapp_qr_event_def whatsapp_pair_code_event_def whatsapp_codes_used_up_def
  end_pairing_def new_pairing_def open_whatsapp_login_def end_whatsapp_login_def current_pairing_def
  push_command_def take_shell_commands_def vault_clear_def

lemmas signal_op_pairings = on_state_def end_signal_pairing_def reveal_signal_notice_def open_signal_notice_def
  cancel_signal_link_def close_signal_gate_def acknowledge_signal_notice_def begin_signal_link_def
  restore_signal_notice_def keep_saved_signal_notice_def signal_qr_event_def open_signal_login_def
  end_signal_login_def relink_removed_signal_def new_pairing_def current_pairing_def push_command_def

text \<open>One more command at the end of what was told.\<close>

lemma told_snoc:
  "running (cs @ ds @ [c]) = pairing_step c (running (cs @ ds))"
  "begun (cs @ ds @ [c]) = begun (cs @ ds) @ begun [c]"
  "accepted (cs @ ds @ [c]) = accepted (cs @ ds) \<union> accepted [c]"
  "gate_first (c # rev ds @ rev cs) \<longleftrightarrow>
     (case route c of (a, CmdWhatsAppBeginLink _) \<Rightarrow> a \<in> accepted (cs @ ds) | _ \<Rightarrow> True) \<and> gate_first (rev (cs @ ds))"
proof -
  show "running (cs @ ds @ [c]) = pairing_step c (running (cs @ ds))" using running_snoc [of "cs @ ds" c] by simp
  show "gate_first (c # rev ds @ rev cs) \<longleftrightarrow>
     (case route c of (a, CmdWhatsAppBeginLink _) \<Rightarrow> a \<in> accepted (cs @ ds) | _ \<Rightarrow> True) \<and> gate_first (rev (cs @ ds))"
    by simp
qed (simp_all add: begun_append accepted_append Un_assoc)

lemma flow_begun:
  "pid_kind a = WhatsApp \<Longrightarrow> begun [cmd_for_account (CmdWhatsAppBeginLink g) a] = [g]"
  "pid_kind a = WhatsApp \<Longrightarrow> begun [cmd_for_account CmdWhatsAppCancelLink a] = []"
  "pid_kind a = WhatsApp \<Longrightarrow> begun [cmd_for_account CmdWhatsAppAcknowledgeRisk a] = []"
  "pid_kind b = Signal \<Longrightarrow> begun [cmd_for_account (CmdSignalBeginLink g) b] = [g]"
  "pid_kind b = Signal \<Longrightarrow> begun [cmd_for_account CmdSignalCancelLink b] = []"
  "pid_kind b = Signal \<Longrightarrow> begun [cmd_for_account CmdSignalAcknowledgeNotice b] = []"
  by (simp_all add: begun_def List.map_filter_def route_flow)

lemma flow_accepted:
  "pid_kind a = WhatsApp \<Longrightarrow> accepted [cmd_for_account (CmdWhatsAppBeginLink g) a] = {}"
  "pid_kind a = WhatsApp \<Longrightarrow> accepted [cmd_for_account CmdWhatsAppCancelLink a] = {}"
  "pid_kind a = WhatsApp \<Longrightarrow> accepted [cmd_for_account CmdWhatsAppAcknowledgeRisk a] = {a}"
  "pid_kind b = Signal \<Longrightarrow> accepted [cmd_for_account (CmdSignalBeginLink g) b] = {}"
  "pid_kind b = Signal \<Longrightarrow> accepted [cmd_for_account CmdSignalCancelLink b] = {}"
  "pid_kind b = Signal \<Longrightarrow> accepted [cmd_for_account CmdSignalAcknowledgeNotice b] = {}"
  by (auto simp: accepted_def route_flow)

lemma pairings_ok_told:
  "pairings_ok w \<longleftrightarrow>
     pid_kind (sn_signal_link_account (pw_state w)) = Signal \<and> pid_kind (sn_whatsapp_link_account (pw_state w)) = WhatsApp \<and>
     (\<forall>a g. pid_kind a = WhatsApp \<longrightarrow> hm_get (sn_pairing_generation (pw_state w)) a = Some g \<longrightarrow>
        running (pw_sent w @ sn_pending (pw_state w)) a = Some g) \<and>
     (\<forall>g \<in> set (begun (pw_sent w @ sn_pending (pw_state w))). g < sn_next_pairing_generation (pw_state w)) \<and>
     distinct (begun (pw_sent w @ sn_pending (pw_state w)))"
  by (simp add: pairings_ok_def told_commands_def Let_def)

lemma whatsapp_ok_told:
  "whatsapp_screen_ok w \<longleftrightarrow>
     pid_kind (sn_whatsapp_link_account (pw_state w)) = WhatsApp \<and>
      (\<forall>code. sn_whatsapp_qr (pw_state w) = Some code \<longrightarrow> (\<exists>g. (code, g) \<in> set (pw_whatsapp_codes w) \<and>
         hm_get (sn_pairing_generation (pw_state w)) (primary WhatsApp) = Some g)) \<and>
      (\<forall>code. sn_whatsapp_pair_code (pw_state w) = Some code \<longrightarrow> (\<exists>g. (code, g) \<in> set (pw_pair_codes w) \<and>
         hm_get (sn_pairing_generation (pw_state w)) (primary WhatsApp) = Some g)) \<and>
      (sn_whatsapp_screen (pw_state w) = WaPair \<longrightarrow>
         sn_whatsapp_link_account (pw_state w) \<in> accepted (pw_sent w @ sn_pending (pw_state w))) \<and>
      gate_first (rev (sn_pending (pw_state w)) @ rev (pw_sent w))"
  by (simp add: whatsapp_screen_ok_def told_commands_def Let_def)

lemma pairings_step_ok:
  assumes "pairings_ok w"
  shows "pairings_ok (pair_step built op w)"
proof (cases op)
  case (WaLogin n)
  let ?w = "on_state (open_whatsapp_login built (ProtocolId WhatsApp n)) w"
  have "pairings_ok ?w"
    using assms unfolding pairings_ok_told
    by (auto simp: whatsapp_op_pairings told_snoc flow_begun route_flow split: if_splits)
  with same_pairing_ok(1) [OF same_pairing_select, where w = ?w]
  show ?thesis using WaLogin by (simp add: on_state_def)
next
  case (SigLogin n)
  let ?w = "on_state (open_signal_login built (ProtocolId Signal n)) w"
  have "pairings_ok ?w"
    using assms unfolding pairings_ok_told
    by (auto simp: signal_op_pairings told_snoc flow_begun route_flow Let_def split: if_splits)
  with same_pairing_ok(1) [OF same_pairing_select, where w = ?w]
  show ?thesis using SigLogin by (simp add: on_state_def)
next
  case SigLinked
  let ?s = "(end_signal_pairing ((pw_state w)\<lparr>sn_signal_screen := SigHidden\<rparr>))\<lparr>sn_status_text := ''Signal is linked.''\<rparr>"
  let ?w = "w\<lparr>pw_state := ?s\<rparr>"
  have "pairings_ok ?w" using assms unfolding pairings_ok_told by (auto simp: end_signal_pairing_def)
  with same_pairing_ok(1) [OF same_pairing_select, where w = ?w]
  have "pairings_ok (w\<lparr>pw_state := select_protocol built (sn_signal_link_account ?s) ?s\<rparr>)" by simp
  with assms show ?thesis using SigLinked
    unfolding pairings_ok_told by (simp add: on_state_def finish_signal_link_def Let_def)
next
  case (WaHelper h)
  with assms show ?thesis unfolding pairings_ok_told by (cases h) (auto simp: whatsapp_op_pairings)
next
  case (SigHelper h)
  with assms show ?thesis unfolding pairings_ok_told by (cases h) (auto simp: signal_op_pairings)
qed (use assms in \<open>unfold pairings_ok_told,
      auto simp: whatsapp_op_pairings signal_op_pairings told_snoc flow_begun route_flow Let_def split: if_splits\<close>)

lemma gate_open_built: "built WhatsApp \<Longrightarrow> whatsapp_gate_open built s \<longleftrightarrow> sn_whatsapp_screen s \<noteq> WaHidden"
  by (simp add: whatsapp_gate_open_def whatsapp_pairing_available_def account_surface_visible_def
      protocol_chrome_enabled_def)

lemma whatsapp_step_ok:
  assumes "built WhatsApp" "whatsapp_screen_ok w" "pid_kind (sn_signal_link_account (pw_state w)) = Signal"
  shows "whatsapp_screen_ok (pair_step built op w)"
proof -
  have other: "sn_signal_link_account (pw_state w) \<noteq> primary WhatsApp" using assms(3) by auto
  show ?thesis
  proof (cases op)
    case (WaLogin n)
    let ?w = "on_state (open_whatsapp_login built (ProtocolId WhatsApp n)) w"
    have "whatsapp_screen_ok ?w"
      using assms other unfolding whatsapp_ok_told
      by (auto simp: whatsapp_op_pairings gate_open_built [where built = built, OF assms(1)]
          told_snoc flow_accepted route_flow split: if_splits)
    with same_pairing_ok(2) [OF same_pairing_select, where w = ?w]
    show ?thesis using WaLogin by (simp add: on_state_def)
  next
    case (SigLogin n)
    let ?w = "on_state (open_signal_login built (ProtocolId Signal n)) w"
    have "whatsapp_screen_ok ?w"
      using assms other unfolding whatsapp_ok_told
      by (auto simp: signal_op_pairings told_snoc flow_accepted route_flow Let_def split: if_splits)
    with same_pairing_ok(2) [OF same_pairing_select, where w = ?w]
    show ?thesis using SigLogin by (simp add: on_state_def)
  next
    case SigLinked
    let ?s = "(end_signal_pairing ((pw_state w)\<lparr>sn_signal_screen := SigHidden\<rparr>))\<lparr>sn_status_text := ''Signal is linked.''\<rparr>"
    let ?w = "w\<lparr>pw_state := ?s\<rparr>"
    have "whatsapp_screen_ok ?w" using assms other unfolding whatsapp_ok_told
      by (auto simp: end_signal_pairing_def)
    with same_pairing_ok(2) [OF same_pairing_select, where w = ?w]
    have "whatsapp_screen_ok (w\<lparr>pw_state := select_protocol built (sn_signal_link_account ?s) ?s\<rparr>)" by simp
    with assms other show ?thesis using SigLinked
      unfolding whatsapp_ok_told by (simp add: on_state_def finish_signal_link_def Let_def)
  next
    case (WaHelper h)
    with assms other show ?thesis unfolding whatsapp_ok_told by (cases h) (auto simp: whatsapp_op_pairings)
  next
    case (SigHelper h)
    with assms other show ?thesis unfolding whatsapp_ok_told by (cases h) (auto simp: signal_op_pairings)
  next
    case (WaEndLogin n)
    with assms other show ?thesis unfolding whatsapp_ok_told
      by (auto simp: whatsapp_op_pairings gate_open_built [where built = built, OF assms(1)])
  qed (use assms other in \<open>unfold whatsapp_ok_told,
        auto simp: whatsapp_op_pairings signal_op_pairings told_snoc flow_accepted route_flow Let_def split: if_splits\<close>)
qed

lemma pair_start_ok: "pairings_ok (pair_start source catalog)" "whatsapp_screen_ok (pair_start source catalog)"
  by (simp_all add: pairings_ok_told whatsapp_ok_told pair_start_def snapshot_new_def begun_def List.map_filter_def)

lemma pair_reach_ok:
  assumes "pair_reach built w" "built WhatsApp"
  shows "pairings_ok w \<and> whatsapp_screen_ok w"
  using assms
proof induction
  case (step w op)
  then have "pid_kind (sn_signal_link_account (pw_state w)) = Signal" by (simp add: pairings_ok_told)
  with step show ?case using pairings_step_ok whatsapp_step_ok by blast
qed (simp add: pair_start_ok)

text \<open>
  C26: a WhatsApp code on the screen is a code of the pairing that runs. Whatever the user does on the
  screens, whatever accounts are linked and removed, and whenever codes and helper states come, the QR
  code and the pair code that are shown came with the number of the last pairing that account 0 was
  told to begin and not to cancel, and no two pairings have the same number. So a code of an earlier
  pairing never shows.
\<close>

theorem shown_code_is_current:
  assumes "pair_reach built w" "built WhatsApp"
    and "sn_whatsapp_qr (pw_state w) = Some code \<and> shown = pw_whatsapp_codes w \<or>
         sn_whatsapp_pair_code (pw_state w) = Some code \<and> shown = pw_pair_codes w"
  shows "\<exists>g. (code, g) \<in> set shown \<and> running (told_commands w) (primary WhatsApp) = Some g \<and>
    distinct (begun (told_commands w))"
  using pair_reach_ok [OF assms(1,2)] assms(3)
  by (auto simp: pairings_ok_def whatsapp_screen_ok_def Let_def)

text \<open>
  C25: no WhatsApp pairing without its gate. Whatever the screens do, an account is told to begin a
  pairing only after it was told that the user accepted the ban gate; an acceptance for another account
  does not count.
\<close>

theorem pairing_after_gate:
  assumes "pair_reach built w" "built WhatsApp"
    and "told_commands w = before @ c # later" "route c = (a, CmdWhatsAppBeginLink g)"
  shows "\<exists>c' \<in> set before. route c' = (a, CmdWhatsAppAcknowledgeRisk)"
proof -
  have drop: "gate_first (ds @ cs) \<Longrightarrow> gate_first cs" for ds cs by (induction ds) simp_all
  from pair_reach_ok [OF assms(1,2)] have "gate_first (rev later @ c # rev before)"
    by (simp add: whatsapp_screen_ok_def Let_def assms(3))
  from drop [OF this] assms(4) show ?thesis by (simp add: accepted_def)
qed

section \<open>Examples\<close>

definition demo_built :: "protocol_kind \<Rightarrow> bool" where
  "demo_built kind \<longleftrightarrow> kind \<in> {WhatsApp, Signal}"

definition demo_link_screen :: "pair_op list \<Rightarrow> pair_world" where
  "demo_link_screen ops = fold (pair_step demo_built) ops (pair_start demo_source [])"

lemma demo_link_reach: "pair_reach demo_built (demo_link_screen ops)"
proof -
  have "pair_reach demo_built w \<Longrightarrow> pair_reach demo_built (fold (pair_step demo_built) ops w)" for w
    by (induction ops arbitrary: w) (simp_all add: pair_reach.step)
  then show ?thesis by (simp add: demo_link_screen_def pair_reach.start)
qed

lemma demo_built_on: "demo_built WhatsApp"
  by (simp add: demo_built_def)

lemma shown_code_is_current_witness:
  "running (told_commands (demo_link_screen [WaLogin 0, WaAccept, WaBegin, WaCode ''qr'' 1])) (primary WhatsApp) = Some 1"
proof -
  let ?w = "demo_link_screen [WaLogin 0, WaAccept, WaBegin, WaCode ''qr'' 1]"
  have "sn_whatsapp_qr (pw_state ?w) = Some ''qr''" "pw_whatsapp_codes ?w = [(''qr'', 1)]" by code_simp+
  with shown_code_is_current [OF demo_link_reach demo_built_on, of "[WaLogin 0, WaAccept, WaBegin, WaCode ''qr'' 1]" "''qr''"]
  show ?thesis by (metis (lifting) list.set(1) list.set(2) insertE empty_iff prod.inject)
qed

lemma pairing_after_gate_witness:
  "\<exists>c' \<in> set (take 1 (told_commands (demo_link_screen [WaLogin 1, WaAccept, WaBegin]))).
     route c' = (ProtocolId WhatsApp 1, CmdWhatsAppAcknowledgeRisk)"
proof -
  let ?w = "demo_link_screen [WaLogin 1, WaAccept, WaBegin]"
  have told: "told_commands ?w = take 1 (told_commands ?w) @ CmdToAccount (ProtocolId WhatsApp 1) (CmdWhatsAppBeginLink 1) # []"
    by code_simp
  have "route (CmdToAccount (ProtocolId WhatsApp 1) (CmdWhatsAppBeginLink 1)) = (ProtocolId WhatsApp 1, CmdWhatsAppBeginLink 1)"
    by code_simp
  from pairing_after_gate [OF demo_link_reach demo_built_on told this] show ?thesis .
qed

text \<open>
  The codes of another account never show: its pairing has a number under the account, and the event
  of its code is looked up under account 0.
\<close>

lemma second_account_shows_no_code:
  assumes "pid_kind (sn_whatsapp_link_account s) = WhatsApp" "pid_slot (sn_whatsapp_link_account s) \<noteq> 0"
    and "hm_get (sn_pairing_generation s) (primary WhatsApp) = None"
  shows "whatsapp_qr_event code g (start_whatsapp_pairing s) = start_whatsapp_pairing s"
    and "whatsapp_pair_code_event code g (start_whatsapp_pairing s) = start_whatsapp_pairing s"
  using assms is_primary [of "sn_whatsapp_link_account s"]
  by (auto simp: whatsapp_qr_event_def whatsapp_pair_code_event_def current_pairing_def start_whatsapp_pairing_def
      new_pairing_def push_command_def)

text \<open>
  \<open>Link with phone\<close> cancels a pairing that shows its QR code and keeps the gate accepted on the
  screen, but a cancel makes the adapter forget the acceptance: it refuses the pairing that follows.
\<close>

lemma phone_link_is_refused:
  "told_commands (demo_link_screen [WaLogin 0, WaAccept, WaBegin, WaWithPhone, WaPhone ''491'', WaBegin]) =
     [CmdWhatsAppAcknowledgeRisk, CmdWhatsAppBeginLink 1, CmdWhatsAppCancelLink, CmdWhatsAppBeginLink 2]"
  "fst (wa_handle (CmdWhatsAppBeginLink 2)
     (fold (\<lambda>c a. fst (snd (wa_handle c a)))
        [CmdWhatsAppAcknowledgeRisk, CmdWhatsAppBeginLink 1, CmdWhatsAppCancelLink] (WhatsAppAdapter False))) =
     Some (ErrRefused (primary WhatsApp) wa_gate_required)"
  by code_simp+

text \<open>
  An account that is removed while its Signal link runs leaves the link marked as started and its
  notice as accepted: the link screen of account 0 then opens without its notice, and Start does
  nothing.
\<close>

lemma removed_account_blocks_link:
  "let w = demo_link_screen [SigLogin 1, SigAccept, SigBegin, SigEndLogin 1, TakeCommands, SigLogin 0, SigBegin]
   in sn_signal_screen (pw_state w) = SigLink \<and> sn_pending (pw_state w) = []"
  by code_simp

text \<open>
  Showing the Signal notice again cancels the link that runs and keeps its number: a late code of the
  cancelled link is taken, and it is still on the screen when the next link begins.
\<close>

lemma cancelled_signal_code_shows:
  "let w = demo_link_screen [SigLogin 0, SigAccept, SigBegin, SigOpen, SigCode ''old'' 1, SigAccept, SigBegin]
   in sn_signal_qr (pw_state w) = Some ''old'' \<and> running (told_commands w) (primary Signal) = Some 2"
  by code_simp

end
