(* ===== verification/Shell_Accounts.thy ===== *)
theory Shell_Accounts
  imports Shell_Pairing
begin

text \<open>
  The account rows of the shell (\<open>state.rs\<close>): rows of further accounts, the rows of previous Signal
  numbers, whose history stays on this computer, and the chats under them. Account 0 of every protocol
  and each further account has one live row; a previous number has a row of its own with its slot.
\<close>

section \<open>Rows\<close>

definition list_insert_at :: "nat \<Rightarrow> 'a \<Rightarrow> 'a list \<Rightarrow> 'a list" where
  "list_insert_at at x xs = take at xs @ x # drop at xs"

text \<open>\<open>iter().rposition(P)\<close>.\<close>

definition rposition :: "('a \<Rightarrow> bool) \<Rightarrow> 'a list \<Rightarrow> nat option" where
  "rposition P xs = map_option (\<lambda>i. length xs - 1 - i) (position P (rev xs))"

definition row_id :: "account_row \<Rightarrow> protocol_id" where
  "row_id row = cap_id (ar_caps row)"

definition is_live_row :: "protocol_id \<Rightarrow> account_row \<Rightarrow> bool" where
  "is_live_row protocol row \<longleftrightarrow> row_id row = protocol \<and> ar_signal_retained row = None"

definition is_retained_row :: "nat \<Rightarrow> account_row \<Rightarrow> bool" where
  "is_retained_row slot row \<longleftrightarrow> pid_is (row_id row) Signal \<and> ar_signal_retained row = Some slot"

definition add_account_row :: "protocol_id \<Rightarrow> snapshot \<Rightarrow> bool \<times> snapshot" where
  "add_account_row a s =
     (if pid_slot a = 0 \<or> list_ex (\<lambda>row. row_id row = a) (sn_accounts s) then (False, s)
      else case find (is_live_row (first_account a)) (sn_accounts s) of
          None \<Rightarrow> (False, s)
        | Some first \<Rightarrow>
            let row = \<lparr>ar_caps = (ar_caps first)\<lparr>cap_id := a\<rparr>, ar_status = Stubbed,
                  ar_detail = cap_detail (ar_caps first), ar_state = Unlinked, ar_helper = None,
                  ar_signal_retained = None, ar_store_access = None, ar_retained_read = Readable\<rparr>;
                at = (case rposition (\<lambda>row. pid_kind (row_id row) = pid_kind a) (sn_accounts s) of
                        Some at \<Rightarrow> at + 1 | None \<Rightarrow> length (sn_accounts s))
            in (True, s\<lparr>sn_accounts := list_insert_at at row (sn_accounts s)\<rparr>))"

text \<open>\<open>account\<close> gives none for a slot over the limit, so every slot of the range exists.\<close>

definition next_account :: "protocol_kind \<Rightarrow> snapshot \<Rightarrow> protocol_id option" where
  "next_account kind s =
     List.find (\<lambda>a. \<not> list_ex (\<lambda>row. row_id row = a) (sn_accounts s))
       (List.map_filter (account kind) [1..<MAX_ACCOUNT_SLOT + 1])"

definition account_ids :: "snapshot \<Rightarrow> protocol_id list" where
  "account_ids s = map row_id (filter (\<lambda>row. ar_signal_retained row = None) (sn_accounts s))"

definition account_row_selected :: "account_row \<Rightarrow> snapshot \<Rightarrow> bool" where
  "account_row_selected row s \<longleftrightarrow>
     sn_selected_protocol s = row_id row \<and>
     (pid_is (row_id row) Signal \<longrightarrow> sn_selected_signal_retained s = ar_signal_retained row)"

definition SIGNAL_PREVIOUS_ACCOUNT :: string where
  "SIGNAL_PREVIOUS_ACCOUNT = ''You linked a different number. This history stays. Sending is off.''"

definition SIGNAL_RETAINED_RESET :: string where
  "SIGNAL_RETAINED_RESET = ''Signal is loading previous history.''"

definition SIGNAL_RETAINED_SETTLED :: string where
  "SIGNAL_RETAINED_SETTLED = ''Signal finished loading previous history.''"

definition signal_read_only_reason :: "snapshot \<Rightarrow> string option" where
  "signal_read_only_reason s =
     (if sn_selected_protocol s \<noteq> primary Signal then None
      else map_option (\<lambda>slot.
        if list_ex (\<lambda>row. ar_signal_retained row = Some slot \<and> history_unreadable row) (sn_accounts s)
        then SIGNAL_RETAINED_UNREADABLE else SIGNAL_PREVIOUS_ACCOUNT) (sn_selected_signal_retained s))"

definition hides_composer :: "snapshot \<Rightarrow> bool" where
  "hides_composer s \<longleftrightarrow>
     sn_selected_protocol s = primary Signal \<and>
     (case sn_selected_signal_retained s of
        None \<Rightarrow> False
      | Some slot \<Rightarrow> list_ex (\<lambda>row. ar_signal_retained row = Some slot \<and> history_unreadable row) (sn_accounts s))"

definition signal_retained_chip_label :: "nat \<Rightarrow> snapshot \<Rightarrow> string" where
  "signal_retained_chip_label slot s =
     (if list_ex (\<lambda>row. ar_signal_retained row = Some slot \<and> history_unreadable row) (sn_accounts s)
      then SIGNAL_RETAINED_UNREADABLE
      else if 2 \<le> length (filter (\<lambda>row. pid_is (row_id row) Signal \<and> ar_signal_retained row \<noteq> None) (sn_accounts s))
      then ''Previous account '' @ show_nat slot
      else SIGNAL_PREVIOUS_ACCOUNT)"

section \<open>Chats\<close>

definition sort_conversations :: "conversation list \<Rightarrow> conversation list" where
  "sort_conversations rows = sort_key (\<lambda>row. (- cv_order row, cv_id row)) rows"

definition drop_chat :: "protocol_id \<Rightarrow> string \<Rightarrow> snapshot \<Rightarrow> snapshot" where
  "drop_chat protocol i s =
     forget_older_chat protocol i (drop_rejected_body protocol i
       (s\<lparr>sn_conversations := hm_modify protocol (filter (\<lambda>row. cv_id row \<noteq> i)) (sn_conversations s),
          sn_messages := hm_retain (\<lambda>key _. \<not> (fst key = protocol \<and> fst (snd key) = i)) (sn_messages s),
          sn_outbox_read := hm_remove (protocol, i) (sn_outbox_read s),
          sn_topics := hm_remove (protocol, i) (sn_topics s),
          sn_drafts := hm_retain (\<lambda>key _. \<not> (fst key = protocol \<and> fst (snd key) = i)) (sn_drafts s)\<rparr>))"

definition remove_conversation :: "(protocol_kind \<Rightarrow> bool) \<Rightarrow> protocol_id \<Rightarrow> string \<Rightarrow> snapshot \<Rightarrow> snapshot" where
  "remove_conversation built protocol i s =
     (let s = drop_chat protocol i s;
          s = (if is_selected_chat protocol i s
               then ensure_conversation_selection
                 (s\<lparr>sn_compose := [], sn_selected_conversation := None, sn_selected_topic := None\<rparr>)
               else s)
      in sync_focused_row built FollowList s)"

text \<open>The file and the marks of an avatar that is known already.\<close>

definition keep_avatar :: "chat_avatar \<Rightarrow> chat_avatar \<Rightarrow> chat_avatar" where
  "keep_avatar old new =
     (if av_file_id old \<noteq> av_file_id new then new
      else new\<lparr>av_path := (if av_path new = None then av_path old else av_path new),
               av_bytes := (if av_bytes new = None then av_bytes old else av_bytes new),
               av_failed := (av_failed old \<or> av_failed new),
               av_requested := (av_requested old \<or> av_requested new)\<rparr>)"

definition put_conversation :: "conversation \<Rightarrow> conversation list \<Rightarrow> conversation list" where
  "put_conversation row rows =
     sort_conversations
       (if list_ex (\<lambda>old. cv_id old = cv_id row) rows
        then update_first (\<lambda>old. cv_id old = cv_id row)
          (\<lambda>old. row\<lparr>cv_avatar := keep_avatar (cv_avatar old) (cv_avatar row)\<rparr>) rows
        else rows @ [row])"

section \<open>Previous Signal numbers\<close>

definition retained_place :: "nat \<Rightarrow> account_row list \<Rightarrow> nat" where
  "retained_place slot rows =
     (case position (\<lambda>row. pid_is (row_id row) Signal \<and>
             (case ar_signal_retained row of Some existing \<Rightarrow> existing < slot | None \<Rightarrow> False)) rows of
        Some at \<Rightarrow> at
      | None \<Rightarrow>
          (case rposition (\<lambda>row. pid_is (row_id row) Signal) rows of
             Some at \<Rightarrow> at + 1 | None \<Rightarrow> length rows))"

definition ensure_retained_signal_row :: "nat \<Rightarrow> snapshot \<Rightarrow> snapshot" where
  "ensure_retained_signal_row slot s =
     (if list_ex (is_retained_row slot) (sn_accounts s) then s
      else case find (\<lambda>row. pid_is (row_id row) Signal \<and> ar_signal_retained row = None) (sn_accounts s) of
          None \<Rightarrow> s
        | Some live \<Rightarrow>
            s\<lparr>sn_accounts := list_insert_at (retained_place slot (sn_accounts s))
                \<lparr>ar_caps = ar_caps live, ar_status = StError, ar_detail = SIGNAL_PREVIOUS_ACCOUNT,
                 ar_state = Unlinked, ar_helper = None, ar_signal_retained = Some slot, ar_store_access = None,
                 ar_retained_read = Readable\<rparr> (sn_accounts s)\<rparr>)"

definition publish_slot :: "nat \<Rightarrow> snapshot \<Rightarrow> snapshot" where
  "publish_slot slot s = s\<lparr>sn_retained_publish := map_option (insert slot) (sn_retained_publish s)\<rparr>"

definition change_retained_row :: "nat \<Rightarrow> (account_row \<Rightarrow> account_row) \<Rightarrow> snapshot \<Rightarrow> snapshot" where
  "change_retained_row slot f s =
     s\<lparr>sn_accounts := update_first (\<lambda>row. row_id row = primary Signal \<and> ar_signal_retained row = Some slot) f
                        (sn_accounts s)\<rparr>"

definition note_retained_slot :: "nat \<Rightarrow> snapshot \<Rightarrow> snapshot" where
  "note_retained_slot slot s =
     change_retained_row slot
       (\<lambda>row. if history_unreadable row
              then row\<lparr>ar_retained_read := Readable, ar_detail := SIGNAL_PREVIOUS_ACCOUNT\<rparr> else row)
       (ensure_retained_signal_row slot (publish_slot slot s))"

definition keep_unreadable_retained_slot :: "nat \<Rightarrow> snapshot \<Rightarrow> snapshot" where
  "keep_unreadable_retained_slot slot s =
     change_retained_row slot
       (\<lambda>row. row\<lparr>ar_status := StError, ar_detail := SIGNAL_RETAINED_UNREADABLE, ar_retained_read := Unreadable\<rparr>)
       (ensure_retained_signal_row slot (publish_slot slot s))"

definition signal_chat_ids :: "(nat option \<Rightarrow> bool) \<Rightarrow> snapshot \<Rightarrow> string list" where
  "signal_chat_ids P s =
     map cv_id (filter (\<lambda>row. P (signal_retained_slot (cv_id row))) (conversation_rows (primary Signal) s))"

definition drop_retained_slot :: "(protocol_kind \<Rightarrow> bool) \<Rightarrow> nat \<Rightarrow> snapshot \<Rightarrow> snapshot" where
  "drop_retained_slot built slot s =
     (let s = fold (remove_conversation built (primary Signal)) (signal_chat_ids (\<lambda>x. x = Some slot) s) s
      in s\<lparr>sn_accounts := filter (\<lambda>row. ar_signal_retained row \<noteq> Some slot) (sn_accounts s)\<rparr>)"

definition drop_retained_slots_except :: "(protocol_kind \<Rightarrow> bool) \<Rightarrow> nat set \<Rightarrow> snapshot \<Rightarrow> snapshot" where
  "drop_retained_slots_except built published s =
     fold (drop_retained_slot built)
       (filter (\<lambda>slot. slot \<notin> published) (List.map_filter ar_signal_retained (sn_accounts s))) s"

definition retire_live_signal_chats :: "(protocol_kind \<Rightarrow> bool) \<Rightarrow> snapshot \<Rightarrow> snapshot" where
  "retire_live_signal_chats built s =
     fold (remove_conversation built (primary Signal)) (signal_chat_ids (\<lambda>x. x = None) s) s"

definition settle_retained_signal_selection :: "snapshot \<Rightarrow> snapshot" where
  "settle_retained_signal_selection s =
     (case sn_selected_signal_retained s of
        None \<Rightarrow> s
      | Some slot \<Rightarrow>
          if list_ex (is_retained_row slot) (sn_accounts s) then s
          else ensure_conversation_selection (s\<lparr>sn_selected_signal_retained := None, sn_selected_conversation := None\<rparr>))"

definition settle_retained_publish :: "(protocol_kind \<Rightarrow> bool) \<Rightarrow> snapshot \<Rightarrow> snapshot" where
  "settle_retained_publish built s =
     settle_retained_signal_selection
       (case sn_retained_publish s of
          Some published \<Rightarrow> drop_retained_slots_except built published (s\<lparr>sn_retained_publish := None\<rparr>)
        | None \<Rightarrow> s)"

text \<open>The chat of a previous number with the same person: the open number first, then the highest.\<close>

fun best_retained :: "nat option \<Rightarrow> string \<Rightarrow> (nat \<times> string) option \<Rightarrow> conversation list \<Rightarrow> string option" where
  "best_retained shown live_id best [] = map_option snd best"
| "best_retained shown live_id best (row # rows) =
     (case signal_retained_slot (cv_id row) of
        None \<Rightarrow> best_retained shown live_id best rows
      | Some slot \<Rightarrow>
          if signal_retained_chat (cv_id row) \<noteq> Some live_id then best_retained shown live_id best rows
          else if shown = Some slot then Some (cv_id row)
          else best_retained shown live_id
            (case best of
               Some (high, _) \<Rightarrow> if high < slot then Some (slot, cv_id row) else best
             | None \<Rightarrow> Some (slot, cv_id row)) rows)"

definition retained_chat_for_live :: "string \<Rightarrow> snapshot \<Rightarrow> string option" where
  "retained_chat_for_live live_id s =
     best_retained (sn_selected_signal_retained s) live_id None (conversation_rows (primary Signal) s)"

definition retained_drafts_for ::
    "(string \<times> message_topic option \<times> string) list \<Rightarrow> snapshot \<Rightarrow> (string \<times> message_topic option \<times> string) list" where
  "retained_drafts_for keep s =
     List.map_filter (\<lambda>(chat, topic, text).
       if signal_retained_slot chat \<noteq> None then None
       else case retained_chat_for_live chat s of
           None \<Rightarrow> None
         | Some retained \<Rightarrow>
             let current = current_text (primary Signal) retained topic s
             in if current = [] \<or> current = text then Some (retained, topic, text) else None) keep"

text \<open>A row of a chat (\<open>apply_unchecked\<close>, \<open>ConversationUpsert\<close>). The previous number cannot send.\<close>

definition conversation_upsert :: "(protocol_kind \<Rightarrow> bool) \<Rightarrow> conversation \<Rightarrow> snapshot \<Rightarrow> snapshot" where
  "conversation_upsert built row s =
     (let protocol = cv_protocol row;
          retained = (if pid_is protocol Signal then signal_retained_slot (cv_id row) else None)
      in if pid_slot protocol \<noteq> 0 \<and> retained \<noteq> None then s
         else
           let row = (if retained \<noteq> None then row\<lparr>cv_writable := False\<rparr> else row);
               s = (case retained of Some slot \<Rightarrow> note_retained_slot slot s | None \<Rightarrow> s);
               row = (if sn_window_focused s \<and> \<not> cv_has_topics row \<and> chat_is_viewed protocol (cv_id row) s
                      then row\<lparr>cv_unread := 0\<rparr> else row);
               s = s\<lparr>sn_conversations := hm_entry protocol [] (put_conversation row) (sn_conversations s)\<rparr>
           in sync_focused_row built FollowUpsert (ensure_conversation_selection s))"

section \<open>The rows of a protocol's inbox\<close>

definition chat_order :: "conversation \<Rightarrow> int \<times> string" where
  "chat_order row = (- cv_order row, cv_id row)"

definition chats_sorted :: "conversation list \<Rightarrow> bool" where
  "chats_sorted rows \<longleftrightarrow> sorted (map chat_order rows) \<and> distinct (map cv_id rows)"

lemma sort_conversations_alt: "sort_conversations rows = sort_key chat_order rows"
  by (simp add: sort_conversations_def chat_order_def [abs_def])

lemma distinct_map_sort_key: "distinct (map f (sort_key k xs)) = distinct (map f xs)"
  by (metis distinct_map distinct_sort set_sort)

lemma find_map_unique:
  assumes "distinct (map f xs)" "set xs = set ys" "distinct (map f ys)"
  shows "find (\<lambda>x. f x = i) xs = find (\<lambda>x. f x = i) ys"
proof -
  have unique: "x = y" if "x \<in> set zs" "y \<in> set zs" "f x = f y" "distinct (map f zs)" for x y and zs
    using that by (auto simp: distinct_map inj_on_def)
  show ?thesis
  proof (cases "find (\<lambda>x. f x = i) xs")
    case None
    with assms(2) have "find (\<lambda>x. f x = i) ys = None" by (auto simp: find_None_iff)
    with None show ?thesis by simp
  next
    case (Some x)
    then have x: "x \<in> set ys" "f x = i" using assms(2) by (auto simp: find_Some_iff)
    then have "find (\<lambda>x. f x = i) ys \<noteq> None" by (auto simp: find_None_iff)
    then obtain y where y: "find (\<lambda>x. f x = i) ys = Some y" by auto
    then have "y \<in> set ys" "f y = i" by (auto simp: find_Some_iff)
    with unique [OF x(1) this(1) _ assms(3)] x Some y show ?thesis by simp
  qed
qed

lemma find_sort_conversations:
  "distinct (map cv_id rows) \<Longrightarrow>
     find (\<lambda>row. cv_id row = i) (sort_conversations rows) = find (\<lambda>row. cv_id row = i) rows"
  by (rule find_map_unique) (simp_all add: sort_conversations_alt distinct_map_sort_key)

definition upserted_row :: "conversation \<Rightarrow> conversation list \<Rightarrow> conversation" where
  "upserted_row row rows =
     (case find (\<lambda>old. cv_id old = cv_id row) rows of
        Some old \<Rightarrow> row\<lparr>cv_avatar := keep_avatar (cv_avatar old) (cv_avatar row)\<rparr> | None \<Rightarrow> row)"

lemma put_conversation_sorted:
  assumes "chats_sorted rows"
  shows "chats_sorted (put_conversation row rows)"
proof -
  have "map cv_id (update_first (\<lambda>old. cv_id old = cv_id row)
      (\<lambda>old. row\<lparr>cv_avatar := keep_avatar (cv_avatar old) (cv_avatar row)\<rparr>) rows) = map cv_id rows"
    by (rule map_update_first_P) simp
  with assms show ?thesis
    by (auto simp: chats_sorted_def put_conversation_def sort_conversations_alt distinct_map_sort_key list_ex_iff)
qed

lemma find_update_first_put:
  "(\<And>x. g (f x) = k) \<Longrightarrow>
     find (\<lambda>x. g x = i) (update_first (\<lambda>x. g x = k) f xs) =
       (if i = k then map_option f (find (\<lambda>x. g x = k) xs) else find (\<lambda>x. g x = i) xs)"
  by (induction xs) auto

lemma find_put_conversation:
  assumes "chats_sorted rows"
  shows "find (\<lambda>old. cv_id old = i) (put_conversation row rows) =
    (if i = cv_id row then Some (upserted_row row rows) else find (\<lambda>old. cv_id old = i) rows)"
proof (cases "list_ex (\<lambda>old. cv_id old = cv_id row) rows")
  case True
  let ?rows = "update_first (\<lambda>old. cv_id old = cv_id row)
      (\<lambda>old. row\<lparr>cv_avatar := keep_avatar (cv_avatar old) (cv_avatar row)\<rparr>) rows"
  have "map cv_id ?rows = map cv_id rows" by (rule map_update_first_P) simp
  moreover have "find (\<lambda>old. cv_id old = i) ?rows =
      (if i = cv_id row then Some (upserted_row row rows) else find (\<lambda>old. cv_id old = i) rows)"
    using True find_None_iff [of "\<lambda>old. cv_id old = cv_id row" rows]
    by (subst find_update_first_put) (auto simp: upserted_row_def list_ex_iff split: option.split)
  ultimately show ?thesis
    using assms True by (simp add: put_conversation_def find_sort_conversations chats_sorted_def)
next
  case False
  then have "find (\<lambda>old. cv_id old = cv_id row) rows = None" by (auto simp: find_None_iff list_ex_iff)
  moreover have "find (\<lambda>old. cv_id old = i) (rows @ [row]) =
      (case find (\<lambda>old. cv_id old = i) rows of Some r \<Rightarrow> Some r | None \<Rightarrow> if cv_id row = i then Some row else None)"
    by (induction rows) auto
  moreover have "distinct (map cv_id (rows @ [row]))"
    using assms False by (auto simp: chats_sorted_def list_ex_iff)
  then have "find (\<lambda>old. cv_id old = i) (put_conversation row rows) = find (\<lambda>old. cv_id old = i) (rows @ [row])"
    using False by (simp only: put_conversation_def if_False find_sort_conversations)
  ultimately show ?thesis by (auto simp: upserted_row_def split: option.split)
qed

definition inbox_ok :: "snapshot \<Rightarrow> bool" where
  "inbox_ok s \<longleftrightarrow> (\<forall>p rows. hm_get (sn_conversations s) p = Some rows \<longrightarrow> chats_sorted rows)"

text \<open>Functions that leave the chats, the account rows and an open publish alone.\<close>

definition same_inbox :: "snapshot \<Rightarrow> snapshot \<Rightarrow> bool" where
  "same_inbox s s' \<longleftrightarrow> sn_conversations s' = sn_conversations s \<and> sn_accounts s' = sn_accounts s \<and>
     sn_retained_publish s' = sn_retained_publish s \<and> sn_selected_signal_retained s' = sn_selected_signal_retained s \<and>
     sn_viewed s' = sn_viewed s \<and> sn_window_focused s' = sn_window_focused s"

lemma same_inbox_push: "same_inbox s (push_command c s)"
  by (simp add: same_inbox_def push_command_def)

lemma same_inbox_selection: "same_inbox s (set_selection i topic s)"
  by (simp add: same_inbox_def set_selection_def take_draft_def park_draft_def cancel_edit_def split: option.split)

lemma same_inbox_queue: "same_inbox s (queue_open_chat s)"
  by (simp add: same_inbox_def queue_open_chat_def push_command_def Let_def split: option.split)

lemma same_inbox_trans: "same_inbox s s' \<Longrightarrow> same_inbox s' s'' \<Longrightarrow> same_inbox s s''"
  by (simp add: same_inbox_def)

lemma same_inbox_ensure: "same_inbox s (ensure_conversation_selection s)"
  using same_inbox_trans [OF same_inbox_selection same_inbox_queue]
  by (auto simp: ensure_conversation_selection_def Let_def set_selected_conversation_def same_inbox_def split: option.split)

lemma same_inbox_focus: "same_inbox s (sync_focused_row built reason s)"
  by (simp add: same_inbox_def sync_focused_row_def Let_def)

lemmas inbox_fields [simp] =
  same_inbox_selection [unfolded same_inbox_def] same_inbox_queue [unfolded same_inbox_def]
  same_inbox_ensure [unfolded same_inbox_def] same_inbox_focus [unfolded same_inbox_def]

lemma forget_older_inbox [simp]:
  "sn_conversations (forget_older_chat p i s) = sn_conversations s" "sn_accounts (forget_older_chat p i s) = sn_accounts s"
  "sn_retained_publish (forget_older_chat p i s) = sn_retained_publish s"
  "sn_selected_signal_retained (forget_older_chat p i s) = sn_selected_signal_retained s"
  by (simp_all add: forget_older_chat_def forget_older_def)

lemma remove_conversation_inbox [simp]:
  "sn_conversations (remove_conversation built p i s) =
     hm_modify p (filter (\<lambda>row. cv_id row \<noteq> i)) (sn_conversations s)"
  "sn_accounts (remove_conversation built p i s) = sn_accounts s"
  "sn_retained_publish (remove_conversation built p i s) = sn_retained_publish s"
  "sn_selected_signal_retained (remove_conversation built p i s) = sn_selected_signal_retained s"
  by (simp_all add: remove_conversation_def drop_chat_def drop_rejected_body_def Let_def)

lemma note_retained_inbox [simp]:
  "sn_conversations (note_retained_slot slot s) = sn_conversations s"
  "sn_viewed (note_retained_slot slot s) = sn_viewed s" "sn_window_focused (note_retained_slot slot s) = sn_window_focused s"
  by (simp_all add: note_retained_slot_def change_retained_row_def ensure_retained_signal_row_def publish_slot_def
      split: option.split)

text \<open>What the inbox shows of a row that comes: a previous number cannot send, and the chat that the user
  looks at has nothing unread.\<close>

definition arrived_row :: "conversation \<Rightarrow> snapshot \<Rightarrow> conversation" where
  "arrived_row row s =
     (let row = (if pid_is (cv_protocol row) Signal \<and> signal_retained_slot (cv_id row) \<noteq> None
                 then row\<lparr>cv_writable := False\<rparr> else row)
      in if sn_window_focused s \<and> \<not> cv_has_topics row \<and> chat_is_viewed (cv_protocol row) (cv_id row) s
         then row\<lparr>cv_unread := 0\<rparr> else row)"

lemma arrived_row_id [simp]: "cv_id (arrived_row row s) = cv_id row"
  by (simp add: arrived_row_def Let_def)

lemma conversation_upsert_inbox:
  "\<not> (pid_is (cv_protocol row) Signal \<and> pid_slot (cv_protocol row) \<noteq> 0 \<and> signal_retained_slot (cv_id row) \<noteq> None) \<Longrightarrow>
     sn_conversations (conversation_upsert built row s) =
       hm_entry (cv_protocol row) [] (put_conversation (arrived_row row s)) (sn_conversations s)"
  by (auto simp: conversation_upsert_def arrived_row_def chat_is_viewed_def Let_def split: option.split)

lemma find_filter_other: "find P (filter Q xs) = (if \<forall>x. P x \<longrightarrow> \<not> Q x then None else find (\<lambda>x. P x \<and> Q x) xs)"
  by (induction xs) (auto simp: find_None_iff)



section \<open>The order of the rows\<close>

definition retained_slots :: "account_row list \<Rightarrow> nat list" where
  "retained_slots rows = List.map_filter ar_signal_retained rows"

text \<open>Every account has one live row; the rows of previous numbers belong to the first Signal account and
  come with the newest number first.\<close>

definition first_signal :: "account_row list \<Rightarrow> account_row option" where
  "first_signal rows = find (\<lambda>row. pid_is (row_id row) Signal \<and> ar_signal_retained row = None) rows"

definition rows_ok :: "account_row list \<Rightarrow> bool" where
  "rows_ok rows \<longleftrightarrow>
     distinct (map row_id (filter (\<lambda>row. ar_signal_retained row = None) rows)) \<and>
     sorted_wrt (\<lambda>a b. b < a) (retained_slots rows) \<and>
     (\<forall>row \<in> set rows. ar_signal_retained row \<noteq> None \<longrightarrow> row_id row = primary Signal) \<and>
     (case first_signal rows of Some row \<Rightarrow> row_id row = primary Signal | None \<Rightarrow> True)"

lemma position_split:
  "position P xs = Some n \<Longrightarrow> \<exists>ys y zs. xs = ys @ y # zs \<and> length ys = n \<and> P y \<and> (\<forall>x \<in> set ys. \<not> P x)"
proof (induction xs arbitrary: n)
  case (Cons x xs)
  show ?case
  proof (cases "P x")
    case True
    with Cons.prems show ?thesis by (intro exI [of _ "[]"]) auto
  next
    case False
    with Cons.prems obtain m where "n = Suc m" "position P xs = Some m" by (auto split: option.splits)
    with Cons.IH [of m] False show ?thesis by (metis append_Cons length_Cons set_ConsD)
  qed
qed simp

lemma position_none: "position P xs = None \<longleftrightarrow> (\<forall>x \<in> set xs. \<not> P x)"
  by (induction xs) auto

lemma rposition_split:
  assumes "rposition P xs = Some n"
  shows "\<exists>ys y zs. xs = ys @ y # zs \<and> length ys = n \<and> P y \<and> (\<forall>x \<in> set zs. \<not> P x)"
proof -
  obtain m where m: "position P (rev xs) = Some m" "n = length xs - 1 - m"
    using assms by (auto simp: rposition_def)
  obtain ys y zs where r: "rev xs = ys @ y # zs" "length ys = m" "P y" "\<forall>x \<in> set ys. \<not> P x"
    using position_split [OF m(1)] by blast
  then have "xs = rev zs @ y # rev ys" by (metis append.assoc append_Cons append_Nil rev.simps(2) rev_append rev_rev_ident)
  with r m(2) show ?thesis by (intro exI [of _ "rev zs"] exI [of _ y] exI [of _ "rev ys"]) auto
qed

lemma rposition_none: "rposition P xs = None \<longleftrightarrow> (\<forall>x \<in> set xs. \<not> P x)"
  by (simp add: rposition_def position_none)

lemma list_insert_at_split: "list_insert_at (length ys) x (ys @ zs) = ys @ x # zs"
  by (simp add: list_insert_at_def)

lemma retained_slots_simps [simp]:
  "retained_slots [] = []" "retained_slots (xs @ ys) = retained_slots xs @ retained_slots ys"
  "retained_slots (row # xs) = (case ar_signal_retained row of Some n \<Rightarrow> n # retained_slots xs | None \<Rightarrow> retained_slots xs)"
  by (simp_all add: retained_slots_def List.map_filter_def split: option.split)

lemma set_retained_slots: "n \<in> set (retained_slots rows) \<longleftrightarrow> (\<exists>row \<in> set rows. ar_signal_retained row = Some n)"
  by (induction rows) (auto split: option.split)

lemma find_append: "find P (xs @ ys) = (case find P xs of Some x \<Rightarrow> Some x | None \<Rightarrow> find P ys)"
  by (induction xs) auto

lemma rows_ok_insert_retained:
  assumes "rows_ok rows" "ar_signal_retained row = Some slot" "row_id row = primary Signal"
    and "\<not> list_ex (is_retained_row slot) rows"
  shows "rows_ok (list_insert_at (retained_place slot rows) row rows) \<and>
    set (retained_slots (list_insert_at (retained_place slot rows) row rows)) = insert slot (set (retained_slots rows))"
proof -
  let ?lower = "\<lambda>row. pid_is (row_id row) Signal \<and>
    (case ar_signal_retained row of Some existing \<Rightarrow> existing < slot | None \<Rightarrow> False)"
  have signal: "ar_signal_retained r \<noteq> None \<Longrightarrow> pid_is (row_id r) Signal" if "r \<in> set rows" for r
    using assms(1) that by (auto simp: rows_ok_def pid_is_def)
  have fresh: "slot \<notin> set (retained_slots rows)"
    using assms(4) signal by (fastforce simp: set_retained_slots list_ex_iff is_retained_row_def)
  have "\<exists>xs ys. rows = xs @ ys \<and> list_insert_at (retained_place slot rows) row rows = xs @ row # ys \<and>
    (\<forall>n \<in> set (retained_slots xs). slot < n) \<and> (\<forall>n \<in> set (retained_slots ys). n < slot)"
  proof (cases "position ?lower rows")
    case (Some at)
    then obtain xs y ys where r: "rows = xs @ y # ys" "length xs = at" "?lower y" "\<forall>x \<in> set xs. \<not> ?lower x"
      using position_split [OF Some] by blast
    have "slot < n" if n: "n \<in> set (retained_slots xs)" for n
    proof -
      obtain x where x: "x \<in> set xs" "ar_signal_retained x = Some n" using n by (auto simp: set_retained_slots)
      then have "\<not> n < slot" using r(1,4) signal [of x] by auto
      moreover have "n \<noteq> slot" using fresh n r(1) by auto
      ultimately show ?thesis by simp
    qed
    moreover have "\<forall>n \<in> set (retained_slots (y # ys)). n < slot"
      using r(3) assms(1) unfolding rows_ok_def r(1) by (auto simp: sorted_wrt_append split: option.splits)
    moreover have "list_insert_at (retained_place slot rows) row rows = xs @ row # (y # ys)"
      using r Some list_insert_at_split [of xs row "y # ys"] by (simp add: retained_place_def)
    ultimately show ?thesis using r(1) by blast
  next
    case None
    then have above: "\<forall>n \<in> set (retained_slots rows). slot < n"
      using fresh signal by (fastforce simp: position_none set_retained_slots linorder_not_less order_le_less)
    show ?thesis
    proof (cases "rposition (\<lambda>row. pid_is (row_id row) Signal) rows")
      case (Some at)
      then obtain xs y ys where r: "rows = xs @ y # ys" "length xs = at" "\<forall>x \<in> set ys. \<not> pid_is (row_id x) Signal"
        using rposition_split [OF Some] by blast
      moreover have "ar_signal_retained x = None" if "x \<in> set ys" for x
        using r(1,3) signal [of x] that by (cases "ar_signal_retained x") auto
      then have "retained_slots ys = []"
        by (auto simp: retained_slots_def List.map_filter_def filter_empty_conv)
      ultimately have "rows = (xs @ [y]) @ ys \<and> list_insert_at (retained_place slot rows) row rows = (xs @ [y]) @ row # ys \<and>
          (\<forall>n \<in> set (retained_slots (xs @ [y])). slot < n) \<and> (\<forall>n \<in> set (retained_slots ys). n < slot)"
        using None Some above list_insert_at_split [of "xs @ [y]" row ys]
        by (simp add: retained_place_def split: option.splits)
      then show ?thesis by blast
    next
      case no: None
      then show ?thesis
        using None above list_insert_at_split [of rows row "[]"]
        by (intro exI [of _ rows] exI [of _ "[]"]) (simp add: retained_place_def)
    qed
  qed
  then obtain xs ys where r: "rows = xs @ ys" "list_insert_at (retained_place slot rows) row rows = xs @ row # ys"
    "\<forall>n \<in> set (retained_slots xs). slot < n" "\<forall>n \<in> set (retained_slots ys). n < slot" by blast
  have "rows_ok (xs @ row # ys)"
    using assms(1-3) r(3,4) unfolding rows_ok_def r(1)
    by (simp add: sorted_wrt_append first_signal_def find_append split: option.splits)
  moreover have "set (retained_slots (xs @ row # ys)) = insert slot (set (retained_slots rows))"
    using assms(2) r(1) by simp
  ultimately show ?thesis using r(2) by simp
qed

lemma distinct_insert_middle: "distinct (xs @ ys) \<Longrightarrow> a \<notin> set (xs @ ys) \<Longrightarrow> distinct (xs @ a # ys)"
  by auto

lemma rows_ok_insert_account:
  assumes "rows_ok rows" "pid_slot a \<noteq> 0" "\<not> list_ex (\<lambda>row. row_id row = a) rows" "row_id row = a"
    "ar_signal_retained row = None" "find (is_live_row (first_account a)) rows = Some first"
    "rposition (\<lambda>row. pid_kind (row_id row) = pid_kind a) rows = Some at"
  shows "rows_ok (list_insert_at (at + 1) row rows)"
proof -
  obtain xs y ys where r: "rows = xs @ y # ys" "length xs = at" "\<forall>x \<in> set ys. pid_kind (row_id x) \<noteq> pid_kind a"
    using rposition_split [OF assms(7)] by blast
  have i: "list_insert_at (at + 1) row rows = (xs @ [y]) @ row # ys"
    using list_insert_at_split [of "xs @ [y]" row ys] r(1,2) by simp
  let ?P = "\<lambda>row. pid_is (row_id row) Signal \<and> ar_signal_retained row = None"
  have "find ?P ((xs @ [y]) @ row # ys) = find ?P rows"
  proof (cases "pid_kind a = Signal")
    case True
    have "first \<in> set rows" "is_live_row (first_account a) first" using assms(6) by (auto simp: find_Some_iff)
    then have "first \<in> set rows" "?P first" using True by (auto simp: is_live_row_def pid_is_def)
    then have "find ?P rows \<noteq> None" by (auto simp: find_None_iff)
    moreover have "find ?P ys = None" using r(3) True by (auto simp: find_None_iff pid_is_def)
    ultimately have "find ?P (xs @ [y]) \<noteq> None" by (auto simp: r(1) find_append split: option.splits if_splits)
    then show ?thesis by (auto simp: r(1) find_append split: option.splits)
  next
    case False
    then have "?P row = False" using assms(4) by (simp add: pid_is_def)
    then show ?thesis by (simp only: r(1) find_append find.simps append.simps append_assoc if_False)
  qed
  note same_first = this
  have "retained_slots ((xs @ [y]) @ row # ys) = retained_slots rows" using assms(5) by (simp add: r(1) split: option.split)
  moreover have "distinct (map row_id (filter (\<lambda>row. ar_signal_retained row = None) ((xs @ [y]) @ row # ys)))"
  proof -
    have "distinct (map row_id (filter (\<lambda>row. ar_signal_retained row = None) (xs @ y # ys)))" "a \<notin> row_id ` set (xs @ y # ys)"
      using assms(1,3) by (auto simp: rows_ok_def r(1) list_ex_iff)
    then have "distinct (map row_id (filter (\<lambda>row. ar_signal_retained row = None) (xs @ [y])) @
        map row_id (filter (\<lambda>row. ar_signal_retained row = None) ys))"
      "a \<notin> set (map row_id (filter (\<lambda>row. ar_signal_retained row = None) (xs @ [y])) @
        map row_id (filter (\<lambda>row. ar_signal_retained row = None) ys))"
      by (simp_all split: if_splits) auto
    then have "distinct ((map row_id (filter (\<lambda>row. ar_signal_retained row = None) (xs @ [y]))) @
        a # map row_id (filter (\<lambda>row. ar_signal_retained row = None) ys))"
      by (rule distinct_insert_middle)
    also have "(map row_id (filter (\<lambda>row. ar_signal_retained row = None) (xs @ [y]))) @
        a # map row_id (filter (\<lambda>row. ar_signal_retained row = None) ys) =
      map row_id (filter (\<lambda>row. ar_signal_retained row = None) ((xs @ [y]) @ row # ys))"
      using assms(4,5) by simp
    finally show ?thesis .
  qed
  ultimately show ?thesis
    using assms(1,5) unfolding i rows_ok_def first_signal_def same_first by (simp add: r(1))
qed

lemma retained_slots_filter:
  "retained_slots (filter (\<lambda>row. ar_signal_retained row \<noteq> Some slot) rows) = filter (\<lambda>n. n \<noteq> slot) (retained_slots rows)"
  by (induction rows) (auto split: option.split)

lemma rows_ok_filter:
  assumes "rows_ok rows" and "\<And>row. row_id row = primary Signal \<Longrightarrow> ar_signal_retained row = None \<Longrightarrow> P row"
  shows "rows_ok (filter P rows)"
proof -
  let ?Q = "\<lambda>row. pid_is (row_id row) Signal \<and> ar_signal_retained row = None"
  have "find ?Q (filter P rows) = find ?Q rows"
  proof (cases "find ?Q rows")
    case None
    then have "find ?Q (filter P rows) = None" by (auto simp: find_None_iff)
    with None show ?thesis by simp
  next
    case (Some row)
    then have "row_id row = primary Signal" using assms(1) by (simp add: rows_ok_def first_signal_def)
    moreover have "?Q row" using Some by (auto simp: find_Some_iff)
    ultimately have "P row" using assms(2) [of row] by simp
    have "find ?Q rows = Some row \<Longrightarrow> find ?Q (filter P rows) = Some row" for rows
      using \<open>P row\<close> by (induction rows) (auto split: if_splits)
    with Some show ?thesis by simp
  qed
  moreover have "sorted_wrt R (retained_slots rows) \<Longrightarrow> sorted_wrt R (retained_slots (filter P rows))" for R
  proof (induction rows)
    case (Cons r rows)
    have "set (retained_slots (filter P rows)) \<subseteq> set (retained_slots rows)" by (auto simp: set_retained_slots)
    with Cons show ?case by (auto split: option.splits)
  qed simp
  moreover have "distinct (map row_id (filter (\<lambda>row. ar_signal_retained row = None) (filter P rows)))"
    using assms(1) distinct_map_filter [of row_id "filter (\<lambda>row. ar_signal_retained row = None) rows" P]
    by (simp add: rows_ok_def filter_filter conj_commute)
  ultimately show ?thesis using assms(1) unfolding rows_ok_def first_signal_def by simp
qed

text \<open>Changes of a row that keep whose it is.\<close>

definition row_key :: "account_row \<Rightarrow> protocol_id \<times> nat option" where
  "row_key row = (row_id row, ar_signal_retained row)"

lemma rows_ok_keys:
  assumes "map row_key rows' = map row_key rows"
  shows "rows_ok rows' = rows_ok rows" "retained_slots rows' = retained_slots rows"
    "list_ex (is_retained_row slot) rows' = list_ex (is_retained_row slot) rows"
proof -
  have "list_all2 (\<lambda>r r'. row_key r = row_key r') rows' rows"
    using assms map_eq_imp_length_eq [OF assms] by (auto simp: list_all2_conv_all_nth) (metis nth_map)
  then have *: "retained_slots rows' = retained_slots rows \<and>
      map row_id (filter (\<lambda>row. ar_signal_retained row = None) rows') =
      map row_id (filter (\<lambda>row. ar_signal_retained row = None) rows) \<and>
      map_option row_id (find (\<lambda>row. pid_is (row_id row) Signal \<and> ar_signal_retained row = None) rows') =
      map_option row_id (find (\<lambda>row. pid_is (row_id row) Signal \<and> ar_signal_retained row = None) rows) \<and>
      (\<forall>row \<in> set rows'. ar_signal_retained row \<noteq> None \<longrightarrow> row_id row = primary Signal) =
      (\<forall>row \<in> set rows. ar_signal_retained row \<noteq> None \<longrightarrow> row_id row = primary Signal) \<and>
      list_ex (is_retained_row slot) rows' = list_ex (is_retained_row slot) rows"
    by induction (auto simp: is_retained_row_def row_key_def)
  then show "retained_slots rows' = retained_slots rows"
    "list_ex (is_retained_row slot) rows' = list_ex (is_retained_row slot) rows" by blast+
  have same: "map_option row_id (first_signal rows') = map_option row_id (first_signal rows)"
    using * by (simp only: first_signal_def)
  have "(case first_signal rows' of Some row \<Rightarrow> row_id row = primary Signal | None \<Rightarrow> True) =
      (case first_signal rows of Some row \<Rightarrow> row_id row = primary Signal | None \<Rightarrow> True)"
    using same by (cases "first_signal rows"; cases "first_signal rows'") simp_all
  then show "rows_ok rows' = rows_ok rows" using * by (simp only: rows_ok_def)
qed


lemma update_first_map: "(\<And>x. g (f x) = g x) \<Longrightarrow> map g (update_first P f xs) = map g xs"
  by (induction xs) auto

lemma change_retained_rows:
  assumes "\<And>row. row_key (f row) = row_key row"
  shows "rows_ok (sn_accounts (change_retained_row slot f s)) = rows_ok (sn_accounts s)"
    and "retained_slots (sn_accounts (change_retained_row slot f s)) = retained_slots (sn_accounts s)"
    and "map row_key (sn_accounts (change_retained_row slot f s)) = map row_key (sn_accounts s)"
proof -
  have "map row_key (update_first P f rows) = map row_key rows" for P rows
    by (rule update_first_map) (rule assms)
  then show "map row_key (sn_accounts (change_retained_row slot f s)) = map row_key (sn_accounts s)"
    by (simp add: change_retained_row_def)
  then show "rows_ok (sn_accounts (change_retained_row slot f s)) = rows_ok (sn_accounts s)"
    "retained_slots (sn_accounts (change_retained_row slot f s)) = retained_slots (sn_accounts s)"
    using rows_ok_keys by blast+
qed

lemma retained_slot_row:
  "rows_ok rows \<Longrightarrow> n \<in> set (retained_slots rows) \<longleftrightarrow> list_ex (is_retained_row n) rows"
proof -
  assume "rows_ok rows"
  then have "pid_is (row_id row) Signal" if "row \<in> set rows" "ar_signal_retained row = Some n" for row
    using that by (auto simp: rows_ok_def pid_is_def)
  then show ?thesis by (auto simp: set_retained_slots list_ex_iff is_retained_row_def)
qed

lemma first_signal_insert:
  "first_signal rows = Some live \<Longrightarrow> ar_signal_retained row \<noteq> None \<Longrightarrow> first_signal (list_insert_at n row rows) = Some live"
proof -
  assume "first_signal rows = Some live" "ar_signal_retained row \<noteq> None"
  moreover have "first_signal rows = first_signal (take n rows @ drop n rows)" by simp
  ultimately show ?thesis
    by (simp add: first_signal_def list_insert_at_def find_append del: append_take_drop_id split: option.splits)
qed

text \<open>A number that is published gets its row, once, and the rows stay in order.\<close>

lemma ensure_retained_rows:
  assumes "rows_ok (sn_accounts s)" "first_signal (sn_accounts s) \<noteq> None"
  shows "rows_ok (sn_accounts (ensure_retained_signal_row slot s)) \<and>
    first_signal (sn_accounts (ensure_retained_signal_row slot s)) \<noteq> None \<and>
    set (retained_slots (sn_accounts (ensure_retained_signal_row slot s))) =
      insert slot (set (retained_slots (sn_accounts s)))"
proof (cases "list_ex (is_retained_row slot) (sn_accounts s)")
  case True
  then show ?thesis
    using assms retained_slot_row [OF assms(1)] by (auto simp: ensure_retained_signal_row_def)
next
  case False
  obtain live where live: "first_signal (sn_accounts s) = Some live" using assms(2) by blast
  let ?row = "\<lparr>ar_caps = ar_caps live, ar_status = StError, ar_detail = SIGNAL_PREVIOUS_ACCOUNT,
    ar_state = Unlinked, ar_helper = None, ar_signal_retained = Some slot, ar_store_access = None,
    ar_retained_read = Readable\<rparr>"
  have "row_id ?row = primary Signal" using assms(1) live by (simp add: rows_ok_def row_id_def)
  then have "rows_ok (list_insert_at (retained_place slot (sn_accounts s)) ?row (sn_accounts s)) \<and>
      set (retained_slots (list_insert_at (retained_place slot (sn_accounts s)) ?row (sn_accounts s))) =
        insert slot (set (retained_slots (sn_accounts s)))"
    using rows_ok_insert_retained [OF assms(1) _ _ False, of ?row] by simp
  moreover have "first_signal (list_insert_at (retained_place slot (sn_accounts s)) ?row (sn_accounts s)) = Some live"
    using first_signal_insert [OF live] by simp
  ultimately show ?thesis
    using False live by (simp add: ensure_retained_signal_row_def first_signal_def)
qed

lemma first_signal_keys:
  assumes "map row_key rows' = map row_key rows"
  shows "first_signal rows' = None \<longleftrightarrow> first_signal rows = None"
proof -
  have *: "first_signal rows = None \<longleftrightarrow> (\<forall>(i, r) \<in> set (map row_key rows). pid_is i Signal \<longrightarrow> r \<noteq> None)" for rows
    by (auto simp: first_signal_def find_None_iff row_key_def)
  show ?thesis unfolding * assms ..
qed

lemma publish_slot_fields [simp]:
  "sn_accounts (publish_slot slot s) = sn_accounts s"
  "sn_retained_publish (publish_slot slot s) = map_option (insert slot) (sn_retained_publish s)"
  "sn_conversations (publish_slot slot s) = sn_conversations s"
  by (simp_all add: publish_slot_def)

lemma ensure_retained_publish [simp]:
  "sn_retained_publish (ensure_retained_signal_row slot s) = sn_retained_publish s"
  "sn_conversations (ensure_retained_signal_row slot s) = sn_conversations s"
  by (simp_all add: ensure_retained_signal_row_def split: option.split)

lemma change_retained_publish [simp]:
  "sn_retained_publish (change_retained_row slot f s) = sn_retained_publish s"
  "sn_conversations (change_retained_row slot f s) = sn_conversations s"
  by (simp_all add: change_retained_row_def)

definition rows_publish :: "nat \<Rightarrow> snapshot \<Rightarrow> snapshot \<Rightarrow> bool" where
  "rows_publish slot s s' \<longleftrightarrow>
     rows_ok (sn_accounts s') \<and> first_signal (sn_accounts s') \<noteq> None \<and>
     set (retained_slots (sn_accounts s')) = insert slot (set (retained_slots (sn_accounts s))) \<and>
     sn_retained_publish s' = map_option (insert slot) (sn_retained_publish s)"

lemma rows_publish_note:
  assumes "rows_ok (sn_accounts s)" "first_signal (sn_accounts s) \<noteq> None"
  shows "rows_publish slot s (note_retained_slot slot s)"
    and "rows_publish slot s (keep_unreadable_retained_slot slot s)"
proof -
  have ensured: "rows_publish slot s (change_retained_row slot f (ensure_retained_signal_row slot (publish_slot slot s)))"
    if f: "\<And>row. row_key (f row) = row_key row" for f
    using ensure_retained_rows [of "publish_slot slot s" slot] assms
      change_retained_rows [where f = f, OF f]
      first_signal_keys [OF change_retained_rows(3) [where f = f, OF f]]
    by (simp add: rows_publish_def)
  show "rows_publish slot s (note_retained_slot slot s)"
    unfolding note_retained_slot_def by (rule ensured) (simp add: row_key_def row_id_def)
  show "rows_publish slot s (keep_unreadable_retained_slot slot s)"
    unfolding keep_unreadable_retained_slot_def by (rule ensured) (simp add: row_key_def row_id_def)
qed


lemma conversation_upsert_rows:
  "sn_accounts (conversation_upsert built row s) =
     sn_accounts (case (if cv_protocol row = primary Signal then signal_retained_slot (cv_id row) else None) of
        Some slot \<Rightarrow> note_retained_slot slot s | None \<Rightarrow> s)"
  "sn_retained_publish (conversation_upsert built row s) =
     sn_retained_publish (case (if cv_protocol row = primary Signal then signal_retained_slot (cv_id row) else None) of
        Some slot \<Rightarrow> note_retained_slot slot s | None \<Rightarrow> s)"
proof -
  have "pid_is p Signal \<and> pid_slot p = 0 \<longleftrightarrow> p = primary Signal" for p
    by (cases p) (auto simp: pid_is_def primary_def)
  then show "sn_accounts (conversation_upsert built row s) =
     sn_accounts (case (if cv_protocol row = primary Signal then signal_retained_slot (cv_id row) else None) of
        Some slot \<Rightarrow> note_retained_slot slot s | None \<Rightarrow> s)"
    "sn_retained_publish (conversation_upsert built row s) =
     sn_retained_publish (case (if cv_protocol row = primary Signal then signal_retained_slot (cv_id row) else None) of
        Some slot \<Rightarrow> note_retained_slot slot s | None \<Rightarrow> s)"
    by (auto simp: conversation_upsert_def Let_def split: option.split)
qed

lemma fold_remove_inbox [simp]:
  "sn_accounts (fold (remove_conversation built p) ids s) = sn_accounts s"
  "sn_retained_publish (fold (remove_conversation built p) ids s) = sn_retained_publish s"
  "sn_selected_signal_retained (fold (remove_conversation built p) ids s) = sn_selected_signal_retained s"
  by (induction ids arbitrary: s) simp_all

lemma retire_live_inbox [simp]:
  "sn_accounts (retire_live_signal_chats built s) = sn_accounts s"
  "sn_retained_publish (retire_live_signal_chats built s) = sn_retained_publish s"
  by (simp_all add: retire_live_signal_chats_def)

lemma drop_retained_slot_rows:
  assumes "rows_ok (sn_accounts s)"
  shows "rows_ok (sn_accounts (drop_retained_slot built slot s))"
    and "first_signal (sn_accounts (drop_retained_slot built slot s)) = None \<longleftrightarrow> first_signal (sn_accounts s) = None"
    and "retained_slots (sn_accounts (drop_retained_slot built slot s)) =
      filter (\<lambda>n. n \<noteq> slot) (retained_slots (sn_accounts s))"
    and "sn_retained_publish (drop_retained_slot built slot s) = sn_retained_publish s"
  using rows_ok_filter [OF assms, of "\<lambda>row. ar_signal_retained row \<noteq> Some slot"]
  by (auto simp: drop_retained_slot_def Let_def retained_slots_filter first_signal_def find_None_iff)

lemma drop_retained_slots_rows:
  "rows_ok (sn_accounts s) \<Longrightarrow>
     rows_ok (sn_accounts (fold (drop_retained_slot built) slots s)) \<and>
     (first_signal (sn_accounts (fold (drop_retained_slot built) slots s)) = None \<longleftrightarrow> first_signal (sn_accounts s) = None) \<and>
     retained_slots (sn_accounts (fold (drop_retained_slot built) slots s)) =
       filter (\<lambda>n. n \<notin> set slots) (retained_slots (sn_accounts s)) \<and>
     sn_retained_publish (fold (drop_retained_slot built) slots s) = sn_retained_publish s"
proof (induction slots arbitrary: s)
  case (Cons slot slots)
  note step = drop_retained_slot_rows [OF Cons.prems, of built slot]
  show ?case using Cons.IH [OF step(1)] step by (simp add: conj_commute)
qed simp

lemma settle_selection_inbox [simp]:
  "sn_accounts (settle_retained_signal_selection s) = sn_accounts s"
  "sn_retained_publish (settle_retained_signal_selection s) = sn_retained_publish s"
  by (simp_all add: settle_retained_signal_selection_def split: option.split)

lemma settle_rows:
  assumes "rows_ok (sn_accounts s)" "sn_retained_publish s = Some published"
  shows "rows_ok (sn_accounts (settle_retained_publish built s)) \<and>
    (first_signal (sn_accounts (settle_retained_publish built s)) = None \<longleftrightarrow> first_signal (sn_accounts s) = None) \<and>
    set (retained_slots (sn_accounts (settle_retained_publish built s))) =
      set (retained_slots (sn_accounts s)) \<inter> published \<and>
    sn_retained_publish (settle_retained_publish built s) = None"
  using drop_retained_slots_rows [of "s\<lparr>sn_retained_publish := None\<rparr>" built
      "filter (\<lambda>slot. slot \<notin> published) (List.map_filter ar_signal_retained (sn_accounts s))"] assms
  by (auto simp: settle_retained_publish_def drop_retained_slots_except_def retained_slots_def)

lemma settle_selection_known:
  "case sn_selected_signal_retained (settle_retained_publish built s) of
     Some slot \<Rightarrow> list_ex (is_retained_row slot) (sn_accounts (settle_retained_publish built s)) | None \<Rightarrow> True"
  by (auto simp: settle_retained_publish_def settle_retained_signal_selection_def Let_def split: option.split)

lemma add_account_rows:
  assumes "rows_ok (sn_accounts s)"
  shows "rows_ok (sn_accounts (snd (add_account_row a s)))"
proof (cases "find (is_live_row (first_account a)) (sn_accounts s)")
  case None
  then show ?thesis using assms by (simp add: add_account_row_def)
next
  case first: (Some first)
  have no_row: "rows_ok (sn_accounts (snd (add_account_row a s)))"
    if "pid_slot a = 0 \<or> list_ex (\<lambda>row. row_id row = a) (sn_accounts s)"
    using that assms by (simp add: add_account_row_def)
  have "first \<in> set (sn_accounts s)" "row_id first = first_account a"
    using first by (auto simp: find_Some_iff is_live_row_def)
  then have "first \<in> set (sn_accounts s)" "pid_kind (row_id first) = pid_kind a" by simp_all
  then have "rposition (\<lambda>row. pid_kind (row_id row) = pid_kind a) (sn_accounts s) \<noteq> None"
    unfolding rposition_none by blast
  then obtain at where at: "rposition (\<lambda>row. pid_kind (row_id row) = pid_kind a) (sn_accounts s) = Some at" by blast
  show ?thesis
  proof (cases "pid_slot a = 0 \<or> list_ex (\<lambda>row. row_id row = a) (sn_accounts s)")
    case new: False
    let ?row = "\<lparr>ar_caps = (ar_caps first)\<lparr>cap_id := a\<rparr>, ar_status = Stubbed, ar_detail = cap_detail (ar_caps first),
      ar_state = Unlinked, ar_helper = None, ar_signal_retained = None, ar_store_access = None,
      ar_retained_read = Readable\<rparr>"
    have "row_id ?row = a" by (simp add: row_id_def)
    then have "rows_ok (list_insert_at (at + 1) ?row (sn_accounts s))"
      using rows_ok_insert_account [OF assms _ _ _ _ first at, of ?row] new by simp
    moreover have "sn_accounts (snd (add_account_row a s)) = list_insert_at (at + 1) ?row (sn_accounts s)"
      using new first at by (simp add: add_account_row_def Let_def)
    ultimately show ?thesis by simp
  qed (rule no_row)
qed

end
