(* ===== verification/Shell_Session.thy ===== *)
theory Shell_Session
  imports Shell_Accounts
begin

text \<open>
  The session of an account (\<open>state.rs\<close>): link, reconnect, end, the helper of the account, its store
  key, and the status events. A reconnect keeps the inbox; the end of a session drops it.
\<close>

section \<open>Reconnect\<close>

definition opens_of :: "protocol_id \<Rightarrow> adapter_command \<Rightarrow> bool" where
  "opens_of protocol command \<longleftrightarrow>
     (case command of CmdOpenChat owner _ \<Rightarrow> owner = protocol | CmdOpenTopic owner _ _ \<Rightarrow> owner = protocol | _ \<Rightarrow> False)"

definition opens_chat :: "string \<Rightarrow> adapter_command \<Rightarrow> bool" where
  "opens_chat i command \<longleftrightarrow>
     (case command of CmdOpenChat _ chat \<Rightarrow> chat = i | CmdOpenTopic _ chat _ \<Rightarrow> chat = i | _ \<Rightarrow> False)"

definition loads_older_of :: "protocol_id \<Rightarrow> adapter_command \<Rightarrow> bool" where
  "loads_older_of protocol command \<longleftrightarrow>
     (case command of CmdLoadOlderMessages owner _ _ _ \<Rightarrow> owner = protocol
      | CmdLoadOlderTopic owner _ _ _ \<Rightarrow> owner = protocol | _ \<Rightarrow> False)"

definition loads_list_of :: "protocol_id \<Rightarrow> adapter_command \<Rightarrow> bool" where
  "loads_list_of protocol command \<longleftrightarrow> command = CmdLoadChats protocol"

definition mark_open_chat :: "protocol_id \<Rightarrow> snapshot \<Rightarrow> snapshot" where
  "mark_open_chat protocol s =
     (case sn_selected_conversation s of
        None \<Rightarrow> s
      | Some i \<Rightarrow>
          if sn_selected_protocol s = protocol \<and>
             (list_ex (\<lambda>c. opens_of protocol c \<and> opens_chat i c) (sn_pending s) \<or> (protocol, i) \<in> sn_history_loading s)
          then s\<lparr>sn_open_on_link := Some (protocol, i)\<rparr> else s)"

definition hold_opens_for_reconnect :: "protocol_id \<Rightarrow> snapshot \<Rightarrow> snapshot" where
  "hold_opens_for_reconnect protocol s =
     (let s = mark_open_chat protocol s;
          s = s\<lparr>sn_history_loading := {key \<in> sn_history_loading s.
                  fst key \<noteq> protocol \<or> sn_open_on_link s = Some key},
                sn_pending := filter (\<lambda>c. \<not> opens_of protocol c) (sn_pending s)\<rparr>;
          s = s\<lparr>sn_older_loading := {key \<in> sn_older_loading s. fst key \<noteq> protocol},
                sn_pending := filter (\<lambda>c. \<not> loads_older_of protocol c) (sn_pending s)\<rparr>;
          listing = (protocol \<in> sn_chat_list_loading s \<or> list_ex (loads_list_of protocol) (sn_pending s))
      in s\<lparr>sn_chat_list_loading := sn_chat_list_loading s - {protocol},
           sn_list_on_link := (if listing then insert protocol (sn_list_on_link s) else sn_list_on_link s),
           sn_pending := filter (\<lambda>c. \<not> loads_list_of protocol c) (sn_pending s)\<rparr>)"

section \<open>The end of a session\<close>

definition downloads_of :: "protocol_id \<Rightarrow> adapter_command \<Rightarrow> bool" where
  "downloads_of protocol command \<longleftrightarrow>
     (case command of CmdDownloadFile owner _ _ \<Rightarrow> owner = protocol | CmdDownloadVoice owner _ \<Rightarrow> owner = protocol
      | CmdDownloadDocument owner _ \<Rightarrow> owner = protocol | _ \<Rightarrow> False)"

text \<open>The texts that stay, as drafts; they are read before anything is dropped.\<close>

definition session_end_keeps ::
    "protocol_id \<Rightarrow> snapshot \<Rightarrow> (string \<times> message_topic option \<times> string) list" where
  "session_end_keeps protocol s =
     (let keep = texts_to_keep_on_session_end protocol s
      in if protocol = primary Signal then keep @ retained_drafts_for keep s else keep)"

definition drop_chats_of :: "(protocol_kind \<Rightarrow> bool) \<Rightarrow> protocol_id \<Rightarrow> snapshot \<Rightarrow> snapshot" where
  "drop_chats_of built protocol s =
     (if protocol = primary Signal then (retire_live_signal_chats built s)\<lparr>sn_retained_publish := None\<rparr>
      else s\<lparr>sn_conversations := hm_remove protocol (sn_conversations s)\<rparr>)"

definition keep_drafts ::
    "protocol_id \<Rightarrow> (string \<times> message_topic option \<times> string) list \<Rightarrow> (thread \<times> string) list \<Rightarrow> (thread \<times> string) list" where
  "keep_drafts protocol keep drafts =
     foldl (\<lambda>m (chat, topic, body). hm_insert (protocol, chat, topic) body m)
       (hm_retain (\<lambda>key _. fst key \<noteq> protocol) drafts) keep"

definition drop_texts_of ::
    "protocol_id \<Rightarrow> (string \<times> message_topic option \<times> string) list \<Rightarrow> snapshot \<Rightarrow> snapshot" where
  "drop_texts_of protocol keep s =
     s\<lparr>sn_rejected_bodies := hm_retain (\<lambda>key _. fst key \<noteq> protocol) (sn_rejected_bodies s),
       sn_drafts := keep_drafts protocol keep (sn_drafts s),
       sn_attachments := hm_retain (\<lambda>key _. fst key \<noteq> protocol) (sn_attachments s)\<rparr>"

definition drop_messages_of :: "protocol_id \<Rightarrow> snapshot \<Rightarrow> snapshot" where
  "drop_messages_of protocol s =
     (let s = (if protocol = primary Signal then s
               else s\<lparr>sn_messages := hm_retain (\<lambda>key _. fst key \<noteq> protocol) (sn_messages s),
                      sn_topics := hm_retain (\<lambda>key _. fst key \<noteq> protocol) (sn_topics s)\<rparr>)
      in s\<lparr>sn_outbox_read := hm_retain (\<lambda>key _. fst key \<noteq> protocol) (sn_outbox_read s),
           sn_selected_topic := (if sn_selected_protocol s = protocol then None else sn_selected_topic s)\<rparr>)"

definition drop_loads_of :: "protocol_id \<Rightarrow> snapshot \<Rightarrow> snapshot" where
  "drop_loads_of protocol s =
     s\<lparr>sn_history_loading := {key \<in> sn_history_loading s. fst key \<noteq> protocol},
       sn_chat_list_loading := sn_chat_list_loading s - {protocol},
       sn_list_on_link := sn_list_on_link s - {protocol},
       sn_photo_downloads := {key \<in> sn_photo_downloads s. fst key \<noteq> protocol},
       sn_file_downloads := {key \<in> sn_file_downloads s. fst key \<noteq> protocol},
       sn_pending := filter (\<lambda>c. \<not> downloads_of protocol c) (sn_pending s)\<rparr>"

definition drop_sends_of :: "protocol_id \<Rightarrow> snapshot \<Rightarrow> snapshot" where
  "drop_sends_of protocol s =
     (let s = s\<lparr>sn_notices := hm_remove protocol (sn_notices s), sn_sends := drop_protocol protocol (sn_sends s)\<rparr>;
          shown = (sn_error s \<noteq> None \<and> sn_error s = sn_timeout_error s);
          s = s\<lparr>sn_timed_out := filter (\<lambda>entry. tm_protocol entry \<noteq> protocol) (sn_timed_out s)\<rparr>;
          s = (if shown then show_timeouts s else s)
      in end_telegram_send protocol EndAll (forget_older_protocol protocol s))"

definition end_pairings_of :: "(protocol_kind \<Rightarrow> bool) \<Rightarrow> protocol_id \<Rightarrow> snapshot \<Rightarrow> snapshot" where
  "end_pairings_of built protocol s =
     (let s = (if built WhatsApp \<and> protocol = sn_whatsapp_link_account s then stop_whatsapp_pairing s else s)
      in if built Signal \<and> protocol = sn_signal_link_account s
         then (end_signal_pairing (s\<lparr>sn_signal_started := False, sn_signal_inbox_open := False,
                                    sn_signal_checking := False\<rparr>))
           \<lparr>sn_signal_notice_acknowledged := False, sn_signal_screen := SigHidden\<rparr>
         else s)"

definition leave_account :: "(protocol_kind \<Rightarrow> bool) \<Rightarrow> protocol_id \<Rightarrow> snapshot \<Rightarrow> snapshot" where
  "leave_account built protocol s =
     (let stay_on_retained = (protocol = primary Signal \<and> sn_selected_signal_retained s \<noteq> None)
      in if sn_selected_protocol s = protocol \<and> \<not> stay_on_retained
         then let s = s\<lparr>sn_compose := [], sn_selected_conversation := None\<rparr>
              in case find (\<lambda>row. has_session (row_id row) s \<and> account_surface_visible built (row_id row) s) (sn_accounts s) of
                   None \<Rightarrow> s
                 | Some row \<Rightarrow> select_protocol built (row_id row) s
         else if stay_on_retained \<and>
           (case sn_selected_conversation s of Some i \<Rightarrow> signal_retained_slot i = None | None \<Rightarrow> False)
         then ensure_conversation_selection (s\<lparr>sn_compose := [], sn_selected_conversation := None\<rparr>)
         else s)"

definition end_session :: "(protocol_kind \<Rightarrow> bool) \<Rightarrow> protocol_id \<Rightarrow> snapshot \<Rightarrow> snapshot" where
  "end_session built protocol s =
     (let s = (change_live_row protocol (\<lambda>row. row\<lparr>ar_state := Unlinked\<rparr>) s)\<lparr>sn_sessions := sn_sessions s - {protocol}\<rparr>;
          keep = session_end_keeps protocol s
      in leave_account built protocol (end_pairings_of built protocol (drop_sends_of protocol
        (drop_loads_of protocol (drop_messages_of protocol (drop_texts_of protocol keep (drop_chats_of built protocol s)))))))"

definition remove_account_row :: "(protocol_kind \<Rightarrow> bool) \<Rightarrow> protocol_id \<Rightarrow> snapshot \<Rightarrow> snapshot" where
  "remove_account_row built a s =
     (if pid_slot a = 0 then s
      else
        let s = end_session built a s;
            s = s\<lparr>sn_accounts := filter (\<lambda>row. row_id row \<noteq> a) (sn_accounts s), sn_stopped := sn_stopped s - {a}\<rparr>
        in if sn_selected_protocol s = a
           then set_selected_conversation None (s\<lparr>sn_selected_protocol := first_account a\<rparr>) else s)"

section \<open>Link states\<close>

definition SIGNAL_DEVICE_REMOVED :: string where
  "SIGNAL_DEVICE_REMOVED = ''Signal removed this device. Link again''"

definition SIGNAL_LINK_CHECK :: string where
  "SIGNAL_LINK_CHECK = ''Checking Signal link'' @ ELLIPSIS"

definition park_removed_signal :: "snapshot \<Rightarrow> snapshot" where
  "park_removed_signal s =
     (let s = change_live_row (primary Signal)
            (\<lambda>row. row\<lparr>ar_state := Unlinked, ar_status := StError, ar_detail := SIGNAL_DEVICE_REMOVED\<rparr>) s;
          s = (stop_spinners (primary Signal) None s)\<lparr>sn_signal_started := False, sn_signal_inbox_open := False\<rparr>
      in clear_linked_signal_status ((end_signal_pairing s)\<lparr>sn_signal_screen := SigHidden, sn_signal_removed := True,
           sn_signal_checking := False, sn_retained_publish := None, sn_error := None\<rparr>))"

text \<open>What a new link asks again, and the link screen that it closes.\<close>

definition reopen_on_link :: "protocol_id \<Rightarrow> snapshot \<Rightarrow> snapshot" where
  "reopen_on_link protocol s =
     (case sn_open_on_link s of
        Some (owner, i) \<Rightarrow> if owner = protocol \<and> is_selected_chat protocol i s then queue_open_chat s else s
      | None \<Rightarrow> s)"

definition relist_on_link :: "protocol_id \<Rightarrow> snapshot \<Rightarrow> snapshot" where
  "relist_on_link protocol s =
     (if protocol \<in> sn_list_on_link s
      then push_command (CmdLoadChats protocol)
        (s\<lparr>sn_list_on_link := sn_list_on_link s - {protocol},
           sn_chat_list_loading := insert protocol (sn_chat_list_loading s)\<rparr>)
      else s)"

definition close_link_screen :: "(protocol_kind \<Rightarrow> bool) \<Rightarrow> protocol_id \<Rightarrow> snapshot \<Rightarrow> snapshot" where
  "close_link_screen built protocol s =
     (let s = (if built WhatsApp \<and> protocol = sn_whatsapp_link_account s then finish_whatsapp_link s else s)
      in if built Signal \<and> protocol = sn_signal_link_account s
         then finish_signal_link built (s\<lparr>sn_signal_removed := False, sn_signal_checking := False\<rparr>) else s)"

definition account_linked :: "(protocol_kind \<Rightarrow> bool) \<Rightarrow> protocol_id \<Rightarrow> bool \<Rightarrow> snapshot \<Rightarrow> snapshot" where
  "account_linked built protocol first_link s =
     (let s = s\<lparr>sn_sessions := insert protocol (sn_sessions s)\<rparr>;
          s = (if first_link \<or> \<not> protocol_linked (sn_selected_protocol s) s then select_protocol built protocol s else s)
      in close_link_screen built protocol (relist_on_link protocol (reopen_on_link protocol s)))"

definition account_unlinked :: "(protocol_kind \<Rightarrow> bool) \<Rightarrow> protocol_id \<Rightarrow> bool \<Rightarrow> snapshot \<Rightarrow> snapshot" where
  "account_unlinked built protocol was_linked s =
     (if was_linked
      then if built Signal \<and> keep_removed_signal protocol s then park_removed_signal s else end_session built protocol s
      else if built Signal \<and> protocol = sn_signal_link_account s \<and> sn_signal_started s
      then s\<lparr>sn_signal_started := False, sn_signal_inbox_open := False, sn_signal_qr := None\<rparr>
      else s)"

definition live_state :: "protocol_id \<Rightarrow> snapshot \<Rightarrow> account_state" where
  "live_state protocol s =
     (case find (is_live_row protocol) (sn_accounts s) of Some row \<Rightarrow> ar_state row | None \<Rightarrow> Unlinked)"

definition set_account_state ::
    "(protocol_kind \<Rightarrow> bool) \<Rightarrow> protocol_id \<Rightarrow> account_state \<Rightarrow> snapshot \<Rightarrow> snapshot" where
  "set_account_state built protocol state s =
     (let had_session = has_session protocol s;
          first_link = (state = Linked \<and> \<not> any_linked built s);
          before = live_state protocol s;
          s = change_live_row protocol (\<lambda>row. row\<lparr>ar_state := state\<rparr>) s
      in case state of
           Linked \<Rightarrow> account_linked built protocol first_link s
         | Unlinked \<Rightarrow> account_unlinked built protocol (had_session \<or> before \<noteq> Unlinked) s
         | Linking \<Rightarrow> if had_session then hold_opens_for_reconnect protocol s else s)"

section \<open>The helper of an account\<close>

fun helper_gone :: "helper_state \<Rightarrow> bool" where
  "helper_gone HIdle = True"
| "helper_gone HRestarting = True"
| "helper_gone (HStopped _) = True"
| "helper_gone HMissing = True"
| "helper_gone _ = False"

fun fault_error :: "string \<Rightarrow> helper_fault \<Rightarrow> string \<times> string" where
  "fault_error name Crashed =
     (''It stopped again each time thinwire started it.'',
      ''Click Restart on the '' @ name @ '' account. If it stops again, reinstall thinwire.'')"
| "fault_error name StartFailed =
     (''The system did not start the helper program.'',
      ''Reinstall thinwire, then click Restart on the '' @ name @ '' account.'')"
| "fault_error name VersionMismatch =
     (''The helper is from another thinwire version than this app.'',
      ''Reinstall thinwire, so the app and the helper have the same version.'')"
| "fault_error name FaultSessionInUse =
     (''Another thinwire uses the '' @ name @ '' session on this computer.'',
      ''Close the other thinwire, then click Restart on the '' @ name @ '' account.'')"
| "fault_error name StillRunning =
     (''The last helper process did not end.'',
      ''Wait a moment, then click Restart on the '' @ name @ '' account. If it stays, restart thinwire.'')"
| "fault_error name FaultNoClient =
     (''This helper program has no '' @ name @ '' client.'',
      ''Reinstall thinwire. In a local build, build the helper with its client feature.'')"

definition show_helper_fault :: "protocol_id \<Rightarrow> helper_fault \<Rightarrow> snapshot \<Rightarrow> snapshot" where
  "show_helper_fault protocol fault s =
     (let name = kind_display_name (pid_kind protocol);
          happened = ''The '' @ name @ '' helper stopped.'';
          (why, next_step) = fault_error name fault
      in (set_error happened why next_step s)
           \<lparr>sn_helper_errors := hm_insert protocol
              \<lparr>ue_happened = happened, ue_why = why, ue_next = next_step\<rparr> (sn_helper_errors s)\<rparr>)"

definition set_helper_state ::
    "(protocol_kind \<Rightarrow> bool) \<Rightarrow> protocol_id \<Rightarrow> helper_state \<Rightarrow> snapshot \<Rightarrow> snapshot" where
  "set_helper_state built protocol state s =
     (let s = change_live_row protocol (\<lambda>row. row\<lparr>ar_helper := Some state\<rparr>) s;
          s = (if protocol = primary Signal \<and> helper_gone state then s\<lparr>sn_retained_publish := None\<rparr> else s);
          s = s\<lparr>sn_helper_errors := hm_remove protocol (sn_helper_errors s)\<rparr>;
          s = (if helper_gone state then stop_spinners protocol None s else s);
          s = (if built WhatsApp \<and> protocol = sn_whatsapp_link_account s then note_whatsapp_helper state s else s);
          s = (if built Signal \<and> protocol = sn_signal_link_account s then note_signal_helper state s else s)
      in case state of HStopped fault \<Rightarrow> show_helper_fault protocol fault s | _ \<Rightarrow> s)"

section \<open>The key of the store\<close>

definition KEYCHAIN_ACCESS_DENIED :: string where
  "KEYCHAIN_ACCESS_DENIED = ''Can't read the session key from Keychain. Allow access, then retry.''"

definition signal_session_kept :: string where
  "signal_session_kept = ''Can't open the saved Signal session. Your old data is kept. Link again''"

definition whatsapp_session_kept :: string where
  "whatsapp_session_kept = ''Can't open the saved WhatsApp session. Your old data is kept. Link again''"

definition signal_keychain_unavailable :: string where
  "signal_keychain_unavailable = ''The keychain cannot be read. Signal did not link.''"

definition whatsapp_keychain_unavailable :: string where
  "whatsapp_keychain_unavailable = ''The keychain cannot be read. WhatsApp did not link.''"

definition signal_key_wrong_kept :: string where
  "signal_key_wrong_kept =
     ''The saved Signal session could not be moved aside. It was left in place. Nothing was deleted.''"

definition whatsapp_key_wrong_kept :: string where
  "whatsapp_key_wrong_kept =
     ''The saved WhatsApp session could not be moved aside. It was left in place. Nothing was deleted.''"

fun store_access_detail :: "protocol_id \<Rightarrow> store_access_reason \<Rightarrow> bool \<Rightarrow> string" where
  "store_access_detail protocol KeychainDenied saved =
     (if saved then KEYCHAIN_ACCESS_DENIED
      else if pid_is protocol WhatsApp then whatsapp_keychain_unavailable else signal_keychain_unavailable)"
| "store_access_detail protocol WrongKey saved =
     (if pid_is protocol WhatsApp then whatsapp_session_kept else signal_session_kept)"
| "store_access_detail protocol MoveFailed saved =
     (if pid_is protocol WhatsApp then whatsapp_key_wrong_kept else signal_key_wrong_kept)"

definition store_access_event ::
    "(protocol_kind \<Rightarrow> bool) \<Rightarrow> protocol_id \<Rightarrow> store_access_reason \<Rightarrow> snapshot \<Rightarrow> snapshot" where
  "store_access_event built protocol reason s =
     (let saved = has_session protocol s;
          detail = store_access_detail protocol reason saved;
          leaves = (case reason of
              WrongKey \<Rightarrow> saved \<or> list_ex (\<lambda>row. row_id row = protocol \<and> ar_state row \<noteq> Unlinked) (sn_accounts s)
            | KeychainDenied \<Rightarrow> \<not> saved
            | MoveFailed \<Rightarrow> False);
          s = (if leaves then set_account_state built protocol Unlinked s
               else if saved \<and> reason \<in> {KeychainDenied, MoveFailed}
               then change_live_row protocol (\<lambda>row. row\<lparr>ar_state := Linked\<rparr>) s
               else s);
          s = change_live_row protocol
                (\<lambda>row. row\<lparr>ar_status := StError, ar_detail := detail, ar_store_access := Some reason\<rparr>) s
      in if saved \<and> reason = KeychainDenied \<and> \<not> sn_app_keychain_ready s
         then s\<lparr>sn_store_key_retry_due := True\<rparr> else s)"

definition retry_store_key :: "protocol_id \<Rightarrow> snapshot \<Rightarrow> snapshot" where
  "retry_store_key protocol s =
     (case find (is_live_row protocol) (sn_accounts s) of
        None \<Rightarrow> s
      | Some row \<Rightarrow>
          if ar_store_access row \<notin> {Some KeychainDenied, Some MoveFailed} then s
          else push_command (CmdRetryStoreKey protocol)
            (change_live_row protocol (\<lambda>row. row\<lparr>ar_store_access := None, ar_status := Connecting,
               ar_detail := ''Opening the saved session.''\<rparr>) s))"

definition retry_denied_store_keys :: "snapshot \<Rightarrow> snapshot" where
  "retry_denied_store_keys s =
     fold retry_store_key (map row_id (filter (\<lambda>row. ar_store_access row = Some KeychainDenied) (sn_accounts s))) s"

definition take_store_key_retry_due :: "snapshot \<Rightarrow> bool \<times> snapshot" where
  "take_store_key_retry_due s = (sn_store_key_retry_due s, s\<lparr>sn_store_key_retry_due := False\<rparr>)"

definition note_app_keychain_ready :: "bool \<Rightarrow> snapshot \<Rightarrow> snapshot" where
  "note_app_keychain_ready ready s = s\<lparr>sn_app_keychain_ready := ready\<rparr>"

section \<open>Status lines\<close>

definition is_signal_retained_line :: "string \<Rightarrow> bool" where
  "is_signal_retained_line detail \<longleftrightarrow>
     detail \<in> {SIGNAL_PREVIOUS_ACCOUNT, SIGNAL_RETAINED_RESET, SIGNAL_RETAINED_SETTLED} \<or>
     signal_retained_unreadable_slot detail \<noteq> None"

definition stores_left_in_place :: "string \<Rightarrow> bool" where
  "stores_left_in_place detail \<longleftrightarrow> detail = signal_key_wrong_kept \<or> detail = whatsapp_key_wrong_kept"

text \<open>\<open>str::replace\<close> of a pattern that is not empty.\<close>

function replace_str :: "string \<Rightarrow> string \<Rightarrow> string \<Rightarrow> string" where
  "replace_str p new [] = []"
| "replace_str p new (c # cs) =
     (if p \<noteq> [] \<and> starts_with p (c # cs) then new @ replace_str p new (drop (length p) (c # cs))
      else c # replace_str p new cs)"
  by pat_completeness auto
termination by (relation "measure (\<lambda>(p, new, s). length s)") auto

definition without_did_not_link :: "string \<Rightarrow> string" where
  "without_did_not_link detail =
     replace_str '' WhatsApp did not link.'' [] (replace_str '' Signal did not link.'' [] detail)"

definition note_signal_failure :: "string \<Rightarrow> snapshot \<Rightarrow> snapshot" where
  "note_signal_failure detail s =
     (if sn_signal_inbox_open s
      then if starts_with ''Signal send failed'' detail \<and>
              (case sn_error s of Some error \<Rightarrow> ue_happened error = ''Message not sent.'' | None \<Rightarrow> False)
           then s else command_failed (primary Signal) None detail s
      else set_error
        (if protocol_linked (primary Signal) s then ''Signal did not finish opening the inbox.''
         else ''Signal linking failed.'') detail ''Start linking again.'' s)"

definition WHATSAPP_QR_EXHAUSTED :: string where
  "WHATSAPP_QR_EXHAUSTED = ''WhatsApp QR codes expired. Click Get new code.''"

text \<open>The parts of a status that is not a line about previous numbers: the row, the screens of Signal and
  WhatsApp, what an error ends, and the line of Telegram.\<close>

definition status_of_row :: "protocol_id \<Rightarrow> adapter_status \<Rightarrow> string \<Rightarrow> bool \<Rightarrow> snapshot \<Rightarrow> snapshot" where
  "status_of_row protocol status detail saved =
     change_live_row protocol (\<lambda>row.
       let row = row\<lparr>ar_status := status, ar_detail := detail, ar_store_access := None\<rparr>
       in if saved \<and> stores_left_in_place detail
          then row\<lparr>ar_state := Linked, ar_store_access := Some MoveFailed\<rparr> else row)"

definition status_of_screens ::
    "(protocol_kind \<Rightarrow> bool) \<Rightarrow> protocol_id \<Rightarrow> adapter_status \<Rightarrow> string \<Rightarrow> snapshot \<Rightarrow> snapshot" where
  "status_of_screens built protocol status detail s =
     (let s = (if built Signal \<and> protocol = sn_signal_link_account s
               then s\<lparr>sn_signal_inbox_open := (status = Ready \<or> sn_signal_inbox_open s),
                      sn_signal_checking := (detail = SIGNAL_LINK_CHECK)\<rparr>
               else s)
      in if built WhatsApp \<and> protocol = sn_whatsapp_link_account s \<and> status = StError \<and>
            detail = WHATSAPP_QR_EXHAUSTED
         then whatsapp_codes_used_up s else s)"

definition status_error ::
    "(protocol_kind \<Rightarrow> bool) \<Rightarrow> protocol_id \<Rightarrow> adapter_status \<Rightarrow> string \<Rightarrow> snapshot \<Rightarrow> snapshot" where
  "status_error built protocol status detail s =
     (if status \<notin> {StError, StRefused} then s
      else
        let s = stop_spinners protocol None s
        in if built Signal \<and> protocol = sn_signal_link_account s
           then if detail = SIGNAL_DEVICE_REMOVED then s\<lparr>sn_signal_removed := True\<rparr>
                else if sn_signal_started s then note_signal_failure detail s else s
           else s)"

definition status_of_telegram :: "protocol_id \<Rightarrow> adapter_status \<Rightarrow> string \<Rightarrow> snapshot \<Rightarrow> snapshot" where
  "status_of_telegram protocol status detail s =
     (if pid_is protocol Telegram \<and> status \<in> {StError, StRefused, Ready}
      then
        let s = s\<lparr>sn_ready_status := (if status = Ready then Some detail else None),
                  sn_failure_status := (if status \<noteq> Ready then Some detail else None),
                  sn_status_text := detail\<rparr>
        in if status = Ready then s
           else (if sn_auth s \<noteq> AuthIdle then s\<lparr>sn_auth_busy := False\<rparr> else s)\<lparr>sn_resume := Settled\<rparr>
      else s)"

definition plain_status ::
    "(protocol_kind \<Rightarrow> bool) \<Rightarrow> protocol_id \<Rightarrow> adapter_status \<Rightarrow> string \<Rightarrow> snapshot \<Rightarrow> snapshot" where
  "plain_status built protocol status detail s =
     (let saved = has_session protocol s;
          detail = (if saved \<and> contains_str ''did not link'' detail then without_did_not_link detail else detail)
      in status_of_telegram protocol status detail (status_error built protocol status detail
           (status_of_screens built protocol status detail (status_of_row protocol status detail saved s))))"

definition status_event ::
    "(protocol_kind \<Rightarrow> bool) \<Rightarrow> protocol_id \<Rightarrow> adapter_status \<Rightarrow> string \<Rightarrow> snapshot \<Rightarrow> snapshot" where
  "status_event built protocol status detail s =
     (if pid_is protocol Signal \<and> pid_slot protocol \<noteq> 0 \<and> is_signal_retained_line detail then s
      else if protocol = primary Signal \<and> detail = SIGNAL_PREVIOUS_ACCOUNT then retire_live_signal_chats built s
      else if pid_is protocol Signal \<and> detail = SIGNAL_RETAINED_RESET then s\<lparr>sn_retained_publish := Some {}\<rparr>
      else if protocol = primary Signal \<and> detail = SIGNAL_RETAINED_SETTLED then settle_retained_publish built s
      else case (if pid_is protocol Signal then signal_retained_unreadable_slot detail else None) of
          Some slot \<Rightarrow> keep_unreadable_retained_slot slot s
        | None \<Rightarrow> plain_status built protocol status detail s)"

definition account_ended_event :: "(protocol_kind \<Rightarrow> bool) \<Rightarrow> protocol_id \<Rightarrow> snapshot \<Rightarrow> snapshot" where
  "account_ended_event built protocol s =
     (let s = s\<lparr>sn_ended_accounts := sn_ended_accounts s @ [protocol]\<rparr>;
          s = (if protocol = primary Signal then s\<lparr>sn_retained_publish := None\<rparr> else s)
      in if built Signal \<and> protocol = sn_signal_link_account s
         then clear_linked_signal_status (s\<lparr>sn_signal_removed := True, sn_signal_checking := False\<rparr>) else s)"

definition take_ended_accounts :: "snapshot \<Rightarrow> protocol_id list \<times> snapshot" where
  "take_ended_accounts s = (sn_ended_accounts s, s\<lparr>sn_ended_accounts := []\<rparr>)"

section \<open>The history of previous numbers as it is published\<close>

text \<open>What the adapters report about chats and rows, and a further account of the user.\<close>

datatype row_event =
  ChatRow conversation | ChatGone protocol_id string | StatusLine protocol_id adapter_status string
| NewAccount protocol_id

fun row_step :: "(protocol_kind \<Rightarrow> bool) \<Rightarrow> row_event \<Rightarrow> snapshot \<Rightarrow> snapshot" where
  "row_step built (ChatRow row) s = conversation_upsert built row s"
| "row_step built (ChatGone p i) s = remove_conversation built p i s"
| "row_step built (StatusLine p status detail) s = status_event built p status detail s"
| "row_step built (NewAccount a) s = snd (add_account_row a s)"

text \<open>The previous numbers that an event names, and the lines that open and close a publish.\<close>

fun published_by :: "row_event \<Rightarrow> nat set" where
  "published_by (ChatRow row) =
     (if cv_protocol row = primary Signal then set_option (signal_retained_slot (cv_id row)) else {})"
| "published_by (StatusLine p status detail) =
     (if p = primary Signal then set_option (signal_retained_unreadable_slot detail) else {})"
| "published_by _ = {}"

fun opens_publish :: "row_event \<Rightarrow> bool" where
  "opens_publish (StatusLine p status detail) \<longleftrightarrow>
     p = primary Signal \<and> detail \<in> {SIGNAL_RETAINED_RESET, SIGNAL_RETAINED_SETTLED}"
| "opens_publish _ \<longleftrightarrow> False"

definition same_keys :: "snapshot \<Rightarrow> snapshot \<Rightarrow> bool" where
  "same_keys s s' \<longleftrightarrow> map row_key (sn_accounts s') = map row_key (sn_accounts s) \<and>
     sn_retained_publish s' = sn_retained_publish s"

lemma same_keys_trans: "same_keys s s' \<Longrightarrow> same_keys s' s'' \<Longrightarrow> same_keys s s''"
  by (simp add: same_keys_def)

lemma same_keys_live:
  assumes "\<And>row. row_key (f row) = row_key row"
  shows "same_keys s (change_live_row p f s)"
proof -
  have "map row_key (update_first P f rows) = map row_key rows" for P rows
    by (rule map_update_first) (rule assms)
  then show ?thesis by (simp add: same_keys_def change_live_row_def)
qed

lemma same_keys_row: "same_keys s (status_of_row p status detail saved s)"
  unfolding status_of_row_def by (rule same_keys_live) (simp add: row_key_def row_id_def Let_def)

lemma same_keys_screens: "same_keys s (status_of_screens built p status detail s)"
  by (simp add: status_of_screens_def same_keys_def whatsapp_codes_used_up_def Let_def)

lemma same_keys_failure: "same_keys s (note_signal_failure detail s)"
  by (simp add: note_signal_failure_def command_failed_def set_error_def stop_spinners_def same_keys_def)

lemma same_keys_stop: "same_keys s (stop_spinners p None s)"
  by (simp add: stop_spinners_def same_keys_def)

lemma same_keys_error: "same_keys s (status_error built p status detail s)"
proof -
  have "same_keys s (s\<lparr>sn_signal_removed := True\<rparr>)" for s by (simp add: same_keys_def)
  then show ?thesis
    using same_keys_trans [OF same_keys_stop same_keys_failure] same_keys_trans [OF same_keys_stop [of s p]] same_keys_stop [of s p]
    by (simp add: status_error_def Let_def) (simp add: same_keys_def)
qed

lemma same_keys_telegram: "same_keys s (status_of_telegram p status detail s)"
  by (simp add: status_of_telegram_def same_keys_def Let_def)

lemma same_keys_plain: "same_keys s (plain_status built p status detail s)"
  unfolding plain_status_def Let_def
  by (rule same_keys_trans [OF same_keys_trans [OF same_keys_trans [OF same_keys_row same_keys_screens]
    same_keys_error] same_keys_telegram])

definition rows_live :: "snapshot \<Rightarrow> bool" where
  "rows_live s \<longleftrightarrow> rows_ok (sn_accounts s) \<and> first_signal (sn_accounts s) \<noteq> None"

lemma same_keys_live_rows:
  "same_keys s s' \<Longrightarrow> rows_live s' = rows_live s \<and> retained_slots (sn_accounts s') = retained_slots (sn_accounts s)"
  using rows_ok_keys [of "sn_accounts s'" "sn_accounts s"] first_signal_keys [of "sn_accounts s'" "sn_accounts s"]
  by (simp add: same_keys_def rows_live_def)

lemma unreadable_detail_slot:
  assumes "0 < n" "n < 2 ^ 32"
  shows "signal_retained_unreadable_slot (signal_retained_unreadable_detail n) = Some n"
proof -
  have "list_all is_digit (show_nat n)" using show_nat_digits by (auto simp: list_all_iff)
  moreover have "strip_prefix '' '' (CHR '' '' # show_nat n) = Some (show_nat n)"
    by (simp add: strip_prefix_def starts_with_def)
  ultimately show ?thesis
    using assms show_nat_shortest [OF assms(1)]
    by (simp add: signal_retained_unreadable_slot_def signal_retained_unreadable_detail_def shortest_def
        parse_u32_shortest parse_digits_show_nat positive_def)
qed

text \<open>The fixed lines name no number.\<close>

lemma fixed_lines_name_none:
  "signal_retained_unreadable_slot SIGNAL_PREVIOUS_ACCOUNT = None"
  "signal_retained_unreadable_slot SIGNAL_RETAINED_RESET = None"
  "signal_retained_unreadable_slot SIGNAL_RETAINED_SETTLED = None"
  by code_simp+

lemma add_account_slots:
  assumes "rows_live s"
  shows "rows_live (snd (add_account_row a s)) \<and>
    set (retained_slots (sn_accounts (snd (add_account_row a s)))) = set (retained_slots (sn_accounts s)) \<and>
    sn_retained_publish (snd (add_account_row a s)) = sn_retained_publish s"
proof -
  have slots: "set (retained_slots (list_insert_at n row rows)) = set (retained_slots rows)"
    if "ar_signal_retained row = None" for n row and rows :: "account_row list"
  proof -
    have "retained_slots rows = retained_slots (take n rows @ drop n rows)" by simp
    then show ?thesis using that by (simp add: list_insert_at_def del: append_take_drop_id)
  qed
  have first: "first_signal (list_insert_at n row rows) \<noteq> None" if "first_signal rows \<noteq> None"
    for n row and rows :: "account_row list"
  proof -
    have "first_signal rows = first_signal (take n rows @ drop n rows)" by simp
    then show ?thesis using that
      by (auto simp: first_signal_def list_insert_at_def find_append simp del: append_take_drop_id split: option.splits)
  qed
  show ?thesis
    using assms add_account_rows [of s a]
    by (auto simp: rows_live_def add_account_row_def Let_def slots first simp del: not_None_eq split: option.splits)
qed

lemma empty_union_option: "map_option ((\<union>) {}) x = x" for x :: "'a set option"
  by (cases x) auto

lemma row_step_publishes:
  assumes "rows_live s" "\<not> opens_publish e"
  shows "rows_live (row_step built e s) \<and>
    set (retained_slots (sn_accounts (row_step built e s))) = published_by e \<union> set (retained_slots (sn_accounts s)) \<and>
    sn_retained_publish (row_step built e s) = map_option (\<lambda>p. published_by e \<union> p) (sn_retained_publish s)"
proof -
  have rows: "rows_ok (sn_accounts s)" "first_signal (sn_accounts s) \<noteq> None" using assms(1) by (simp_all add: rows_live_def)
  note named = rows_publish_note [OF rows, unfolded rows_publish_def]
  have insert: "map_option (insert n) x = map_option ((\<union>) {n}) x" for n and x :: "nat set option" by (cases x) auto
  have same: ?thesis if "same_keys s (row_step built e s)" "published_by e = {}"
    using same_keys_live_rows [OF that(1)] that assms(1) by (simp add: same_keys_def option.map_ident)
  show ?thesis
  proof (cases e)
    case (ChatRow row)
    show ?thesis
    proof (cases "cv_protocol row = primary Signal \<and> signal_retained_slot (cv_id row) \<noteq> None")
      case True
      then show ?thesis
        using named(1) by (auto simp: ChatRow conversation_upsert_rows rows_live_def insert)
    next
      case False
      then show ?thesis
        using assms(1) by (auto simp: ChatRow conversation_upsert_rows rows_live_def empty_union_option split: option.split)
    qed
  next
    case (StatusLine p status detail)
    have plain: "same_keys s (plain_status built p status detail s)" by (rule same_keys_plain)
    have refl: "same_keys s s" by (simp add: same_keys_def)
    show ?thesis
    proof (cases "p = primary Signal")
      case True
      have "\<not> pid_slot p \<noteq> 0" "pid_is p Signal" "detail \<noteq> SIGNAL_RETAINED_RESET" "detail \<noteq> SIGNAL_RETAINED_SETTLED"
        using True assms(2) by (simp_all add: StatusLine pid_is_def primary_def)
      then have step: "row_step built e s =
          (if detail = SIGNAL_PREVIOUS_ACCOUNT then retire_live_signal_chats built s
           else case signal_retained_unreadable_slot detail of
             Some slot \<Rightarrow> keep_unreadable_retained_slot slot s | None \<Rightarrow> plain_status built p status detail s)"
        using True by (simp add: StatusLine status_event_def split: option.split)
      consider "detail = SIGNAL_PREVIOUS_ACCOUNT" | n where "detail \<noteq> SIGNAL_PREVIOUS_ACCOUNT"
          "signal_retained_unreadable_slot detail = Some n"
        | "detail \<noteq> SIGNAL_PREVIOUS_ACCOUNT" "signal_retained_unreadable_slot detail = None"
        by (cases "signal_retained_unreadable_slot detail") auto
      then show ?thesis
      proof cases
        case 1
        then have retired: "row_step built e s = retire_live_signal_chats built s" using step by simp
        have "published_by e = {}" using 1 fixed_lines_name_none(1) by (simp add: StatusLine)
        moreover have "same_keys s (row_step built e s)" unfolding retired by (simp add: same_keys_def)
        ultimately show ?thesis by (intro same)
      next
        case 2
        then show ?thesis using named(2) [of n] True unfolding step by (simp add: StatusLine rows_live_def insert)
      next
        case 3
        then have shown: "row_step built e s = plain_status built p status detail s" using step by simp
        have "published_by e = {}" using 3 by (simp add: StatusLine)
        moreover have "same_keys s (row_step built e s)" unfolding shown by (rule plain)
        ultimately show ?thesis by (intro same)
      qed
    next
      case False
      then have "pid_is p Signal \<longrightarrow> pid_slot p \<noteq> 0" by (auto simp: pid_is_def is_primary)
      then have "row_step built e s = s \<or> row_step built e s = plain_status built p status detail s"
        using False by (auto simp: StatusLine status_event_def is_signal_retained_line_def split: option.split)
      then show ?thesis using plain refl False by (intro same) (auto simp: StatusLine)
    qed
  next
    case (NewAccount a)
    then show ?thesis using add_account_slots [OF assms(1)] by (simp add: option.map_ident)
  qed (use assms in \<open>simp add: rows_live_def empty_union_option option.map_ident\<close>)
qed


lemma publish_run:
  "rows_live s \<Longrightarrow> \<forall>e \<in> set es. \<not> opens_publish e \<Longrightarrow>
     rows_live (fold (row_step built) es s) \<and>
     set (retained_slots (sn_accounts (fold (row_step built) es s))) =
       (\<Union>e \<in> set es. published_by e) \<union> set (retained_slots (sn_accounts s)) \<and>
     sn_retained_publish (fold (row_step built) es s) =
       map_option (\<lambda>p. (\<Union>e \<in> set es. published_by e) \<union> p) (sn_retained_publish s)"
proof (induction es arbitrary: s)
  case (Cons e es)
  then have step: "rows_live (row_step built e s) \<and>
    set (retained_slots (sn_accounts (row_step built e s))) = published_by e \<union> set (retained_slots (sn_accounts s)) \<and>
    sn_retained_publish (row_step built e s) = map_option (\<lambda>p. published_by e \<union> p) (sn_retained_publish s)"
    by (intro row_step_publishes) simp_all
  with Cons have "rows_live (fold (row_step built) es (row_step built e s)) \<and>
     set (retained_slots (sn_accounts (fold (row_step built) es (row_step built e s)))) =
       (\<Union>e \<in> set es. published_by e) \<union> set (retained_slots (sn_accounts (row_step built e s))) \<and>
     sn_retained_publish (fold (row_step built) es (row_step built e s)) =
       map_option (\<lambda>p. (\<Union>e \<in> set es. published_by e) \<union> p) (sn_retained_publish (row_step built e s))"
    by (intro Cons.IH) simp_all
  with step show ?case by (cases "sn_retained_publish s") auto
qed (simp add: empty_union_option option.map_ident)

lemma reset_rows:
  "sn_accounts (row_step built (StatusLine (primary Signal) st SIGNAL_RETAINED_RESET) s) = sn_accounts s"
  "sn_retained_publish (row_step built (StatusLine (primary Signal) st SIGNAL_RETAINED_RESET) s) = Some {}"
proof -
  have "SIGNAL_RETAINED_RESET \<noteq> SIGNAL_PREVIOUS_ACCOUNT" by code_simp
  then show "sn_accounts (row_step built (StatusLine (primary Signal) st SIGNAL_RETAINED_RESET) s) = sn_accounts s"
    "sn_retained_publish (row_step built (StatusLine (primary Signal) st SIGNAL_RETAINED_RESET) s) = Some {}"
    by (simp_all add: status_event_def pid_is_def)
qed

lemma settled_step:
  "row_step built (StatusLine (primary Signal) st SIGNAL_RETAINED_SETTLED) s = settle_retained_publish built s"
proof -
  have "SIGNAL_RETAINED_SETTLED \<noteq> SIGNAL_PREVIOUS_ACCOUNT" "SIGNAL_RETAINED_SETTLED \<noteq> SIGNAL_RETAINED_RESET"
    by code_simp+
  then show ?thesis by (simp add: status_event_def)
qed

lemma sorted_desc_unique: "sorted_wrt (\<lambda>a b. b < a) xs \<Longrightarrow> xs = rev (sorted_list_of_set (set xs))"
  for xs :: "nat list"
proof -
  assume "sorted_wrt (\<lambda>a b. b < a) xs"
  then have "sorted_wrt (<) (rev xs)" by (simp add: sorted_wrt_rev)
  then have "sorted_list_of_set (set (rev xs)) = rev xs"
    using strict_sorted_iff sorted_list_of_set.idem_if_sorted_distinct by blast
  then show ?thesis by simp
qed

definition signal_publish :: "(protocol_kind \<Rightarrow> bool) \<Rightarrow> adapter_status \<Rightarrow> row_event list \<Rightarrow> snapshot \<Rightarrow> snapshot" where
  "signal_publish built st es s =
     fold (row_step built)
       (StatusLine (primary Signal) st SIGNAL_RETAINED_RESET # es @
        [StatusLine (primary Signal) st SIGNAL_RETAINED_SETTLED]) s"


definition demo_signal :: snapshot where
  "demo_signal = snapshot_new demo_source [demo_caps (primary Telegram), demo_caps (primary Signal)]"


section \<open>What the end of a session leaves\<close>

lemma retain_keys: "hm_get (hm_retain (\<lambda>key _. P key) m) key = (if P key then hm_get m key else None)"
  by (simp add: hm_retain_def hm_get_filter_keys)

definition kept_text ::
    "protocol_id \<Rightarrow> (string \<times> message_topic option \<times> string) list \<Rightarrow> thread \<Rightarrow> string option" where
  "kept_text p keep key = map_of (rev (map (\<lambda>(chat, topic, text). ((p, chat, topic), text)) keep)) key"

lemma kept_text_other: "fst key \<noteq> p \<Longrightarrow> kept_text p keep key = None"
  by (auto simp: kept_text_def map_of_eq_None_iff)

lemma keep_drafts_get:
  "hm_get (keep_drafts p keep drafts) key =
     (case kept_text p keep key of Some text \<Rightarrow> Some text
      | None \<Rightarrow> if fst key = p then None else hm_get drafts key)"
proof (induction keep rule: rev_induct)
  case Nil
  then show ?case by (simp add: keep_drafts_def kept_text_def retain_keys)
next
  case (snoc entry keep)
  obtain chat topic body where e: "entry = (chat, topic, body)" by (cases entry)
  have "keep_drafts p (keep @ [entry]) drafts = hm_insert (p, chat, topic) body (keep_drafts p keep drafts)"
    by (simp add: keep_drafts_def e)
  then show ?case using snoc.IH by (simp add: kept_text_def e split: option.split)
qed

text \<open>Nothing of the account is shown, loads or waits.\<close>

definition nothing_left :: "protocol_id \<Rightarrow> snapshot \<Rightarrow> bool" where
  "nothing_left p s \<longleftrightarrow>
     conversation_rows p s = [] \<and>
     (\<forall>key. fst key = p \<longrightarrow> hm_get (sn_messages s) key = None \<and> hm_get (sn_attachments s) key = None) \<and>
     (\<forall>key. fst key = p \<longrightarrow> hm_get (sn_rejected_bodies s) key = None \<and> hm_get (sn_topics s) key = None \<and>
       hm_get (sn_outbox_read s) key = None) \<and>
     p \<notin> sn_chat_list_loading s \<and> p \<notin> sn_list_on_link s \<and> (\<forall>key \<in> sn_history_loading s. fst key \<noteq> p) \<and>
     (\<forall>key \<in> sn_older_loading s. fst key \<noteq> p) \<and>
     (\<forall>key \<in> sn_photo_downloads s \<union> sn_file_downloads s. fst key \<noteq> p) \<and> (\<forall>c \<in> set (sn_pending s). \<not> downloads_of p c) \<and>
     (\<forall>entry \<in> set (sn_timed_out s). tm_protocol entry \<noteq> p) \<and>
     (\<forall>key \<in> fst ` set (st_open (sn_sends s)). fst key \<noteq> p) \<and>
     (\<forall>key \<in> fst ` set (st_expired (sn_sends s)). fst key \<noteq> p)"

definition before_leave :: "(protocol_kind \<Rightarrow> bool) \<Rightarrow> protocol_id \<Rightarrow> snapshot \<Rightarrow> snapshot" where
  "before_leave built p s =
     (let s = (change_live_row p (\<lambda>row. row\<lparr>ar_state := Unlinked\<rparr>) s)\<lparr>sn_sessions := sn_sessions s - {p}\<rparr>
      in end_pairings_of built p (drop_sends_of p (drop_loads_of p (drop_messages_of p
           (drop_texts_of p (session_end_keeps p s) (drop_chats_of built p s))))))"

lemma end_session_leave: "end_session built p s = leave_account built p (before_leave built p s)"
  by (simp add: end_session_def before_leave_def Let_def)

text \<open>The kept texts are read from the texts, the messages and the sends only.\<close>

lemma keeps_read:
  assumes "sn_messages s' = sn_messages s" "sn_drafts s' = sn_drafts s" "sn_compose s' = sn_compose s"
    "sn_selected_protocol s' = sn_selected_protocol s" "sn_selected_conversation s' = sn_selected_conversation s"
    "sn_selected_topic s' = sn_selected_topic s" "sn_sends s' = sn_sends s"
    "sn_rejected_bodies s' = sn_rejected_bodies s"
  shows "texts_to_keep_on_session_end p s' = texts_to_keep_on_session_end p s"
proof -
  have current: "current_text p c t s' = current_text p c t s" for c t
    by (simp add: current_text_def is_selected_thread_def is_selected_chat_def assms)
  then have rejected: "text_to_keep p c r s' = text_to_keep p c r s" for c r by (simp add: text_to_keep_def)
  have "message_bucket p c i s' = message_bucket p c i s" for c i by (simp add: message_bucket_def assms(1))
  moreover have "thread_rows key s' = thread_rows key s" for key by (simp add: thread_rows_def assms(1))
  ultimately have "message_body p c i s' = message_body p c i s" "retry_topic p c i s' = retry_topic p c i s" for c i
    by (simp_all add: message_body_def find_message_def retry_topic_def cong: option.case_cong)
  then have "pending_text p s' = pending_text p s" by (intro ext) (simp add: pending_text_def current split: option.split pending.split)
  then show ?thesis by (simp add: texts_to_keep_on_session_end_def pending_texts_to_keep_def rejected assms cong: if_cong)
qed

lemma session_end_keeps_row:
  "p \<noteq> primary Signal \<Longrightarrow>
     session_end_keeps p ((change_live_row p f s)\<lparr>sn_sessions := x\<rparr>) = session_end_keeps p s"
  using keeps_read [of "(change_live_row p f s)\<lparr>sn_sessions := x\<rparr>" s p]
  by (simp add: session_end_keeps_def change_live_row_def)

lemma end_pairings_fields [simp]:
  "sn_conversations (end_pairings_of built p s) = sn_conversations s"
  "sn_messages (end_pairings_of built p s) = sn_messages s"
  "sn_attachments (end_pairings_of built p s) = sn_attachments s"
  "sn_rejected_bodies (end_pairings_of built p s) = sn_rejected_bodies s"
  "sn_topics (end_pairings_of built p s) = sn_topics s"
  "sn_outbox_read (end_pairings_of built p s) = sn_outbox_read s"
  "sn_chat_list_loading (end_pairings_of built p s) = sn_chat_list_loading s"
  "sn_list_on_link (end_pairings_of built p s) = sn_list_on_link s"
  "sn_history_loading (end_pairings_of built p s) = sn_history_loading s"
  "sn_older_loading (end_pairings_of built p s) = sn_older_loading s"
  "sn_photo_downloads (end_pairings_of built p s) = sn_photo_downloads s"
  "sn_file_downloads (end_pairings_of built p s) = sn_file_downloads s"
  "sn_pending (end_pairings_of built p s) = sn_pending s"
  "sn_timed_out (end_pairings_of built p s) = sn_timed_out s"
  "sn_sends (end_pairings_of built p s) = sn_sends s" "sn_drafts (end_pairings_of built p s) = sn_drafts s"
  "sn_compose (end_pairings_of built p s) = sn_compose s" "sn_editing (end_pairings_of built p s) = sn_editing s"
  "sn_selected_protocol (end_pairings_of built p s) = sn_selected_protocol s"
  "sn_selected_conversation (end_pairings_of built p s) = sn_selected_conversation s"
  "sn_selected_topic (end_pairings_of built p s) = sn_selected_topic s"
  by (simp_all add: end_pairings_of_def stop_whatsapp_pairing_def end_pairing_def end_signal_pairing_def Let_def)


text \<open>What leaving the account cannot touch.\<close>

definition same_stores :: "snapshot \<Rightarrow> snapshot \<Rightarrow> bool" where
  "same_stores s s' \<longleftrightarrow>
     sn_conversations s' = sn_conversations s \<and> sn_messages s' = sn_messages s \<and>
     sn_attachments s' = sn_attachments s \<and> sn_rejected_bodies s' = sn_rejected_bodies s \<and>
     sn_topics s' = sn_topics s \<and> sn_outbox_read s' = sn_outbox_read s \<and>
     sn_chat_list_loading s' = sn_chat_list_loading s \<and> sn_list_on_link s' = sn_list_on_link s \<and>
     sn_older_loading s' = sn_older_loading s \<and>
     sn_photo_downloads s' = sn_photo_downloads s \<and> sn_file_downloads s' = sn_file_downloads s \<and>
     sn_timed_out s' = sn_timed_out s \<and> sn_sends s' = sn_sends s"

text \<open>Opening a chat asks for chats of the inbox only.\<close>

definition loads_listed :: "snapshot \<Rightarrow> snapshot \<Rightarrow> bool" where
  "loads_listed s s' \<longleftrightarrow>
     (\<forall>key \<in> sn_history_loading s' - sn_history_loading s. conversation_rows (fst key) s \<noteq> []) \<and>
     (\<forall>c \<in> set (sn_pending s') - set (sn_pending s). \<forall>p. \<not> downloads_of p c)"

lemma same_stores_trans: "same_stores s s' \<Longrightarrow> same_stores s' s'' \<Longrightarrow> same_stores s s''"
  by (simp add: same_stores_def)

lemma selection_stores:
  "same_stores s (set_selection i topic s)" "sn_history_loading (set_selection i topic s) = sn_history_loading s"
  "sn_pending (set_selection i topic s) = sn_pending s"
  by (simp_all add: same_stores_def set_selection_def take_draft_def park_draft_def cancel_edit_def split: option.split)

lemma queue_stores: "same_stores s (queue_open_chat s) \<and> loads_listed s (queue_open_chat s)"
proof -
  have "conversation_rows p (s\<lparr>sn_open_on_link := x\<rparr>) = conversation_rows p s" for p x
    by (simp add: conversation_rows_def)
  then show ?thesis
    by (auto simp: same_stores_def loads_listed_def queue_open_chat_def push_command_def downloads_of_def list_ex_iff
        Let_def split: option.split)
qed

lemma ensure_stores:
  "same_stores s (ensure_conversation_selection s) \<and> loads_listed s (ensure_conversation_selection s)"
proof -
  have "same_stores s (queue_open_chat (set_selection i topic s)) \<and> loads_listed s (queue_open_chat (set_selection i topic s))"
    for i topic
    using queue_stores [of "set_selection i topic s"] selection_stores [where s = s and i = i and topic = topic]
    by (auto simp: same_stores_def loads_listed_def conversation_rows_def)
  then show ?thesis
    by (simp add: ensure_conversation_selection_def set_selected_conversation_def Let_def split: option.split)
      (simp add: same_stores_def loads_listed_def)
qed

lemma select_stores:
  "same_stores s (select_protocol built p s) \<and> loads_listed s (select_protocol built p s)"
proof -
  let ?s = "(set_selection None None s)\<lparr>sn_selected_protocol := p, sn_selected_signal_retained := None, sn_focused_row := None\<rparr>"
  have "same_stores s ?s" "sn_history_loading ?s = sn_history_loading s" "sn_pending ?s = sn_pending s"
    using selection_stores [where s = s and i = None and topic = None] by (simp_all add: same_stores_def)
  moreover have "same_stores s s" "loads_listed s s" by (simp_all add: same_stores_def loads_listed_def)
  ultimately show ?thesis
    using ensure_stores [of ?s]
    by (auto simp: select_protocol_def set_selected_conversation_def same_stores_def loads_listed_def conversation_rows_def)
qed

lemma leave_stores:
  assumes "p \<noteq> primary Signal"
  shows "same_stores s (leave_account built p s) \<and> loads_listed s (leave_account built p s)"
proof -
  let ?s = "s\<lparr>sn_compose := [], sn_selected_conversation := None\<rparr>"
  have "same_stores s s'" "loads_listed s s'" if "same_stores ?s s'" "loads_listed ?s s'" for s'
    using that by (simp_all add: same_stores_def loads_listed_def conversation_rows_def)
  moreover have "same_stores s s" "loads_listed s s" "same_stores s ?s" "loads_listed s ?s"
    by (simp_all add: same_stores_def loads_listed_def)
  ultimately show ?thesis
    using select_stores [of ?s] assms by (auto simp: leave_account_def Let_def split: option.split)
qed


lemma show_timeouts_fields [simp]:
  "sn_conversations (show_timeouts s) = sn_conversations s" "sn_messages (show_timeouts s) = sn_messages s"
  "sn_attachments (show_timeouts s) = sn_attachments s" "sn_rejected_bodies (show_timeouts s) = sn_rejected_bodies s"
  "sn_topics (show_timeouts s) = sn_topics s" "sn_outbox_read (show_timeouts s) = sn_outbox_read s"
  "sn_chat_list_loading (show_timeouts s) = sn_chat_list_loading s"
  "sn_list_on_link (show_timeouts s) = sn_list_on_link s" "sn_history_loading (show_timeouts s) = sn_history_loading s"
  "sn_photo_downloads (show_timeouts s) = sn_photo_downloads s"
  "sn_file_downloads (show_timeouts s) = sn_file_downloads s" "sn_pending (show_timeouts s) = sn_pending s"
  "sn_drafts (show_timeouts s) = sn_drafts s" "sn_compose (show_timeouts s) = sn_compose s"
  "sn_editing (show_timeouts s) = sn_editing s" "sn_selected_protocol (show_timeouts s) = sn_selected_protocol s"
  "sn_selected_conversation (show_timeouts s) = sn_selected_conversation s"
  "sn_selected_topic (show_timeouts s) = sn_selected_topic s" "sn_timed_out (show_timeouts s) = sn_timed_out s"
  "sn_sends (show_timeouts s) = sn_sends s" "sn_older_loading (show_timeouts s) = sn_older_loading s"
  by (simp_all add: show_timeouts_def)

lemma drop_sends_fields [simp]:
  "sn_conversations (drop_sends_of p s) = sn_conversations s" "sn_messages (drop_sends_of p s) = sn_messages s"
  "sn_attachments (drop_sends_of p s) = sn_attachments s"
  "sn_rejected_bodies (drop_sends_of p s) = sn_rejected_bodies s" "sn_topics (drop_sends_of p s) = sn_topics s"
  "sn_outbox_read (drop_sends_of p s) = sn_outbox_read s"
  "sn_chat_list_loading (drop_sends_of p s) = sn_chat_list_loading s"
  "sn_list_on_link (drop_sends_of p s) = sn_list_on_link s"
  "sn_history_loading (drop_sends_of p s) = sn_history_loading s"
  "sn_photo_downloads (drop_sends_of p s) = sn_photo_downloads s"
  "sn_file_downloads (drop_sends_of p s) = sn_file_downloads s" "sn_pending (drop_sends_of p s) = sn_pending s"
  "sn_drafts (drop_sends_of p s) = sn_drafts s" "sn_compose (drop_sends_of p s) = sn_compose s"
  "sn_editing (drop_sends_of p s) = sn_editing s" "sn_selected_protocol (drop_sends_of p s) = sn_selected_protocol s"
  "sn_selected_conversation (drop_sends_of p s) = sn_selected_conversation s"
  "sn_selected_topic (drop_sends_of p s) = sn_selected_topic s"
  by (simp_all add: drop_sends_of_def end_telegram_send_def forget_older_protocol_def forget_older_def Let_def)

lemma drop_sends_ends [simp]:
  "sn_sends (drop_sends_of p s) = drop_protocol p (sn_sends s)"
  "sn_timed_out (drop_sends_of p s) = filter (\<lambda>entry. tm_protocol entry \<noteq> p) (sn_timed_out s)"
  "sn_older_loading (drop_sends_of p s) = {key \<in> sn_older_loading s. fst key \<noteq> p}"
  by (simp_all add: drop_sends_of_def end_telegram_send_def forget_older_protocol_def forget_older_def Let_def)

lemma change_live_fields [simp]:
  "sn_conversations (change_live_row p f s) = sn_conversations s" "sn_messages (change_live_row p f s) = sn_messages s"
  "sn_attachments (change_live_row p f s) = sn_attachments s"
  "sn_rejected_bodies (change_live_row p f s) = sn_rejected_bodies s" "sn_topics (change_live_row p f s) = sn_topics s"
  "sn_outbox_read (change_live_row p f s) = sn_outbox_read s"
  "sn_chat_list_loading (change_live_row p f s) = sn_chat_list_loading s"
  "sn_list_on_link (change_live_row p f s) = sn_list_on_link s"
  "sn_history_loading (change_live_row p f s) = sn_history_loading s"
  "sn_photo_downloads (change_live_row p f s) = sn_photo_downloads s"
  "sn_file_downloads (change_live_row p f s) = sn_file_downloads s" "sn_pending (change_live_row p f s) = sn_pending s"
  "sn_drafts (change_live_row p f s) = sn_drafts s" "sn_compose (change_live_row p f s) = sn_compose s"
  "sn_editing (change_live_row p f s) = sn_editing s"
  "sn_selected_protocol (change_live_row p f s) = sn_selected_protocol s"
  "sn_selected_conversation (change_live_row p f s) = sn_selected_conversation s"
  "sn_selected_topic (change_live_row p f s) = sn_selected_topic s"
  "sn_timed_out (change_live_row p f s) = sn_timed_out s" "sn_sends (change_live_row p f s) = sn_sends s"
  "sn_older_loading (change_live_row p f s) = sn_older_loading s"
  by (simp_all add: change_live_row_def)

lemma before_leave_fields:
  assumes "p \<noteq> primary Signal"
  shows "sn_conversations (before_leave built p s) = hm_remove p (sn_conversations s)"
    "sn_messages (before_leave built p s) = hm_retain (\<lambda>key _. fst key \<noteq> p) (sn_messages s)"
    "sn_drafts (before_leave built p s) = keep_drafts p (session_end_keeps p s) (sn_drafts s)"
    "sn_compose (before_leave built p s) = sn_compose s" "sn_editing (before_leave built p s) = sn_editing s"
    "sn_selected_protocol (before_leave built p s) = sn_selected_protocol s"
    "sn_selected_conversation (before_leave built p s) = sn_selected_conversation s"
    "sn_selected_topic (before_leave built p s) = (if sn_selected_protocol s = p then None else sn_selected_topic s)"
  using assms
  by (simp_all add: before_leave_def session_end_keeps_row Let_def drop_loads_of_def drop_messages_of_def
      drop_texts_of_def drop_chats_of_def)

lemma before_leave_nothing:
  assumes "p \<noteq> primary Signal"
  shows "nothing_left p (before_leave built p s)"
proof -
  show ?thesis
    using assms
    by (simp add: nothing_left_def before_leave_def Let_def drop_loads_of_def drop_messages_of_def drop_texts_of_def
        drop_chats_of_def conversation_rows_def retain_keys)
      (auto simp: drop_protocol_def hm_retain_def)
qed

lemma nothing_left_stays:
  assumes "nothing_left p s" "same_stores s s'" "loads_listed s s'"
  shows "nothing_left p s'"
  using assms by (auto simp: nothing_left_def same_stores_def loads_listed_def conversation_rows_def)

lemma leave_texts:
  assumes "p \<noteq> primary Signal" "sn_editing s = None" "sn_selected_protocol s \<noteq> p \<Longrightarrow> texts_ok s"
  shows "fst key = p \<Longrightarrow> thread_text key (leave_account built p s) =
      (case hm_get (sn_drafts s) key of Some t \<Rightarrow> t | None \<Rightarrow> [])"
    and "fst key \<noteq> p \<Longrightarrow> thread_text key (leave_account built p s) = thread_text key s"
    and "texts_ok (leave_account built p s)"
proof -
  let ?s = "s\<lparr>sn_compose := [], sn_selected_conversation := None\<rparr>"
  have ok: "texts_ok ?s" using assms(2) by (simp add: texts_ok_def drafts_ok_def open_thread_def)
  have "same_texts ?s (select_protocol built q ?s)" for q
    using move_same_texts [OF ok, of built "OpenProtocol q"] by simp
  then have "same_texts ?s (leave_account built p s)" if "sn_selected_protocol s = p"
    using that assms(1) same_texts_refl [OF ok] by (simp add: leave_account_def Let_def split: option.split)
  moreover have "leave_account built p s = s" if "sn_selected_protocol s \<noteq> p"
    using that assms(1) by (simp add: leave_account_def Let_def)
  moreover have "thread_text key ?s = (case hm_get (sn_drafts s) key of Some t \<Rightarrow> t | None \<Rightarrow> [])"
    by (simp add: thread_text_open open_thread_def)
  moreover have "open_thread s = Some key \<Longrightarrow> fst key = sn_selected_protocol s"
    by (auto simp: open_thread_def)
  ultimately have here: "sn_selected_protocol s = p \<Longrightarrow> texts_ok (leave_account built p s) \<and>
      thread_text key (leave_account built p s) = (case hm_get (sn_drafts s) key of Some t \<Rightarrow> t | None \<Rightarrow> [])"
    and there: "sn_selected_protocol s \<noteq> p \<Longrightarrow> leave_account built p s = s"
    and opened: "open_thread s = Some key \<Longrightarrow> fst key = sn_selected_protocol s"
    unfolding same_texts_def by (metis | blast)+
  show "texts_ok (leave_account built p s)"
    using here there assms(3) by (cases "sn_selected_protocol s = p") simp_all
  show "fst key = p \<Longrightarrow> thread_text key (leave_account built p s) =
      (case hm_get (sn_drafts s) key of Some t \<Rightarrow> t | None \<Rightarrow> [])"
    "fst key \<noteq> p \<Longrightarrow> thread_text key (leave_account built p s) = thread_text key s"
    using here there opened by (cases "sn_selected_protocol s = p"; auto simp: thread_text_open)+
qed




section \<open>What a reconnect asks again\<close>

definition open_command :: "protocol_id \<Rightarrow> string \<Rightarrow> message_topic option \<Rightarrow> adapter_command" where
  "open_command p i topic = (case topic of Some t \<Rightarrow> CmdOpenTopic p i t | None \<Rightarrow> CmdOpenChat p i)"

lemma hold_fields:
  "sn_pending (hold_opens_for_reconnect p s) =
     filter (\<lambda>c. \<not> opens_of p c \<and> \<not> loads_older_of p c \<and> \<not> loads_list_of p c) (sn_pending s)"
  "sn_open_on_link (hold_opens_for_reconnect p s) = sn_open_on_link (mark_open_chat p s)"
  "sn_list_on_link (hold_opens_for_reconnect p s) =
     (if p \<in> sn_chat_list_loading s \<or> list_ex (loads_list_of p) (sn_pending s)
      then insert p (sn_list_on_link s) else sn_list_on_link s)"
  "sn_accounts (hold_opens_for_reconnect p s) = sn_accounts s" "sn_sessions (hold_opens_for_reconnect p s) = sn_sessions s"
  "sn_extra_visible (hold_opens_for_reconnect p s) = sn_extra_visible s"
  "sn_conversations (hold_opens_for_reconnect p s) = sn_conversations s"
  "sn_selected_protocol (hold_opens_for_reconnect p s) = sn_selected_protocol s"
  "sn_selected_conversation (hold_opens_for_reconnect p s) = sn_selected_conversation s"
  "sn_selected_topic (hold_opens_for_reconnect p s) = sn_selected_topic s"
  "sn_signal_screen (hold_opens_for_reconnect p s) = sn_signal_screen s"
proof -
  have "loads_list_of p c \<Longrightarrow> \<not> opens_of p c \<and> \<not> loads_older_of p c" for c
    by (simp add: loads_list_of_def opens_of_def loads_older_of_def)
  then have "list_ex (loads_list_of p) (filter (\<lambda>c. \<not> loads_older_of p c) (filter (\<lambda>c. \<not> opens_of p c) cs)) =
      list_ex (loads_list_of p) cs" for cs
    by (auto simp: list_ex_iff)
  then show
  "sn_list_on_link (hold_opens_for_reconnect p s) =
     (if p \<in> sn_chat_list_loading s \<or> list_ex (loads_list_of p) (sn_pending s)
      then insert p (sn_list_on_link s) else sn_list_on_link s)"
    by (simp add: hold_opens_for_reconnect_def mark_open_chat_def Let_def split: option.split)
qed (simp_all add: hold_opens_for_reconnect_def mark_open_chat_def Let_def conj_commute split: option.split)

lemma set_live_state:
  "list_ex (is_live_row p) (sn_accounts s) \<Longrightarrow>
     protocol_linked p (change_live_row p (\<lambda>row. row\<lparr>ar_state := Linked\<rparr>) s)"
proof -
  have "list_ex (\<lambda>row. cap_id (ar_caps row) = p \<and> ar_signal_retained row = None) rows \<Longrightarrow>
      list_ex (\<lambda>row. cap_id (ar_caps row) = p \<and> row_linked row)
        (update_first (\<lambda>row. cap_id (ar_caps row) = p \<and> ar_signal_retained row = None) (\<lambda>row. row\<lparr>ar_state := Linked\<rparr>) rows)"
    for rows by (induction rows) (auto simp: row_linked_def)
  moreover assume "list_ex (is_live_row p) (sn_accounts s)"
  then have "list_ex (\<lambda>row. cap_id (ar_caps row) = p \<and> ar_signal_retained row = None) (sn_accounts s)"
    by (simp add: is_live_row_def [abs_def] row_id_def)
  ultimately show ?thesis by (simp add: protocol_linked_def change_live_row_def)
qed

text \<open>The live row of an account stays.\<close>

lemma live_row_stays:
  "list_ex (is_live_row q) (sn_accounts (change_live_row p (\<lambda>row. row\<lparr>ar_state := x\<rparr>) s)) = list_ex (is_live_row q) (sn_accounts s)"
proof -
  have "list_ex (is_live_row q) (update_first P (\<lambda>row. row\<lparr>ar_state := x\<rparr>) rows) = list_ex (is_live_row q) rows" for P rows
    by (induction rows) (auto simp: is_live_row_def row_id_def)
  then show ?thesis by (simp add: change_live_row_def)
qed

lemma link_screens_pending [simp]:
  "sn_pending (finish_whatsapp_link s) = sn_pending s" "sn_history_loading (finish_whatsapp_link s) = sn_history_loading s"
  "sn_signal_screen (finish_whatsapp_link s) = sn_signal_screen s"
  by (simp_all add: finish_whatsapp_link_def end_pairing_def Let_def)

text \<open>The chat that is open and the list come again when the account is linked; a step of \<open>account_linked\<close>.\<close>

lemma linked_asks:
  assumes "protocol_linked p s" "sn_selected_protocol s = p" "sn_selected_conversation s = Some i"
    "sn_open_on_link s = Some (p, i)" "list_ex (\<lambda>row. cv_id row = i \<and> \<not> cv_placeholder row) (conversation_rows p s)"
    "signal_retained_slot i = None" "sn_signal_screen s = SigHidden"
    "list_all (\<lambda>c. \<not> opens_of p c \<and> \<not> loads_list_of p c) (sn_pending s)"
  shows "filter (opens_of p) (sn_pending (account_linked built p False s)) = [open_command p i (sn_selected_topic s)]"
    and "(p, i) \<in> sn_history_loading (account_linked built p False s)"
    and "filter (loads_list_of p) (sn_pending (account_linked built p False s)) =
      (if p \<in> sn_list_on_link s then [CmdLoadChats p] else [])"
proof -
  let ?open = "open_command p i (sn_selected_topic s)"
  let ?s = "s\<lparr>sn_sessions := insert p (sn_sessions s)\<rparr>"
  have none: "\<not> list_ex (opens_already p i (sn_selected_topic s)) (sn_pending s)"
    using assms(8) by (auto simp: list_ex_iff list_all_iff opens_already_def opens_of_def split: option.splits)
  have plain: "flow_account ?open x = None" "flow_account (CmdLoadChats p) x = None" for x
    by (simp_all add: open_command_def split: option.split)
  have queued: "queue_open_chat ?s =
      ?s\<lparr>sn_open_on_link := None, sn_history_loading := insert (p, i) (sn_history_loading s), sn_pending := sn_pending s @ [?open]\<rparr>"
    using assms(1-3,5,6) none plain
    by (simp add: queue_open_chat_def Let_def protocol_linked_def conversation_rows_def push_command_def open_command_def
        split: option.split)
  have close: "sn_pending (close_link_screen built p x) = sn_pending x"
    "sn_history_loading (close_link_screen built p x) = sn_history_loading x" if "sn_signal_screen x = SigHidden" for x
    using that by (simp_all add: close_link_screen_def finish_signal_link_def Let_def)
  have "protocol_linked p ?s" using assms(1) by (simp add: protocol_linked_def)
  then have "account_linked built p False s = close_link_screen built p (relist_on_link p (reopen_on_link p ?s))"
    using assms(2) by (simp add: account_linked_def)
  also have "reopen_on_link p ?s = queue_open_chat ?s"
    using assms(2-4) by (simp add: reopen_on_link_def is_selected_chat_def)
  finally have "account_linked built p False s = close_link_screen built p (relist_on_link p (queue_open_chat ?s))" .
  then have result: "sn_pending (account_linked built p False s) = sn_pending (relist_on_link p (queue_open_chat ?s))"
    "sn_history_loading (account_linked built p False s) = sn_history_loading (relist_on_link p (queue_open_chat ?s))"
    using assms(7) close [of "relist_on_link p (queue_open_chat ?s)"]
    by (simp_all add: queued relist_on_link_def push_command_def)
  have opens: "filter (opens_of p) (sn_pending s) = []" "filter (loads_list_of p) (sn_pending s) = []"
    using assms(8) by (auto simp: filter_empty_conv list_all_iff)
  have kinds: "opens_of p ?open" "\<not> loads_list_of p ?open" "\<not> opens_of p (CmdLoadChats p)" "loads_list_of p (CmdLoadChats p)"
    by (simp_all add: open_command_def opens_of_def loads_list_of_def split: option.split)
  show "filter (opens_of p) (sn_pending (account_linked built p False s)) = [?open]"
    "(p, i) \<in> sn_history_loading (account_linked built p False s)"
    "filter (loads_list_of p) (sn_pending (account_linked built p False s)) =
      (if p \<in> sn_list_on_link s then [CmdLoadChats p] else [])"
    unfolding result using opens kinds plain by (simp_all add: queued push_command_def relist_on_link_def)
qed




text \<open>The sends of a Telegram account do not end alone: with the session of one Telegram account, the sends
  of every Telegram account that wait for their end are forgotten.\<close>

lemma select_holds:
  "sn_telegram_send_unconfirmed (select_protocol built p s) = sn_telegram_send_unconfirmed s"
proof -
  have selection: "sn_telegram_send_unconfirmed (set_selection i topic s) = sn_telegram_send_unconfirmed s" for i topic s
    by (simp add: set_selection_def take_draft_def park_draft_def cancel_edit_def split: option.split)
  have queued: "sn_telegram_send_unconfirmed (queue_open_chat s) = sn_telegram_send_unconfirmed s" for s
    by (simp add: queue_open_chat_def push_command_def Let_def split: option.split)
  have "sn_telegram_send_unconfirmed (ensure_conversation_selection s) = sn_telegram_send_unconfirmed s" for s
    by (simp add: ensure_conversation_selection_def set_selected_conversation_def selection queued Let_def split: option.split)
  then show ?thesis by (simp add: select_protocol_def set_selected_conversation_def selection)
qed

lemma session_end_forgets_all_holds:
  assumes "pid_is p Telegram"
  shows "sn_telegram_send_unconfirmed (end_session built p s) = []"
proof -
  have "sn_telegram_send_unconfirmed (before_leave built p s) = []"
    using assms by (simp add: before_leave_def drop_sends_of_def end_telegram_send_def end_pairings_of_def
        stop_whatsapp_pairing_def end_pairing_def end_signal_pairing_def Let_def)
  moreover have "p \<noteq> primary Signal" using assms by (auto simp: pid_is_def)
  ultimately show ?thesis
    by (simp add: end_session_leave leave_account_def select_holds Let_def split: option.split)
qed

end
