(* ===== verification/Shell_Login.thy ===== *)
theory Shell_Login
  imports Shell_Session
begin

text \<open>
  The login form of Telegram and the resume of saved sessions (\<open>state.rs\<close>). The screens are for one
  account at a time; a login of another account parks the state of account 0. The secret store is an
  argument and, where the code writes it, a result. A poisoned lock of the store does not occur.
\<close>

section \<open>Texts\<close>

definition RESUME_CONNECTING :: string where
  "RESUME_CONNECTING = ''Connecting to Telegram'' @ ELLIPSIS"

definition CONNECTING_STATUS :: string where
  "CONNECTING_STATUS = ''Connecting to Telegram'' @ ELLIPSIS"

definition KEYCHAIN_LOADING_STATUS :: string where
  "KEYCHAIN_LOADING_STATUS = ''Reading the keychain. Try again in a moment.''"

definition KEYCHAIN_OPENING :: string where
  "KEYCHAIN_OPENING = ''Opening the keychain'' @ ELLIPSIS"

definition KEYCHAIN_WAITING :: string where
  "KEYCHAIN_WAITING = ''Waiting for the keychain. Unlock it to continue.''"

definition KEYCHAIN_SLOW_AFTER :: nat where
  "KEYCHAIN_SLOW_AFTER = 1000"

definition SESSION_ENDED_NOTICE :: string where
  "SESSION_ENDED_NOTICE = ''Your Telegram session ended. Sign in again.''"

definition ACCOUNT_SIGN_IN_AGAIN :: string where
  "ACCOUNT_SIGN_IN_AGAIN = ''Signed out. Click Link to sign in again.''"

definition data_reset_notice :: "string \<Rightarrow> string" where
  "data_reset_notice moved_to =
     ''Telegram data on this device could not be opened. It was moved to '' @ QUOTE # moved_to @ QUOTE #
     '' in the thinwire data folder and kept. Sign in again.''"

fun auth_user_error :: "telegram_auth_error option \<Rightarrow> user_error" where
  "auth_user_error (Some PhoneInvalid) =
     \<lparr>ue_happened = ''Telegram did not accept the phone number.'', ue_why = ''The number format is not valid.'',
      ue_next = ''Check the number. Use + and the country code.''\<rparr>"
| "auth_user_error (Some CodeInvalid) =
     \<lparr>ue_happened = ''Telegram did not accept the code.'', ue_why = ''The code is wrong.'',
      ue_next = ''Type it again.''\<rparr>"
| "auth_user_error (Some CodeExpired) =
     \<lparr>ue_happened = ''Telegram did not accept the code.'', ue_why = ''The code expired.'',
      ue_next = ''Press Send a new code.''\<rparr>"
| "auth_user_error (Some PasswordInvalid) =
     \<lparr>ue_happened = ''Telegram did not accept the password.'', ue_why = ''The password is wrong.'',
      ue_next = ''Type it again.''\<rparr>"
| "auth_user_error (Some (FloodWait seconds)) =
     (let minutes = max 1 (div_ceil (unat seconds) 60);
          unit_name = (if minutes = 1 then ''minute'' else ''minutes'')
      in \<lparr>ue_happened = ''Telegram paused the login.'', ue_why = ''Too many tries.'',
          ue_next = ''Wait '' @ show_nat minutes @ '' '' @ unit_name @ '', then try again.''\<rparr>)"
| "auth_user_error (Some (ClientSetup code)) =
     \<lparr>ue_happened = ''Telegram could not start.'',
      ue_why = ''The local Telegram data could not be opened (error '' @ show_int code @ '').'',
      ue_next = ''Press Add Telegram to try again. If it fails again, restart thinwire.''\<rparr>"
| "auth_user_error (Some (OtherAuthError code)) =
     \<lparr>ue_happened = ''Telegram login did not advance.'',
      ue_why = ''Telegram did not accept this step (error '' @ show_int code @ '').'',
      ue_next = ''Correct the field, or press Cancel.''\<rparr>"
| "auth_user_error None =
     \<lparr>ue_happened = ''Telegram login did not advance.'', ue_why = ''Telegram did not accept this step.'',
      ue_next = ''Correct the field, or press Cancel.''\<rparr>"

section \<open>The form\<close>

definition clear_login_fields :: "snapshot \<Rightarrow> snapshot" where
  "clear_login_fields s =
     s\<lparr>sn_auth_notice := None, sn_auth_rejection := None, sn_code_via := None, sn_telegram_api_id := [],
       sn_telegram_api_hash := [], sn_telegram_phone := [], sn_telegram_code := [], sn_telegram_2fa := []\<rparr>"

definition clear_ephemeral :: "secret_store \<Rightarrow> secret_store" where
  "clear_ephemeral store = fold (\<lambda>key. secret_set key []) EPHEMERAL store"

definition persist_api :: "string \<Rightarrow> string \<Rightarrow> secret_store \<Rightarrow> secret_store" where
  "persist_api api_id api_hash store = secret_set KeyApiHash api_hash (secret_set KeyApiId api_id store)"

definition queue_telegram_step :: "telegram_auth_step \<Rightarrow> snapshot \<Rightarrow> snapshot" where
  "queue_telegram_step step s = push_command (CmdTelegramAuth step 0) s"

definition mark_auth_busy :: "string \<Rightarrow> snapshot \<Rightarrow> snapshot" where
  "mark_auth_busy status s =
     s\<lparr>sn_auth_busy := True, sn_auth_rejection := None, sn_error := None, sn_status_text := status\<rparr>"

definition field_missing :: "string \<Rightarrow> snapshot \<Rightarrow> snapshot" where
  "field_missing name s =
     set_error ''Telegram login did not advance.'' (''The '' @ name @ '' field is empty.'')
       ''Fill the field, or press Cancel. Values are not logged.'' s"

definition has_api_credentials :: "secret_store \<Rightarrow> snapshot \<Rightarrow> bool" where
  "has_api_credentials store s \<longleftrightarrow> telegram_api_available store (sn_api_source s)"

definition can_add_account :: "snapshot \<Rightarrow> bool" where
  "can_add_account s \<longleftrightarrow> \<not> sn_telegram_authorized s"

definition start_phone_login :: "snapshot \<Rightarrow> snapshot" where
  "start_phone_login s =
     mark_auth_busy CONNECTING_STATUS (queue_telegram_step ApiCredentials (s\<lparr>sn_auth := TelegramConnecting\<rparr>))"

definition open_telegram :: "secret_store \<Rightarrow> snapshot \<Rightarrow> secret_store \<times> snapshot" where
  "open_telegram store s =
     (if read_failed store
      then (store, set_error ''Telegram sign-in did not start.''
        ''The keychain could not be read, so thinwire does not know your saved sign-in.''
        ''Unlock the keychain, then press Try again.'' s)
      else if \<not> attach_settled store then (store, s\<lparr>sn_status_text := KEYCHAIN_LOADING_STATUS\<rparr>)
      else
        let s = (clear_login_fields s)\<lparr>sn_resume := Settled, sn_error := None, sn_auth_busy := False\<rparr>;
            store = clear_ephemeral store
        in if has_api_credentials store s then (store, start_phone_login s)
           else (store, s\<lparr>sn_auth := NeedCredentials,
             sn_status_text := (if has_publisher (sn_api_source s)
               then ''Telegram API credentials are missing from the keychain override. Set Advanced credentials or Cancel.''
               else ''Credentials missing. Official binaries inject TELEGRAM_API_ID / TELEGRAM_API_HASH at release time. '' @
                 ''Dev: rebuild with those env vars, or set a keychain override in Advanced.'')\<rparr>))"

definition open_add_account :: "secret_store \<Rightarrow> snapshot \<Rightarrow> secret_store \<times> snapshot" where
  "open_add_account store s = (if \<not> can_add_account s then (store, s) else open_telegram store s)"

definition prefill_from_store :: "secret_store \<Rightarrow> snapshot \<Rightarrow> snapshot" where
  "prefill_from_store store s =
     s\<lparr>sn_telegram_api_id := (case secret_get KeyApiId store of Some v \<Rightarrow> v | None \<Rightarrow> sn_telegram_api_id s),
       sn_telegram_api_hash := (case secret_get KeyApiHash store of Some v \<Rightarrow> v | None \<Rightarrow> sn_telegram_api_hash s)\<rparr>"

definition open_api_override :: "secret_store \<Rightarrow> snapshot \<Rightarrow> snapshot" where
  "open_api_override store s =
     (if \<not> can_add_account s then s
      else (prefill_from_store store ((clear_login_fields s)\<lparr>sn_error := None, sn_auth_busy := False\<rparr>))
        \<lparr>sn_auth := TelegramApi,
         sn_status_text := ''Advanced: custom Telegram API credentials. The keychain override wins over the '' @
           ''publisher pair. Values are not logged.''\<rparr>)"

text \<open>The screens are for account 0 again.\<close>

definition restore_telegram_login :: "snapshot \<Rightarrow> snapshot" where
  "restore_telegram_login s =
     (if pid_slot (sn_telegram_login_account s) = 0 then s
      else s\<lparr>sn_telegram_login_account := primary Telegram,
             sn_telegram_authorized := protocol_linked (primary Telegram) s, sn_resume := Settled\<rparr>)"

definition cancel_auth :: "secret_store \<Rightarrow> snapshot \<Rightarrow> secret_store \<times> snapshot" where
  "cancel_auth store s =
     (let s = (clear_login_fields s)\<lparr>sn_resume := Settled, sn_auth := AuthIdle, sn_auth_busy := False, sn_error := None\<rparr>;
          store = clear_ephemeral store
      in if sn_telegram_authorized s then (store, s\<lparr>sn_status_text := ''Telegram is ready.''\<rparr>)
         else (store, restore_telegram_login (push_command (CmdDisconnect (sn_telegram_login_account s))
           (s\<lparr>sn_status_text := ''Account linking cancelled.''\<rparr>))))"

definition submit_api :: "secret_store \<Rightarrow> snapshot \<Rightarrow> secret_store \<times> snapshot" where
  "submit_api store s =
     (if trim (sn_telegram_api_id s) = [] then (store, field_missing ''api_id'' s)
      else if trim (sn_telegram_api_hash s) = [] then (store, field_missing ''api_hash'' s)
      else (persist_api (sn_telegram_api_id s) (sn_telegram_api_hash s) store,
        mark_auth_busy ''Telegram: api credentials stored. Waiting for the next login step.''
          (queue_telegram_step ApiCredentials (s\<lparr>sn_keychain_flush := True\<rparr>))))"

definition advance_telegram :: "secret_store \<Rightarrow> snapshot \<Rightarrow> secret_store \<times> snapshot" where
  "advance_telegram store s =
     (if sn_auth_busy s then (store, s)
      else case sn_auth s of
          TelegramApi \<Rightarrow> submit_api store s
        | TelegramConnecting \<Rightarrow>
            (store, mark_auth_busy CONNECTING_STATUS (queue_telegram_step ApiCredentials
              (push_command (CmdDisconnect (sn_telegram_login_account s)) s)))
        | TelegramPhone \<Rightarrow>
            if trim (sn_telegram_phone s) = [] then (store, field_missing ''phone number'' s)
            else (secret_set KeyPhone (sn_telegram_phone s) store,
              mark_auth_busy ''Telegram: phone stored. Waiting for a login code.'' (queue_telegram_step PhoneStep s))
        | TelegramCode \<Rightarrow>
            if trim (sn_telegram_code s) = [] then (store, field_missing ''login code'' s)
            else (secret_set KeyCode (sn_telegram_code s) store,
              mark_auth_busy ''Telegram: login code stored. Waiting for the next step.'' (queue_telegram_step CodeStep s))
        | Telegram2fa \<Rightarrow>
            if sn_telegram_2fa s = [] then (store, s)
            else (secret_set KeyPassword (sn_telegram_2fa s) store,
              mark_auth_busy ''Telegram: password sent. Waiting for Telegram.'' (queue_telegram_step TwoFactor s))
        | NeedCredentials \<Rightarrow> (store, s)
        | AuthIdle \<Rightarrow> (store, s))"

definition can_submit_auth :: "snapshot \<Rightarrow> bool" where
  "can_submit_auth s \<longleftrightarrow> \<not> sn_auth_busy s \<and> \<not> (sn_auth s = Telegram2fa \<and> sn_telegram_2fa s = [])"

definition change_number :: "snapshot \<Rightarrow> snapshot" where
  "change_number s =
     (if sn_auth s \<noteq> TelegramCode then s
      else s\<lparr>sn_auth := TelegramPhone, sn_auth_busy := False, sn_telegram_code := [], sn_code_via := None,
             sn_auth_rejection := None, sn_error := None, sn_status_text := ''Telegram: enter a phone number.''\<rparr>)"

definition resend_code :: "snapshot \<Rightarrow> snapshot" where
  "resend_code s =
     (if sn_auth s \<noteq> TelegramCode \<or> sn_auth_busy s then s
      else mark_auth_busy ''Telegram: asking for a new code.'' (queue_telegram_step ResendCode (s\<lparr>sn_telegram_code := []\<rparr>)))"

datatype auth_key = KeyEnter | KeyEscape

definition press_auth_key :: "auth_key \<Rightarrow> secret_store \<Rightarrow> snapshot \<Rightarrow> secret_store \<times> snapshot" where
  "press_auth_key key store s =
     (if sn_auth s = AuthIdle then (store, s)
      else if key = KeyEscape then cancel_auth store s
      else if sn_auth s = NeedCredentials then (store, open_api_override store s)
      else advance_telegram store s)"

definition retry_keychain :: "snapshot \<Rightarrow> snapshot" where
  "retry_keychain s = s\<lparr>sn_keychain_retry := True, sn_keychain_wait_started := None, sn_error := None\<rparr>"

definition take_keychain_retry :: "snapshot \<Rightarrow> bool \<times> snapshot" where
  "take_keychain_retry s = (sn_keychain_retry s, s\<lparr>sn_keychain_retry := False\<rparr>)"

definition take_keychain_flush :: "snapshot \<Rightarrow> bool \<times> snapshot" where
  "take_keychain_flush s = (sn_keychain_flush s, s\<lparr>sn_keychain_flush := False\<rparr>)"

definition center_key ::
    "(protocol_kind \<Rightarrow> bool) \<Rightarrow> bool \<Rightarrow> auth_key \<Rightarrow> secret_store \<Rightarrow> snapshot \<Rightarrow> secret_store \<times> snapshot" where
  "center_key built tdlib key store s =
     (case center_view built tdlib s of
        FirstRun \<Rightarrow> if key = KeyEnter then open_add_account store s else (store, s)
      | CenterAuth \<Rightarrow> press_auth_key key store s
      | KeychainFailed \<Rightarrow> (store, if key = KeyEnter then retry_keychain s else s)
      | Resuming _ \<Rightarrow> (store, s)
      | CenterThread \<Rightarrow> (store, if key = KeyEscape then close_open_topic s else s))"

section \<open>Logins of other accounts\<close>

definition begin_telegram_login :: "protocol_id \<Rightarrow> secret_store \<Rightarrow> snapshot \<Rightarrow> secret_store \<times> snapshot" where
  "begin_telegram_login a store s =
     (if pid_slot a = 0
      then if pid_slot (sn_telegram_login_account s) = 0 then open_add_account store s else (store, s)
      else if sn_auth s \<noteq> AuthIdle \<and> sn_telegram_login_account s \<noteq> a
      then (store, s\<lparr>sn_status_text := ''Finish or cancel the open Telegram sign-in first.''\<rparr>)
      else if read_failed store \<or> \<not> attach_settled store then open_telegram store s
      else open_telegram store
        (s\<lparr>sn_telegram_login_account := a, sn_telegram_authorized := False, sn_resume := Settled\<rparr>))"

definition open_login ::
    "(protocol_kind \<Rightarrow> bool) \<Rightarrow> protocol_id \<Rightarrow> secret_store \<Rightarrow> snapshot \<Rightarrow> secret_store \<times> snapshot" where
  "open_login built a store s =
     (case pid_kind a of
        Telegram \<Rightarrow> begin_telegram_login a store s
      | WhatsApp \<Rightarrow> (store, select_protocol built a (if built WhatsApp then open_whatsapp_login built a s else s))
      | Signal \<Rightarrow> (store, select_protocol built a (if built Signal then open_signal_login built a s else s))
      | Discord \<Rightarrow>
          (store, select_protocol built a (s\<lparr>sn_status_text := ''Put the bot token of '' @ pid_label a @
            '' in the keychain as '' @ scoped a DISCORD_SECRET_BOT_TOKEN @ '', then restart thinwire.''\<rparr>))
      | Slack \<Rightarrow>
          (store, select_protocol built a (s\<lparr>sn_status_text := ''Install the Slack app in the workspace of '' @ pid_label a @
            '' with Add Slack workspace.''\<rparr>)))"

definition end_login_of :: "(protocol_kind \<Rightarrow> bool) \<Rightarrow> protocol_id \<Rightarrow> snapshot \<Rightarrow> snapshot" where
  "end_login_of built a s =
     (let s = (if sn_telegram_login_account s = a
               then restore_telegram_login (s\<lparr>sn_auth := AuthIdle, sn_auth_busy := False\<rparr>) else s);
          s = (if built WhatsApp then end_whatsapp_login built a s else s)
      in if built Signal then end_signal_login built a s else s)"

definition login_open :: "(protocol_kind \<Rightarrow> bool) \<Rightarrow> protocol_kind \<Rightarrow> snapshot \<Rightarrow> bool" where
  "login_open built kind s \<longleftrightarrow>
     (case kind of
        Telegram \<Rightarrow> sn_auth s \<noteq> AuthIdle
      | WhatsApp \<Rightarrow> built WhatsApp \<and> whatsapp_gate_open built s
      | Signal \<Rightarrow> built Signal \<and> signal_gate_open built s
      | _ \<Rightarrow> False)"

definition account_free :: "(protocol_kind \<Rightarrow> bool) \<Rightarrow> protocol_id \<Rightarrow> snapshot \<Rightarrow> bool" where
  "account_free built a s \<longleftrightarrow>
     \<not> protocol_linked a s \<and> account_surface_visible built (first_account a) s \<and>
     \<not> login_open built (pid_kind a) s \<and> \<not> (a = primary Telegram \<and> sn_telegram_authorized s)"

text \<open>Saved sessions of further accounts; these commands name their account themselves.\<close>

definition push_pending :: "adapter_command \<Rightarrow> snapshot \<Rightarrow> snapshot" where
  "push_pending c s = s\<lparr>sn_pending := sn_pending s @ [c]\<rparr>"

definition resume_account :: "bool \<Rightarrow> protocol_id \<Rightarrow> secret_store \<Rightarrow> snapshot \<Rightarrow> snapshot" where
  "resume_account tdlib a store s =
     (if \<not> pid_is a Telegram \<or> pid_slot a = 0 \<or> \<not> tdlib then s
      else if secret_get KeySession store = None \<or> \<not> has_api_credentials store s then s
      else push_pending (cmd_for_account (CmdTelegramAuth ApiCredentials 0) a) s)"

definition resume_helper_account :: "protocol_id \<Rightarrow> snapshot \<Rightarrow> snapshot" where
  "resume_helper_account a s =
     (if pid_slot a = 0 \<or> helper_missing a s then s
      else case pid_kind a of
          WhatsApp \<Rightarrow> push_pending (cmd_for_account CmdWhatsAppAcknowledgeRisk a) s
        | Signal \<Rightarrow> push_pending (cmd_for_account CmdSignalAcknowledgeNotice a) s
        | _ \<Rightarrow> s)"

definition try_resume :: "secret_store \<Rightarrow> bool \<Rightarrow> snapshot \<Rightarrow> snapshot" where
  "try_resume store live s =
     (if sn_resume s \<noteq> Waiting \<or> \<not> attach_settled store then s
      else if \<not> live \<or> secret_get KeySession store = None \<or> sn_auth s \<noteq> AuthIdle \<or> sn_telegram_authorized s \<or>
        \<not> has_api_credentials store s
      then s\<lparr>sn_resume := Settled\<rparr>
      else (queue_telegram_step ApiCredentials (s\<lparr>sn_resume := ResumeConnecting\<rparr>))\<lparr>sn_status_text := RESUME_CONNECTING\<rparr>)"

definition poll_resume :: "bool \<Rightarrow> instant \<Rightarrow> secret_store \<Rightarrow> snapshot \<Rightarrow> snapshot" where
  "poll_resume tdlib now store s =
     (let s = s\<lparr>sn_keychain_failed := read_failed store\<rparr>;
          s = (if \<not> attach_settled store \<and> sn_keychain_wait_started s = None
               then s\<lparr>sn_keychain_wait_started := Some now\<rparr> else s)
      in try_resume store tdlib s)"

definition keychain_wait_text :: "instant \<Rightarrow> snapshot \<Rightarrow> string" where
  "keychain_wait_text now s =
     (case sn_keychain_wait_started s of
        Some since \<Rightarrow> if KEYCHAIN_SLOW_AFTER \<le> now - since then KEYCHAIN_WAITING else KEYCHAIN_OPENING
      | None \<Rightarrow> KEYCHAIN_OPENING)"

section \<open>Login phases\<close>

definition change_first_row :: "protocol_id \<Rightarrow> (account_row \<Rightarrow> account_row) \<Rightarrow> snapshot \<Rightarrow> snapshot" where
  "change_first_row a f s = s\<lparr>sn_accounts := update_first (\<lambda>row. row_id row = a) f (sn_accounts s)\<rparr>"

definition finish_telegram_ready :: "(protocol_kind \<Rightarrow> bool) \<Rightarrow> snapshot \<Rightarrow> snapshot" where
  "finish_telegram_ready built s =
     (let a = sn_telegram_login_account s;
          s = change_first_row a (\<lambda>row. row\<lparr>ar_state := Linked\<rparr>) (clear_login_fields s);
          s = s\<lparr>sn_sessions := insert a (sn_sessions s), sn_telegram_authorized := True,
                sn_chat_list_loading := insert a (sn_chat_list_loading s)\<rparr>;
          keep = (\<not> pid_is (sn_selected_protocol s) Telegram \<and> has_session (sn_selected_protocol s) s);
          s = (if keep then s else select_protocol built a s)
      in restore_telegram_login (s\<lparr>sn_auth := AuthIdle, sn_auth_busy := False, sn_error := None,
           sn_status_text := ''Telegram is ready. Loading the chat list.''\<rparr>))"

definition end_telegram_session :: "(protocol_kind \<Rightarrow> bool) \<Rightarrow> snapshot \<Rightarrow> snapshot" where
  "end_telegram_session built s =
     (if \<not> sn_telegram_authorized s then s
      else
        let s = end_session built (sn_telegram_login_account s) (s\<lparr>sn_telegram_authorized := False\<rparr>);
            s = s\<lparr>sn_ended_accounts := sn_ended_accounts s @ [sn_telegram_login_account s], sn_auth := AuthIdle,
                  sn_auth_busy := False, sn_error := None, sn_resume := ResumeConnecting\<rparr>
        in (queue_telegram_step ApiCredentials s)\<lparr>sn_status_text := SESSION_ENDED_NOTICE\<rparr>)"

definition finish_telegram_unavailable :: "snapshot \<Rightarrow> snapshot" where
  "finish_telegram_unavailable s =
     (let a = sn_telegram_login_account s;
          s = change_first_row a (\<lambda>row. row\<lparr>ar_state := Unlinked\<rparr>) (clear_login_fields s)
      in s\<lparr>sn_sessions := sn_sessions s - {a}, sn_auth := AuthIdle, sn_auth_busy := False,
           sn_telegram_authorized := False, sn_error := None,
           sn_status_text := ''TDLib unavailable in this build. No live Telegram session was opened; '' @
             ''form fields were discarded.''\<rparr>)"

text \<open>The phone step: after a data folder was moved aside, after a saved session that ended, or plain.\<close>

definition need_phone :: "bool \<Rightarrow> snapshot \<Rightarrow> snapshot" where
  "need_phone resuming s =
     (let ended = sn_ended_accounts s @ [sn_telegram_login_account s]
      in case sn_data_reset s of
          Some moved_to \<Rightarrow>
            s\<lparr>sn_data_reset := None, sn_auth := TelegramPhone, sn_status_text := data_reset_notice moved_to,
              sn_auth_notice := Some (data_reset_notice moved_to), sn_ended_accounts := ended\<rparr>
        | None \<Rightarrow>
            if resuming
            then s\<lparr>sn_auth := TelegramPhone, sn_auth_notice := Some SESSION_ENDED_NOTICE,
                   sn_status_text := SESSION_ENDED_NOTICE, sn_ended_accounts := ended\<rparr>
            else s\<lparr>sn_auth := TelegramPhone,
                   sn_status_text := ''Telegram: enter a phone number. It stays in the secret store.''\<rparr>)"

definition login_failed :: "snapshot \<Rightarrow> snapshot" where
  "login_failed s =
     (let s = s\<lparr>sn_error := Some (auth_user_error (sn_auth_rejection s))\<rparr>
      in case sn_auth_rejection s of
          Some (ClientSetup _) \<Rightarrow>
            push_command (CmdDisconnect (sn_telegram_login_account s)) (clear_login_fields (s\<lparr>sn_auth := AuthIdle\<rparr>))
        | _ \<Rightarrow> s)"

definition apply_telegram_phase :: "(protocol_kind \<Rightarrow> bool) \<Rightarrow> telegram_auth_phase \<Rightarrow> snapshot \<Rightarrow> snapshot" where
  "apply_telegram_phase built phase s =
     (let s = s\<lparr>sn_auth_busy := False\<rparr>;
          s = (if phase \<noteq> PhaseFailed then s\<lparr>sn_error := None, sn_auth_rejection := None\<rparr> else s);
          resuming = (sn_resume s = ResumeConnecting);
          s = s\<lparr>sn_resume := Settled, sn_auth_notice := None\<rparr>;
          s = (if phase = NeedPhone then s\<lparr>sn_telegram_code := [], sn_telegram_2fa := []\<rparr> else s)
      in case phase of
          NeedPhone \<Rightarrow> need_phone resuming s
        | NeedCode \<Rightarrow>
            s\<lparr>sn_auth := TelegramCode, sn_status_text := ''Telegram: enter the login code. It stays in the secret store.''\<rparr>
        | NeedTwoFactor \<Rightarrow> s\<lparr>sn_auth := Telegram2fa, sn_status_text := ''Telegram: enter your Telegram password.''\<rparr>
        | PhaseReady \<Rightarrow> finish_telegram_ready built s
        | PhaseUnavailable \<Rightarrow> finish_telegram_unavailable s
        | PhaseFailed \<Rightarrow> login_failed s)"

text \<open>A Telegram account that is not on the screens; no phase is the end of its session.\<close>

definition background_ready :: "protocol_id \<Rightarrow> snapshot \<Rightarrow> snapshot" where
  "background_ready a s =
     (let s = change_live_row a (\<lambda>row. row\<lparr>ar_state := Linked, ar_status := Ready\<rparr>) s
      in if a \<in> sn_sessions s then s
         else s\<lparr>sn_sessions := insert a (sn_sessions s), sn_chat_list_loading := insert a (sn_chat_list_loading s)\<rparr>)"

definition background_signed_out ::
    "(protocol_kind \<Rightarrow> bool) \<Rightarrow> protocol_id \<Rightarrow> bool \<Rightarrow> snapshot \<Rightarrow> snapshot" where
  "background_signed_out built a waits s =
     (let s = (if has_session a s then end_session built a s else s);
          s = change_live_row a
            (\<lambda>row. row\<lparr>ar_state := Unlinked, ar_status := Stubbed, ar_detail := ACCOUNT_SIGN_IN_AGAIN\<rparr>) s
      in if waits then push_command (CmdDisconnect a) s else s)"

fun apply_background_telegram :: "(protocol_kind \<Rightarrow> bool) \<Rightarrow> protocol_id \<Rightarrow> adapter_event \<Rightarrow> snapshot \<Rightarrow> snapshot" where
  "apply_background_telegram built a (EvTelegramAuth phase) s =
     (case phase of
        PhaseReady \<Rightarrow> background_ready a s
      | PhaseFailed \<Rightarrow> change_live_row a (\<lambda>row. row\<lparr>ar_status := StError\<rparr>) s
      | PhaseUnavailable \<Rightarrow> change_live_row a (\<lambda>row. row\<lparr>ar_status := StError\<rparr>) s
      | _ \<Rightarrow> background_signed_out built a True s)"
| "apply_background_telegram built a EvTelegramSessionEnded s = background_signed_out built a False s"
| "apply_background_telegram built a _ s = s"

text \<open>The whole list again (\<open>refresh_visible\<close>); the code takes the accounts in the order of a hash set.\<close>

definition refresh_visible :: "protocol_id list \<Rightarrow> snapshot \<Rightarrow> snapshot" where
  "refresh_visible order s =
     (fold (\<lambda>p s.
        if protocol_linked p s
        then push_command (CmdLoadChats p) (s\<lparr>sn_chat_list_loading := insert p (sn_chat_list_loading s)\<rparr>)
        else if \<not> pid_is p Slack then push_command (CmdConnect p) s else s) order s)
       \<lparr>sn_status_text := ''Refreshing'' @ ELLIPSIS\<rparr>"

definition refreshed_accounts :: "(protocol_kind \<Rightarrow> bool) \<Rightarrow> snapshot \<Rightarrow> protocol_id set" where
  "refreshed_accounts built s = {p \<in> row_id ` set (sn_accounts s). account_surface_visible built p s}"

section \<open>What other operations leave of a login\<close>

definition is_login_step :: "adapter_command \<Rightarrow> bool" where
  "is_login_step c \<longleftrightarrow> (case snd (route c) of CmdTelegramAuth _ _ \<Rightarrow> True | _ \<Rightarrow> False)"

definition login_view :: "snapshot \<Rightarrow> auth_screen \<times> bool \<times> protocol_id \<times> string list" where
  "login_view s = (sn_auth s, sn_telegram_authorized s, sn_telegram_login_account s,
     [sn_telegram_api_id s, sn_telegram_api_hash s, sn_telegram_phone s, sn_telegram_code s, sn_telegram_2fa s])"

definition login_steps :: "snapshot \<Rightarrow> adapter_command list" where
  "login_steps s = filter is_login_step (sn_pending s)"

definition same_login :: "snapshot \<Rightarrow> snapshot \<Rightarrow> bool" where
  "same_login s s' \<longleftrightarrow> login_view s' = login_view s \<and> login_steps s' = login_steps s"

lemma same_login_refl: "same_login s s"
  by (simp add: same_login_def)

lemma same_login_trans: "same_login s s' \<Longrightarrow> same_login s' s'' \<Longrightarrow> same_login s s''"
  by (simp add: same_login_def)

lemma flow_tag: "flow_account c s = Some a \<Longrightarrow> snd (route (cmd_for_account c a)) = snd (route c)"
  by (cases c) (auto simp: cmd_for_account_def route_def)

lemma same_login_push: "\<not> is_login_step c \<Longrightarrow> same_login s (push_command c s)"
  using flow_tag by (auto simp: same_login_def login_view_def login_steps_def push_command_def is_login_step_def split: option.split)

lemma same_login_selection: "same_login s (set_selection i topic s)"
  by (simp add: same_login_def login_view_def login_steps_def set_selection_def take_draft_def park_draft_def
      cancel_edit_def split: option.split)

lemma same_login_fields:
  "login_view s' = login_view s \<Longrightarrow> sn_pending s' = sn_pending s \<Longrightarrow> same_login s s'"
  by (simp add: same_login_def login_steps_def)

lemma open_is_no_step: "\<not> is_login_step (CmdOpenChat p i)" "\<not> is_login_step (CmdOpenTopic p i t)"
  "\<not> is_login_step (CmdDisconnect p)" "\<not> is_login_step (CmdLoadChats p)" "\<not> is_login_step CmdWhatsAppCancelLink"
  "\<not> is_login_step CmdSignalCancelLink"
  by (simp_all add: is_login_step_def route_def)

lemma same_login_queue: "same_login s (queue_open_chat s)"
proof -
  have "same_login s (push_command c (s\<lparr>sn_open_on_link := x, sn_history_loading := h\<rparr>))" if "\<not> is_login_step c" for c x h
    by (rule same_login_trans [OF same_login_fields same_login_push [OF that]]) (simp_all add: login_view_def)
  moreover have "same_login s (s\<lparr>sn_open_on_link := x\<rparr>)" for x by (rule same_login_fields) (simp_all add: login_view_def)
  ultimately show ?thesis
    by (simp add: queue_open_chat_def Let_def same_login_refl open_is_no_step split: option.split)
qed

lemma same_login_ensure: "same_login s (ensure_conversation_selection s)"
  using same_login_trans [OF same_login_selection same_login_queue] same_login_refl
  by (simp add: ensure_conversation_selection_def set_selected_conversation_def Let_def split: option.split)

lemma same_login_select: "same_login s (select_protocol built p s)"
proof -
  have "same_login s ((set_selection None None s)
      \<lparr>sn_selected_protocol := p, sn_selected_signal_retained := None, sn_focused_row := None\<rparr>)"
    by (rule same_login_trans [OF same_login_selection same_login_fields]) (simp_all add: login_view_def)
  from same_login_trans [OF this same_login_ensure] show ?thesis
    by (simp add: select_protocol_def set_selected_conversation_def same_login_refl)
qed

lemma same_login_rows: "same_login s (change_live_row a f s)" "same_login s (change_first_row a f s)"
  by (simp_all add: same_login_def login_view_def login_steps_def change_live_row_def change_first_row_def)

lemma same_login_topic: "same_login s (close_open_topic s)"
  by (auto simp: close_open_topic_def Let_def same_login_def login_view_def login_steps_def set_selection_def
      take_draft_def park_draft_def cancel_edit_def split: option.split)

lemma same_login_focus: "same_login s (sync_focused_row built reason s)"
  by (simp add: sync_focused_row_def same_login_def login_view_def login_steps_def Let_def)

lemma same_login_remove: "same_login s (remove_conversation built p i s)"
proof -
  have drop: "same_login s (drop_chat p i s)"
    by (rule same_login_fields)
      (simp_all add: login_view_def drop_chat_def drop_rejected_body_def forget_older_chat_def forget_older_def)
  have clear: "same_login s (s\<lparr>sn_compose := [], sn_selected_conversation := None, sn_selected_topic := None\<rparr>)" for s
    by (rule same_login_fields) (simp_all add: login_view_def)
  show ?thesis
    using same_login_trans [OF drop same_login_focus] same_login_trans [OF same_login_trans [OF drop clear]
        same_login_trans [OF same_login_ensure same_login_focus]]
    by (simp add: remove_conversation_def Let_def)
qed

lemma same_login_fold_remove: "same_login s (fold (remove_conversation built p) ids s)"
  by (induction ids arbitrary: s) (auto simp: same_login_refl intro: same_login_trans same_login_remove)

lemma download_is_no_step: "downloads_of p c \<Longrightarrow> \<not> is_login_step c"
  by (cases c) (simp_all add: downloads_of_def is_login_step_def route_def)

lemma same_login_parts:
  "same_login s (drop_chats_of built p s)" "same_login s (drop_texts_of p keep s)" "same_login s (drop_messages_of p s)"
  "same_login s (drop_loads_of p s)" "same_login s (drop_sends_of p s)" "same_login s (end_pairings_of built p s)"
proof -
  have "same_login s ((retire_live_signal_chats built s)\<lparr>sn_retained_publish := None\<rparr>)"
    unfolding retire_live_signal_chats_def
    by (rule same_login_trans [OF same_login_fold_remove same_login_fields]) (simp_all add: login_view_def)
  moreover have "same_login s (s\<lparr>sn_conversations := x\<rparr>)" for x by (rule same_login_fields) (simp_all add: login_view_def)
  ultimately show "same_login s (drop_chats_of built p s)" by (simp add: drop_chats_of_def)
  show "same_login s (drop_texts_of p keep s)" "same_login s (drop_messages_of p s)"
    by (simp_all add: same_login_fields login_view_def drop_texts_of_def drop_messages_of_def Let_def)
  have "filter is_login_step (filter (\<lambda>c. \<not> downloads_of p c) cs) = filter is_login_step cs" for cs
    by (auto simp: filter_filter intro: filter_cong dest: download_is_no_step)
  then show "same_login s (drop_loads_of p s)"
    by (simp add: same_login_def login_view_def login_steps_def drop_loads_of_def)
  have "login_view (end_telegram_send p EndAll x) = login_view x" "login_view (forget_older_protocol p x) = login_view x"
    "login_view (if b then show_timeouts x else x) = login_view x" "login_view (x\<lparr>sn_timed_out := t\<rparr>) = login_view x"
    "login_view (x\<lparr>sn_notices := n, sn_sends := k\<rparr>) = login_view x" for x b t n k
    by (simp_all add: login_view_def end_telegram_send_def forget_older_protocol_def forget_older_def show_timeouts_def)
  then have "login_view (drop_sends_of p s) = login_view s"
    unfolding drop_sends_of_def Let_def by (simp only:)
  then show "same_login s (drop_sends_of p s)" by (rule same_login_fields) simp
  show "same_login s (end_pairings_of built p s)"
    by (rule same_login_fields) (simp_all add: login_view_def end_pairings_of_def stop_whatsapp_pairing_def end_pairing_def
        end_signal_pairing_def Let_def)
qed

lemma same_login_leave: "same_login s (leave_account built p s)"
proof -
  have "same_login s (s\<lparr>sn_compose := [], sn_selected_conversation := None\<rparr>)"
    by (rule same_login_fields) (simp_all add: login_view_def)
  note clear = this same_login_trans [OF this same_login_select] same_login_trans [OF this same_login_ensure]
  show ?thesis
    by (simp add: leave_account_def Let_def clear same_login_refl split: option.split)
qed

lemma same_login_end_session: "same_login s (end_session built p s)"
proof -
  have row: "same_login s ((change_live_row p (\<lambda>row. row\<lparr>ar_state := Unlinked\<rparr>) s)\<lparr>sn_sessions := x\<rparr>)" for x
    by (rule same_login_trans [OF same_login_rows(1) same_login_fields]) (simp_all add: login_view_def)
  note before = same_login_trans [rotated]
  show ?thesis
    unfolding end_session_def Let_def
    by (rule before [OF same_login_leave], rule before [OF same_login_parts(6)], rule before [OF same_login_parts(5)],
      rule before [OF same_login_parts(4)], rule before [OF same_login_parts(3)], rule before [OF same_login_parts(2)],
      rule before [OF same_login_parts(1)], rule row)
qed

section \<open>Runs of the login\<close>

datatype login_field = FieldApiId | FieldApiHash | FieldPhone | FieldCode | FieldPassword

text \<open>The fields are on the screen only while a screen is open.\<close>

definition type_field :: "login_field \<Rightarrow> string \<Rightarrow> snapshot \<Rightarrow> snapshot" where
  "type_field f v s =
     (if sn_auth s = AuthIdle then s
      else case f of
          FieldApiId \<Rightarrow> s\<lparr>sn_telegram_api_id := v\<rparr> | FieldApiHash \<Rightarrow> s\<lparr>sn_telegram_api_hash := v\<rparr>
        | FieldPhone \<Rightarrow> s\<lparr>sn_telegram_phone := v\<rparr> | FieldCode \<Rightarrow> s\<lparr>sn_telegram_code := v\<rparr>
        | FieldPassword \<Rightarrow> s\<lparr>sn_telegram_2fa := v\<rparr>)"

datatype login_op =
  OpenLogin protocol_id | CancelLogin | SubmitLogin | LoginKey auth_key | ChangeNumber | ResendTheCode | OverrideApi
| TypeField login_field string | PollResume instant | PhaseEvent telegram_auth_phase
| RejectedEvent telegram_auth_error | DataResetEvent string | SessionEndedEvent | OtherPhase protocol_id adapter_event
| EndLogin protocol_id | StoreChange secret_store | TakeCommands

record login_world =
  lw_state :: snapshot
  lw_store :: secret_store

definition on_both :: "(secret_store \<Rightarrow> snapshot \<Rightarrow> secret_store \<times> snapshot) \<Rightarrow> login_world \<Rightarrow> login_world" where
  "on_both f w = (let (store, s) = f (lw_store w) (lw_state w) in w\<lparr>lw_store := store, lw_state := s\<rparr>)"

definition on_shell :: "(snapshot \<Rightarrow> snapshot) \<Rightarrow> login_world \<Rightarrow> login_world" where
  "on_shell f w = w\<lparr>lw_state := f (lw_state w)\<rparr>"

fun login_step :: "(protocol_kind \<Rightarrow> bool) \<Rightarrow> bool \<Rightarrow> login_op \<Rightarrow> login_world \<Rightarrow> login_world" where
  "login_step built tdlib (OpenLogin a) w = on_both (begin_telegram_login a) w"
| "login_step built tdlib CancelLogin w = on_both cancel_auth w"
| "login_step built tdlib SubmitLogin w = on_both advance_telegram w"
| "login_step built tdlib (LoginKey k) w = on_both (center_key built tdlib k) w"
| "login_step built tdlib ChangeNumber w = on_shell change_number w"
| "login_step built tdlib ResendTheCode w = on_shell resend_code w"
| "login_step built tdlib OverrideApi w = on_shell (open_api_override (lw_store w)) w"
| "login_step built tdlib (TypeField f v) w = on_shell (type_field f v) w"
| "login_step built tdlib (PollResume now) w = on_shell (poll_resume tdlib now (lw_store w)) w"
| "login_step built tdlib (PhaseEvent phase) w = on_shell (apply_telegram_phase built phase) w"
| "login_step built tdlib (RejectedEvent e) w = on_shell (\<lambda>s. s\<lparr>sn_auth_rejection := Some e\<rparr>) w"
| "login_step built tdlib (DataResetEvent folder) w = on_shell (\<lambda>s. s\<lparr>sn_data_reset := Some folder\<rparr>) w"
| "login_step built tdlib SessionEndedEvent w = on_shell (end_telegram_session built) w"
| "login_step built tdlib (OtherPhase a ev) w = on_shell (apply_background_telegram built a ev) w"
| "login_step built tdlib (EndLogin a) w = on_shell (end_login_of built a) w"
| "login_step built tdlib (StoreChange store) w = w\<lparr>lw_store := store\<rparr>"
| "login_step built tdlib TakeCommands w = on_shell (\<lambda>s. s\<lparr>sn_pending := []\<rparr>) w"

text \<open>
  The order that the model relies on. A client that is signed in reports the end of its session before it
  asks for a phone number, a code or a password. The user removes an account only when its login is not on
  the screen. The store is the one of the account whose login is on the screen, so it changes freely.
\<close>

fun in_order :: "login_op \<Rightarrow> login_world \<Rightarrow> bool" where
  "in_order (PhaseEvent phase) w \<longleftrightarrow>
     (sn_telegram_authorized (lw_state w) \<longrightarrow> phase \<notin> {NeedPhone, NeedCode, NeedTwoFactor})"
| "in_order (EndLogin a) w \<longleftrightarrow> sn_auth (lw_state w) = AuthIdle \<or> sn_telegram_login_account (lw_state w) \<noteq> a"
| "in_order _ w \<longleftrightarrow> True"

inductive login_reach :: "(protocol_kind \<Rightarrow> bool) \<Rightarrow> bool \<Rightarrow> login_world \<Rightarrow> bool" for built tdlib where
  start: "login_reach built tdlib
    \<lparr>lw_state = snapshot_new source catalog, lw_store = store\<rparr>"
| step: "login_reach built tdlib w \<Longrightarrow> in_order op w \<Longrightarrow> login_reach built tdlib (login_step built tdlib op w)"

definition fields_clear :: "snapshot \<Rightarrow> bool" where
  "fields_clear s \<longleftrightarrow> sn_telegram_api_id s = [] \<and> sn_telegram_api_hash s = [] \<and> sn_telegram_phone s = [] \<and>
     sn_telegram_code s = [] \<and> sn_telegram_2fa s = []"

definition form_ok :: "snapshot \<Rightarrow> bool" where
  "form_ok s \<longleftrightarrow> (sn_telegram_authorized s \<longrightarrow> sn_auth s = AuthIdle) \<and> (sn_auth s = AuthIdle \<longrightarrow> fields_clear s)"

lemma same_login_ok:
  "same_login s s' \<Longrightarrow> form_ok s' = form_ok s" "same_login s s' \<Longrightarrow> sn_auth s' = sn_auth s"
  by (simp_all add: same_login_def login_view_def form_ok_def fields_clear_def)

text \<open>Parts of a step, on the fields of the form only.\<close>

lemma form_simps [simp]:
  "form_ok (push_command c s) = form_ok s" "form_ok (s\<lparr>sn_status_text := t\<rparr>) = form_ok s"
  "form_ok (s\<lparr>sn_error := e\<rparr>) = form_ok s" "form_ok (s\<lparr>sn_auth_busy := b\<rparr>) = form_ok s"
  "form_ok (mark_auth_busy t s) = form_ok s" "form_ok (queue_telegram_step st s) = form_ok s"
  "form_ok (field_missing n s) = form_ok s" "form_ok (s\<lparr>sn_resume := r\<rparr>) = form_ok s"
  "form_ok (set_error h y n s) = form_ok s" "form_ok (s\<lparr>sn_keychain_flush := b\<rparr>) = form_ok s"
  "form_ok (s\<lparr>sn_auth_rejection := x\<rparr>) = form_ok s" "form_ok (s\<lparr>sn_data_reset := d\<rparr>) = form_ok s"
  "form_ok (s\<lparr>sn_pending := cs\<rparr>) = form_ok s" "form_ok (s\<lparr>sn_auth_notice := z\<rparr>) = form_ok s"
  by (simp_all add: form_ok_def fields_clear_def push_command_def mark_auth_busy_def queue_telegram_step_def
      field_missing_def set_error_def)

lemma form_restore: "form_ok s \<Longrightarrow> sn_auth s = AuthIdle \<Longrightarrow> form_ok (restore_telegram_login s)"
  by (simp add: restore_telegram_login_def form_ok_def fields_clear_def)

lemma form_open: "form_ok s \<Longrightarrow> \<not> sn_telegram_authorized s \<Longrightarrow> form_ok (snd (open_telegram store s))"
  by (simp add: open_telegram_def Let_def start_phone_login_def) (simp add: form_ok_def clear_login_fields_def)

lemma form_cancel: "form_ok (snd (cancel_auth store s))"
proof -
  have "form_ok ((clear_login_fields s)\<lparr>sn_resume := Settled, sn_auth := AuthIdle, sn_auth_busy := False, sn_error := None\<rparr>)"
    by (simp add: form_ok_def clear_login_fields_def fields_clear_def)
  then show ?thesis
    by (simp add: cancel_auth_def Let_def form_restore push_command_def)
qed

lemma form_advance: "form_ok s \<Longrightarrow> form_ok (snd (advance_telegram store s))"
  by (simp add: advance_telegram_def submit_api_def split: auth_screen.split)

lemma form_override: "form_ok (open_api_override store s) = (form_ok s \<or> \<not> sn_telegram_authorized s)"
  by (auto simp: open_api_override_def can_add_account_def form_ok_def prefill_from_store_def clear_login_fields_def)

lemma form_auth_key: "form_ok s \<Longrightarrow> form_ok (snd (press_auth_key k store s))"
  by (simp add: press_auth_key_def form_cancel form_override form_advance)

lemma form_begin: "form_ok s \<Longrightarrow> form_ok (snd (begin_telegram_login a store s))"
proof -
  assume ok: "form_ok s"
  have "form_ok (s\<lparr>sn_telegram_login_account := a, sn_telegram_authorized := False, sn_resume := Settled\<rparr>)"
    using ok by (simp add: form_ok_def fields_clear_def)
  moreover have "form_ok (snd (open_telegram store s))" if "read_failed store \<or> \<not> attach_settled store"
    using ok that by (auto simp: open_telegram_def)
  ultimately show ?thesis
    using ok by (simp add: begin_telegram_login_def open_add_account_def can_add_account_def form_open)
qed

lemma form_center: "form_ok s \<Longrightarrow> form_ok (snd (center_key built tdlib k store s))"
proof -
  assume ok: "form_ok s"
  have "form_ok (snd (open_add_account store s))" using ok by (simp add: open_add_account_def can_add_account_def form_open)
  moreover have "form_ok (retry_keychain s)" using ok by (simp add: form_ok_def retry_keychain_def fields_clear_def)
  moreover have "form_ok (close_open_topic s)" using ok same_login_ok(1) [OF same_login_topic] by simp
  ultimately show ?thesis using ok form_auth_key [OF ok] by (simp add: center_key_def split: center_view.split)
qed

lemma form_poll: "form_ok s \<Longrightarrow> form_ok (poll_resume tdlib now store s)"
  by (simp add: poll_resume_def try_resume_def Let_def) (simp add: form_ok_def fields_clear_def)

lemma form_ready: "form_ok (finish_telegram_ready built s)"
proof -
  let ?a = "sn_telegram_login_account s"
  let ?s = "(change_first_row ?a (\<lambda>row. row\<lparr>ar_state := Linked\<rparr>) (clear_login_fields s))"
  have clear: "fields_clear (x\<lparr>sn_auth := AuthIdle, sn_auth_busy := False, sn_error := None, sn_status_text := t\<rparr>)"
    if "same_login (clear_login_fields s) x \<or> same_login ((clear_login_fields s)\<lparr>sn_telegram_authorized := True\<rparr>) x" for x t
    using that by (auto simp: fields_clear_def same_login_def login_view_def clear_login_fields_def)
  define x where "x = ?s\<lparr>sn_sessions := insert ?a (sn_sessions ?s), sn_telegram_authorized := True,
                sn_chat_list_loading := insert ?a (sn_chat_list_loading ?s)\<rparr>"
  have x: "same_login ((clear_login_fields s)\<lparr>sn_telegram_authorized := True\<rparr>) x"
    by (simp add: x_def same_login_def login_view_def login_steps_def change_first_row_def)
  have "form_ok (y\<lparr>sn_auth := AuthIdle, sn_auth_busy := False, sn_error := None, sn_status_text := t\<rparr>)"
    if "same_login ((clear_login_fields s)\<lparr>sn_telegram_authorized := True\<rparr>) y" for y t
    using clear [of y t] that by (simp add: form_ok_def)
  from form_restore [OF this] x same_login_trans [OF x same_login_select] show ?thesis
    unfolding finish_telegram_ready_def Let_def x_def [symmetric] by simp
qed

lemma form_phase:
  assumes "form_ok s" "sn_telegram_authorized s \<longrightarrow> phase \<notin> {NeedPhone, NeedCode, NeedTwoFactor}"
  shows "form_ok (apply_telegram_phase built phase s)"
proof (cases phase)
  case PhaseReady
  then show ?thesis by (simp add: apply_telegram_phase_def Let_def form_ready)
next
  case PhaseUnavailable
  then show ?thesis
    by (simp add: apply_telegram_phase_def Let_def finish_telegram_unavailable_def form_ok_def clear_login_fields_def
        change_first_row_def fields_clear_def)
next
  case PhaseFailed
  have "form_ok (clear_login_fields (x\<lparr>sn_auth := AuthIdle\<rparr>))" for x
    by (simp add: form_ok_def clear_login_fields_def fields_clear_def)
  then show ?thesis using assms(1) PhaseFailed
    by (simp add: apply_telegram_phase_def Let_def login_failed_def split: option.split telegram_auth_error.split)
next
  case NeedPhone
  then show ?thesis using assms
    by (simp add: apply_telegram_phase_def Let_def need_phone_def form_ok_def split: option.split)
qed (use assms in \<open>simp_all add: apply_telegram_phase_def Let_def form_ok_def\<close>)

lemma form_session_ended: "form_ok s \<Longrightarrow> form_ok (end_telegram_session built s)"
proof -
  assume ok: "form_ok s"
  have "form_ok (x\<lparr>sn_ended_accounts := e, sn_auth := AuthIdle, sn_auth_busy := False, sn_error := None, sn_resume := r\<rparr>)"
    if "same_login (s\<lparr>sn_telegram_authorized := False\<rparr>) x" "sn_telegram_authorized s" for x e r
    using that ok by (simp add: form_ok_def fields_clear_def same_login_def login_view_def)
  from this [OF same_login_end_session] ok show ?thesis by (simp add: end_telegram_session_def Let_def)
qed

lemma same_login_background: "same_login s (apply_background_telegram built a ev s)"
proof -
  have session: "same_login s (if b then end_session built a s else s)" for b
    using same_login_end_session same_login_refl by simp
  have out: "same_login s (background_signed_out built a waits s)" for waits
    using same_login_trans [OF session same_login_rows(1)]
      same_login_trans [OF same_login_trans [OF session same_login_rows(1)] same_login_push [OF open_is_no_step(3)]]
    by (simp add: background_signed_out_def Let_def)
  have "same_login s (background_ready a s)"
    using same_login_trans [OF same_login_rows(1) same_login_fields] same_login_rows(1)
    by (simp add: background_ready_def Let_def) (simp add: login_view_def)
  with out show ?thesis
    by (cases ev) (simp_all add: same_login_refl same_login_rows split: telegram_auth_phase.split)
qed

lemma form_end_login:
  assumes "form_ok s" "sn_auth s = AuthIdle \<or> sn_telegram_login_account s \<noteq> a"
  shows "form_ok (end_login_of built a s)"
proof -
  have "same_login x (end_whatsapp_login built a x)" "same_login x (end_signal_login built a x)" for x
    by (simp_all add: same_login_def login_view_def login_steps_def end_whatsapp_login_def end_signal_login_def)
  note other = this [THEN same_login_ok(1)]
  have "form_ok (s\<lparr>sn_auth := AuthIdle, sn_auth_busy := False\<rparr>)" if "sn_auth s = AuthIdle"
    using assms(1) that by (simp add: form_ok_def fields_clear_def)
  from form_restore [OF this] assms show ?thesis by (auto simp: end_login_of_def Let_def other)
qed

lemma form_type: "form_ok s \<Longrightarrow> form_ok (type_field f v s)"
  by (simp add: type_field_def form_ok_def fields_clear_def split: login_field.split)

lemma form_step:
  assumes "form_ok (lw_state w)" "in_order op w"
  shows "form_ok (lw_state (login_step built tdlib op w))"
proof -
  have "form_ok (change_number s)" "form_ok (resend_code s)" if "form_ok s" for s
    using that by (auto simp: change_number_def resend_code_def form_ok_def fields_clear_def mark_auth_busy_def
        queue_telegram_step_def push_command_def)
  then show ?thesis
    using assms form_begin form_cancel form_advance form_center form_override form_type form_poll form_phase
      form_session_ended form_end_login same_login_ok(1) [OF same_login_background]
    by (cases op) (simp_all add: on_both_def on_shell_def split_beta)
qed


definition sample_login :: "login_op list \<Rightarrow> login_world" where
  "sample_login ops = fold (login_step (\<lambda>_. True) True) ops
     \<lparr>lw_state = snapshot_new \<lparr>ts_publisher_id = Some ''12'', ts_publisher_hash = Some ''ab''\<rparr> [], lw_store = demo_saved\<rparr>"

definition typed_phone :: "login_op list" where
  "typed_phone = [OpenLogin (primary Telegram), PhaseEvent NeedPhone, TypeField FieldPhone ''+1'']"

lemma sample_login_typed: "sn_telegram_phone (lw_state (sample_login typed_phone)) = ''+1''"
  by code_simp


text \<open>No login runs ahead of the keychain. While the attach of the account's store has not ended and no login
  screen is open, opening a login, a key in the centre of the window and the poll for a saved session queue
  no login step and open no login screen.
\<close>
theorem keychain_before_login:
  assumes "\<not> attach_settled store" "sn_auth s = AuthIdle"
    "s' \<in> {snd (begin_telegram_login a store s), snd (center_key built tdlib key store s), poll_resume tdlib now store s}"
  shows "login_steps s' = login_steps s \<and> sn_auth s' = AuthIdle"
proof -
  have telegram: "same_login s (snd (open_telegram store s))"
    using assms(1) by (simp add: open_telegram_def same_login_def login_view_def login_steps_def set_error_def)
  then have opens: "same_login s (snd (begin_telegram_login a store s))" for a
    using assms(1,2) same_login_refl
    by (simp add: begin_telegram_login_def open_add_account_def)
  have retry: "same_login s (retry_keychain s)"
    by (simp add: retry_keychain_def same_login_def login_view_def login_steps_def)
  have centre: "same_login s (snd (center_key built tdlib key store s))"
    using telegram retry assms(2) same_login_refl same_login_topic
    by (simp add: center_key_def open_add_account_def press_auth_key_def split: center_view.split)
  have poll: "same_login s (poll_resume tdlib now store s)"
    using assms(1) by (simp add: poll_resume_def try_resume_def Let_def same_login_def login_view_def login_steps_def)
  from assms(2,3) opens centre poll show ?thesis
    by (auto simp: same_login_def login_view_def)
qed

theorem keychain_before_login_witness:
  "let s = snapshot_new \<lparr>ts_publisher_id = Some ''12'', ts_publisher_hash = Some ''ab''\<rparr> [];
       s' = poll_resume True 5 (scoped_blank Detached 0) s
   in sn_resume s = Waiting \<and> sn_keychain_wait_started s' = Some 5 \<and> login_steps s' = []"
proof -
  let ?s = "snapshot_new \<lparr>ts_publisher_id = Some ''12'', ts_publisher_hash = Some ''ab''\<rparr> []"
  have "\<not> attach_settled (scoped_blank Detached 0) \<and> sn_auth ?s = AuthIdle \<and> login_steps ?s = [] \<and>
      sn_resume ?s = Waiting \<and> sn_keychain_wait_started (poll_resume True 5 (scoped_blank Detached 0) ?s) = Some 5"
    by (simp add: poll_resume_def try_resume_def snapshot_new_def attach_settled_def scoped_blank_def login_steps_def Let_def)
  note facts = this
  have "poll_resume True 5 (scoped_blank Detached 0) ?s \<in> {snd (begin_telegram_login (primary Telegram) (scoped_blank Detached 0) ?s),
      snd (center_key (\<lambda>_. True) True KeyEnter (scoped_blank Detached 0) ?s), poll_resume True 5 (scoped_blank Detached 0) ?s}"
    by blast
  from keychain_before_login [OF conjunct1 [OF facts] conjunct1 [OF conjunct2 [OF facts]] this] facts
  show ?thesis unfolding Let_def by metis
qed

text \<open>
  \<open>end_login_of\<close> closes the screens of an account that goes away, but unlike Cancel it does not clear the
  form: the typed password stays in the snapshot, behind no screen.
\<close>

lemma removed_login_keeps_password:
  assumes "sn_telegram_login_account s = a"
  shows "sn_auth (end_login_of built a s) = AuthIdle \<and> sn_telegram_2fa (end_login_of built a s) = sn_telegram_2fa s"
  using assms
  by (simp add: end_login_of_def Let_def restore_telegram_login_def end_whatsapp_login_def end_signal_login_def)

end
