(* ===== verification/Shell_Media.thy ===== *)
theory Shell_Media
  imports Shell_Login
begin

text \<open>
  Downloads of the shell (\<open>state.rs\<close>): photos, previews and avatars, voice trail, videos and documents,
  from the request of the screen to the file or the failure. The theorems: a file is asked for once while its
  answer is dl, a failure lets the next request through, and a photo of a secret chat gets no path on disk.
\<close>

section \<open>Photos of a message\<close>

definition size_hit :: "i32 \<Rightarrow> photo_size \<Rightarrow> bool" where
  "size_hit file_id sz \<longleftrightarrow> ps_file_id sz = Some file_id"

definition photo_hit :: "i32 \<Rightarrow> message_photo \<Rightarrow> bool" where
  "photo_hit file_id photo \<longleftrightarrow> list_ex (size_hit file_id) (mp_sizes photo)"

definition photo_done :: "i32 \<Rightarrow> message_photo \<Rightarrow> bool" where
  "photo_done file_id photo \<longleftrightarrow> list_ex (\<lambda>sz. size_hit file_id sz \<and> photo_size_ready sz) (mp_sizes photo)"

definition photo_asked :: "i32 \<Rightarrow> message_photo \<Rightarrow> message_photo" where
  "photo_asked file_id photo =
     (if photo_hit file_id photo \<and> \<not> photo_done file_id photo then photo\<lparr>mp_failed := False\<rparr> else photo)"

text \<open>The photo of a message and the preview of its file.\<close>

definition message_photos :: "chat_message \<Rightarrow> message_photo list" where
  "message_photos row =
     (case cm_photo row of Some photo \<Rightarrow> [photo] | None \<Rightarrow> []) @
     (case Option.bind (cm_file row) mf_preview of Some photo \<Rightarrow> [photo] | None \<Rightarrow> [])"

definition on_photo :: "(message_photo \<Rightarrow> message_photo) \<Rightarrow> chat_message \<Rightarrow> chat_message" where
  "on_photo f row = row\<lparr>cm_photo := map_option f (cm_photo row)\<rparr>"

definition on_preview :: "(message_photo \<Rightarrow> message_photo) \<Rightarrow> chat_message \<Rightarrow> chat_message" where
  "on_preview f row = row\<lparr>cm_file := map_option (\<lambda>d. d\<lparr>mf_preview := map_option f (mf_preview d)\<rparr>) (cm_file row)\<rparr>"

text \<open>Whether a sz has the file, whether it is loaded, and whether the chat is secret: the last photo counts.\<close>

definition photo_facts :: "i32 \<Rightarrow> chat_message \<Rightarrow> bool \<times> bool \<times> bool" where
  "photo_facts file_id row =
     fold (\<lambda>photo (known, ready, secret).
       if photo_hit file_id photo then (True, photo_done file_id photo, mp_is_secret photo)
       else (known, ready, secret)) (message_photos row) (False, False, False)"

section \<open>Requests of the screen\<close>

text \<open>The guards that the four requests of a message share: the message is in the open thread.\<close>

definition in_open_thread :: "protocol_id \<Rightarrow> string \<Rightarrow> string \<Rightarrow> snapshot \<Rightarrow> bool" where
  "in_open_thread protocol conversation_id message_id s \<longleftrightarrow>
     is_selected_thread protocol conversation_id (sn_selected_topic s) s \<and>
     (case message_bucket protocol conversation_id message_id s of
        None \<Rightarrow> False | Some key \<Rightarrow> snd (snd key) = sn_selected_topic s)"

definition load_photo :: "protocol_id \<Rightarrow> string \<Rightarrow> string \<Rightarrow> i32 \<Rightarrow> snapshot \<Rightarrow> snapshot" where
  "load_photo protocol conversation_id message_id file_id s =
     (if \<not> in_open_thread protocol conversation_id message_id s then s
      else case find_message protocol conversation_id message_id s of
          None \<Rightarrow> s
        | Some row \<Rightarrow>
            let (known, ready, secret) = photo_facts file_id row;
                s = change_message protocol conversation_id message_id
                      (\<lambda>row. on_preview (photo_asked file_id) (on_photo (photo_asked file_id) row)) s
            in if \<not> known \<or> ready \<or> (protocol, file_id) \<in> sn_photo_downloads s then s
               else push_command (CmdDownloadFile protocol file_id secret)
                      (s\<lparr>sn_photo_downloads := insert (protocol, file_id) (sn_photo_downloads s)\<rparr>))"

definition video_clear_failed :: "message_video \<Rightarrow> message_video" where
  "video_clear_failed v = v\<lparr>mv_failed := False\<rparr>"

definition file_clear_failed :: "message_file \<Rightarrow> message_file" where
  "file_clear_failed d = d\<lparr>mf_failed := False\<rparr>"

definition play_audio :: "protocol_id \<Rightarrow> string \<Rightarrow> string \<Rightarrow> i32 \<Rightarrow> snapshot \<Rightarrow> snapshot" where
  "play_audio protocol conversation_id message_id file_id s =
     (if \<not> in_open_thread protocol conversation_id message_id s then s
      else case Option.bind (find_message protocol conversation_id message_id s) cm_audio of
          None \<Rightarrow> s
        | Some audio \<Rightarrow>
            if ma_file_id audio \<noteq> file_id \<or> ma_file audio \<noteq> None then s
            else push_command (CmdDownloadVoice protocol file_id)
              (change_message protocol conversation_id message_id
                (\<lambda>row. row\<lparr>cm_audio := map_option audio_clear_failed (cm_audio row)\<rparr>) s))"

definition play_video :: "protocol_id \<Rightarrow> string \<Rightarrow> string \<Rightarrow> i32 \<Rightarrow> snapshot \<Rightarrow> snapshot" where
  "play_video protocol conversation_id message_id file_id s =
     (if \<not> in_open_thread protocol conversation_id message_id s then s
      else case Option.bind (find_message protocol conversation_id message_id s) cm_video of
          None \<Rightarrow> s
        | Some video \<Rightarrow>
            if mv_file_id video \<noteq> file_id \<or> mv_file video \<noteq> None then s
            else push_command (CmdDownloadVideo protocol file_id)
              (change_message protocol conversation_id message_id
                (\<lambda>row. row\<lparr>cm_video := map_option video_clear_failed (cm_video row)\<rparr>) s))"

definition download_document :: "protocol_id \<Rightarrow> string \<Rightarrow> string \<Rightarrow> i32 \<Rightarrow> snapshot \<Rightarrow> snapshot" where
  "download_document protocol conversation_id message_id file_id s =
     (if \<not> in_open_thread protocol conversation_id message_id s then s
      else case Option.bind (find_message protocol conversation_id message_id s) cm_file of
          None \<Rightarrow> s
        | Some d \<Rightarrow>
            if mf_file_id d \<noteq> file_id \<or> mf_file d \<noteq> None then s
            else
              let s = change_message protocol conversation_id message_id
                        (\<lambda>row. row\<lparr>cm_file := map_option file_clear_failed (cm_file row)\<rparr>) s
              in if (protocol, file_id) \<in> sn_file_downloads s then s
                 else push_command (CmdDownloadDocument protocol file_id)
                        (s\<lparr>sn_file_downloads := insert (protocol, file_id) (sn_file_downloads s)\<rparr>))"

definition change_conversation :: "protocol_id \<Rightarrow> string \<Rightarrow> (conversation \<Rightarrow> conversation) \<Rightarrow> snapshot \<Rightarrow> snapshot" where
  "change_conversation protocol i f s =
     s\<lparr>sn_conversations := hm_modify protocol (update_first (\<lambda>row. cv_id row = i) f) (sn_conversations s)\<rparr>"

definition avatar_requested :: "conversation \<Rightarrow> conversation" where
  "avatar_requested row = row\<lparr>cv_avatar := (cv_avatar row)\<lparr>av_requested := True\<rparr>\<rparr>"

definition load_avatar :: "protocol_id \<Rightarrow> string \<Rightarrow> i32 \<Rightarrow> snapshot \<Rightarrow> snapshot" where
  "load_avatar protocol conversation_id file_id s =
     (if \<not> downloads_avatar protocol then s
      else case find_conversation protocol conversation_id s of
          None \<Rightarrow> s
        | Some row \<Rightarrow>
            if av_file_id (cv_avatar row) \<noteq> Some file_id \<or> avatar_ready (cv_avatar row) \<or> av_failed (cv_avatar row) then s
            else
              let s = change_conversation protocol conversation_id avatar_requested s
              in if (protocol, file_id) \<in> sn_photo_downloads s then s
                 else push_command (CmdDownloadFile protocol file_id False)
                        (s\<lparr>sn_photo_downloads := insert (protocol, file_id) (sn_photo_downloads s)\<rparr>))"

section \<open>Answers of the adapters\<close>

definition size_loaded :: "i32 \<Rightarrow> photo_file \<Rightarrow> bool \<Rightarrow> photo_size \<Rightarrow> photo_size" where
  "size_loaded file_id f secret sz =
     (if \<not> size_hit file_id sz then sz
      else if secret then sz\<lparr>ps_path := None, ps_bytes := pf_bytes f\<rparr>
      else sz\<lparr>ps_path := pf_path f, ps_bytes := (if pf_bytes f = None then ps_bytes sz else pf_bytes f)\<rparr>)"

definition photo_loaded :: "i32 \<Rightarrow> photo_file \<Rightarrow> bool \<Rightarrow> message_photo \<Rightarrow> message_photo" where
  "photo_loaded file_id f secret photo =
     (if photo_hit file_id photo
      then photo\<lparr>mp_sizes := map (size_loaded file_id f secret) (mp_sizes photo), mp_failed := False\<rparr> else photo)"

definition avatar_loaded :: "i32 \<Rightarrow> photo_file \<Rightarrow> chat_avatar \<Rightarrow> chat_avatar" where
  "avatar_loaded file_id f a =
     (if av_file_id a \<noteq> Some file_id then a
      else a\<lparr>av_failed := False, av_bytes := (if pf_bytes f = None then av_bytes a else pf_bytes f),
             av_path := (if pf_path f = None then av_path a else pf_path f)\<rparr>)"

definition change_avatars :: "protocol_id \<Rightarrow> (chat_avatar \<Rightarrow> chat_avatar) \<Rightarrow> snapshot \<Rightarrow> snapshot" where
  "change_avatars protocol f s =
     s\<lparr>sn_conversations := hm_modify protocol (map (\<lambda>row. row\<lparr>cv_avatar := f (cv_avatar row)\<rparr>)) (sn_conversations s)\<rparr>"

definition photo_ready :: "protocol_id \<Rightarrow> i32 \<Rightarrow> photo_file \<Rightarrow> snapshot \<Rightarrow> snapshot" where
  "photo_ready protocol file_id f s =
     (let s = s\<lparr>sn_photo_downloads := sn_photo_downloads s - {(protocol, file_id)}\<rparr>;
          s = change_all protocol (on_photo (\<lambda>photo. photo_loaded file_id f (mp_is_secret photo) photo)) s;
          s = change_all protocol (on_preview (photo_loaded file_id f False)) s
      in change_avatars protocol (avatar_loaded file_id f) s)"

definition photo_marked_failed :: "i32 \<Rightarrow> message_photo \<Rightarrow> message_photo" where
  "photo_marked_failed file_id photo = (if photo_hit file_id photo then photo\<lparr>mp_failed := True\<rparr> else photo)"

definition photo_failed :: "protocol_id \<Rightarrow> i32 \<Rightarrow> snapshot \<Rightarrow> snapshot" where
  "photo_failed protocol file_id s =
     (let s = s\<lparr>sn_photo_downloads := sn_photo_downloads s - {(protocol, file_id)}\<rparr>;
          s = change_all protocol (on_photo (photo_marked_failed file_id)) s;
          s = change_all protocol (on_preview (photo_marked_failed file_id)) s
      in change_avatars protocol
           (\<lambda>a. if av_file_id a = Some file_id then a\<lparr>av_failed := True\<rparr> else a) s)"

definition chat_avatar_event :: "protocol_id \<Rightarrow> string \<Rightarrow> image_bytes \<Rightarrow> snapshot \<Rightarrow> snapshot" where
  "chat_avatar_event protocol conversation_id bytes =
     change_conversation protocol conversation_id
       (\<lambda>row. row\<lparr>cv_avatar := (cv_avatar row)\<lparr>av_bytes := Some bytes, av_failed := False\<rparr>\<rparr>)"

section \<open>One request at a time\<close>

datatype download_op =
  LoadPhoto protocol_id string string i32 | LoadAvatar protocol_id string i32
| FileCame protocol_id i32 photo_file | FileDidNotCome protocol_id i32 | SessionOver protocol_id | CommandsTaken

datatype download_note = Asked protocol_id i32 | Ended protocol_id i32 | AllEnded protocol_id

fun download_step :: "(protocol_kind \<Rightarrow> bool) \<Rightarrow> download_op \<Rightarrow> snapshot \<Rightarrow> snapshot" where
  "download_step built (LoadPhoto p c m i) s = load_photo p c m i s"
| "download_step built (LoadAvatar p c i) s = load_avatar p c i s"
| "download_step built (FileCame p i f) s = photo_ready p i f s"
| "download_step built (FileDidNotCome p i) s = photo_failed p i s"
| "download_step built (SessionOver p) s = end_session built p s"
| "download_step built CommandsTaken s = snd (take_shell_commands s)"

text \<open>What a step adds to the record of the downloads: the requests that it queued, or the end of some.\<close>

fun asked_by :: "adapter_command list \<Rightarrow> download_note list" where
  "asked_by [] = []"
| "asked_by (c # cs) = (case c of CmdDownloadFile p i _ \<Rightarrow> [Asked p i] | _ \<Rightarrow> []) @ asked_by cs"

fun download_notes :: "download_op \<Rightarrow> snapshot \<Rightarrow> snapshot \<Rightarrow> download_note list" where
  "download_notes (FileCame p i f) s s' = [Ended p i]"
| "download_notes (FileDidNotCome p i) s s' = [Ended p i]"
| "download_notes (SessionOver p) s s' = [AllEnded p]"
| "download_notes CommandsTaken s s' = []"
| "download_notes _ s s' = asked_by (drop (length (sn_pending s)) (sn_pending s'))"

fun download_run :: "(protocol_kind \<Rightarrow> bool) \<Rightarrow> download_op list \<Rightarrow> snapshot \<Rightarrow> download_note list \<times> snapshot" where
  "download_run built [] s = ([], s)"
| "download_run built (op # ops) s =
     (let s' = download_step built op s; (trail, t) = download_run built ops s'
      in (download_notes op s s' @ trail, t))"

fun note_ends :: "protocol_id \<times> i32 \<Rightarrow> download_note \<Rightarrow> bool" where
  "note_ends key (Asked p i) = False"
| "note_ends key (Ended p i) \<longleftrightarrow> key = (p, i)"
| "note_ends key (AllEnded p) \<longleftrightarrow> fst key = p"

text \<open>Downloads on their way, given the ones before.\<close>

fun due_after :: "download_note list \<Rightarrow> (protocol_id \<times> i32) set \<Rightarrow> (protocol_id \<times> i32) set" where
  "due_after [] dl = dl"
| "due_after (Asked p i # trail) dl = due_after trail (insert (p, i) dl)"
| "due_after (Ended p i # trail) dl = due_after trail (dl - {(p, i)})"
| "due_after (AllEnded p # trail) dl = due_after trail {key \<in> dl. fst key \<noteq> p}"

fun asks_new :: "download_note list \<Rightarrow> (protocol_id \<times> i32) set \<Rightarrow> bool" where
  "asks_new [] dl = True"
| "asks_new (Asked p i # trail) dl \<longleftrightarrow> (p, i) \<notin> dl \<and> asks_new trail (insert (p, i) dl)"
| "asks_new (Ended p i # trail) dl \<longleftrightarrow> asks_new trail (dl - {(p, i)})"
| "asks_new (AllEnded p # trail) dl \<longleftrightarrow> asks_new trail {key \<in> dl. fst key \<noteq> p}"

lemma due_after_append: "due_after (xs @ ys) dl = due_after ys (due_after xs dl)"
  by (induction xs dl rule: due_after.induct) simp_all

lemma asks_new_append: "asks_new (xs @ ys) dl \<longleftrightarrow> asks_new xs dl \<and> asks_new ys (due_after xs dl)"
  by (induction xs dl rule: asks_new.induct) simp_all

lemma due_stays: "key \<in> dl \<Longrightarrow> \<forall>note \<in> set trail. \<not> note_ends key note \<Longrightarrow> key \<in> due_after trail dl"
  by (induction trail dl rule: due_after.induct) auto

text \<open>Between two requests for one file there is an answer or the end of the session.\<close>

lemma asks_new_apart:
  assumes "asks_new (xs @ Asked p i # ys @ Asked p i # zs) dl"
  shows "\<exists>note \<in> set ys. note_ends (p, i) note"
proof (rule ccontr)
  assume "\<not> ?thesis"
  then have "(p, i) \<in> due_after ys (insert (p, i) (due_after xs dl))"
    by (intro due_stays) auto
  with assms show False by (simp add: asks_new_append)
qed

lemma change_message_downloads [simp]:
  "sn_photo_downloads (change_message p c m f s) = sn_photo_downloads s"
  "sn_pending (change_message p c m f s) = sn_pending s"
  by (simp_all add: change_message_def split: option.split)

lemma change_all_fields [simp]:
  "sn_photo_downloads (change_all p f s) = sn_photo_downloads s"
  "sn_photo_downloads (change_avatars p g s) = sn_photo_downloads s"
  "sn_photo_downloads (change_conversation p c h s) = sn_photo_downloads s"
  "sn_pending (change_conversation p c h s) = sn_pending s"
  by (simp_all add: change_all_def change_avatars_def change_conversation_def)

lemma push_download [simp]:
  "sn_photo_downloads (push_command c s) = sn_photo_downloads s"
  "sn_pending (push_command (CmdDownloadFile p i b) s) = sn_pending s @ [CmdDownloadFile p i b]"
  by (simp_all add: push_command_def)

lemma selection_downloads:
  "sn_photo_downloads (select_protocol built p s) = sn_photo_downloads s"
  "sn_photo_downloads (ensure_conversation_selection s) = sn_photo_downloads s"
  using select_stores [of s built p] ensure_stores [of s] by (simp_all add: same_stores_def)

lemma remove_downloads:
  "sn_photo_downloads (remove_conversation built p c s) = sn_photo_downloads s"
  by (simp add: remove_conversation_def Let_def selection_downloads drop_chat_def drop_rejected_body_def
      forget_older_chat_def forget_older_def sync_focused_row_def)

lemma remove_all_downloads:
  "sn_photo_downloads (fold (remove_conversation built p) cs s) = sn_photo_downloads s"
  by (induction cs arbitrary: s) (simp_all add: remove_downloads)

lemma end_session_downloads:
  "sn_photo_downloads (end_session built p s) = {key \<in> sn_photo_downloads s. fst key \<noteq> p}"
proof -
  have "sn_photo_downloads (leave_account built p s) = sn_photo_downloads s" for s
    by (simp add: leave_account_def Let_def selection_downloads split: option.split)
  then show ?thesis
    by (simp add: end_session_def Let_def drop_loads_of_def drop_messages_of_def drop_texts_of_def drop_chats_of_def
        retire_live_signal_chats_def remove_all_downloads)
qed

lemma download_step_ok:
  assumes "download_step built op s = s'"
  shows "asks_new (download_notes op s s') (sn_photo_downloads s) \<and>
    due_after (download_notes op s s') (sn_photo_downloads s) = sn_photo_downloads s'"
proof (cases op)
  case (LoadPhoto p c m i)
  with assms show ?thesis by (auto simp: load_photo_def Let_def split: option.split prod.split)
next
  case (LoadAvatar p c i)
  with assms show ?thesis by (auto simp: load_avatar_def Let_def split: option.split)
next
  case (SessionOver p)
  with assms show ?thesis by (auto simp: end_session_downloads)
next
  case CommandsTaken
  with assms show ?thesis by (auto simp: take_shell_commands_def)
qed (use assms in \<open>auto simp: photo_ready_def photo_failed_def Let_def\<close>)

text \<open>
  C22: A file is asked for once. In a run of requests for photos and avatars, files, failures and ends of
  sessions, from a state with no download on its way, between two requests that the shell queues for one file
  of one account there is its file, its failure or the end of the session of that account; and the shell keeps
  as on their way exactly the requests with no end.
\<close>
theorem file_asked_once:
  assumes "download_run built ops s = (trail, t)" "sn_photo_downloads s = {}"
  shows "sn_photo_downloads t = due_after trail {} \<and>
    (\<forall>xs p i ys zs. trail = xs @ Asked p i # ys @ Asked p i # zs \<longrightarrow> (\<exists>note \<in> set ys. note_ends (p, i) note))"
proof -
  have "asks_new trail (sn_photo_downloads s) \<and> due_after trail (sn_photo_downloads s) = sn_photo_downloads t"
    if "download_run built ops s = (trail, t)" for trail s t ops
    using that
  proof (induction ops arbitrary: s trail)
    case (Cons op ops)
    then show ?case
      using download_step_ok [of built op s, OF refl]
      by (auto simp: Let_def asks_new_append due_after_append split: prod.splits)
  qed simp
  from this [OF assms(1)] assms(2) show ?thesis using asks_new_apart by fastforce
qed

section \<open>Photos of secret chats\<close>

definition photo_safe :: "message_photo \<Rightarrow> bool" where
  "photo_safe photo \<longleftrightarrow> (mp_is_secret photo \<longrightarrow> list_all (\<lambda>sz. ps_path sz = None) (mp_sizes photo))"

definition photo_row_safe :: "chat_message \<Rightarrow> bool" where
  "photo_row_safe row \<longleftrightarrow> (case cm_photo row of None \<Rightarrow> True | Some photo \<Rightarrow> photo_safe photo)"

definition secrets_in_memory :: "snapshot \<Rightarrow> bool" where
  "secrets_in_memory s \<longleftrightarrow>
     list_all (\<lambda>(key, rows). list_all photo_row_safe rows) (sn_messages s)"

lemma photo_loaded_safe: "photo_safe photo \<Longrightarrow> photo_safe (photo_loaded i f (mp_is_secret photo) photo)"
  by (auto simp: photo_safe_def photo_loaded_def size_loaded_def list_all_iff)

lemma change_all_safe:
  assumes "secrets_in_memory s"
    "\<And>row. photo_row_safe row \<Longrightarrow> photo_row_safe (f row)"
  shows "secrets_in_memory (change_all p f s)"
  using assms by (fastforce simp: secrets_in_memory_def change_all_def list_all_iff)

text \<open>
  A photo of a secret chat stays in memory. When no photo of a secret chat has a path on disk, none has
  one after a downloaded file, with or without a path, came for any message of any account.
\<close>
theorem secret_photo_stays_in_memory:
  assumes "secrets_in_memory s"
  shows "secrets_in_memory (photo_ready p i f s)"
proof -
  have "secrets_in_memory (s\<lparr>sn_photo_downloads := x\<rparr>)" for x
    using assms by (simp add: secrets_in_memory_def)
  then have "secrets_in_memory (change_all p (on_preview (photo_loaded i f False))
      (change_all p (on_photo (\<lambda>photo. photo_loaded i f (mp_is_secret photo) photo))
        (s\<lparr>sn_photo_downloads := x\<rparr>)))" for x
    by (intro change_all_safe) (simp_all add: photo_row_safe_def on_photo_def on_preview_def photo_loaded_safe split: option.splits)
  then show ?thesis by (simp add: photo_ready_def Let_def change_avatars_def secrets_in_memory_def)
qed

section \<open>Witnesses\<close>

definition demo_photo :: "bool \<Rightarrow> message_photo" where
  "demo_photo secret = \<lparr>mp_width = 8, mp_height = 8, mp_mini = None,
     mp_sizes = [\<lparr>ps_width = 8, ps_height = 8, ps_file_id = Some 5, ps_path = None, ps_bytes = None\<rparr>],
     mp_has_spoiler = False, mp_is_secret = secret, mp_failed = False\<rparr>"

definition demo_photo_chat :: "bool \<Rightarrow> snapshot" where
  "demo_photo_chat secret =
     change_message (primary Telegram) ''7'' ''telegram:7:3'' (\<lambda>row. row\<lparr>cm_photo := Some (demo_photo secret)\<rparr>) demo_linked"

definition photo_taps :: "download_op list" where
  "photo_taps =
     (let tap = LoadPhoto (primary Telegram) ''7'' ''telegram:7:3'' 5
      in [tap, tap, FileDidNotCome (primary Telegram) 5, tap, tap])"

theorem file_asked_once_witness:
  "fst (download_run (\<lambda>_. True) photo_taps (demo_photo_chat False)) =
     [Asked (primary Telegram) 5, Ended (primary Telegram) 5, Asked (primary Telegram) 5] \<and>
   sn_photo_downloads (snd (download_run (\<lambda>_. True) photo_taps (demo_photo_chat False))) = {(primary Telegram, 5)}"
proof -
  have trail: "fst (download_run (\<lambda>_. True) photo_taps (demo_photo_chat False)) =
      [Asked (primary Telegram) 5, Ended (primary Telegram) 5, Asked (primary Telegram) 5]"
    by code_simp
  have "sn_photo_downloads (demo_photo_chat False) = {}"
    by (simp add: demo_photo_chat_def demo_linked_def Let_def snapshot_new_def)
  from file_asked_once [OF surjective_pairing this, of "\<lambda>_. True" photo_taps] trail show ?thesis by simp
qed

theorem secret_photo_stays_in_memory_witness:
  "let f = \<lparr>pf_path = Some (ImagePath ''/tmp/a.jpg''), pf_bytes = None\<rparr>
   in secrets_in_memory (photo_ready (primary Telegram) 5 f (demo_photo_chat True)) \<and>
     \<not> secrets_in_memory (change_all (primary Telegram)
       (on_photo (photo_loaded 5 f False)) (demo_photo_chat True))"
proof -
  let ?f = "\<lparr>pf_path = Some (ImagePath ''/tmp/a.jpg''), pf_bytes = None\<rparr>"
  have "secrets_in_memory (demo_photo_chat True)" by code_simp
  moreover have "\<not> secrets_in_memory (change_all (primary Telegram) (on_photo (photo_loaded 5 ?f False)) (demo_photo_chat True))"
    by code_simp
  ultimately show ?thesis using secret_photo_stays_in_memory unfolding Let_def by blast
qed

end
