(* ===== verification/Shell_Apply.thy ===== *)
theory Shell_Apply
  imports Shell_Media
begin

text \<open>
  \<open>Snapshot::apply\<close>, the one entry of the events of the adapters (\<open>state.rs\<close>): the account that an event
  without a protocol field belongs to, the gate for chats of an account that is not linked, the dispatch of
  every event, and the edit that ends when its message is gone.
\<close>

section \<open>Dispatch\<close>

fun retained_signal_inbox :: "adapter_event \<Rightarrow> bool" where
  "retained_signal_inbox (EvConversationUpsert row) \<longleftrightarrow>
     cv_protocol row = primary Signal \<and> signal_retained_slot (cv_id row) \<noteq> None"
| "retained_signal_inbox (EvMessageReceived message) \<longleftrightarrow>
     cm_protocol message = primary Signal \<and> signal_retained_slot (cm_conversation_id message) \<noteq> None"
| "retained_signal_inbox (EvOlderHistoryLoaded protocol conversation_id _ _ _ _ _) \<longleftrightarrow>
     protocol = primary Signal \<and> signal_retained_slot conversation_id \<noteq> None"
| "retained_signal_inbox _ \<longleftrightarrow> False"

text \<open>The gate of \<open>apply_unchecked\<close>.\<close>

definition inbox_refused :: "adapter_event \<Rightarrow> snapshot \<Rightarrow> bool" where
  "inbox_refused ev s \<longleftrightarrow>
     (case inbox_protocol ev of
        Some protocol \<Rightarrow> \<not> has_session protocol s \<and> \<not> retained_signal_inbox ev
      | None \<Rightarrow> False)"

fun event_flow_account :: "adapter_event \<Rightarrow> snapshot \<Rightarrow> protocol_id option" where
  "event_flow_account (EvTelegramAuth _) s = Some (sn_telegram_login_account s)"
| "event_flow_account (EvTelegramAuthRejected _) s = Some (sn_telegram_login_account s)"
| "event_flow_account (EvTelegramDataReset _) s = Some (sn_telegram_login_account s)"
| "event_flow_account EvTelegramSessionEnded s = Some (sn_telegram_login_account s)"
| "event_flow_account (EvTelegramCodeSent _) s = Some (sn_telegram_login_account s)"
| "event_flow_account (EvWhatsAppQr _ _) s = Some (sn_whatsapp_link_account s)"
| "event_flow_account (EvWhatsAppPairCode _ _) s = Some (sn_whatsapp_link_account s)"
| "event_flow_account (EvSignalQr _ _) s = Some (sn_signal_link_account s)"
| "event_flow_account _ s = None"

text \<open>The arms of \<open>apply_unchecked\<close> but \<open>FromAccount\<close>; the arms about messages are in \<open>apply_message_event\<close>.\<close>

fun apply_event :: "(protocol_kind \<Rightarrow> bool) \<Rightarrow> instant \<Rightarrow> adapter_event \<Rightarrow> snapshot \<Rightarrow> snapshot" where
  "apply_event built now (EvStatus protocol status detail) s = status_event built protocol status detail s"
| "apply_event built now (EvConversationUpsert row) s = conversation_upsert built row s"
| "apply_event built now (EvSendAccepted protocol c req) s = note_send_accepted protocol c req now s"
| "apply_event built now (EvSendRejected protocol c req) s = fail_unaccepted_send protocol c req s"
| "apply_event built now (EvStopped protocol) s = s\<lparr>sn_stopped := insert protocol (sn_stopped s)\<rparr>"
| "apply_event built now (EvAccount protocol state) s = set_account_state built protocol state s"
| "apply_event built now (EvHelper protocol state) s = set_helper_state built protocol state s"
| "apply_event built now (EvCommandFailed protocol c detail) s = command_failed protocol c detail s"
| "apply_event built now (EvNotice protocol line) s = s\<lparr>sn_notices := hm_insert protocol line (sn_notices s)\<rparr>"
| "apply_event built now (EvLogin _ _) s = s"
| "apply_event built now (EvFromAccount _ _) s = s"
| "apply_event built now (EvOlderHistoryLoaded protocol c before left detail topic cursor) s =
     older_history_loaded protocol c before left detail topic cursor now s"
| "apply_event built now (EvChatListLoaded protocol) s =
     s\<lparr>sn_chat_list_loading := sn_chat_list_loading s - {protocol}\<rparr>"
| "apply_event built now (EvHistoryLoaded protocol c cursor) s = history_loaded protocol c cursor s"
| "apply_event built now (EvConversationRemoved protocol i) s = remove_conversation built protocol i s"
| "apply_event built now (EvPhotoReady protocol i f) s = photo_ready protocol i f s"
| "apply_event built now (EvPhotoFailed protocol i) s = photo_failed protocol i s"
| "apply_event built now (EvChatAvatar protocol c bytes) s = chat_avatar_event protocol c bytes s"
| "apply_event built now (EvTelegramAuth phase) s = apply_telegram_phase built phase s"
| "apply_event built now (EvTelegramAuthRejected err) s = s\<lparr>sn_auth_rejection := Some err\<rparr>"
| "apply_event built now EvTelegramSessionEnded s = end_telegram_session built s"
| "apply_event built now (EvAccountEnded protocol) s = account_ended_event built protocol s"
| "apply_event built now (EvTelegramDataReset moved_to) s = s\<lparr>sn_data_reset := Some moved_to\<rparr>"
| "apply_event built now (EvTelegramCodeSent via) s = s\<lparr>sn_code_via := Some via\<rparr>"
| "apply_event built now EvFlushSecrets s = s\<lparr>sn_keychain_flush := True\<rparr>"
| "apply_event built now (EvWhatsAppQr code generation) s =
     (if built WhatsApp then whatsapp_qr_event (reveal code) generation s else s)"
| "apply_event built now (EvWhatsAppPairCode code generation) s =
     (if built WhatsApp then whatsapp_pair_code_event (reveal code) generation s else s)"
| "apply_event built now (EvSignalQr code generation) s =
     (if built Signal then signal_qr_event (reveal code) generation s else s)"
| "apply_event built now (EvStoreAccess protocol reason) s = store_access_event built protocol reason s"
| "apply_event built now ev s = (case apply_message_event ev s of Some t \<Rightarrow> t | None \<Rightarrow> s)"

text \<open>\<open>apply_unchecked\<close> and \<open>apply_from_account\<close>, which call each other on nested events.\<close>

fun apply_unchecked :: "(protocol_kind \<Rightarrow> bool) \<Rightarrow> instant \<Rightarrow> adapter_event \<Rightarrow> snapshot \<Rightarrow> snapshot" where
  "apply_unchecked built now (EvFromAccount a ev) s =
     (case event_flow_account ev s of
        Some target \<Rightarrow>
          if target = a then apply_unchecked built now ev s
          else if pid_is a Telegram then apply_background_telegram built a ev s
          else s
      | None \<Rightarrow> apply_unchecked built now ev s)"
| "apply_unchecked built now ev s = (if inbox_refused ev s then s else apply_event built now ev s)"

definition apply_from_account ::
    "(protocol_kind \<Rightarrow> bool) \<Rightarrow> instant \<Rightarrow> protocol_id \<Rightarrow> adapter_event \<Rightarrow> snapshot \<Rightarrow> snapshot" where
  "apply_from_account built now a ev s = apply_unchecked built now (EvFromAccount a ev) s"

definition end_lost_edit :: "snapshot \<Rightarrow> snapshot" where
  "end_lost_edit s = (if sn_editing s \<noteq> None \<and> edit_target_message s = None then cancel_edit s else s)"

fun is_from_account :: "adapter_event \<Rightarrow> bool" where
  "is_from_account (EvFromAccount _ _) = True"
| "is_from_account _ = False"

definition shell_apply :: "(protocol_kind \<Rightarrow> bool) \<Rightarrow> instant \<Rightarrow> adapter_event \<Rightarrow> snapshot \<Rightarrow> snapshot" where
  "shell_apply built now ev s =
     end_lost_edit
       (if is_from_account ev then apply_unchecked built now ev s
        else case event_flow_account ev s of
            Some target \<Rightarrow> apply_from_account built now (first_account target) ev s
          | None \<Rightarrow> apply_unchecked built now ev s)"

section \<open>The message lists under every event\<close>

text \<open>Steps that leave the lists and the read cursors as they are.\<close>

definition same_lists :: "snapshot \<Rightarrow> snapshot \<Rightarrow> bool" where
  "same_lists s s' \<longleftrightarrow> sn_messages s' = sn_messages s \<and> sn_outbox_read s' = sn_outbox_read s"

lemma same_lists_ok: "same_lists s s' \<Longrightarrow> messages_ok s' = messages_ok s"
  by (simp add: same_lists_def messages_ok_def)

lemma same_stores_lists: "same_stores s s' \<Longrightarrow> messages_ok s' = messages_ok s"
  by (simp add: same_stores_def messages_ok_def)

lemma selection_lists [simp]:
  "messages_ok (select_protocol built p s) = messages_ok s"
  "messages_ok (ensure_conversation_selection s) = messages_ok s" "messages_ok (queue_open_chat s) = messages_ok s"
  "messages_ok (sync_focused_row built reason s) = messages_ok s"
proof -
  show "messages_ok (select_protocol built p s) = messages_ok s" by (rule same_stores_lists) (simp add: select_stores)
  show "messages_ok (ensure_conversation_selection s) = messages_ok s" by (rule same_stores_lists) (simp add: ensure_stores)
  show "messages_ok (queue_open_chat s) = messages_ok s" by (rule same_stores_lists) (simp add: queue_stores)
  show "messages_ok (sync_focused_row built reason s) = messages_ok s"
    by (rule same_lists_ok) (simp add: same_lists_def sync_focused_row_def Let_def)
qed

lemma fields_lists [simp]:
  "messages_ok (s\<lparr>sn_compose := x1\<rparr>) = messages_ok s" "messages_ok (s\<lparr>sn_selected_conversation := x2\<rparr>) = messages_ok s"
  "messages_ok (s\<lparr>sn_selected_topic := x3\<rparr>) = messages_ok s" "messages_ok (s\<lparr>sn_conversations := x4\<rparr>) = messages_ok s"
  "messages_ok (s\<lparr>sn_retained_publish := x5\<rparr>) = messages_ok s" "messages_ok (s\<lparr>sn_sessions := x6\<rparr>) = messages_ok s"
  "messages_ok (s\<lparr>sn_status_text := x7\<rparr>) = messages_ok s" "messages_ok (s\<lparr>sn_auth_busy := x8\<rparr>) = messages_ok s"
  "messages_ok (s\<lparr>sn_error := x9\<rparr>) = messages_ok s" "messages_ok (s\<lparr>sn_auth := y1\<rparr>) = messages_ok s"
  "messages_ok (s\<lparr>sn_telegram_authorized := y2\<rparr>) = messages_ok s" "messages_ok (s\<lparr>sn_chat_list_loading := y3\<rparr>) = messages_ok s"
  "messages_ok (s\<lparr>sn_resume := y4\<rparr>) = messages_ok s" "messages_ok (s\<lparr>sn_ended_accounts := y5\<rparr>) = messages_ok s"
  "messages_ok (s\<lparr>sn_signal_removed := y6\<rparr>) = messages_ok s" "messages_ok (s\<lparr>sn_signal_checking := y7\<rparr>) = messages_ok s"
  "messages_ok (s\<lparr>sn_photo_downloads := y8\<rparr>) = messages_ok s" "messages_ok (s\<lparr>sn_sends := y9\<rparr>) = messages_ok s"
  "messages_ok (s\<lparr>sn_helper_errors := z1\<rparr>) = messages_ok s" "messages_ok (s\<lparr>sn_notices := z2\<rparr>) = messages_ok s"
  "messages_ok (s\<lparr>sn_timed_out := z3\<rparr>) = messages_ok s" "messages_ok (s\<lparr>sn_accounts := z4\<rparr>) = messages_ok s"
  "messages_ok (s\<lparr>sn_list_on_link := z5\<rparr>) = messages_ok s" "messages_ok (s\<lparr>sn_store_key_retry_due := z6\<rparr>) = messages_ok s"
  by (simp_all add: messages_ok_def)

lemma parts_lists [simp]:
  "messages_ok (change_live_row p f s) = messages_ok s" "messages_ok (change_first_row p f s) = messages_ok s"
  "messages_ok (push_command c s) = messages_ok s" "messages_ok (set_error a b d s) = messages_ok s"
  "messages_ok (stop_spinners p c' s) = messages_ok s" "messages_ok (clear_login_fields s) = messages_ok s"
  "messages_ok (restore_telegram_login s) = messages_ok s" "messages_ok (clear_linked_signal_status s) = messages_ok s"
  "messages_ok (end_telegram_send p how s) = messages_ok s"
  by (simp_all add: messages_ok_def change_live_row_def change_first_row_def push_command_def set_error_def
      stop_spinners_def clear_login_fields_def restore_telegram_login_def clear_linked_signal_status_def split: option.split)

text \<open>Removal of a chat and the end of a session keep a part of the lists.\<close>

lemma fewer_cursors:
  assumes "\<And>k. hm_get cursors' k = None \<or> hm_get cursors' k = hm_get cursors k" "thread_ok cursors key rows"
  shows "thread_ok cursors' key rows"
proof -
  have "receipt_ok cursors' row" if "receipt_ok cursors row" for row
    using that assms(1) [of "(cm_protocol row, cm_conversation_id row)"] by (auto simp: receipt_ok_def)
  with assms(2) show ?thesis by (auto simp: thread_ok_def)
qed

lemma fewer_lists:
  assumes "messages_ok s" "hm_ok (sn_messages s')"
    "\<And>key. hm_get (sn_messages s') key = None \<or> hm_get (sn_messages s') key = hm_get (sn_messages s) key"
    "\<And>k. hm_get (sn_outbox_read s') k = None \<or> hm_get (sn_outbox_read s') k = hm_get (sn_outbox_read s) k"
  shows "messages_ok s'"
proof (rule messages_okI [OF assms(2)])
  fix key rows
  assume "hm_get (sn_messages s') key = Some rows"
  with assms(3) [of key] have "hm_get (sn_messages s) key = Some rows" by simp
  with assms(1) have "thread_ok (sn_outbox_read s) key rows" by (rule messages_okD)
  then show "thread_ok (sn_outbox_read s') key rows" by (rule fewer_cursors [OF assms(4)])
qed

lemma hm_ok_retain: "hm_ok m \<Longrightarrow> hm_ok (hm_retain P m)"
  by (simp add: hm_ok_def hm_retain_def distinct_map_filter)

lemma drop_chat_lists: "messages_ok s \<Longrightarrow> messages_ok (drop_chat p i s)"
  by (frule messages_ok_hm, erule fewer_lists)
    (simp_all add: drop_chat_def forget_older_chat_def forget_older_def drop_rejected_body_def hm_ok_retain
      retain_keys delete_conv)

lemma remove_lists: "messages_ok s \<Longrightarrow> messages_ok (remove_conversation built p i s)"
  by (simp add: remove_conversation_def Let_def drop_chat_lists)

lemma fold_remove_lists: "messages_ok s \<Longrightarrow> messages_ok (fold (remove_conversation built p) ids s)"
  by (induction ids arbitrary: s) (simp_all add: remove_lists)

lemma drop_lists:
  "messages_ok s \<Longrightarrow> messages_ok (drop_chats_of built p s)" "messages_ok s \<Longrightarrow> messages_ok (drop_texts_of p keep s)"
  "messages_ok s \<Longrightarrow> messages_ok (drop_messages_of p s)" "messages_ok s \<Longrightarrow> messages_ok (drop_loads_of p s)"
  "messages_ok s \<Longrightarrow> messages_ok (drop_sends_of p s)" "messages_ok s \<Longrightarrow> messages_ok (end_pairings_of built p s)"
  "messages_ok s \<Longrightarrow> messages_ok (leave_account built p s)"
proof -
  assume ok: "messages_ok s"
  then show "messages_ok (drop_chats_of built p s)"
    by (simp add: drop_chats_of_def retire_live_signal_chats_def fold_remove_lists)
  from ok show "messages_ok (drop_messages_of p s)"
    by (rule fewer_lists) (use ok in \<open>simp_all add: drop_messages_of_def Let_def hm_ok_retain messages_ok_hm retain_keys\<close>)
  from ok show "messages_ok (leave_account built p s)" by (simp add: leave_account_def Let_def split: option.split)
  from ok show "messages_ok (drop_texts_of p keep s)" "messages_ok (drop_loads_of p s)" "messages_ok (drop_sends_of p s)"
    "messages_ok (end_pairings_of built p s)"
    by (auto elim!: messages_ok_fields simp: drop_texts_of_def drop_loads_of_def)
qed

lemma end_session_lists: "messages_ok s \<Longrightarrow> messages_ok (end_session built p s)"
  by (simp add: end_session_def Let_def drop_lists)

text \<open>Link states, helpers and statuses.\<close>

lemma plain_lists [simp]:
  "messages_ok (s\<lparr>sn_open_on_link := x1\<rparr>) = messages_ok s" "messages_ok (s\<lparr>sn_history_loading := x2\<rparr>) = messages_ok s"
  "messages_ok (s\<lparr>sn_pending := x3\<rparr>) = messages_ok s" "messages_ok (s\<lparr>sn_older_loading := x4\<rparr>) = messages_ok s"
  "messages_ok (s\<lparr>sn_whatsapp_link_account := x5\<rparr>) = messages_ok s"
  "messages_ok (s\<lparr>sn_signal_link_account := x6\<rparr>) = messages_ok s"
  "messages_ok (s\<lparr>sn_signal_screen := x7\<rparr>) = messages_ok s" "messages_ok (s\<lparr>sn_whatsapp_screen := x8\<rparr>) = messages_ok s"
  "messages_ok (s\<lparr>sn_whatsapp_phone := x9\<rparr>) = messages_ok s" "messages_ok (s\<lparr>sn_signal_started := y1\<rparr>) = messages_ok s"
  "messages_ok (s\<lparr>sn_signal_inbox_open := y2\<rparr>) = messages_ok s" "messages_ok (s\<lparr>sn_signal_qr := y3\<rparr>) = messages_ok s"
  "messages_ok (s\<lparr>sn_selected_signal_retained := y4\<rparr>) = messages_ok s"
  "messages_ok (end_signal_pairing s) = messages_ok s" "messages_ok (end_pairing s) = messages_ok s"
  "messages_ok (whatsapp_codes_used_up s) = messages_ok s" "messages_ok (mark_open_chat p s) = messages_ok s"
  by (simp_all add: messages_ok_def end_signal_pairing_def end_pairing_def whatsapp_codes_used_up_def mark_open_chat_def
      split: option.split)

lemma close_screen_lists [simp]: "messages_ok (close_link_screen built p s) = messages_ok s"
  by (simp add: close_link_screen_def finish_whatsapp_link_def finish_signal_link_def Let_def)

lemma set_account_lists: "messages_ok s \<Longrightarrow> messages_ok (set_account_state built p st s)"
  by (simp add: set_account_state_def account_linked_def account_unlinked_def reopen_on_link_def relist_on_link_def
      park_removed_signal_def hold_opens_for_reconnect_def Let_def end_session_lists
      split: account_state.split option.split)

lemma stop_pairing_lists [simp]: "messages_ok (stop_whatsapp_pairing s) = messages_ok s"
  by (rule same_lists_ok) (simp add: same_lists_def stop_whatsapp_pairing_def end_pairing_def)

lemma helper_notes_lists [simp]:
  "messages_ok (note_whatsapp_helper st s) = messages_ok s" "messages_ok (note_signal_helper st s) = messages_ok s"
  "messages_ok (show_helper_fault p fault s) = messages_ok s"
proof -
  show "messages_ok (note_whatsapp_helper st s) = messages_ok s" by (cases st) (simp_all, simp add: messages_ok_def)
  show "messages_ok (note_signal_helper st s) = messages_ok s" by (cases st) simp_all
  show "messages_ok (show_helper_fault p fault s) = messages_ok s"
    by (simp add: show_helper_fault_def Let_def split: prod.split)
qed

lemma set_helper_lists: "messages_ok (set_helper_state built p st s) = messages_ok s"
proof -
  have choice: "messages_ok (if b then note_signal_helper st x else x) = messages_ok x"
    "messages_ok (if b then note_whatsapp_helper st x else x) = messages_ok x"
    "messages_ok (if b then stop_spinners p None x else x) = messages_ok x"
    "messages_ok (if b then x\<lparr>sn_retained_publish := None\<rparr> else x) = messages_ok x" for b x
    by simp_all
  show ?thesis
    by (simp add: set_helper_state_def Let_def choice del: note_whatsapp_helper.simps note_signal_helper.simps
        split del: if_split split: helper_state.split)
qed

lemma store_access_lists: "messages_ok s \<Longrightarrow> messages_ok (store_access_event built p reason s)"
  by (simp add: store_access_event_def Let_def set_account_lists)

lemma retained_lists [simp]:
  "messages_ok (keep_unreadable_retained_slot slot s) = messages_ok s" "messages_ok (note_retained_slot slot s) = messages_ok s"
  by (simp_all add: keep_unreadable_retained_slot_def note_retained_slot_def change_retained_row_def
      ensure_retained_signal_row_def publish_slot_def split: option.split)

lemma settle_lists: "messages_ok s \<Longrightarrow> messages_ok (settle_retained_publish built s)"
proof -
  assume "messages_ok s"
  moreover have "messages_ok (drop_retained_slot built slot s)" if "messages_ok s" for slot s
    using that by (simp add: drop_retained_slot_def Let_def fold_remove_lists)
  then have "messages_ok (fold (drop_retained_slot built) slots s)" if "messages_ok s" for slots s
    using that by (induction slots arbitrary: s) simp_all
  ultimately show ?thesis
    by (simp add: settle_retained_publish_def settle_retained_signal_selection_def drop_retained_slots_except_def split: option.split)
qed

lemma plain_status_lists: "messages_ok (plain_status built p st d s) = messages_ok s"
proof -
  have row: "messages_ok (status_of_row p st d saved s) = messages_ok s" for d saved s
    by (simp add: status_of_row_def)
  have screens: "messages_ok (status_of_screens built p st d s) = messages_ok s" for d s
    by (simp add: status_of_screens_def Let_def)
  have failure: "messages_ok (note_signal_failure d s) = messages_ok s" for d s
    by (simp add: note_signal_failure_def command_failed_def)
  have fault: "messages_ok (status_error built p st d s) = messages_ok s" for d s
    by (simp add: status_error_def Let_def failure)
  have telegram: "messages_ok (status_of_telegram p st d s) = messages_ok s" for d s
    by (simp add: status_of_telegram_def Let_def) (simp add: messages_ok_def)
  show ?thesis by (simp add: plain_status_def Let_def row screens fault telegram)
qed

lemma status_lists: "messages_ok s \<Longrightarrow> messages_ok (status_event built p st detail s)"
  by (simp add: status_event_def settle_lists retire_live_signal_chats_def fold_remove_lists plain_status_lists
      split: option.split)

lemma upsert_lists: "messages_ok s \<Longrightarrow> messages_ok (conversation_upsert built row s)"
  by (simp add: conversation_upsert_def Let_def split: option.split)

text \<open>Answers to sends and pages, downloads, and the login.\<close>

lemma send_parts_lists [simp]:
  "messages_ok (with_sends sends s) = messages_ok s" "messages_ok (drop_rejected_body p c s) = messages_ok s"
  "messages_ok (clear_sent_files p c t files s) = messages_ok s" "messages_ok (clear_sent_text p c t b s) = messages_ok s"
  "messages_ok (hold_telegram_send_line p c r retry now s) = messages_ok s"
  "messages_ok (prune_unbound_telegram_messages s) = messages_ok s"
  "messages_ok (s\<lparr>sn_rejected_bodies := bodies\<rparr>) = messages_ok s" "messages_ok (show_timeouts s) = messages_ok s"
  by (simp_all add: messages_ok_def with_sends_def drop_rejected_body_def clear_sent_files_def set_tray_def
      clear_sent_text_def hold_telegram_send_line_def prune_unbound_telegram_messages_def Let_def split: option.split)

lemma accepted_lists:
  assumes "messages_ok s"
  shows "messages_ok (note_send_accepted p c r now s)"
proof -
  have "messages_ok (take_sent p c late s)" if "messages_ok s" for late s
    using that by (cases late) (simp_all add: Let_def set_delivery_ok)
  moreover have "messages_ok (drop_timed_out p c r s) = messages_ok s" for s by (simp add: drop_timed_out_def Let_def)
  ultimately show ?thesis
    using assms by (simp add: note_send_accepted_def note_late_accept_def split: prod.split option.split pending.split)
qed

lemma rejected_lists:
  assumes "messages_ok s"
  shows "messages_ok (fail_unaccepted_send p c r s)"
proof -
  have "messages_ok (note_rejected p c pending s)" if "messages_ok s" for pending s
    using that by (cases pending) (simp_all add: Let_def set_delivery_ok split: option.split)
  then show ?thesis using assms by (simp add: fail_unaccepted_send_def Let_def split: prod.split option.split)
qed

lemma unreadable_lists: "same_lists s (snd (note_unreadable page s))"
  by (simp add: same_lists_def note_unreadable_def queue_store_page_def open_page_def close_page_def add_runs_def Let_def
      push_command_def split: prod.split option.split)

lemma history_lists: "messages_ok (history_loaded p c cursor s) = messages_ok s"
  using unreadable_lists
  by (intro same_lists_ok) (simp add: same_lists_def history_loaded_def Let_def split: option.split)

lemma older_lists: "messages_ok (older_history_loaded p c b left d topic cursor now s) = messages_ok s"
proof -
  let ?key = "older_key p c topic"
  have close: "same_lists s (close_open_run k s)" for k s
    by (simp add: same_lists_def close_open_run_def add_runs_def Let_def split: option.split)
  have "same_lists s (older_history_loaded p c b left d topic cursor now s)"
    using unreadable_lists close
    by (simp add: older_history_loaded_def same_lists_def Let_def case_prod_beta split: option.split)
  then show ?thesis by (rule same_lists_ok)
qed

lemma photo_lists:
  "messages_ok s \<Longrightarrow> messages_ok (photo_ready p i f s)" "messages_ok s \<Longrightarrow> messages_ok (photo_failed p i s)"
  "messages_ok s \<Longrightarrow> messages_ok (chat_avatar_event p c bytes s)"
proof -
  have keep: "same_place (on_photo g)" "same_delivery (on_photo g)" "same_place (on_preview g)" "same_delivery (on_preview g)" for g
    by (simp_all add: same_place_def same_delivery_def on_photo_def on_preview_def message_thread_def message_order_def)
  have avatars: "messages_ok (change_avatars p g x) = messages_ok x" for g x by (simp add: change_avatars_def)
  show "messages_ok s \<Longrightarrow> messages_ok (photo_ready p i f s)" "messages_ok s \<Longrightarrow> messages_ok (photo_failed p i s)"
    by (simp_all add: photo_ready_def photo_failed_def Let_def avatars change_all_ok keep)
  show "messages_ok s \<Longrightarrow> messages_ok (chat_avatar_event p c bytes s)"
    by (simp add: chat_avatar_event_def change_conversation_def)
qed

lemma login_lists:
  "messages_ok (apply_telegram_phase built phase s) = messages_ok s"
  "messages_ok s \<Longrightarrow> messages_ok (end_telegram_session built s)"
  "messages_ok s \<Longrightarrow> messages_ok (apply_background_telegram built a ev s)"
proof -
  have fields: "messages_ok (s\<lparr>sn_auth_notice := n\<rparr>) = messages_ok s" "messages_ok (s\<lparr>sn_auth_rejection := r\<rparr>) = messages_ok s"
    "messages_ok (s\<lparr>sn_data_reset := d\<rparr>) = messages_ok s" "messages_ok (s\<lparr>sn_telegram_code := c\<rparr>) = messages_ok s"
    "messages_ok (s\<lparr>sn_telegram_2fa := f\<rparr>) = messages_ok s" for n r d c f s
    by (simp_all add: messages_ok_def)
  have ready: "messages_ok (finish_telegram_ready built s) = messages_ok s" for s
    by (simp add: finish_telegram_ready_def Let_def)
  have rest: "messages_ok (finish_telegram_unavailable s) = messages_ok s" "messages_ok (login_failed s) = messages_ok s"
    "messages_ok (need_phone b s) = messages_ok s" for b s
    by (simp_all add: finish_telegram_unavailable_def login_failed_def need_phone_def Let_def fields
        split: option.split telegram_auth_error.split)
  show "messages_ok (apply_telegram_phase built phase s) = messages_ok s"
    by (cases phase) (simp_all add: apply_telegram_phase_def Let_def ready rest fields)
  assume ok: "messages_ok s"
  then show "messages_ok (end_telegram_session built s)"
    by (simp add: end_telegram_session_def queue_telegram_step_def Let_def end_session_lists)
  have out: "messages_ok (background_signed_out built a waits s)" for waits
    using ok by (simp add: background_signed_out_def Let_def end_session_lists)
  have "messages_ok (background_ready a s)"
    using ok by (simp add: background_ready_def Let_def)
  with out ok show "messages_ok (apply_background_telegram built a ev s)"
    by (cases ev) (simp_all split: telegram_auth_phase.split)
qed

lemma login_event_lists [simp]:
  "messages_ok (s\<lparr>sn_auth_rejection := x1\<rparr>) = messages_ok s" "messages_ok (s\<lparr>sn_data_reset := x2\<rparr>) = messages_ok s"
  "messages_ok (s\<lparr>sn_code_via := x3\<rparr>) = messages_ok s" "messages_ok (s\<lparr>sn_keychain_flush := x4\<rparr>) = messages_ok s"
  "messages_ok (s\<lparr>sn_stopped := x5\<rparr>) = messages_ok s" "messages_ok (account_ended_event built p s) = messages_ok s"
  "messages_ok (whatsapp_qr_event code g s) = messages_ok s" "messages_ok (whatsapp_pair_code_event code g s) = messages_ok s"
  "messages_ok (signal_qr_event code g s) = messages_ok s" "messages_ok (command_failed p c d s) = messages_ok s"
  by (simp_all add: account_ended_event_def command_failed_def Let_def)
    (simp_all add: messages_ok_def whatsapp_qr_event_def whatsapp_pair_code_event_def signal_qr_event_def)

lemma apply_event_message: "apply_message_event ev s = Some t \<Longrightarrow> apply_event built now ev s = t"
  by (cases ev) simp_all

lemma apply_event_lists:
  assumes "messages_ok s"
  shows "messages_ok (apply_event built now ev s)"
proof (cases "apply_message_event ev s")
  case None
  with assms show ?thesis
    by (cases ev) (simp_all add: status_lists upsert_lists accepted_lists rejected_lists set_account_lists set_helper_lists
      store_access_lists older_lists history_lists remove_lists photo_lists login_lists)
next
  case (Some t)
  then show ?thesis using message_lists_stay_ok [OF assms] apply_event_message by metis
qed

lemma apply_unchecked_lists: "messages_ok s \<Longrightarrow> messages_ok (apply_unchecked built now ev s)"
proof (induction ev)
  case (EvFromAccount a ev)
  then show ?case by (simp add: login_lists split: option.split)
qed (simp_all add: apply_event_lists del: apply_event.simps)

lemma shell_apply_lists: "messages_ok s \<Longrightarrow> messages_ok (shell_apply built now ev s)"
proof -
  assume ok: "messages_ok s"
  have "messages_ok (end_lost_edit s) = messages_ok s" for s
    by (simp add: end_lost_edit_def cancel_edit_def messages_ok_def split: option.split)
  with ok show ?thesis
    by (simp add: shell_apply_def apply_from_account_def apply_unchecked_lists del: apply_unchecked.simps split: option.split)
qed

text \<open>A run of events, each with the time of its arrival, from the start of the app.\<close>

definition shell_run :: "(protocol_kind \<Rightarrow> bool) \<Rightarrow> (instant \<times> adapter_event) list \<Rightarrow> snapshot \<Rightarrow> snapshot" where
  "shell_run built evs s = fold (\<lambda>(now, ev). shell_apply built now ev) evs s"

text \<open>
  C15: Every event keeps the message lists. Whatever events the adapters send from the start of the app, in
  whatever order, of linked accounts or not, tagged with an account or not, each thread keeps its messages
  sorted by time and number with each id once, every message is in the list of its own thread, and no outgoing
  message at or below the read cursor of its chat shows as only sent.
\<close>
theorem every_event_keeps_lists: "messages_ok (shell_run built evs (snapshot_new source catalog))"
proof -
  have "messages_ok (fold (\<lambda>(now, ev). shell_apply built now ev) evs s)" if "messages_ok s" for s
    using that by (induction evs arbitrary: s) (auto intro: shell_apply_lists)
  moreover have "messages_ok (snapshot_new source catalog)" by (simp add: messages_ok_def snapshot_new_def hm_ok_def)
  ultimately show ?thesis by (simp add: shell_run_def)
qed

section \<open>Events that must not be taken\<close>

text \<open>
  C16: A client that is not linked changes no chat. An inbox event (a chat, a message, a receipt, a download, a
  page) of an account with no session, for example one that was on its way when the login was cancelled,
  leaves the whole state as it is, with or without the tag of its account. History of a previous Signal number
  is the one exception, and an edit whose message is gone ends as after every event.
\<close>
theorem unlinked_inbox_ignored:
  assumes "inbox_protocol ev = Some p" "\<not> has_session p s" "\<not> retained_signal_inbox ev"
  shows "shell_apply built now ev s = end_lost_edit s \<and> shell_apply built now (EvFromAccount a ev) s = end_lost_edit s"
proof -
  from assms(1) have plain: "event_flow_account ev s = None" "\<not> is_from_account ev" by (cases ev; simp)+
  from assms have "inbox_refused ev s" by (simp add: inbox_refused_def)
  with assms(1) have "apply_unchecked built now ev s = s" by (cases ev) simp_all
  with plain show ?thesis by (simp add: shell_apply_def)
qed

text \<open>
  C17: A login event of another account leaves the login form alone. When the adapter of an account reports a
  login phase, the end of its session, a rejection or a pairing code, and the login on the screen is for
  another account, the screen that is open, the signed-in flag, the account of the screen and the five typed
  fields stay, and no login step is queued; and an account that is not of Telegram changes nothing at all.
\<close>
theorem foreign_login_event_harmless:
  assumes "event_flow_account ev s = Some target" "a \<noteq> target"
    "s' = shell_apply built now (EvFromAccount a ev) s"
  shows "login_view s' = login_view s \<and> login_steps s' = login_steps s \<and>
    (pid_kind a \<noteq> Telegram \<longrightarrow> s' = end_lost_edit s)"
proof -
  have edit: "same_login s (end_lost_edit s)" for s
    by (simp add: end_lost_edit_def cancel_edit_def same_login_def login_view_def login_steps_def split: option.split)
  have s': "s' = end_lost_edit (if pid_is a Telegram then apply_background_telegram built a ev s else s)"
    using assms by (simp add: shell_apply_def)
  then have "same_login s s'"
    using same_login_trans [OF same_login_background edit] edit by simp
  with s' show ?thesis by (simp add: same_login_def pid_is_def)
qed

text \<open>What every event leaves: an edit has its message in the open thread.\<close>

lemma edit_keeps_its_message:
  "sn_editing (shell_apply built now ev s) \<noteq> None \<Longrightarrow> edit_target_message (shell_apply built now ev s) \<noteq> None"
  by (auto simp: shell_apply_def end_lost_edit_def cancel_edit_def split: if_splits option.splits)

text \<open>An event with no protocol field is the event of the first account of its kind.\<close>

lemma untagged_event:
  "event_flow_account ev s = Some target \<Longrightarrow>
   shell_apply built now ev s = shell_apply built now (EvFromAccount (first_account target) ev) s"
  by (cases ev) (simp_all add: shell_apply_def apply_from_account_def)

section \<open>Witnesses\<close>

theorem unlinked_inbox_ignored_witness:
  "sn_messages (shell_apply (\<lambda>_. True) 5 (EvMessageReceived
      ((demo_message ''telegram:7:3'' 20 True Sent)\<lparr>cm_protocol := primary WhatsApp\<rparr>)) demo_linked) = sn_messages demo_linked"
proof -
  let ?m = "(demo_message ''telegram:7:3'' 20 True Sent)\<lparr>cm_protocol := primary WhatsApp\<rparr>"
  have "\<not> has_session (primary WhatsApp) demo_linked" by code_simp
  moreover have "\<not> retained_signal_inbox (EvMessageReceived ?m)" by code_simp
  ultimately have "shell_apply (\<lambda>_. True) 5 (EvMessageReceived ?m) demo_linked = end_lost_edit demo_linked"
    using unlinked_inbox_ignored [of "EvMessageReceived ?m" "primary WhatsApp" demo_linked] by simp
  then show ?thesis by (simp add: end_lost_edit_def cancel_edit_def split: option.split)
qed

theorem foreign_login_event_harmless_witness:
  "let s' = shell_apply (\<lambda>_. True) 5 (EvFromAccount (ProtocolId Telegram 1) (EvTelegramAuth PhaseReady)) demo_linked
   in login_view s' = login_view demo_linked \<and> ProtocolId Telegram 1 \<in> sn_sessions s'"
proof -
  let ?ev = "EvTelegramAuth PhaseReady"
  have "event_flow_account ?ev demo_linked = Some (primary Telegram)" by code_simp
  moreover have "ProtocolId Telegram 1 \<noteq> primary Telegram" by code_simp
  moreover have "ProtocolId Telegram 1 \<in> sn_sessions (shell_apply (\<lambda>_. True) 5 (EvFromAccount (ProtocolId Telegram 1) ?ev) demo_linked)"
    by code_simp
  ultimately show ?thesis
    using foreign_login_event_harmless [OF _ _ refl] unfolding Let_def by blast
qed

end
