(* ===== verification/Spec2Isabelle.thy ===== *)
theory Spec2Isabelle
  imports Commands Wire Frame Convert Media Sends Retained Supervisor_Props Adapters Host Serve Notify Settings Shell_Sends
    Shell_Apply
begin

text \<open>
  A verification library for thinwire, a desktop messenger in Rust.

  \<^bold>\<open>The program.\<close> The shell keeps accounts, chats and sends. It talks to one protocol adapter per
  account: commands go in, events come out. Telegram, Discord and Slack run in the app; WhatsApp and
  Signal run in a helper process, because of their licenses. The app side of a helper is a
  supervisor that starts, watches and restarts the process and speaks JSON lines over its pipe; the
  helper side is a loop around the real adapter.

  \<^bold>\<open>Theories and code\<close> (all under \<open>src/crates\<close>):
  \<^item> \<open>TW_Prelude\<close>: types, decimal and UTF-8 texts, saturating 32-bit arithmetic, hash maps as
    association lists (locale \<open>hash_map\<close>).
  \<^item> \<open>Media\<close>: \<open>thinwire-protocol/src/media.rs\<close>, the media of a message and its links.
  \<^item> \<open>Adapter\<close>, \<open>Commands\<close>: \<open>thinwire-protocol/src/adapter.rs\<close>, accounts, reactions, commands and
    events; the routing contract is the locale \<open>account_tagged\<close>, with one interpretation for the
    commands and one for the events.
  \<^item> \<open>Wire\<close>, \<open>Frame\<close>: \<open>thinwire-ipc/src/wire.rs\<close>, \<open>frame.rs\<close>, \<open>secret.rs\<close>.
  \<^item> \<open>Convert\<close>: \<open>thinwire-protocol/src/helper/convert.rs\<close>; the contract of a codec is the locale
    \<open>wire_codec\<close> and, for a codec that normalises what comes in, \<open>wire_codec_total\<close>.
  \<^item> \<open>Supervisor\<close>: \<open>thinwire-protocol/src/helper/supervisor.rs\<close>, state and handlers.
    \<open>Supervisor_Facts\<close> turns each handler into record updates and case rules and proves the
    invariant \<open>sv_inv\<close>; \<open>Supervisor_Run\<close> follows events, sends, phone numbers and process starts
    through a step (\<open>evolves\<close>); \<open>Supervisor_Props\<close> has runs, the world of processes around the
    supervisor, and the properties.
  \<^item> \<open>Adapters\<close>: the trait \<open>ProtocolAdapter\<close> as the record \<open>adapter_ops\<close> and the contracts
    \<open>protocol_adapter\<close> and \<open>idle_adapter\<close> as locales, with the stubs of \<open>whatsapp.rs\<close> and
    \<open>signal.rs\<close> and the helper adapter as interpretations; \<open>Retained\<close>: the retained chat ids.
  \<^item> \<open>Host\<close>: \<open>thinwire-protocol/src/host.rs\<close>; \<open>Serve\<close>: \<open>thinwire-protocol/src/helper/serve.rs\<close>.
  \<^item> \<open>Sends\<close>: \<open>thinwire-core/src/sends.rs\<close>; \<open>Notify\<close>: \<open>notify.rs\<close>, with the screen of the frontend.
  \<^item> \<open>Texts\<close>: lines and trimming; \<open>Persist\<close>: the background writes of \<open>settings.rs\<close> and the locale
    \<open>write_queue\<close> of a state with its file, interpreted for the muted chats in \<open>Mutes\<close> (\<open>mutes.rs\<close>)
    and for the settings in \<open>Settings\<close> (\<open>settings.rs\<close>, \<open>theme.rs\<close>).
  \<^item> \<open>Secrets\<close>: \<open>secrets.rs\<close>, the secrets in memory, with the threads that read and write the keychain
    as steps that interleave in any order.
  \<^item> \<open>Shell\<close>: the snapshot of \<open>thinwire-core/src/state.rs\<close>, the state of the user interface, and its
    plain queries. \<open>Shell_Messages\<close>: the message lists, receipts and Telegram holds under the events
    of the adapters. \<open>Shell_Compose\<close>: compose text, drafts, attachments, replies, edits, and the
    selection; the locale \<open>draft_store\<close> says what a store of texts per thread promises.
    \<open>Shell_Sends\<close>: a send from Enter to its acceptance, rejection or expiry, over the tracker of
    \<open>Sends\<close>. \<open>Shell_Older\<close>: pages of older messages and rows that cannot be read.
    \<open>Shell_Inbox\<close>: rows, focus, unread counts, the status line, and the view the adapters are told.
    \<open>Shell_Pairing\<close>: the gates and link screens of WhatsApp and Signal; \<open>Shell_Accounts\<close>: account
    rows, the chats under them and the previous Signal numbers; \<open>Shell_Session\<close>: link, reconnect and
    end of a session, the helper, the store key and the status events; \<open>Shell_Login\<close>: the login form of
    Telegram, its answers, the wait for the keychain and the resume of saved sessions;
    \<open>Shell_Media\<close>: the downloads of photos, avatars, voice notes, videos and documents;
    \<open>Shell_Apply\<close>: the one entry of all events, its gate and its dispatch.

  \<^bold>\<open>What the lemmas show.\<close> Supervisor: at most one process, one answer for every send, a phone number
  crosses once, a close ends once and in time, the timer always makes progress. Pipe: what is
  written is read back whatever the chunks, commands and events cross unchanged, a helper's events
  are its own. Serve: requests are acknowledged in order, reach the adapter as given, and the
  supervisor takes every line. Host: a command touches one account, a stale login failure is
  dropped, a shutdown is always answered. Sends: a request is answered at most once and only moves
  forward. Notifications: the screen shows what is pending, previews turned off stay off, a close leaves
  nothing. Settings and mutes: the newest write wins and the file is read back as it was. Shell: a thread
  is a sorted map from ids to messages; each thread has its own text whatever the user opens; Send
  queues one command, and its text goes only when the adapter accepts it; older pages are asked once
  and end; the adapters know the open chat; a pairing starts only after its gate and shows only its own
  code; an inbox is a sorted map from ids to chats; the rows of previous Signal numbers are what was
  published; the end of a session leaves nothing of its account and takes nothing of another; a reconnect
  asks again for what it interrupted; a login waits for the keychain and leaves nothing typed behind; a file is asked for once; whatever
  events come, the lists stay sorted maps, an account that is not linked changes no chat, and a login
  event of another account changes no login.

  \<^bold>\<open>Choices.\<close> A handler reads the clock once. Channels are lists, so an event that a component sends is
  appended; sends to a closed channel, which the code ignores, do not occur. Counters of type
  \<open>u64\<close> and instants (in milliseconds) are natural numbers: they count from zero by one and do not
  wrap in practice; 32-bit counts are words or saturate as in the code. Strings are UTF-8 bytes.
  Hash maps are association lists and nothing depends on their order. Functions of the shell take the
  clock (\<open>now\<close>), the cargo features of the build (\<open>built\<close>, and \<open>tdlib\<close>) and the muted chats as
  arguments. The record of the snapshot has every field of
  the code but a test hook. What is not in the
  repository is a parameter: serde's JSON text, the chunks and errors of a pipe, whether a process
  starts, and the adapters behind the trait. The model needs no fuel: every loop is a fold over its
  input or a structural recursion, and the event loops are step functions, so that every order of
  their inputs is covered.

  \<^bold>\<open>Not modelled.\<close> Of the shell: small accessors (\<open>state.rs\<close>), and the pump of
  \<open>core.rs\<close>; the show and instance files. Also not
  modelled: the adapters over TDLib, twilight, slack-morphism, whatsapp-rust
  and presage; process launch, keychains, ciphers and drawing, which are calls of libraries and of the
  operating system.
\<close>

end
